(* ===== verification/Prelude.thy ===== *)
theory Prelude
  imports
    Complex_Main
    "HOL-Library.Word"
    "HOL-Library.State_Monad"
    "HOL-Library.Multiset"
    "HOL-Library.Sublist"
    "HOL-Library.List_Lexorder"
    "HOL-Library.Product_Lexorder"
    "HOL-Library.Char_ord"
begin

text \<open>
  Shared vocabulary of the development: the widths of the machine integers the code uses, the
  state monad in which the code's effects are written, the recording of the calls a program makes,
  and the lemmas on them that the component theories use.

  The collections follow the shape of a program: \<open>quiet_intros\<close> and \<open>effect_intros\<close> derive which calls it
  cannot or does make, \<open>transparent_intros\<close> that recording does not change it, \<open>yield_intros\<close> what it can
  return, and \<open>advance_intros\<close> that it does not turn back a clock; \<open>io_simps\<close> evaluates it on a state.
\<close>

named_theorems io_simps \<open>evaluation of monadic programs\<close>
named_theorems quiet_intros \<open>syntax-directed rules for the calls a program cannot make\<close>
named_theorems effect_intros \<open>syntax-directed rules for the calls of a kind a program makes\<close>
named_theorems transparent_intros \<open>recording the calls of a program does not change it\<close>
named_theorems yield_intros \<open>syntax-directed rules for the results of a program\<close>
named_theorems advance_intros \<open>syntax-directed rules for programs that never turn a clock back\<close>

section \<open>Machine integers and the effect monad\<close>

type_synonym u8 = "8 word"
type_synonym u16 = "16 word"
type_synonym u32 = "32 word"
type_synonym u64 = "64 word"

text \<open>\<open>pid_t\<close> is a signed 32-bit integer; no arithmetic is done on process ids, so a value of
  it is an integer and the range is checked where the code checks it.\<close>

type_synonym pid = int

definition pid_max :: int where
  "pid_max = 2147483647"

type_synonym ('w, 'a) io = "('w, 'a) state"

abbreviation return :: "'a \<Rightarrow> ('w, 'a) io" where
  "return \<equiv> State_Monad.return"

abbreviation result_of :: "('w, 'a) io \<Rightarrow> 'w \<Rightarrow> 'a" where
  "result_of m s \<equiv> fst (run_state m s)"

abbreviation world_after :: "('w, 'a) io \<Rightarrow> 'w \<Rightarrow> 'w" where
  "world_after m s \<equiv> snd (run_state m s)"

lemma result_of_bind [simp, io_simps]:
  "result_of (State_Monad.bind m f) s = result_of (f (result_of m s)) (world_after m s)"
  by (simp add: case_prod_beta)

lemma world_after_bind [simp, io_simps]:
  "world_after (State_Monad.bind m f) s = world_after (f (result_of m s)) (world_after m s)"
  by (simp add: case_prod_beta)

text \<open>A run is read off through its result and its final world, never as a pair.\<close>

declare run_state_bind [simp del]

section \<open>Recording the calls a program makes\<close>

text \<open>
  A provider operation over worlds \<open>'w\<close> becomes one over worlds paired with a log by
  \<open>traced\<close>: it behaves the same and appends the call. Since every service is a function of
  its providers, running a service on recorded providers yields the calls the service makes,
  with no change to the service's definition.
\<close>

definition traced :: "'e \<Rightarrow> ('w, 'a) io \<Rightarrow> ('w \<times> 'e list, 'a) io" where
  "traced e m = State (\<lambda>s. (result_of m (fst s), (world_after m (fst s), snd s @ [e])))"

lemma run_traced [simp]:
  "run_state (traced e m) s = (result_of m (fst s), (world_after m (fst s), snd s @ [e]))"
  by (simp add: traced_def)

text \<open>An operation that is not recorded.\<close>

definition silently :: "('w, 'a) io \<Rightarrow> ('w \<times> 'e list, 'a) io" where
  "silently m = State (\<lambda>s. (result_of m (fst s), (world_after m (fst s), snd s)))"

lemma run_silently [simp]:
  "run_state (silently m) s = (result_of m (fst s), (world_after m (fst s), snd s))"
  by (simp add: silently_def)

text \<open>\<open>emits m E\<close>: every run of \<open>m\<close> extends the log by some calls that stand in the relation
  \<open>E\<close> to its result.\<close>

definition emits :: "('w \<times> 'e list, 'a) io \<Rightarrow> ('a \<Rightarrow> 'e list \<Rightarrow> bool) \<Rightarrow> bool" where
  "emits m E \<longleftrightarrow> (\<forall>s. \<exists>es. snd (world_after m s) = snd s @ es \<and> E (result_of m s) es)"

lemma emitsD:
  assumes "emits m E"
  obtains es where "snd (world_after m s) = snd s @ es" "E (result_of m s) es"
  using assms unfolding emits_def by blast

lemma emits_return: "E x [] \<Longrightarrow> emits (return x) E"
  by (simp add: emits_def)

lemma emits_traced: "(\<And>x. E x [e]) \<Longrightarrow> emits (traced e m) E"
  by (simp add: emits_def)

lemma emits_bind:
  assumes m: "emits m E" and f: "\<And>x. emits (f x) (F x)"
    and comp: "\<And>x es y fs. E x es \<Longrightarrow> F x y fs \<Longrightarrow> G y (es @ fs)"
  shows "emits (State_Monad.bind m f) G"
  unfolding emits_def
proof
  fix s
  obtain es where es: "snd (world_after m s) = snd s @ es" "E (result_of m s) es"
    using m by (rule emitsD)
  obtain fs where "snd (world_after (f (result_of m s)) (world_after m s)) = (snd s @ es) @ fs"
      "F (result_of m s) (result_of (f (result_of m s)) (world_after m s)) fs"
    using f by (rule emitsD [where s = "world_after m s"]) (use es in simp)
  with es comp show "\<exists>gs. snd (world_after (State_Monad.bind m f) s) = snd s @ gs
      \<and> G (result_of (State_Monad.bind m f) s) gs"
    by (metis append.assoc result_of_bind world_after_bind)
qed

lemma emits_mono: "emits m E \<Longrightarrow> (\<And>x es. E x es \<Longrightarrow> F x es) \<Longrightarrow> emits m F"
  unfolding emits_def by blast

text \<open>\<open>quiet D m\<close>: \<open>m\<close> makes no call that satisfies \<open>D\<close>.\<close>

definition quiet :: "('e \<Rightarrow> bool) \<Rightarrow> ('w \<times> 'e list, 'a) io \<Rightarrow> bool" where
  "quiet D m \<longleftrightarrow> emits m (\<lambda>_ es. filter D es = [])"

lemma quiet_return [quiet_intros]: "quiet D (return x)"
  by (simp add: quiet_def emits_return)

lemma quiet_traced [quiet_intros]: "\<not> D e \<Longrightarrow> quiet D (traced e m)"
  by (simp add: quiet_def emits_traced)

lemma quiet_silently [quiet_intros]: "quiet D (silently m)"
  by (simp add: quiet_def emits_def)

lemma quiet_bind [quiet_intros]:
  "quiet D m \<Longrightarrow> (\<And>x. quiet D (f x)) \<Longrightarrow> quiet D (State_Monad.bind m f)"
  unfolding quiet_def
  by (rule emits_bind [where E = "\<lambda>_ es. filter D es = []" and F = "\<lambda>_ _ es. filter D es = []"]) auto

lemma quiet_if [quiet_intros]:
  "(b \<Longrightarrow> quiet D m) \<Longrightarrow> (\<not> b \<Longrightarrow> quiet D n) \<Longrightarrow> quiet D (if b then m else n)"
  by simp

lemma quiet_case_sum [quiet_intros]:
  "(\<And>x. r = Inl x \<Longrightarrow> quiet D (f x)) \<Longrightarrow> (\<And>y. r = Inr y \<Longrightarrow> quiet D (g y)) \<Longrightarrow>
   quiet D (case r of Inl x \<Rightarrow> f x | Inr y \<Rightarrow> g y)"
  by (cases r) simp_all

lemma quiet_case_option [quiet_intros]:
  "quiet D m \<Longrightarrow> (\<And>x. r = Some x \<Longrightarrow> quiet D (f x)) \<Longrightarrow>
   quiet D (case r of None \<Rightarrow> m | Some x \<Rightarrow> f x)"
  by (cases r) simp_all

lemma quiet_case_prod [quiet_intros]:
  "(\<And>x y. r = (x, y) \<Longrightarrow> quiet D (f x y)) \<Longrightarrow> quiet D (case r of (x, y) \<Rightarrow> f x y)"
  by (cases r) simp

lemma quiet_case_list [quiet_intros]:
  "quiet D m \<Longrightarrow> (\<And>x xs. r = x # xs \<Longrightarrow> quiet D (f x xs)) \<Longrightarrow>
   quiet D (case r of [] \<Rightarrow> m | x # xs \<Rightarrow> f x xs)"
  by (cases r) simp_all

lemma quiet_Let [quiet_intros]: "quiet D (f x) \<Longrightarrow> quiet D (Let x f)"
  by (simp add: Let_def)

text \<open>Fewer calls are easier to avoid; and a continuation only has to be quiet on results the first
  program can have.\<close>

lemma quiet_mono: "quiet D m \<Longrightarrow> (\<And>e. D' e \<Longrightarrow> D e) \<Longrightarrow> quiet D' m"
  unfolding quiet_def by (erule emits_mono) (auto simp: filter_empty_conv)

lemma quiet_bind_result:
  assumes "quiet D m" and "\<And>s. quiet D (f (result_of m s))"
  shows "quiet D (State_Monad.bind m f)"
  unfolding quiet_def emits_def
proof
  fix s
  obtain es where es: "snd (world_after m s) = snd s @ es" "filter D es = []"
    using assms(1) unfolding quiet_def by (rule emitsD)
  obtain fs where "snd (world_after (f (result_of m s)) (world_after m s)) =
      snd (world_after m s) @ fs" "filter D fs = []"
    using assms(2) [of s] unfolding quiet_def by (rule emitsD)
  with es show "\<exists>gs. snd (world_after (State_Monad.bind m f) s) = snd s @ gs \<and> filter D gs = []"
    by (intro exI [of _ "es @ fs"]) simp
qed

lemma quiet_world_after:
  assumes "quiet D m"
  shows "filter D (snd (world_after m s)) = filter D (snd s)"
proof -
  obtain es where "snd (world_after m s) = snd s @ es" "filter D es = []"
    using assms unfolding quiet_def by (rule emitsD)
  then show ?thesis by simp
qed

text \<open>\<open>effects D m E\<close>: the calls of kind \<open>D\<close> that \<open>m\<close> makes, in order, satisfy \<open>E\<close>.\<close>

definition effects ::
  "('e \<Rightarrow> bool) \<Rightarrow> ('w \<times> 'e list, 'a) io \<Rightarrow> ('e list \<Rightarrow> bool) \<Rightarrow> bool" where
  "effects D m E \<longleftrightarrow> emits m (\<lambda>_ es. E (filter D es))"

lemma effects_quiet: "quiet D m \<Longrightarrow> E [] \<Longrightarrow> effects D m E"
  unfolding quiet_def effects_def by (erule emits_mono) simp

lemma effects_return [effect_intros]: "E [] \<Longrightarrow> effects D (return x) E"
  by (simp add: effects_def emits_return)

lemma effects_traced [effect_intros]: "E (if D e then [e] else []) \<Longrightarrow> effects D (traced e m) E"
  unfolding effects_def by (rule emits_traced) (simp split: if_splits)

lemma effects_after_quiet:
  "quiet D m \<Longrightarrow> (\<And>x. effects D (f x) E) \<Longrightarrow> effects D (State_Monad.bind m f) E"
  unfolding quiet_def effects_def by (erule emits_bind) auto

lemma effects_before_quiet:
  "effects D m E \<Longrightarrow> (\<And>x. quiet D (f x)) \<Longrightarrow> effects D (State_Monad.bind m f) E"
  unfolding quiet_def effects_def
  by (rule emits_bind [where E = "\<lambda>_ es. E (filter D es)" and F = "\<lambda>_ _ es. filter D es = []"]) auto

lemma effects_if [effect_intros]:
  "(b \<Longrightarrow> effects D m E) \<Longrightarrow> (\<not> b \<Longrightarrow> effects D n E) \<Longrightarrow> effects D (if b then m else n) E"
  by simp

lemma effects_case_sum [effect_intros]:
  "(\<And>x. r = Inl x \<Longrightarrow> effects D (f x) E) \<Longrightarrow> (\<And>y. r = Inr y \<Longrightarrow> effects D (g y) E) \<Longrightarrow>
   effects D (case r of Inl x \<Rightarrow> f x | Inr y \<Rightarrow> g y) E"
  by (cases r) simp_all

lemma effects_world_after:
  assumes "effects D m E"
  obtains es where "filter D (snd (world_after m s)) = filter D (snd s) @ es" "E es"
proof -
  obtain es where "snd (world_after m s) = snd s @ es" "E (filter D es)"
    using assms unfolding effects_def by (rule emitsD)
  then show thesis by (intro that [of "filter D es"]) simp_all
qed

section \<open>Recording is transparent\<close>

text \<open>\<open>transparent m' m\<close>: the recorded program \<open>m'\<close> computes what \<open>m\<close> computes, in every world and
  whatever was logged before.\<close>

definition transparent :: "('w \<times> 'e list, 'a) io \<Rightarrow> ('w, 'a) io \<Rightarrow> bool" where
  "transparent m' m \<longleftrightarrow>
     (\<forall>s. result_of m' s = result_of m (fst s) \<and> fst (world_after m' s) = world_after m (fst s))"

lemma transparentD:
  assumes "transparent m' m"
  shows "result_of m' s = result_of m (fst s)" "fst (world_after m' s) = world_after m (fst s)"
  using assms unfolding transparent_def by blast+

lemma transparent_return [transparent_intros]: "transparent (return x) (return x)"
  by (simp add: transparent_def)

lemma transparent_traced [transparent_intros]: "transparent (traced e m) m"
  by (simp add: transparent_def)

lemma transparent_silently [transparent_intros]: "transparent (silently m) m"
  by (simp add: transparent_def)

lemma transparent_bind [transparent_intros]:
  "transparent m' m \<Longrightarrow> (\<And>x. transparent (f' x) (f x)) \<Longrightarrow>
   transparent (State_Monad.bind m' f') (State_Monad.bind m f)"
  by (simp add: transparent_def del: split_paired_All)

lemma transparent_if [transparent_intros]:
  "(b \<Longrightarrow> transparent m' m) \<Longrightarrow> (\<not> b \<Longrightarrow> transparent n' n) \<Longrightarrow>
   transparent (if b then m' else n') (if b then m else n)"
  by simp

lemma transparent_case_sum [transparent_intros]:
  "(\<And>x. r = Inl x \<Longrightarrow> transparent (f' x) (f x)) \<Longrightarrow> (\<And>y. r = Inr y \<Longrightarrow> transparent (g' y) (g y)) \<Longrightarrow>
   transparent (case r of Inl x \<Rightarrow> f' x | Inr y \<Rightarrow> g' y) (case r of Inl x \<Rightarrow> f x | Inr y \<Rightarrow> g y)"
  by (cases r) simp_all

lemma transparent_case_prod [transparent_intros]:
  "(\<And>x y. r = (x, y) \<Longrightarrow> transparent (f' x y) (f x y)) \<Longrightarrow>
   transparent (case r of (x, y) \<Rightarrow> f' x y) (case r of (x, y) \<Rightarrow> f x y)"
  by (cases r) simp

lemma transparent_Let [transparent_intros]:
  "transparent (f' x) (f x) \<Longrightarrow> transparent (Let x f') (Let x f)"
  by (simp add: Let_def)

section \<open>What a program can return\<close>

definition yields :: "('a \<Rightarrow> bool) \<Rightarrow> ('w, 'a) io \<Rightarrow> bool" where
  "yields P m \<longleftrightarrow> (\<forall>s. P (result_of m s))"

lemma yields_return [yield_intros]: "P x \<Longrightarrow> yields P (return x)"
  by (simp add: yields_def)

lemma yields_bind [yield_intros]: "(\<And>x. yields P (f x)) \<Longrightarrow> yields P (State_Monad.bind m f)"
  by (simp add: yields_def)

lemma yields_bind_result: "(\<And>s. yields P (f (result_of m s))) \<Longrightarrow> yields P (State_Monad.bind m f)"
  by (simp add: yields_def)

lemma yields_if [yield_intros]:
  "(b \<Longrightarrow> yields P m) \<Longrightarrow> (\<not> b \<Longrightarrow> yields P n) \<Longrightarrow> yields P (if b then m else n)"
  by simp

lemma yields_case_sum [yield_intros]:
  "(\<And>x. r = Inl x \<Longrightarrow> yields P (f x)) \<Longrightarrow> (\<And>y. r = Inr y \<Longrightarrow> yields P (g y)) \<Longrightarrow>
   yields P (case r of Inl x \<Rightarrow> f x | Inr y \<Rightarrow> g y)"
  by (cases r) simp_all

lemma yields_case_option [yield_intros]:
  "(r = None \<Longrightarrow> yields P m) \<Longrightarrow> (\<And>x. r = Some x \<Longrightarrow> yields P (f x)) \<Longrightarrow>
   yields P (case r of None \<Rightarrow> m | Some x \<Rightarrow> f x)"
  by (cases r) simp_all

lemma yields_Let [yield_intros]: "yields P (f x) \<Longrightarrow> yields P (Let x f)"
  by (simp add: Let_def)

section \<open>Programs that do not turn the clock back\<close>

text \<open>\<open>advances time m\<close>: no run of \<open>m\<close> decreases the quantity \<open>time\<close> of the world.\<close>

definition advances :: "('w \<Rightarrow> 'n::order) \<Rightarrow> ('w, 'a) io \<Rightarrow> bool" where
  "advances time m \<longleftrightarrow> (\<forall>s. time s \<le> time (world_after m s))"

lemma advancesD: "advances time m \<Longrightarrow> time s \<le> time (world_after m s)"
  by (simp add: advances_def)

lemma advances_return [advance_intros]: "advances time (return x)"
  by (simp add: advances_def)

lemma advances_bind [advance_intros]:
  "advances time m \<Longrightarrow> (\<And>x. advances time (f x)) \<Longrightarrow> advances time (State_Monad.bind m f)"
  unfolding advances_def world_after_bind by (blast intro: order_trans)

lemma advances_if [advance_intros]:
  "(b \<Longrightarrow> advances time m) \<Longrightarrow> (\<not> b \<Longrightarrow> advances time n) \<Longrightarrow> advances time (if b then m else n)"
  by simp

lemma advances_case_sum [advance_intros]:
  "(\<And>x. r = Inl x \<Longrightarrow> advances time (f x)) \<Longrightarrow> (\<And>y. r = Inr y \<Longrightarrow> advances time (g y)) \<Longrightarrow>
   advances time (case r of Inl x \<Rightarrow> f x | Inr y \<Rightarrow> g y)"
  by (cases r) simp_all

lemma advances_case_option [advance_intros]:
  "advances time m \<Longrightarrow> (\<And>x. r = Some x \<Longrightarrow> advances time (f x)) \<Longrightarrow>
   advances time (case r of None \<Rightarrow> m | Some x \<Rightarrow> f x)"
  by (cases r) simp_all

lemma advances_case_prod [advance_intros]:
  "(\<And>x y. r = (x, y) \<Longrightarrow> advances time (f x y)) \<Longrightarrow> advances time (case r of (x, y) \<Rightarrow> f x y)"
  by (cases r) simp

end
