(* ===== verification/CppText.thy ===== *)
theory CppText
  imports Prelude
begin

text \<open>
  The text functions of the C++ standard library that the sources use, on strings as lists of
  bytes: the character classes of the "C" locale, \<open>std::from_chars\<close> and \<open>std::to_string\<close> on
  integers, \<open>find\<close>/\<open>substr\<close> with offsets, and substring search.
\<close>

section \<open>Character classes of the "C" locale\<close>

abbreviation char_code :: "char \<Rightarrow> nat" where
  "char_code c \<equiv> of_char c"

definition isdigit :: "char \<Rightarrow> bool" where
  "isdigit c \<longleftrightarrow> 48 \<le> char_code c \<and> char_code c \<le> 57"

definition isupper :: "char \<Rightarrow> bool" where
  "isupper c \<longleftrightarrow> 65 \<le> char_code c \<and> char_code c \<le> 90"

definition islower :: "char \<Rightarrow> bool" where
  "islower c \<longleftrightarrow> 97 \<le> char_code c \<and> char_code c \<le> 122"

definition isalnum :: "char \<Rightarrow> bool" where
  "isalnum c \<longleftrightarrow> isdigit c \<or> isupper c \<or> islower c"

definition isspace :: "char \<Rightarrow> bool" where
  "isspace c \<longleftrightarrow> char_code c = 32 \<or> (9 \<le> char_code c \<and> char_code c \<le> 13)"

definition tolower :: "char \<Rightarrow> char" where
  "tolower c = (if isupper c then char_of (char_code c + 32) else c)"

lemmas char_class_defs = isdigit_def isupper_def islower_def isalnum_def isspace_def

lemma char_code_less: "char_code c < 256"
  by (metis of_char_mod_256 mod_less_divisor zero_less_numeral)

lemma char_code_char_of: "char_code (char_of n) = n mod 256"
  by simp

lemma tolower_idem [simp]: "tolower (tolower c) = tolower c"
  using char_code_less [of c]
  by (auto simp: tolower_def isupper_def)

section \<open>Integers as decimal text\<close>

definition digit_char :: "nat \<Rightarrow> char" where
  "digit_char d = char_of (48 + d)"

text \<open>\<open>std::to_string\<close> of an unsigned value.\<close>

fun nat_str :: "nat \<Rightarrow> string" where
  "nat_str n = (if n < 10 then [digit_char n] else nat_str (n div 10) @ [digit_char (n mod 10)])"

declare nat_str.simps [simp del]

text \<open>\<open>std::to_string\<close> of a signed value.\<close>

definition int_str :: "int \<Rightarrow> string" where
  "int_str i = (if i < 0 then CHR ''-'' # nat_str (nat (- i)) else nat_str (nat i))"

definition digits_value :: "string \<Rightarrow> nat" where
  "digits_value s = foldl (\<lambda>a c. 10 * a + (char_code c - 48)) 0 s"

text \<open>
  \<open>std::from_chars\<close> on an unsigned type with largest value \<open>mx\<close>: it consumes the longest run of
  digits; with no digit it reports \<open>invalid_argument\<close>, and where the value does not fit it
  reports \<open>result_out_of_range\<close>. In both cases the target variable is not written
  (\<open>fc_value = None\<close>). The signed overload also accepts a leading minus sign.
\<close>

datatype errc = ErrcOk | ErrcInvalidArgument | ErrcOutOfRange

record 'n from_chars_result =
  fc_ec :: errc
  fc_ptr :: nat
  fc_value :: "'n option"

definition from_chars_unsigned :: "nat \<Rightarrow> string \<Rightarrow> nat from_chars_result" where
  "from_chars_unsigned mx s =
     (let ds = takeWhile isdigit s in
      if ds = [] then \<lparr>fc_ec = ErrcInvalidArgument, fc_ptr = 0, fc_value = None\<rparr>
      else if mx < digits_value ds
        then \<lparr>fc_ec = ErrcOutOfRange, fc_ptr = length ds, fc_value = None\<rparr>
      else \<lparr>fc_ec = ErrcOk, fc_ptr = length ds, fc_value = Some (digits_value ds)\<rparr>)"

definition from_chars_signed :: "int \<Rightarrow> int \<Rightarrow> string \<Rightarrow> int from_chars_result" where
  "from_chars_signed mn mx s =
     (let neg = (case s of [] \<Rightarrow> False | c # _ \<Rightarrow> c = CHR ''-'');
          off = (if neg then 1 else 0);
          ds = takeWhile isdigit (drop off s);
          v = (if neg then - int (digits_value ds) else int (digits_value ds)) in
      if ds = [] then \<lparr>fc_ec = ErrcInvalidArgument, fc_ptr = 0, fc_value = None\<rparr>
      else if v < mn \<or> mx < v
        then \<lparr>fc_ec = ErrcOutOfRange, fc_ptr = off + length ds, fc_value = None\<rparr>
      else \<lparr>fc_ec = ErrcOk, fc_ptr = off + length ds, fc_value = Some v\<rparr>)"

text \<open>The test every caller makes: no error, and the whole text was consumed.\<close>

definition consumed_all :: "'n from_chars_result \<Rightarrow> string \<Rightarrow> bool" where
  "consumed_all r s \<longleftrightarrow> fc_ec r = ErrcOk \<and> fc_ptr r = length s"

text \<open>The value of a variable that was initialised to \<open>d\<close> before the call.\<close>

definition fc_value_or :: "'n \<Rightarrow> 'n from_chars_result \<Rightarrow> 'n" where
  "fc_value_or d r = (case fc_value r of None \<Rightarrow> d | Some v \<Rightarrow> v)"

lemma digits_value_Nil [simp]: "digits_value [] = 0"
  by (simp add: digits_value_def)

lemma digits_value_snoc [simp]: "digits_value (s @ [c]) = 10 * digits_value s + (char_code c - 48)"
  by (simp add: digits_value_def)

lemma isdigit_digit_char [simp]: "d < 10 \<Longrightarrow> isdigit (digit_char d)"
  by (simp add: digit_char_def isdigit_def)

lemma char_code_digit_char [simp]: "d < 10 \<Longrightarrow> char_code (digit_char d) = 48 + d"
  by (simp add: digit_char_def)

lemma nat_str_digits: "c \<in> set (nat_str n) \<Longrightarrow> isdigit c"
proof (induction n rule: nat_str.induct)
  case (1 n)
  then show ?case by (subst (asm) (2) nat_str.simps) (auto split: if_splits)
qed

lemma nat_str_nonempty [simp]: "nat_str n \<noteq> []"
  by (subst nat_str.simps) simp

lemma digits_value_nat_str [simp]: "digits_value (nat_str n) = n"
proof (induction n rule: nat_str.induct)
  case (1 n)
  show ?case
  proof (cases "n < 10")
    case True
    then show ?thesis
      using digits_value_snoc [of "[]"] by (subst nat_str.simps) simp
  next
    case False
    with "1.IH" show ?thesis by (subst nat_str.simps) simp
  qed
qed

lemma nat_str_inject [simp]: "nat_str m = nat_str n \<longleftrightarrow> m = n"
  by (metis digits_value_nat_str)

lemma takeWhile_isdigit [simp]: "\<forall>c \<in> set s. isdigit c \<Longrightarrow> takeWhile isdigit s = s"
  by simp

lemma length_takeWhile_eq: "length (takeWhile P s) = length s \<longleftrightarrow> (\<forall>c \<in> set s. P c)"
  by (metis takeWhile_eq_all_conv takeWhile_eq_take take_all_iff order_refl)

text \<open>When a text is read completely, it is a non-empty run of digits whose value fits.\<close>

lemma from_chars_unsigned_all:
  "consumed_all (from_chars_unsigned mx s) s \<longleftrightarrow>
     s \<noteq> [] \<and> (\<forall>c \<in> set s. isdigit c) \<and> digits_value s \<le> mx"
  by (auto simp: consumed_all_def from_chars_unsigned_def Let_def length_takeWhile_eq not_less)

lemma from_chars_unsigned_value:
  assumes "consumed_all (from_chars_unsigned mx s) s"
  shows "fc_value_or d (from_chars_unsigned mx s) = digits_value s"
proof -
  have "\<forall>c \<in> set s. isdigit c" and "s \<noteq> []" and "digits_value s \<le> mx"
    using assms by (auto simp: from_chars_unsigned_all)
  then show ?thesis by (simp add: from_chars_unsigned_def fc_value_or_def Let_def)
qed

lemma from_chars_unsigned_nat_str:
  "consumed_all (from_chars_unsigned mx (nat_str n)) (nat_str n) \<longleftrightarrow> n \<le> mx"
  by (auto simp: from_chars_unsigned_all nat_str_digits)

lemma from_chars_unsigned_nat_str_value:
  "n \<le> mx \<Longrightarrow> fc_value_or d (from_chars_unsigned mx (nat_str n)) = n"
  by (simp add: from_chars_unsigned_nat_str from_chars_unsigned_value)

lemma from_chars_unsigned_not_digits:
  "\<not> (\<forall>c \<in> set s. isdigit c) \<Longrightarrow> \<not> consumed_all (from_chars_unsigned mx s) s"
  by (simp add: from_chars_unsigned_all)

text \<open>A leading minus sign is the only text the signed overload reads beyond digits.\<close>

lemma from_chars_signed_digits:
  assumes "s \<noteq> []" "\<forall>c \<in> set s. isdigit c" "int (digits_value s) \<le> mx" "mn \<le> 0"
  shows "from_chars_signed mn mx s =
    \<lparr>fc_ec = ErrcOk, fc_ptr = length s, fc_value = Some (int (digits_value s))\<rparr>"
proof -
  have "\<not> (case s of [] \<Rightarrow> False | c # _ \<Rightarrow> c = CHR ''-'')"
    using assms(1,2) by (cases s) (auto simp: isdigit_def)
  then show ?thesis
    using assms by (simp add: from_chars_signed_def Let_def)
qed

section \<open>Searching and slicing\<close>

fun find_index :: "('a \<Rightarrow> bool) \<Rightarrow> 'a list \<Rightarrow> nat option" where
  "find_index P [] = None"
| "find_index P (x # xs) = (if P x then Some 0 else map_option Suc (find_index P xs))"

text \<open>\<open>s.find(c, pos)\<close> and \<open>s.substr(pos, n)\<close>; \<open>None\<close> is \<open>npos\<close>.\<close>

definition str_find :: "char \<Rightarrow> string \<Rightarrow> nat \<Rightarrow> nat option" where
  "str_find c s pos = map_option (\<lambda>i. pos + i) (find_index (\<lambda>x. x = c) (drop pos s))"

definition substr :: "string \<Rightarrow> nat \<Rightarrow> nat \<Rightarrow> string" where
  "substr s pos n = take n (drop pos s)"

text \<open>\<open>s.find(needle) != npos\<close> for a string needle.\<close>

fun str_contains :: "string \<Rightarrow> string \<Rightarrow> bool" where
  "str_contains [] needle = (needle = [])"
| "str_contains (c # s) needle = (take (length needle) (c # s) = needle \<or> str_contains s needle)"

definition ends_with :: "string \<Rightarrow> string \<Rightarrow> bool" where
  "ends_with s suf \<longleftrightarrow> length suf \<le> length s \<and> drop (length s - length suf) s = suf"

lemma find_index_None: "find_index P xs = None \<longleftrightarrow> (\<forall>x \<in> set xs. \<not> P x)"
  by (induction xs) auto

lemma find_index_Some:
  "find_index P xs = Some i \<longleftrightarrow> i < length xs \<and> P (xs ! i) \<and> (\<forall>j < i. \<not> P (xs ! j))"
proof (induction xs arbitrary: i)
  case (Cons x xs)
  show ?case
  proof (cases i)
    case (Suc k)
    with Cons show ?thesis by (auto simp: less_Suc_eq_0_disj)
  qed auto
qed simp

lemma find_index_append:
  "\<forall>x \<in> set xs. \<not> P x \<Longrightarrow> P y \<Longrightarrow> find_index P (xs @ y # ys) = Some (length xs)"
  by (induction xs) auto

lemma find_index_takeWhile:
  "find_index P xs = Some i \<Longrightarrow> take i xs = takeWhile (\<lambda>x. \<not> P x) xs"
  by (induction xs arbitrary: i) (auto split: if_splits)

lemma str_contains_iff_sublist: "str_contains s needle \<longleftrightarrow> sublist needle s"
proof (induction s)
  case (Cons c s)
  have "take (length needle) (c # s) = needle \<longleftrightarrow> prefix needle (c # s)"
    by (metis append_eq_conv_conj append_take_drop_id prefix_def)
  with Cons show ?case by (auto simp: sublist_Cons_right)
qed simp

lemma str_contains_Nil [simp]: "str_contains s []"
  by (cases s) simp_all

lemma ends_with_iff_suffix: "ends_with s suf \<longleftrightarrow> suffix suf s"
proof
  assume "ends_with s suf"
  then show "suffix suf s" by (metis ends_with_def suffix_drop)
next
  assume "suffix suf s"
  then show "ends_with s suf" by (auto simp: ends_with_def suffix_def)
qed

lemma ends_with_append [simp]: "ends_with (s @ suf) suf"
  by (simp add: ends_with_def)

section \<open>Algorithms on sequences\<close>

text \<open>\<open>std::unique\<close> keeps the first of every run of equal elements, \<open>std::includes\<close> is the merge
  test on two sorted ranges.\<close>

fun std_unique :: "'a list \<Rightarrow> 'a list" where
  "std_unique [] = []"
| "std_unique [x] = [x]"
| "std_unique (x # y # xs) = (if x = y then std_unique (x # xs) else x # std_unique (y # xs))"

fun std_includes :: "'a::linorder list \<Rightarrow> 'a list \<Rightarrow> bool" where
  "std_includes xs [] = True"
| "std_includes [] (y # ys) = False"
| "std_includes (x # xs) (y # ys) =
     (if y < x then False
      else if x < y then std_includes xs (y # ys)
      else std_includes xs ys)"

lemma std_unique_remdups_adj: "std_unique xs = remdups_adj xs"
  by (induction xs rule: std_unique.induct) auto

lemma set_std_unique [simp]: "set (std_unique xs) = set xs"
  by (simp add: std_unique_remdups_adj)

lemma sorted_std_unique: "sorted xs \<Longrightarrow> sorted (std_unique xs) \<and> distinct (std_unique xs)"
  by (induction xs rule: std_unique.induct) (auto simp: less_le)

lemma sort_unique_props [simp]:
  "set (std_unique (sort xs)) = set xs"
  "sorted (std_unique (sort xs))"
  "distinct (std_unique (sort xs))"
  by (simp_all add: sorted_std_unique)

lemma sort_unique_eq_Nil [simp]: "std_unique (sort xs) = [] \<longleftrightarrow> xs = []"
  using sort_unique_props(1) [of xs] by (metis empty_set set_empty2)

lemma sort_unique_eq_sorted_list_of_set: "std_unique (sort xs) = sorted_list_of_set (set xs)"
  by (rule sorted_distinct_set_unique) simp_all

text \<open>Two sorted ranges are equal when they hold the same elements with the same multiplicities.\<close>

lemma sort_eq_iff_mset: "sort xs = sort ys \<longleftrightarrow> mset xs = mset ys"
proof
  assume "sort xs = sort ys"
  then show "mset xs = mset ys" by (metis mset_sort)
next
  assume "mset xs = mset ys"
  then show "sort xs = sort ys" by (intro properties_for_sort) simp_all
qed

text \<open>On sorted duplicate-free ranges the merge test is set inclusion.\<close>

lemma std_includes_iff_subset:
  "sorted xs \<Longrightarrow> distinct xs \<Longrightarrow> sorted ys \<Longrightarrow> distinct ys \<Longrightarrow>
   std_includes xs ys \<longleftrightarrow> set ys \<subseteq> set xs"
proof (induction xs ys rule: std_includes.induct)
  case (3 x xs y ys)
  consider "y < x" | "x < y" | "x = y" by fastforce
  then show ?case
  proof cases
    case 1
    then show ?thesis using 3 by fastforce
  next
    case 2
    then have "x \<notin> set (y # ys)" using 3 by fastforce
    then show ?thesis using 2 3 by auto
  next
    case 3: 3
    then show ?thesis using "3.prems" "3.IH" by auto
  qed
qed auto

text \<open>The iteration order of a \<open>std::set\<close> that the elements were inserted into.\<close>

definition std_set :: "'a::linorder list \<Rightarrow> 'a list" where
  "std_set xs = std_unique (sort xs)"

lemma std_set_props [simp]:
  "set (std_set xs) = set xs" "sorted (std_set xs)" "distinct (std_set xs)"
  by (simp_all add: std_set_def)

text \<open>\<open>std::sort\<close> by a key is not stable: equal keys come in an order the library chooses. Its choice is
  a rearrangement \<open>arrange\<close> of the input before a stable sort; what is not a rearrangement is
  not used.\<close>

definition std_sort :: "('a list \<Rightarrow> 'a list) \<Rightarrow> ('a \<Rightarrow> 'k::linorder) \<Rightarrow> 'a list \<Rightarrow> 'a list" where
  "std_sort arrange key xs = sort_key key (if mset (arrange xs) = mset xs then arrange xs else xs)"

lemma mset_std_sort [simp]: "mset (std_sort arrange key xs) = mset xs"
  by (simp add: std_sort_def)

lemma set_std_sort [simp]: "set (std_sort arrange key xs) = set xs"
  by (metis mset_std_sort set_mset_mset)

lemma sorted_std_sort [simp]: "sorted (map key (std_sort arrange key xs))"
  by (simp add: std_sort_def)

text \<open>\<open>emplace\<close> of a map: an existing entry stays.\<close>

definition emplace :: "'k \<Rightarrow> 'v \<Rightarrow> ('k \<Rightarrow> 'v option) \<Rightarrow> ('k \<Rightarrow> 'v option)" where
  "emplace k v m = (case m k of None \<Rightarrow> m(k \<mapsto> v) | Some _ \<Rightarrow> m)"

section \<open>Splitting\<close>

text \<open>The loops that cut a text at every occurrence of a character: a last piece without terminator
  is kept, an empty one after the last terminator is not.\<close>

function split_on :: "char \<Rightarrow> string \<Rightarrow> string list" where
  "split_on c s =
     (if s = [] then []
      else (case find_index (\<lambda>x. x = c) s of
              None \<Rightarrow> [s]
            | Some i \<Rightarrow> take i s # split_on c (drop (Suc i) s)))"
  by pat_completeness auto
termination
  by (relation "measure (length \<circ> snd)") auto

declare split_on.simps [simp del]

text \<open>\<open>s.rfind(needle)\<close>.\<close>

definition str_rfind :: "string \<Rightarrow> string \<Rightarrow> nat option" where
  "str_rfind needle s =
     (let is = filter (\<lambda>i. take (length needle) (drop i s) = needle) [0..<length s + 1 - length needle] in
      if is = [] then None else Some (last is))"

text \<open>\<open>stream >> token\<close>: leading blanks are skipped, the token is the run of other characters; it fails
  when nothing is left.\<close>

definition extract_token :: "string \<Rightarrow> (string \<times> string) option" where
  "extract_token s =
     (let t = dropWhile isspace s in
      if t = [] then None
      else Some (takeWhile (\<lambda>c. \<not> isspace c) t, dropWhile (\<lambda>c. \<not> isspace c) t))"

lemma extract_token_length:
  assumes "extract_token s = Some (t, r)"
  shows "length r < length s" "t \<noteq> []"
proof -
  let ?u = "dropWhile isspace s"
  have u: "?u \<noteq> []" and t: "t = takeWhile (\<lambda>c. \<not> isspace c) ?u"
    and r: "r = dropWhile (\<lambda>c. \<not> isspace c) ?u"
    using assms by (auto simp: extract_token_def Let_def split: if_splits)
  have "\<not> isspace (hd ?u)" using u by (rule hd_dropWhile)
  then have "t \<noteq> []" using u t by (cases ?u) auto
  then show "t \<noteq> []" .
  have "length t + length r = length ?u"
    unfolding t r by (metis length_append takeWhile_dropWhile_id)
  moreover have "length ?u \<le> length s" by (rule length_dropWhile_le)
  ultimately show "length r < length s" using \<open>t \<noteq> []\<close> by (cases t) auto
qed

function tokens :: "string \<Rightarrow> string list" where
  "tokens s = (case extract_token s of None \<Rightarrow> [] | Some (t, r) \<Rightarrow> t # tokens r)"
  by pat_completeness auto
termination
  by (relation "measure length") (auto dest: extract_token_length)

declare tokens.simps [simp del]

lemma split_on_Nil [simp]: "split_on c [] = []"
  by (simp add: split_on.simps)

lemma split_on_terminated:
  assumes "c \<notin> set x"
  shows "split_on c (x @ c # rest) = x # split_on c rest"
proof -
  have "find_index (\<lambda>y. y = c) (x @ c # rest) = Some (length x)"
    using assms by (intro find_index_append) auto
  then show ?thesis by (subst split_on.simps) simp
qed

lemma split_on_last: "c \<notin> set x \<Longrightarrow> x \<noteq> [] \<Longrightarrow> split_on c x = [x]"
  using find_index_None [of "\<lambda>y. y = c" x] by (subst split_on.simps) auto

text \<open>Splitting undoes terminating.\<close>

lemma split_on_concat:
  "(\<And>x. x \<in> set xs \<Longrightarrow> c \<notin> set x) \<Longrightarrow> split_on c (concat (map (\<lambda>x. x @ [c]) xs)) = xs"
  by (induction xs) (auto simp: split_on_terminated)

text \<open>The last occurrence of a needle whose first character does not occur again after it.\<close>

lemma str_rfind_last:
  assumes "needle = c # cs" "c \<notin> set cs" "c \<notin> set rest"
  shows "str_rfind needle (s @ needle @ rest) = Some (length s)"
proof -
  let ?t = "s @ needle @ rest"
  let ?P = "\<lambda>i. take (length needle) (drop i ?t) = needle"
  let ?n = "length ?t + 1 - length needle"
  have here: "?P (length s)" by simp
  have later: "\<not> ?P i" if "length s < i" "i < ?n" for i
  proof
    assume "?P i"
    then have "hd (drop i ?t) = c"
      using assms(1) by (metis hd_take length_greater_0_conv list.distinct(1) list.sel(1))
    moreover have "i < length ?t" using that assms(1) by auto
    ultimately have "?t ! i = c" by (metis hd_drop_conv_nth)
    moreover have "?t ! i = (cs @ rest) ! (i - length s - 1)"
      using that assms(1) by (simp add: nth_append nth_Cons')
    moreover have "i - length s - 1 < length (cs @ rest)" using that \<open>i < length ?t\<close> assms(1) by auto
    ultimately have "c \<in> set (cs @ rest)" by (metis nth_mem)
    then show False using assms by auto
  qed
  have less: "length s < ?n" by (simp add: assms(1))
  then have "[0..<?n] = [0..<length s] @ [length s..<?n]"
    using upt_add_eq_append [of 0 "length s" "?n - length s"] by simp
  then have "[0..<?n] = [0..<length s] @ length s # [Suc (length s)..<?n]"
    unfolding upt_conv_Cons [OF less] .
  moreover have "filter ?P [Suc (length s)..<?n] = []"
    unfolding filter_empty_conv using later by (metis Suc_le_eq atLeastLessThan_iff set_upt)
  ultimately have "filter ?P [0..<?n] = filter ?P [0..<length s] @ [length s]"
    using here by (simp only: filter_append filter.simps if_True simp_thms)
  then show ?thesis unfolding str_rfind_def Let_def by simp
qed

end
