(* ===== verification/Domain.thy ===== *)
theory Domain
  imports CppText
begin

text \<open>
  The data model of \<open>include/lx/domain\<close>: one record per struct, one datatype per enum or variant,
  with the default member initialisers as constants where the code relies on them. Fields carry
  a two-letter prefix for the struct they belong to, otherwise the source's names.

  Time points of \<open>std::chrono\<close> are integers counting nanoseconds; durations given in
  milliseconds stay in milliseconds.
\<close>

text \<open>\<open>duration_cast\<close> from nanoseconds to microseconds cuts towards zero.\<close>

definition toMicroseconds :: "int \<Rightarrow> int" where
  "toMicroseconds ns = (if 0 \<le> ns then ns div 1000 else - ((- ns) div 1000))"

section \<open>Errors, warnings and results\<close>

datatype ErrorCode = InvalidArgument | NotFound | PermissionDenied | Unsupported | Unavailable
  | IoError | ProtocolError | ParseError | OperationFailed | Timeout | Conflict | Interrupted

record Error =
  er_code :: ErrorCode
  er_message :: string
  er_systemError :: int
  er_component :: string
  er_operation :: string

record Warning =
  wn_code :: ErrorCode
  wn_message :: string
  wn_systemError :: int
  wn_component :: string
  wn_operation :: string

abbreviation mkError :: "ErrorCode \<Rightarrow> string \<Rightarrow> int \<Rightarrow> string \<Rightarrow> string \<Rightarrow> Error" where
  "mkError c m n cmp oper \<equiv>
     \<lparr>er_code = c, er_message = m, er_systemError = n, er_component = cmp, er_operation = oper\<rparr>"

abbreviation mkWarning :: "ErrorCode \<Rightarrow> string \<Rightarrow> int \<Rightarrow> string \<Rightarrow> string \<Rightarrow> Warning" where
  "mkWarning c m n cmp oper \<equiv>
     \<lparr>wn_code = c, wn_message = m, wn_systemError = n, wn_component = cmp, wn_operation = oper\<rparr>"

text \<open>\<open>warningFrom\<close> is repeated, word for word, in every file that turns an error into a
  warning.\<close>

definition warningFrom :: "Error \<Rightarrow> Warning" where
  "warningFrom e = \<lparr>wn_code = er_code e, wn_message = er_message e,
     wn_systemError = er_systemError e, wn_component = er_component e,
     wn_operation = er_operation e\<rparr>"

text \<open>
  \<open>Result<T>\<close> is a variant of a value and an error. Asking for the alternative it does not hold
  throws \<open>std::logic_error\<close>; the services below only look at a result by case distinction,
  so the exception cannot arise in them.
\<close>

type_synonym 'a result = "Error + 'a"

datatype logic_error = LogicError string

abbreviation success :: "'a \<Rightarrow> 'a result" where
  "success v \<equiv> Inr v"

abbreviation failure :: "Error \<Rightarrow> 'a result" where
  "failure e \<equiv> Inl e"

definition Result_hasValue :: "'a result \<Rightarrow> bool" where
  "Result_hasValue r = (case r of Inl _ \<Rightarrow> False | Inr _ \<Rightarrow> True)"

definition Result_value :: "'a result \<Rightarrow> logic_error + 'a" where
  "Result_value r = (case r of Inl _ \<Rightarrow> Inl (LogicError ''Result does not contain a value'')
                             | Inr v \<Rightarrow> Inr v)"

definition Result_error :: "'a result \<Rightarrow> logic_error + Error" where
  "Result_error r = (case r of Inl e \<Rightarrow> Inr e
                             | Inr _ \<Rightarrow> Inl (LogicError ''Result does not contain an error''))"

text \<open>
  The loops of the adapters that wait for the kernel or a library are bounded by rounds and give \<open>None\<close> when
  these ran out. The interfaces of the program have no value for a call that does not come back; there
  \<open>unfinished\<close> stands for it. No path of the program makes this error: what is proved of a whole run that
  returns is proved with rounds that are enough, so that the result is the same for any larger number.
\<close>

definition unfinished :: Error where
  "unfinished = mkError Timeout ''(the call has not returned)'' 0 [] []"

definition settled :: "'a result option \<Rightarrow> 'a result" where
  "settled r = (case r of Some x \<Rightarrow> x | None \<Rightarrow> failure unfinished)"

lemma settled_Some [simp]: "settled (Some x) = x"
  by (simp add: settled_def)

lemma settled_Inr [simp]: "settled r = Inr x \<longleftrightarrow> r = Some (Inr x)"
  by (auto simp: settled_def split: option.split)

lemma unfinished_code [simp]: "er_code unfinished = Timeout"
  by (simp add: unfinished_def)

text \<open>The specialisation \<open>Result<void>\<close> holds nothing or an error; its \<open>value\<close> only checks.\<close>

type_synonym result_void = "unit result"

definition ResultVoid_value :: "result_void \<Rightarrow> logic_error + unit" where
  "ResultVoid_value r =
     (if \<not> Result_hasValue r then Inl (LogicError ''Result does not contain a value'') else Inr ())"

lemma ResultVoid_value_is_value: "ResultVoid_value r = Result_value r"
  by (auto simp: ResultVoid_value_def Result_hasValue_def Result_value_def split: sum.split)

record 'a Observation =
  ob_value :: 'a
  ob_warnings :: "Warning list"

section \<open>Processes, signals and services\<close>

record ProcessInfo =
  pi_pid :: pid
  pi_ppid :: pid
  pi_name :: string
  pi_state :: string
  pi_uid :: u32
  pi_gid :: u32
  pi_user :: string
  pi_executable :: "string option"
  pi_cwd :: "string option"
  pi_argv :: "string list"
  pi_rssBytes :: u64
  pi_threads :: u32
  pi_cpuPercent :: "real option"
  pi_systemdUnit :: "string option"

definition default_ProcessInfo :: ProcessInfo where
  "default_ProcessInfo = \<lparr>pi_pid = -1, pi_ppid = -1, pi_name = [], pi_state = [], pi_uid = 0,
     pi_gid = 0, pi_user = [], pi_executable = None, pi_cwd = None, pi_argv = [],
     pi_rssBytes = 0, pi_threads = 0, pi_cpuPercent = None, pi_systemdUnit = None\<rparr>"

record ProcessQuery =
  pq_name :: "string option"
  pq_user :: "string option"
  pq_systemdUnit :: "string option"

definition default_ProcessQuery :: ProcessQuery where
  "default_ProcessQuery = \<lparr>pq_name = None, pq_user = None, pq_systemdUnit = None\<rparr>"

datatype ProcessSignal = Terminate | Kill

datatype SignalMechanism = ViaPidFd | ViaKill

record SignalDelivery =
  sd_pid :: pid
  sd_signal :: ProcessSignal
  sd_mechanism :: SignalMechanism

record SignalCapabilities =
  sc_signalingAvailable :: bool
  sc_pidFdAvailable :: bool

record ServiceInfo =
  si_unitName :: string
  si_description :: string
  si_loadState :: string
  si_activeState :: string
  si_subState :: string
  si_unitFileState :: string
  si_mainPid :: "pid option"
  si_activeEnterTimestampUsec :: u64

definition default_ServiceInfo :: ServiceInfo where
  "default_ServiceInfo = \<lparr>si_unitName = [], si_description = [], si_loadState = [],
     si_activeState = [], si_subState = [], si_unitFileState = [], si_mainPid = None,
     si_activeEnterTimestampUsec = 0\<rparr>"

section \<open>Sockets, ports and port release\<close>

datatype TransportProtocol = Tcp | Udp

datatype AddressFamily = IPv4 | IPv6

text \<open>Enumerators compare by their position, which the tuple comparison of
  \<open>SocketIdentity\<close> uses.\<close>

instantiation TransportProtocol :: linorder
begin

definition less_eq_TransportProtocol :: "TransportProtocol \<Rightarrow> TransportProtocol \<Rightarrow> bool" where
  "less_eq_TransportProtocol a b \<longleftrightarrow> a = Tcp \<or> b = Udp"

definition less_TransportProtocol :: "TransportProtocol \<Rightarrow> TransportProtocol \<Rightarrow> bool" where
  "less_TransportProtocol a b \<longleftrightarrow> a = Tcp \<and> b = Udp"

instance
  by standard
     (auto simp: less_eq_TransportProtocol_def less_TransportProtocol_def
       intro: TransportProtocol.exhaust)

end

instantiation AddressFamily :: linorder
begin

definition less_eq_AddressFamily :: "AddressFamily \<Rightarrow> AddressFamily \<Rightarrow> bool" where
  "less_eq_AddressFamily a b \<longleftrightarrow> a = IPv4 \<or> b = IPv6"

definition less_AddressFamily :: "AddressFamily \<Rightarrow> AddressFamily \<Rightarrow> bool" where
  "less_AddressFamily a b \<longleftrightarrow> a = IPv4 \<and> b = IPv6"

instance
  by standard
     (auto simp: less_eq_AddressFamily_def less_AddressFamily_def intro: AddressFamily.exhaust)

end

record Endpoint =
  ep_address :: string
  ep_port :: u16

record SocketInfo =
  so_protocol :: TransportProtocol
  so_family :: AddressFamily
  so_local :: Endpoint
  so_remote :: "Endpoint option"
  so_state :: string
  so_uid :: u32
  so_inode :: u64
  so_ownerPids :: "pid list"

record SocketQuery =
  sq_localPort :: "u16 option"
  sq_protocol :: "TransportProtocol option"
  sq_listeningOnly :: bool

definition default_SocketQuery :: SocketQuery where
  "default_SocketQuery = \<lparr>sq_localPort = None, sq_protocol = None, sq_listeningOnly = True\<rparr>"

text \<open>\<open>std::unordered_map<std::uint64_t, std::vector<pid_t>>\<close>.\<close>

type_synonym SocketOwnership = "u64 \<Rightarrow> pid list option"

record PortInfo =
  po_socket :: SocketInfo
  po_owners :: "ProcessInfo list"

record PortReleasePlan =
  rp_localPort :: u16
  rp_ports :: "PortInfo list"
  rp_ownerPids :: "pid list"
  rp_recommendedUnit :: "string option"

record PortReleaseResult =
  rr_released :: bool
  rr_deliveries :: "SignalDelivery list"
  rr_remaining :: "PortReleasePlan option"

section \<open>Journal, resources and reports\<close>

record JournalEntry =
  je_timestamp :: int
  je_cursor :: string
  je_systemdUnit :: "string option"
  je_pid :: "pid option"
  je_command :: "string option"
  je_message :: string
  je_priority :: "u8 option"

text \<open>\<open>std::size_t limit\<close> only holds values the interface range-checks; it is a natural
  number.\<close>

record LogQuery =
  lq_unit :: "string option"
  lq_pid :: "pid option"
  lq_since :: "int option"
  lq_limit :: nat
  lq_follow :: bool

definition default_LogQuery :: LogQuery where
  "default_LogQuery = \<lparr>lq_unit = None, lq_pid = None, lq_since = None, lq_limit = 50,
     lq_follow = False\<rparr>"

datatype ResourceTarget = PortTarget u16 | ProcessTarget pid | ServiceTarget string

record ResourceGraph =
  rg_root :: ResourceTarget
  rg_ports :: "PortInfo list"
  rg_processes :: "ProcessInfo list"
  rg_services :: "ServiceInfo list"
  rg_recentLogs :: "JournalEntry list"
  rg_warnings :: "Warning list"

record FindResult =
  fr_services :: "ServiceInfo list"
  fr_processes :: "ProcessInfo list"
  fr_ports :: "PortInfo list"
  fr_executables :: "string list"
  fr_warnings :: "Warning list"

datatype CapabilityStatus = Available | CapUnavailable | NotImplemented

record CapabilityCheck =
  cc_name :: string
  cc_status :: CapabilityStatus
  cc_detail :: string

type_synonym DoctorReport = "CapabilityCheck list"

section \<open>Metrics\<close>

record CpuTimes =
  ct_totalTicks :: u64
  ct_idleTicks :: u64

record SystemMetricsSample =
  sm_cpu :: CpuTimes
  sm_memoryTotalBytes :: u64
  sm_memoryAvailableBytes :: u64
  sm_uptime :: int
  sm_logicalCpuCount :: u32
  sm_hostname :: string

record ProcessCpuSample =
  pc_pid :: pid
  pc_startTimeTicks :: u64
  pc_cpuTimeTicks :: u64

record MetricsSnapshot =
  ms_system :: SystemMetricsSample
  ms_processes :: "ProcessCpuSample list"

record HostStatus =
  hs_hostname :: string
  hs_cpuPercent :: "real option"
  hs_memoryTotalBytes :: u64
  hs_memoryUsedBytes :: u64
  hs_uptime :: int

definition default_HostStatus :: HostStatus where
  "default_HostStatus = \<lparr>hs_hostname = [], hs_cpuPercent = None, hs_memoryTotalBytes = 0,
     hs_memoryUsedBytes = 0, hs_uptime = 0\<rparr>"

record MetricsView =
  mv_host :: HostStatus
  mv_processCpuPercent :: "pid \<Rightarrow> real option"

record DashboardSnapshot =
  ds_host :: HostStatus
  ds_processes :: "ProcessInfo list"
  ds_ports :: "PortInfo list"
  ds_services :: "ServiceInfo list"
  ds_hostStale :: bool
  ds_processesStale :: bool
  ds_portsStale :: bool
  ds_servicesStale :: bool
  ds_warnings :: "Warning list"
  ds_capturedAt :: int

definition default_DashboardSnapshot :: DashboardSnapshot where
  "default_DashboardSnapshot = \<lparr>ds_host = default_HostStatus, ds_processes = [], ds_ports = [],
     ds_services = [], ds_hostStale = False, ds_processesStale = False, ds_portsStale = False,
     ds_servicesStale = False, ds_warnings = [], ds_capturedAt = 0\<rparr>"

end
