(* ===== verification/JsonSerializer.thy ===== *)
theory JsonSerializer
  imports Domain
begin

text \<open>
  \<open>src/cli/JsonSerializer.cpp\<close>: the JSON documents of the read-only commands, and the redaction of
  command lines. A document is a value of the type \<open>json\<close>; writing it as text is nlohmann's
  \<open>dump\<close>, a parameter of the operations, which throws on strings that are not UTF-8 (\<open>None\<close>). The
  members of an object are listed in the order of the source; nlohmann sorts them when it writes.
\<close>

section \<open>Values\<close>

datatype json = JNull | JString string | JInt int | JReal real | JArray "json list"
  | JObject "(string \<times> json) list"

type_synonym json_dump = "json \<Rightarrow> string option"

definition errorCodeName :: "ErrorCode \<Rightarrow> string" where
  "errorCodeName code =
     (case code of
        InvalidArgument \<Rightarrow> ''invalid_argument''
      | NotFound \<Rightarrow> ''not_found''
      | PermissionDenied \<Rightarrow> ''permission_denied''
      | Unsupported \<Rightarrow> ''unsupported''
      | Unavailable \<Rightarrow> ''unavailable''
      | IoError \<Rightarrow> ''io_error''
      | ProtocolError \<Rightarrow> ''protocol_error''
      | ParseError \<Rightarrow> ''parse_error''
      | OperationFailed \<Rightarrow> ''operation_failed''
      | Timeout \<Rightarrow> ''timeout''
      | Conflict \<Rightarrow> ''conflict''
      | Interrupted \<Rightarrow> ''interrupted'')"

definition errorValue :: "Error \<Rightarrow> json" where
  "errorValue e = JObject
     [(''code'', JString (errorCodeName (er_code e))), (''message'', JString (er_message e)),
      (''system_error'', JInt (er_systemError e)), (''component'', JString (er_component e)),
      (''operation'', JString (er_operation e))]"

definition warningValue :: "Warning \<Rightarrow> json" where
  "warningValue warning = JObject
     [(''code'', JString (errorCodeName (wn_code warning))), (''message'', JString (wn_message warning)),
      (''system_error'', JInt (wn_systemError warning)), (''component'', JString (wn_component warning)),
      (''operation'', JString (wn_operation warning))]"

definition warningValues :: "Warning list \<Rightarrow> json" where
  "warningValues warnings = JArray (map warningValue warnings)"

section \<open>Redaction\<close>

definition json_lower :: "string \<Rightarrow> string" where
  "json_lower s = map tolower s"

definition secretKey :: "string \<Rightarrow> bool" where
  "secretKey s =
     (let key = json_lower s in
      key = ''password'' \<or> key = ''passwd'' \<or> key = ''token'' \<or> key = ''api-key'' \<or> key = ''apikey'' \<or>
      key = ''secret'' \<or> key = ''database_url'')"

text \<open>The loop of \<open>arguments\<close>; the flag says that the previous argument was a secret key.\<close>

fun redactLoop :: "bool \<Rightarrow> string list \<Rightarrow> string list" where
  "redactLoop redactNext [] = []"
| "redactLoop redactNext (argument # rest) =
     (if redactNext then ''<redacted>'' # redactLoop False rest
      else
        (let equal = str_find CHR ''='' argument 0;
             key = dropWhile (\<lambda>c. c = CHR ''-'')
               (case equal of None \<Rightarrow> argument | Some i \<Rightarrow> substr argument 0 i) in
         if secretKey key
         then (case equal of
                 None \<Rightarrow> argument # redactLoop True rest
               | Some i \<Rightarrow> (substr argument 0 (i + 1) @ ''<redacted>'') # redactLoop False rest)
         else argument # redactLoop False rest))"

definition arguments :: "string list \<Rightarrow> bool \<Rightarrow> string list" where
  "arguments source raw = (if raw then source else redactLoop False source)"

section \<open>The values of the domain\<close>

definition optionalString :: "string option \<Rightarrow> json" where
  "optionalString v = (case v of None \<Rightarrow> JNull | Some s \<Rightarrow> JString s)"

definition optionalReal :: "real option \<Rightarrow> json" where
  "optionalReal v = (case v of None \<Rightarrow> JNull | Some x \<Rightarrow> JReal x)"

definition processValue :: "ProcessInfo \<Rightarrow> bool \<Rightarrow> json" where
  "processValue process raw = JObject
     [(''pid'', JInt (pi_pid process)), (''ppid'', JInt (pi_ppid process)),
      (''name'', JString (pi_name process)), (''state'', JString (pi_state process)),
      (''uid'', JInt (uint (pi_uid process))), (''gid'', JInt (uint (pi_gid process))),
      (''user'', JString (pi_user process)), (''executable'', optionalString (pi_executable process)),
      (''cwd'', optionalString (pi_cwd process)),
      (''argv'', JArray (map JString (arguments (pi_argv process) raw))),
      (''rss_bytes'', JInt (uint (pi_rssBytes process))),
      (''threads'', JInt (uint (pi_threads process))),
      (''cpu_percent'', optionalReal (pi_cpuPercent process)),
      (''systemd_unit'', optionalString (pi_systemdUnit process))]"

definition endpointValue :: "Endpoint \<Rightarrow> json" where
  "endpointValue endpoint = JObject
     [(''address'', JString (ep_address endpoint)), (''port'', JInt (uint (ep_port endpoint)))]"

definition socketValue :: "SocketInfo \<Rightarrow> json" where
  "socketValue socket = JObject
     [(''protocol'', JString (if so_protocol socket = Tcp then ''tcp'' else ''udp'')),
      (''family'', JString (if so_family socket = IPv4 then ''ipv4'' else ''ipv6'')),
      (''local'', endpointValue (so_local socket)),
      (''remote'', case so_remote socket of None \<Rightarrow> JNull | Some e \<Rightarrow> endpointValue e),
      (''state'', JString (so_state socket)), (''uid'', JInt (uint (so_uid socket))),
      (''inode'', JInt (uint (so_inode socket))),
      (''owner_pids'', JArray (map JInt (so_ownerPids socket)))]"

definition portValue :: "PortInfo \<Rightarrow> json" where
  "portValue port = JObject
     [(''socket'', socketValue (po_socket port)),
      (''owners'', JArray (map (\<lambda>owner. processValue owner False) (po_owners port)))]"

definition optionalPid :: "pid option \<Rightarrow> json" where
  "optionalPid v = (case v of None \<Rightarrow> JNull | Some p \<Rightarrow> JInt p)"

definition serviceValue :: "ServiceInfo \<Rightarrow> json" where
  "serviceValue service = JObject
     [(''unit_name'', JString (si_unitName service)), (''description'', JString (si_description service)),
      (''load_state'', JString (si_loadState service)), (''active_state'', JString (si_activeState service)),
      (''sub_state'', JString (si_subState service)),
      (''unit_file_state'', JString (si_unitFileState service)),
      (''main_pid'', optionalPid (si_mainPid service)),
      (''active_enter_timestamp_usec'', JInt (uint (si_activeEnterTimestampUsec service)))]"

definition journalValue :: "JournalEntry \<Rightarrow> json" where
  "journalValue entry = JObject
     [(''timestamp_unix_usec'', JInt (toMicroseconds (je_timestamp entry))),
      (''cursor'', JString (je_cursor entry)), (''systemd_unit'', optionalString (je_systemdUnit entry)),
      (''pid'', optionalPid (je_pid entry)), (''command'', optionalString (je_command entry)),
      (''message'', JString (je_message entry)),
      (''priority'', case je_priority entry of None \<Rightarrow> JNull | Some p \<Rightarrow> JInt (uint p))]"

definition portValues :: "PortInfo list \<Rightarrow> json" where
  "portValues source = JArray (map portValue source)"

definition processValues :: "ProcessInfo list \<Rightarrow> json" where
  "processValues source = JArray (map (\<lambda>v. processValue v False) source)"

definition serviceValues :: "ServiceInfo list \<Rightarrow> json" where
  "serviceValues source = JArray (map serviceValue source)"

definition journalValues :: "JournalEntry list \<Rightarrow> json" where
  "journalValues source = JArray (map journalValue source)"

definition resourceTargetValue :: "ResourceTarget \<Rightarrow> json" where
  "resourceTargetValue target =
     (case target of
        PortTarget port \<Rightarrow> JObject [(''type'', JString ''port''), (''value'', JInt (uint port))]
      | ProcessTarget p \<Rightarrow> JObject [(''type'', JString ''pid''), (''value'', JInt p)]
      | ServiceTarget unit \<Rightarrow> JObject [(''type'', JString ''service''), (''value'', JString unit)])"

definition capabilityName :: "CapabilityStatus \<Rightarrow> string" where
  "capabilityName status =
     (case status of
        Available \<Rightarrow> ''available''
      | CapUnavailable \<Rightarrow> ''unavailable''
      | NotImplemented \<Rightarrow> ''not_implemented'')"

section \<open>The documents\<close>

definition schemaVersion :: int where
  "schemaVersion = 1"

definition envelope :: "string \<Rightarrow> string \<Rightarrow> json \<Rightarrow> Warning list \<Rightarrow> json" where
  "envelope command operation data warnings = JObject
     [(''schema_version'', JInt schemaVersion), (''command'', JString command),
      (''operation'', JString operation), (''data'', data), (''warnings'', warningValues warnings)]"

definition JsonSerializer_error :: "json_dump \<Rightarrow> string \<Rightarrow> string \<Rightarrow> Error \<Rightarrow> string option" where
  "JsonSerializer_error dump command operation e = dump (JObject
     [(''schema_version'', JInt schemaVersion), (''command'', JString command),
      (''operation'', JString operation), (''error'', errorValue e)])"

definition JsonSerializer_emptySuccess ::
  "json_dump \<Rightarrow> string \<Rightarrow> string \<Rightarrow> Warning list \<Rightarrow> string option" where
  "JsonSerializer_emptySuccess dump command operation warnings = dump (JObject
     [(''schema_version'', JInt schemaVersion), (''command'', JString command),
      (''operation'', JString operation), (''data'', JObject []),
      (''warnings'', warningValues warnings)])"

definition JsonSerializer_process :: "json_dump \<Rightarrow> ProcessInfo Observation \<Rightarrow> bool \<Rightarrow> string option" where
  "JsonSerializer_process dump v rawCommand =
     dump (envelope ''process'' ''inspect''
       (JObject [(''process'', processValue (ob_value v) rawCommand)]) (ob_warnings v))"

definition JsonSerializer_processes :: "json_dump \<Rightarrow> ProcessInfo list Observation \<Rightarrow> string option" where
  "JsonSerializer_processes dump v =
     dump (envelope ''process'' ''list''
       (JObject [(''processes'', JArray (map (\<lambda>process. processValue process False) (ob_value v)))])
       (ob_warnings v))"

definition JsonSerializer_ports ::
  "json_dump \<Rightarrow> PortInfo list Observation \<Rightarrow> string \<Rightarrow> string option" where
  "JsonSerializer_ports dump v operation =
     dump (envelope ''port'' operation (JObject [(''ports'', JArray (map portValue (ob_value v)))])
       (ob_warnings v))"

definition JsonSerializer_service :: "json_dump \<Rightarrow> ServiceInfo Observation \<Rightarrow> string option" where
  "JsonSerializer_service dump v =
     dump (envelope ''service'' ''inspect'' (JObject [(''service'', serviceValue (ob_value v))])
       (ob_warnings v))"

definition JsonSerializer_services :: "json_dump \<Rightarrow> ServiceInfo list Observation \<Rightarrow> string option" where
  "JsonSerializer_services dump v =
     dump (envelope ''service'' ''list''
       (JObject [(''services'', JArray (map serviceValue (ob_value v)))]) (ob_warnings v))"

definition JsonSerializer_logs :: "json_dump \<Rightarrow> JournalEntry list Observation \<Rightarrow> string option" where
  "JsonSerializer_logs dump v =
     dump (envelope ''log'' ''read'' (JObject [(''entries'', JArray (map journalValue (ob_value v)))])
       (ob_warnings v))"

definition JsonSerializer_logEvent :: "json_dump \<Rightarrow> JournalEntry Observation \<Rightarrow> string option" where
  "JsonSerializer_logEvent dump v =
     dump (envelope ''log'' ''follow'' (JObject [(''entry'', journalValue (ob_value v))])
       (ob_warnings v))"

definition JsonSerializer_doctor :: "json_dump \<Rightarrow> DoctorReport \<Rightarrow> string option" where
  "JsonSerializer_doctor dump v =
     dump (envelope ''doctor'' ''inspect''
       (JObject [(''checks'', JArray (map (\<lambda>check. JObject
          [(''name'', JString (cc_name check)), (''status'', JString (capabilityName (cc_status check))),
           (''detail'', JString (cc_detail check))]) v))]) [])"

definition JsonSerializer_inspect :: "json_dump \<Rightarrow> ResourceGraph \<Rightarrow> string option" where
  "JsonSerializer_inspect dump v =
     dump (envelope ''inspect'' ''inspect''
       (JObject [(''root'', resourceTargetValue (rg_root v)), (''ports'', portValues (rg_ports v)),
          (''processes'', processValues (rg_processes v)), (''services'', serviceValues (rg_services v)),
          (''recent_logs'', journalValues (rg_recentLogs v))])
       (rg_warnings v))"

definition JsonSerializer_find :: "json_dump \<Rightarrow> FindResult \<Rightarrow> string option" where
  "JsonSerializer_find dump v =
     dump (envelope ''find'' ''search''
       (JObject [(''services'', serviceValues (fr_services v)),
          (''processes'', processValues (fr_processes v)), (''ports'', portValues (fr_ports v)),
          (''executables'', JArray (map JString (fr_executables v)))])
       (fr_warnings v))"

definition JsonSerializer_status :: "json_dump \<Rightarrow> HostStatus \<Rightarrow> string option" where
  "JsonSerializer_status dump v =
     dump (envelope ''status'' ''read''
       (JObject [(''status'', JObject
          [(''hostname'', JString (hs_hostname v)), (''cpu_percent'', optionalReal (hs_cpuPercent v)),
           (''memory_total_bytes'', JInt (uint (hs_memoryTotalBytes v))),
           (''memory_used_bytes'', JInt (uint (hs_memoryUsedBytes v))),
           (''uptime_milliseconds'', JInt (hs_uptime v))])]) [])"

section \<open>What redaction hides\<close>

text \<open>
  An argument is a secret flag when it is one of the secret keys after its dashes, without an equals
  sign; then the argument that follows is the secret. An argument is a secret assignment when the text
  before its first equals sign is such a key; then the rest is the secret.
\<close>

definition secret_flag :: "string \<Rightarrow> bool" where
  "secret_flag x \<longleftrightarrow> CHR ''='' \<notin> set x \<and> secretKey (dropWhile (\<lambda>c. c = CHR ''-'') x)"

definition secret_assignment :: "string \<Rightarrow> bool" where
  "secret_assignment x \<longleftrightarrow> (\<exists>k v. x = k @ ''='' @ v \<and> secret_flag k)"

text \<open>Two command lines that agree everywhere but in their secrets.\<close>

inductive same_but_secrets :: "string list \<Rightarrow> string list \<Rightarrow> bool" where
  empty: "same_but_secrets [] []"
| plain: "same_but_secrets xs ys \<Longrightarrow> \<not> secret_flag x \<Longrightarrow> \<not> secret_assignment x \<Longrightarrow>
    same_but_secrets (x # xs) (x # ys)"
| last_flag: "secret_flag k \<Longrightarrow> same_but_secrets [k] [k]"
| flag: "same_but_secrets xs ys \<Longrightarrow> secret_flag k \<Longrightarrow> same_but_secrets (k # v # xs) (k # v' # ys)"
| assignment: "same_but_secrets xs ys \<Longrightarrow> secret_flag k \<Longrightarrow>
    same_but_secrets ((k @ ''='' @ v) # xs) ((k @ ''='' @ v') # ys)"

text \<open>
  The contract of a redacting loop. The program has two copies of it, one for the JSON documents and
  one for the text output.
\<close>

locale redaction =
  fixes redact :: "bool \<Rightarrow> string list \<Rightarrow> string list"
  assumes redact_Nil: "redact b [] = []"
    and redact_next: "redact True (x # xs) = ''<redacted>'' # redact False xs"
    and redact_flag: "secret_flag k \<Longrightarrow> redact False (k # xs) = k # redact True xs"
    and redact_assignment:
      "secret_flag k \<Longrightarrow> redact False ((k @ ''='' @ v) # xs) = (k @ ''=<redacted>'') # redact False xs"
    and redact_plain: "\<not> secret_flag x \<Longrightarrow> \<not> secret_assignment x \<Longrightarrow>
      redact False (x # xs) = x # redact False xs"
begin

lemma argument_cases:
  obtains (flag) "secret_flag x" "redact False (x # xs) = x # redact True xs"
  | (assignment) k v where "x = k @ ''='' @ v" "secret_flag k"
      "redact False (x # xs) = (k @ ''=<redacted>'') # redact False xs"
  | (plain) "\<not> secret_flag x" "\<not> secret_assignment x" "redact False (x # xs) = x # redact False xs"
  using redact_flag redact_assignment redact_plain unfolding secret_assignment_def by metis

lemma redact_length: "length (redact b xs) = length xs"
proof (induction xs arbitrary: b)
  case (Cons x xs)
  then show ?case by (cases b; cases rule: argument_cases [of x xs]) (simp_all add: redact_next)
qed (simp add: redact_Nil)

lemma redact_eq_Nil [simp]: "redact b xs = [] \<longleftrightarrow> xs = []"
  by (metis redact_length length_0_conv)

lemma hides_secrets: "same_but_secrets xs ys \<Longrightarrow> redact False xs = redact False ys"
  by (induction rule: same_but_secrets.induct)
     (simp_all add: redact_Nil redact_next redact_flag redact_plain redact_assignment [simplified])

lemma assignment_not_flag: "secret_flag k \<Longrightarrow> \<not> secret_flag (k @ ''='' @ v)"
  by (simp add: secret_flag_def)

text \<open>The redacted form of an argument determines which of the three it was, and all but its secret.\<close>

lemma head_shows:
  assumes "hd (redact False (x # xs)) = hd (redact False (y # ys))"
  shows "secret_flag x \<and> y = x \<or> \<not> secret_flag x \<and> \<not> secret_assignment x \<and> y = x \<or>
    (\<exists>k v v'. secret_flag k \<and> x = k @ ''='' @ v \<and> y = k @ ''='' @ v')"
proof -
  have unassigned: "z \<noteq> k @ ''=<redacted>''" if "secret_flag k" "\<not> secret_assignment z" for z k
    using that unfolding secret_assignment_def by (metis append_Cons append_Nil)
  have flagless: "z \<noteq> k @ ''=<redacted>''" if "secret_flag z" for z k
    using that by (auto simp: secret_flag_def)
  show ?thesis
  proof (cases rule: argument_cases [of x xs])
    case flag
    with assms have y: "hd (redact False (y # ys)) = x" by simp
    show ?thesis
      by (cases rule: argument_cases [of y ys]) (use y flag flagless in fastforce)+
  next
    case (assignment k v)
    with assms have y: "hd (redact False (y # ys)) = k @ ''=<redacted>''" by simp
    show ?thesis
    proof (cases rule: argument_cases [of y ys])
      case (assignment k' v')
      with y have "k' = k" by simp
      with assignment \<open>x = k @ ''='' @ v\<close> show ?thesis by blast
    qed (use y assignment flagless unassigned in fastforce)+
  next
    case plain
    with assms have y: "hd (redact False (y # ys)) = x" by simp
    show ?thesis
    proof (cases rule: argument_cases [of y ys])
      case (assignment k' v')
      with y plain unassigned show ?thesis by fastforce
    qed (use y plain in auto)
  qed
qed

lemma shows_rest: "redact False xs = redact False ys \<Longrightarrow> same_but_secrets xs ys"
proof (induction xs arbitrary: ys rule: length_induct)
  case (1 xs)
  show ?case
  proof (cases xs)
    case Nil
    with "1.prems" have "ys = []" by (simp add: redact_Nil) (metis redact_eq_Nil)
    with Nil show ?thesis by (simp add: same_but_secrets.empty)
  next
    case (Cons x xs')
    with "1.prems" obtain y ys' where ys: "ys = y # ys'"
      by (metis redact_eq_Nil list.exhaust)
    have IH: "same_but_secrets us vs" if "redact False us = redact False vs" "length us < length xs" for us vs
      using "1.IH" that by blast
    have heads: "hd (redact False (x # xs')) = hd (redact False (y # ys'))"
      using "1.prems" Cons ys by simp
    from head_shows [OF heads] consider "secret_flag x" "y = x"
      | "\<not> secret_flag x" "\<not> secret_assignment x" "y = x"
      | k v v' where "secret_flag k" "x = k @ ''='' @ v" "y = k @ ''='' @ v'"
      by blast
    then show ?thesis
    proof cases
      case 1
      then have tails: "redact True xs' = redact True ys'"
        using "1.prems" Cons ys by (simp add: redact_flag)
      show ?thesis
      proof (cases xs')
        case Nil
        then have "ys' = []" using tails redact_eq_Nil redact_Nil by metis
        with 1 Nil Cons ys show ?thesis by (simp add: same_but_secrets.last_flag)
      next
        case (Cons w ws)
        then obtain w' ws' where "ys' = w' # ws'" using tails by (metis redact_eq_Nil list.exhaust)
        with Cons tails have "redact False ws = redact False ws'" "ys' = w' # ws'"
          by (simp_all add: redact_next)
        with IH [of ws ws'] 1 Cons \<open>xs = x # xs'\<close> ys show ?thesis
          by (simp add: same_but_secrets.flag)
      qed
    next
      case 2
      then have "redact False xs' = redact False ys'"
        using "1.prems" Cons ys by (simp add: redact_plain)
      with IH [of xs' ys'] 2 Cons ys show ?thesis by (simp add: same_but_secrets.plain)
    next
      case 3
      then have "redact False xs' = redact False ys'"
        using "1.prems" Cons ys redact_assignment by auto
      with IH [of xs' ys'] 3 Cons ys show ?thesis
        using same_but_secrets.assignment [of xs' ys' k v v'] by simp
    qed
  qed
qed

lemma exactly_secrets: "redact False xs = redact False ys \<longleftrightarrow> same_but_secrets xs ys"
  using hides_secrets shows_rest by blast

end

lemma str_find_first: "CHR ''='' \<notin> set k \<Longrightarrow> str_find CHR ''='' (k @ ''='' @ v) 0 = Some (length k)"
  by (auto simp: str_find_def intro!: find_index_append)

lemma str_find_absent: "CHR ''='' \<notin> set x \<Longrightarrow> str_find CHR ''='' x 0 = None"
  by (auto simp: str_find_def find_index_None)

lemma split_at_equals:
  assumes "str_find CHR ''='' x 0 = Some i"
  shows "x = substr x 0 i @ ''='' @ drop (Suc i) x" "CHR ''='' \<notin> set (substr x 0 i)"
proof -
  have i: "i < length x" "x ! i = CHR ''=''" "\<forall>j < i. x ! j \<noteq> CHR ''=''"
    using assms by (auto simp: str_find_def find_index_Some)
  then show "x = substr x 0 i @ ''='' @ drop (Suc i) x"
    using id_take_nth_drop [of i x] by (simp add: substr_def)
  show "CHR ''='' \<notin> set (substr x 0 i)"
    using i by (auto simp: substr_def in_set_conv_nth)
qed

lemma not_secret_argument:
  assumes "\<not> secret_flag x" "\<not> secret_assignment x"
  shows "\<not> secretKey (dropWhile (\<lambda>c. c = CHR ''-'')
     (case str_find CHR ''='' x 0 of None \<Rightarrow> x | Some i \<Rightarrow> substr x 0 i))"
proof (cases "str_find CHR ''='' x 0")
  case None
  then have "CHR ''='' \<notin> set x" by (auto simp: str_find_def find_index_None)
  with None assms(1) show ?thesis by (simp add: secret_flag_def)
next
  case (Some i)
  from split_at_equals [OF this] assms(2) have "\<not> secret_flag (substr x 0 i)"
    unfolding secret_assignment_def by blast
  with Some split_at_equals(2) [OF Some] show ?thesis by (simp add: secret_flag_def)
qed

interpretation json_redaction: redaction redactLoop
proof unfold_locales
  fix k v xs
  assume k: "secret_flag k"
  then have "CHR ''='' \<notin> set k" by (simp add: secret_flag_def)
  from str_find_first [OF this, of v] k
  show "redactLoop False ((k @ ''='' @ v) # xs) = (k @ ''=<redacted>'') # redactLoop False xs"
    by (simp add: substr_def secret_flag_def)
qed (simp_all add: secret_flag_def str_find_absent not_secret_argument Let_def)

section \<open>What a reader recovers\<close>

lemma map_eq_map_list_all2:
  "(\<And>x y. f x = f y \<longleftrightarrow> R x y) \<Longrightarrow> map f xs = map f ys \<longleftrightarrow> list_all2 R xs ys"
  by (simp add: list_all2_conv_all_nth list_eq_iff_nth_eq) (metis nth_map)

lemma uint_inj_iff [simp]: "uint a = uint b \<longleftrightarrow> a = b"
  by (simp add: word_uint_eq_iff)

lemma errorCodeName_inject [simp]: "errorCodeName a = errorCodeName b \<longleftrightarrow> a = b"
  unfolding errorCodeName_def by (cases a; cases b) simp_all

lemma warningValue_inject [simp]: "warningValue a = warningValue b \<longleftrightarrow> a = b"
  by (cases a; cases b) (auto simp: warningValue_def)

lemma warningValues_inject [simp]: "warningValues a = warningValues b \<longleftrightarrow> a = b"
  by (simp add: warningValues_def map_eq_map_list_all2 [where R = "(=)"] list.rel_eq)

lemma optionalString_inject [simp]: "optionalString a = optionalString b \<longleftrightarrow> a = b"
  by (cases a; cases b) (simp_all add: optionalString_def)

lemma optionalReal_inject [simp]: "optionalReal a = optionalReal b \<longleftrightarrow> a = b"
  by (cases a; cases b) (simp_all add: optionalReal_def)

lemma optionalPid_inject [simp]: "optionalPid a = optionalPid b \<longleftrightarrow> a = b"
  by (cases a; cases b) (simp_all add: optionalPid_def)

lemma endpointValue_inject [simp]: "endpointValue a = endpointValue b \<longleftrightarrow> a = b"
  by (cases a; cases b) (auto simp: endpointValue_def)

lemma optionalEndpoint_inject [simp]:
  "(case a of None \<Rightarrow> JNull | Some e \<Rightarrow> endpointValue e) =
   (case b of None \<Rightarrow> JNull | Some e \<Rightarrow> endpointValue e) \<longleftrightarrow> a = b"
proof -
  have "endpointValue e \<noteq> JNull" for e by (simp add: endpointValue_def)
  then show ?thesis by (cases a; cases b) (auto dest: sym)
qed

lemma transport_name_inject [simp]:
  "((if p = Tcp then ''tcp'' else ''udp'') = (if q = Tcp then ''tcp'' else ''udp'')) \<longleftrightarrow> p = q"
  by (cases p; cases q) simp_all

lemma family_name_inject [simp]:
  "((if p = IPv4 then ''ipv4'' else ''ipv6'') = (if q = IPv4 then ''ipv4'' else ''ipv6'')) \<longleftrightarrow> p = q"
  by (cases p; cases q) simp_all

lemma socketValue_inject [simp]: "socketValue a = socketValue b \<longleftrightarrow> a = b"
proof
  assume "socketValue a = socketValue b"
  then show "a = b"
    unfolding socketValue_def
    by (intro SocketInfo.equality) (simp_all add: inj_map_eq_map inj_def)
qed simp

lemma serviceValue_inject [simp]: "serviceValue a = serviceValue b \<longleftrightarrow> a = b"
proof
  assume "serviceValue a = serviceValue b"
  then show "a = b" unfolding serviceValue_def by (intro ServiceInfo.equality) simp_all
qed simp

text \<open>Processes and ports that agree in everything but the secrets of their command lines.\<close>

definition same_process :: "ProcessInfo \<Rightarrow> ProcessInfo \<Rightarrow> bool" where
  "same_process p q \<longleftrightarrow>
     q = p\<lparr>pi_argv := pi_argv q\<rparr> \<and> same_but_secrets (pi_argv p) (pi_argv q)"

definition same_port :: "PortInfo \<Rightarrow> PortInfo \<Rightarrow> bool" where
  "same_port p q \<longleftrightarrow> po_socket p = po_socket q \<and> list_all2 same_process (po_owners p) (po_owners q)"

lemma arguments_exact: "arguments xs False = arguments ys False \<longleftrightarrow> same_but_secrets xs ys"
  by (simp add: arguments_def json_redaction.exactly_secrets)

lemma processValue_iff: "processValue p False = processValue q False \<longleftrightarrow> same_process p q"
proof
  assume "processValue p False = processValue q False"
  then show "same_process p q"
    unfolding processValue_def same_process_def
    by (auto simp: inj_map_eq_map inj_def arguments_exact [symmetric] intro: ProcessInfo.equality)
next
  assume same: "same_process p q"
  then obtain a where q: "q = p\<lparr>pi_argv := a\<rparr>" unfolding same_process_def by blast
  with same have "arguments (pi_argv p) False = arguments a False"
    by (simp add: same_process_def arguments_exact)
  then show "processValue p False = processValue q False" by (simp add: processValue_def q)
qed

lemma portValue_iff: "portValue p = portValue q \<longleftrightarrow> same_port p q"
  by (simp add: portValue_def same_port_def map_eq_map_list_all2 [OF processValue_iff])

section \<open>Properties\<close>

text \<open>
  C31. Redaction hides exactly the secrets: two command lines are shown alike if and only if they
  differ in nothing but the values of secret keys, whether a value follows its key as the next
  argument or after an equals sign; and \<open>--raw-command\<close> shows the command line as it is.
\<close>

theorem JsonSerializer_arguments_exact:
  "(arguments xs False = arguments ys False \<longleftrightarrow> same_but_secrets xs ys) \<and> arguments xs True = xs"
  using arguments_exact by (simp add: arguments_def)

end
