(* ===== verification/CliText.thy ===== *)
theory CliText
  imports JsonSerializer "HOL-Library.Signed_Division"
begin

text \<open>
  The text output of \<open>src/cli/CliApp.cpp\<close>: the functions of its anonymous namespace that turn results
  into tables and reports. A function that writes to one stream returns the text it writes; one that
  writes to the output and to the diagnostics returns the two texts.

  Three things are not code of the program and are fields of the record \<open>Formats\<close>: \<open>fmt::format\<close>
  (the format string and its arguments), \<open>localtime_r\<close> followed by \<open>std::put_time\<close> with the format
  \<open>%F %T\<close> (\<open>None\<close> where the first fails), and the rounding of floating-point operations.
\<close>

datatype fmt_arg = FmtStr string | FmtInt int | FmtReal real

record Formats =
  fm_format :: "string \<Rightarrow> fmt_arg list \<Rightarrow> string"
  fm_localTime :: "int \<Rightarrow> string option"
  fm_round :: "real \<Rightarrow> real"

section \<open>Small texts\<close>

definition statusText :: "CapabilityStatus \<Rightarrow> string" where
  "statusText status =
     (case status of
        Available \<Rightarrow> ''OK''
      | CapUnavailable \<Rightarrow> ''unavailable''
      | NotImplemented \<Rightarrow> ''not implemented'')"

definition printDoctorReport :: "Formats \<Rightarrow> DoctorReport \<Rightarrow> string" where
  "printDoctorReport F report =
     ''LX Doctor\<newline>\<newline>'' @
     concat (map (\<lambda>check.
       fm_format F ''{:<20} {}\<newline>'' [FmtStr (cc_name check), FmtStr (statusText (cc_status check))] @
       fm_format F ''  {}\<newline>'' [FmtStr (cc_detail check)]) report)"

definition cli_lower :: "string \<Rightarrow> string" where
  "cli_lower s = map tolower s"

text \<open>What \<open>confirm\<close> makes of the line it read; \<open>None\<close> when there was none.\<close>

definition confirmed :: "string option \<Rightarrow> bool \<Rightarrow> bool" where
  "confirmed line defaultYes =
     (case line of
        None \<Rightarrow> False
      | Some answer \<Rightarrow>
          (let trimmed = rev (dropWhile isspace (rev (dropWhile isspace answer))) in
           if trimmed = [] then defaultYes
           else cli_lower trimmed = ''y'' \<or> cli_lower trimmed = ''yes''))"

definition mechanismName :: "SignalMechanism \<Rightarrow> string" where
  "mechanismName mechanism = (if mechanism = ViaPidFd then ''pidfd'' else ''kill(2)'')"

definition isSecretKey :: "string \<Rightarrow> bool" where
  "isSecretKey key =
     (let normalized = cli_lower key in
      normalized = ''password'' \<or> normalized = ''passwd'' \<or> normalized = ''token'' \<or>
      normalized = ''api-key'' \<or> normalized = ''apikey'' \<or> normalized = ''secret'' \<or>
      normalized = ''database_url'')"

fun displayLoop :: "bool \<Rightarrow> string list \<Rightarrow> string list" where
  "displayLoop redactNext [] = []"
| "displayLoop redactNext (argument # rest) =
     (if redactNext then ''<redacted>'' # displayLoop False rest
      else
        (let equal = str_find CHR ''='' argument 0;
             key = dropWhile (\<lambda>c. c = CHR ''-'')
               (case equal of None \<Rightarrow> argument | Some i \<Rightarrow> substr argument 0 i) in
         if isSecretKey key
         then (case equal of
                 None \<Rightarrow> argument # displayLoop True rest
               | Some i \<Rightarrow> (substr argument 0 (i + 1) @ ''<redacted>'') # displayLoop False rest)
         else argument # displayLoop False rest))"

definition displayedArguments :: "string list \<Rightarrow> bool \<Rightarrow> string list" where
  "displayedArguments args raw = (if raw then args else displayLoop False args)"

text \<open>The loop that separates list elements, shared by three functions of the source.\<close>

fun joinWith :: "char \<Rightarrow> string list \<Rightarrow> string" where
  "joinWith sep [] = []"
| "joinWith sep [x] = x"
| "joinWith sep (x # y # rest) = x @ sep # joinWith sep (y # rest)"

definition joinArguments :: "string list \<Rightarrow> string" where
  "joinArguments args = joinWith CHR '' '' args"

section \<open>Owners of a port\<close>

text \<open>A comma is written before every name but while nothing has been written yet.\<close>

fun ownerNamesLoop :: "PortInfo \<Rightarrow> pid list \<Rightarrow> string \<Rightarrow> string" where
  "ownerNamesLoop port [] joined = joined"
| "ownerNamesLoop port (pid # rest) joined =
     ownerNamesLoop port rest
       ((if joined \<noteq> [] then joined @ '','' else joined) @
        (case find (\<lambda>process. pi_pid process = pid) (po_owners port) of
           None \<Rightarrow> ''<unavailable>''
         | Some owner \<Rightarrow> pi_name owner))"

definition ownerNames :: "PortInfo \<Rightarrow> string" where
  "ownerNames port =
     (if so_ownerPids (po_socket port) = [] then ''unresolved''
      else ownerNamesLoop port (so_ownerPids (po_socket port)) [])"

definition ownerPids :: "PortInfo \<Rightarrow> string" where
  "ownerPids port =
     (if so_ownerPids (po_socket port) = [] then ''-''
      else joinWith CHR '','' (map int_str (so_ownerPids (po_socket port))))"

fun ownerUnits :: "ProcessInfo list \<Rightarrow> string list \<Rightarrow> string list" where
  "ownerUnits [] units = units"
| "ownerUnits (owner # rest) units =
     ownerUnits rest
       (case pi_systemdUnit owner of
          None \<Rightarrow> units
        | Some unit \<Rightarrow> if unit \<in> set units then units else units @ [unit])"

definition ownerServices :: "PortInfo \<Rightarrow> string" where
  "ownerServices port =
     (let units = ownerUnits (po_owners port) [] in
      if units = [] then ''-'' else joinWith CHR '','' units)"

fun processNameIn :: "PortInfo list \<Rightarrow> pid \<Rightarrow> string" where
  "processNameIn [] pid = ''<unavailable>''"
| "processNameIn (port # rest) pid =
     (case find (\<lambda>process. pi_pid process = pid) (po_owners port) of
        Some owner \<Rightarrow> pi_name owner
      | None \<Rightarrow> processNameIn rest pid)"

definition processName :: "PortReleasePlan \<Rightarrow> pid \<Rightarrow> string" where
  "processName plan pid = processNameIn (rp_ports plan) pid"

section \<open>Cells and lines\<close>

definition tableCell :: "string \<Rightarrow> nat \<Rightarrow> string" where
  "tableCell s width =
     (let cell = (if length s \<le> width then s
                  else if width > 3 then substr s 0 (width - 3) @ ''...''
                  else substr s 0 width) in
      cell @ replicate (width - length cell) CHR '' '')"

definition shortened :: "string \<Rightarrow> nat \<Rightarrow> string" where
  "shortened s width =
     (if length s \<le> width then s
      else if width > 3 then substr s 0 (width - 3) @ ''...'' else substr s 0 width)"

definition escapedLogCharacter :: "Formats \<Rightarrow> char \<Rightarrow> string" where
  "escapedLogCharacter F c =
     (if char_code c = 10 then [CHR 0x5C, CHR ''n'']
      else if char_code c = 13 then [CHR 0x5C, CHR ''r'']
      else if char_code c = 9 then [CHR 0x5C, CHR ''t'']
      else if char_code c < 0x20 \<or> char_code c = 0x7f
      then fm_format F (CHR 0x5C # ''x{:02x}'') [FmtInt (int (char_code c))]
      else [c])"

fun safeLogLoop :: "Formats \<Rightarrow> nat \<Rightarrow> string \<Rightarrow> string \<Rightarrow> string" where
  "safeLogLoop F limit [] acc = acc"
| "safeLogLoop F limit (c # rest) acc =
     (if limit \<le> length acc then acc @ ''...''
      else safeLogLoop F limit rest (acc @ escapedLogCharacter F c))"

definition safeLogText :: "Formats \<Rightarrow> string \<Rightarrow> nat \<Rightarrow> string" where
  "safeLogText F s limit = safeLogLoop F limit s []"

definition priorityText :: "u8 option \<Rightarrow> string" where
  "priorityText priority =
     (case priority of
        None \<Rightarrow> ''unknown''
      | Some p \<Rightarrow>
          (if p < 8
           then [''emerg'', ''alert'', ''crit'', ''err'', ''warning'', ''notice'', ''info'', ''debug''] ! unat p
           else ''unknown''))"

definition timestampText :: "Formats \<Rightarrow> u64 \<Rightarrow> string" where
  "timestampText F timestampUsec =
     (if timestampUsec = 0 then ''-''
      else (case fm_localTime F (uint (timestampUsec div 1000000)) of None \<Rightarrow> ''-'' | Some t \<Rightarrow> t))"

definition logTimestamp :: "Formats \<Rightarrow> int \<Rightarrow> string" where
  "logTimestamp F timestamp =
     (case fm_localTime F (timestamp sdiv 1000000000) of None \<Rightarrow> ''-'' | Some t \<Rightarrow> t)"

definition mebibytes :: "Formats \<Rightarrow> u64 \<Rightarrow> real" where
  "mebibytes F bytes = fm_round F (fm_round F (real (unat bytes)) / (1024 * 1024))"

definition warningLines :: "Warning list \<Rightarrow> string" where
  "warningLines warnings = concat (map (\<lambda>warning. ''Warning: '' @ wn_message warning @ ''\<newline>'') warnings)"

section \<open>Reports\<close>

definition printReleasePlan :: "Formats \<Rightarrow> PortReleasePlan \<Rightarrow> string" where
  "printReleasePlan F plan =
     fm_format F ''Port {} is owned by:\<newline>\<newline>'' [FmtInt (uint (rp_localPort plan))] @
     ''PID      PROCESS\<newline>'' @
     concat (map (\<lambda>pid. fm_format F ''{:<8} {}\<newline>'' [FmtInt pid, FmtStr (processName plan pid)])
       (rp_ownerPids plan)) @
     ''\<newline>'' @
     (case rp_recommendedUnit plan of
        None \<Rightarrow> []
      | Some unit \<Rightarrow> fm_format F
          ''All owners belong to {}.\<newline>Recommended action: stop the service instead of signaling its processes.\<newline>\<newline>''
          [FmtStr unit])"

definition value_or :: "'a option \<Rightarrow> 'a \<Rightarrow> 'a" where
  "value_or v d = (case v of None \<Rightarrow> d | Some x \<Rightarrow> x)"

definition printProcess :: "Formats \<Rightarrow> ProcessInfo Observation \<Rightarrow> bool \<Rightarrow> bool \<Rightarrow> string" where
  "printProcess F observed raw quietly =
     (let process = ob_value observed in
      fm_format F ''Process {}\<newline>\<newline>'' [FmtInt (pi_pid process)] @
      fm_format F ''Name        {}\<newline>State       {}\<newline>PPID        {}\<newline>''
        [FmtStr (pi_name process), FmtStr (pi_state process), FmtInt (pi_ppid process)] @
      fm_format F ''User        {} ({})\<newline>Threads     {}\<newline>RSS         {:.1f} MiB\<newline>''
        [FmtStr (pi_user process), FmtInt (uint (pi_uid process)), FmtInt (uint (pi_threads process)),
         FmtReal (mebibytes F (pi_rssBytes process))] @
      fm_format F ''CPU         {}\<newline>''
        [FmtStr (case pi_cpuPercent process of None \<Rightarrow> ''-'' | Some c \<Rightarrow> fm_format F ''{:.1f}%'' [FmtReal c])] @
      fm_format F ''Executable  {}\<newline>CWD         {}\<newline>''
        [FmtStr (value_or (pi_executable process) ''<unavailable>''),
         FmtStr (value_or (pi_cwd process) ''<unavailable>'')] @
      ''\<newline>Command\<newline>  '' @ joinArguments (displayedArguments (pi_argv process) raw) @ ''\<newline>'' @
      ''\<newline>Service\<newline>  '' @ value_or (pi_systemdUnit process) ''<none>'' @ ''\<newline>'' @
      (if \<not> quietly \<and> ob_warnings observed \<noteq> []
       then ''\<newline>Warnings\<newline>'' @
         concat (map (\<lambda>warning. ''  '' @ wn_message warning @ ''\<newline>'') (ob_warnings observed))
       else []))"

definition printProcesses :: "Formats \<Rightarrow> ProcessInfo list Observation \<Rightarrow> string \<times> string" where
  "printProcesses F observed =
     (''PID      USER             STATE          CPU %   RSS MiB   THREADS  NAME                     SERVICE\<newline>'' @
      concat (map (\<lambda>process.
        fm_format F ''{:<8} {:<16} {:<14} {:>6} {:>9.1f} {:>8}  {:<24} {}\<newline>''
          [FmtInt (pi_pid process), FmtStr (shortened (pi_user process) 16),
           FmtStr (shortened (pi_state process) 14),
           FmtStr (case pi_cpuPercent process of None \<Rightarrow> ''-'' | Some c \<Rightarrow> fm_format F ''{:.1f}'' [FmtReal c]),
           FmtReal (mebibytes F (pi_rssBytes process)), FmtInt (uint (pi_threads process)),
           FmtStr (shortened (pi_name process) 24), FmtStr (value_or (pi_systemdUnit process) ''-'')])
        (ob_value observed)),
      warningLines (ob_warnings observed))"

definition printStatus :: "Formats \<Rightarrow> HostStatus \<Rightarrow> string" where
  "printStatus F status =
     (let uptimeSeconds = hs_uptime status sdiv 1000;
          days = uptimeSeconds sdiv 86400;
          hours = (uptimeSeconds smod 86400) sdiv 3600;
          minutes = (uptimeSeconds smod 3600) sdiv 60 in
      fm_format F
        ''Host      {}\<newline>CPU       {}\<newline>Memory    {:.1f} / {:.1f} MiB ({:.1f}%)\<newline>Uptime    {}d {:02}h {:02}m\<newline>''
        [FmtStr (hs_hostname status),
         FmtStr (case hs_cpuPercent status of None \<Rightarrow> ''-'' | Some c \<Rightarrow> fm_format F ''{:.1f}%'' [FmtReal c]),
         FmtReal (mebibytes F (hs_memoryUsedBytes status)),
         FmtReal (mebibytes F (hs_memoryTotalBytes status)),
         FmtReal (if hs_memoryTotalBytes status = 0 then 0
                  else fm_round F (fm_round F (100 * fm_round F (real (unat (hs_memoryUsedBytes status)))) /
                         fm_round F (real (unat (hs_memoryTotalBytes status))))),
         FmtInt days, FmtInt hours, FmtInt minutes])"

definition attachCpuToOne :: "ProcessInfo \<Rightarrow> MetricsView \<Rightarrow> ProcessInfo" where
  "attachCpuToOne process metrics =
     (case mv_processCpuPercent metrics (pi_pid process) of
        None \<Rightarrow> process
      | Some percent \<Rightarrow> process\<lparr>pi_cpuPercent := Some percent\<rparr>)"

definition attachCpuToAll :: "ProcessInfo list Observation \<Rightarrow> MetricsView \<Rightarrow> ProcessInfo list Observation" where
  "attachCpuToAll observed metrics =
     observed\<lparr>ob_value := map (\<lambda>process.
       case mv_processCpuPercent metrics (pi_pid process) of
         None \<Rightarrow> process
       | Some percent \<Rightarrow> process\<lparr>pi_cpuPercent := Some percent\<rparr>) (ob_value observed)\<rparr>"

definition printJournalEntry :: "Formats \<Rightarrow> JournalEntry Observation \<Rightarrow> string \<times> string" where
  "printJournalEntry F observed =
     (let entry = ob_value observed;
          source = value_or (je_systemdUnit entry) ''-'' @
            (case je_pid entry of None \<Rightarrow> [] | Some p \<Rightarrow> ''['' @ int_str p @ '']'') @
            (case je_command entry of None \<Rightarrow> [] | Some c \<Rightarrow> '' '' @ shortened c 24) in
      (fm_format F ''{} {:<7} {}: {}\<newline>''
         [FmtStr (logTimestamp F (je_timestamp entry)), FmtStr (priorityText (je_priority entry)),
          FmtStr (shortened source 56), FmtStr (safeLogText F (je_message entry) 4096)],
       warningLines (ob_warnings observed)))"

definition printJournalEntries :: "Formats \<Rightarrow> JournalEntry list Observation \<Rightarrow> string \<times> string" where
  "printJournalEntries F observed =
     (concat (map (\<lambda>entry. fst (printJournalEntry F \<lparr>ob_value = entry, ob_warnings = []\<rparr>)) (ob_value observed)),
      warningLines (ob_warnings observed))"

definition serviceRow :: "string \<Rightarrow> string \<Rightarrow> string \<Rightarrow> string \<Rightarrow> string \<Rightarrow> string" where
  "serviceRow unit active sub enabled pid =
     tableCell unit 40 @ '' '' @ tableCell active 12 @ '' '' @ tableCell sub 16 @ '' '' @
     tableCell enabled 16 @ '' '' @ pid @ ''\<newline>''"

definition printServices :: "ServiceInfo list Observation \<Rightarrow> string \<times> string" where
  "printServices observed =
     (serviceRow ''SERVICE'' ''ACTIVE'' ''SUB'' ''ENABLED'' ''MAIN PID'' @
      concat (map (\<lambda>service.
        serviceRow (si_unitName service) (si_activeState service) (si_subState service)
          (if si_unitFileState service = [] then ''-'' else si_unitFileState service)
          (case si_mainPid service of None \<Rightarrow> ''-'' | Some p \<Rightarrow> int_str p)) (ob_value observed)),
      warningLines (ob_warnings observed))"

definition printService :: "Formats \<Rightarrow> ServiceInfo Observation \<Rightarrow> string \<times> string" where
  "printService F observed =
     (let service = ob_value observed in
      (si_unitName service @ ''\<newline>\<newline>'' @
       fm_format F
         ''Description  {}\<newline>Load         {}\<newline>Active       {}\<newline>Sub          {}\<newline>Enabled      {}\<newline>Main PID     {}\<newline>Since        {}\<newline>''
         [FmtStr (si_description service), FmtStr (si_loadState service), FmtStr (si_activeState service),
          FmtStr (si_subState service),
          FmtStr (if si_unitFileState service = [] then ''-'' else si_unitFileState service),
          FmtStr (case si_mainPid service of None \<Rightarrow> ''-'' | Some p \<Rightarrow> int_str p),
          FmtStr (timestampText F (si_activeEnterTimestampUsec service))],
       warningLines (ob_warnings observed)))"

definition protocolText :: "SocketInfo \<Rightarrow> string" where
  "protocolText socket = (if so_protocol socket = Tcp then ''TCP'' else ''UDP'')"

definition printResourceGraph :: "Formats \<Rightarrow> ResourceGraph \<Rightarrow> string \<times> string" where
  "printResourceGraph F graph =
     ((case rg_root graph of
         PortTarget port \<Rightarrow> fm_format F ''Port {}\<newline>'' [FmtInt (uint port)]
       | ProcessTarget pid \<Rightarrow> fm_format F ''Process {}\<newline>'' [FmtInt pid]
       | ServiceTarget unit \<Rightarrow> unit @ ''\<newline>'') @
      (if rg_ports graph \<noteq> []
       then ''\<newline>Ports\<newline>'' @ concat (map (\<lambda>port.
         fm_format F ''  {} {}:{} {:<10} PID {}\<newline>''
           [FmtStr (protocolText (po_socket port)), FmtStr (ep_address (so_local (po_socket port))),
            FmtInt (uint (ep_port (so_local (po_socket port)))), FmtStr (so_state (po_socket port)),
            FmtStr (ownerPids port)]) (rg_ports graph))
       else []) @
      (if rg_processes graph \<noteq> []
       then ''\<newline>Processes\<newline>'' @ concat (map (\<lambda>process.
         fm_format F ''  {:<8} {:<24} {:<14} {}\<newline>''
           [FmtInt (pi_pid process), FmtStr (shortened (pi_name process) 24),
            FmtStr (shortened (pi_state process) 14), FmtStr (pi_user process)]) (rg_processes graph))
       else []) @
      (if rg_services graph \<noteq> []
       then ''\<newline>Services\<newline>'' @ concat (map (\<lambda>service.
         fm_format F ''  {:<40} {} / {}\<newline>''
           [FmtStr (shortened (si_unitName service) 40), FmtStr (si_activeState service),
            FmtStr (si_subState service)]) (rg_services graph))
       else []) @
      (if rg_recentLogs graph \<noteq> []
       then ''\<newline>Recent logs\<newline>'' @ concat (map (\<lambda>entry.
         fst (printJournalEntry F \<lparr>ob_value = entry, ob_warnings = []\<rparr>)) (rg_recentLogs graph))
       else []),
      warningLines (rg_warnings graph))"

definition printFindResult :: "Formats \<Rightarrow> FindResult \<Rightarrow> string \<times> string" where
  "printFindResult F found =
     ((if fr_services found \<noteq> []
       then ''SERVICES\<newline>'' @
         concat (map (\<lambda>service. ''  '' @ si_unitName service @ ''\<newline>'') (fr_services found))
       else []) @
      (if fr_processes found \<noteq> []
       then ''\<newline>PROCESSES\<newline>'' @ concat (map (\<lambda>process.
         fm_format F ''  {:<8} {}\<newline>'' [FmtInt (pi_pid process), FmtStr (pi_name process)]) (fr_processes found))
       else []) @
      (if fr_ports found \<noteq> []
       then ''\<newline>PORTS\<newline>'' @ concat (map (\<lambda>port.
         fm_format F ''  {} {}:{}\<newline>''
           [FmtStr (protocolText (po_socket port)), FmtStr (ep_address (so_local (po_socket port))),
            FmtInt (uint (ep_port (so_local (po_socket port))))]) (fr_ports found))
       else []) @
      (if fr_executables found \<noteq> []
       then ''\<newline>EXECUTABLES\<newline>'' @
         concat (map (\<lambda>executable. ''  '' @ executable @ ''\<newline>'') (fr_executables found))
       else []),
      warningLines (fr_warnings found))"

text \<open>The table of \<open>lx port\<close>, which the source writes in \<open>run\<close> itself.\<close>

definition printPorts :: "Formats \<Rightarrow> PortInfo list Observation \<Rightarrow> string \<times> string" where
  "printPorts F observed =
     (''PROTO  ADDRESS                                  PORT   STATE        UID     INODE       PROCESS          PID          SERVICE\<newline>'' @
      concat (map (\<lambda>port.
        fm_format F ''{:<6} {:<40} {:<6} {:<12} {:<7} {:<11} {:<16} {:<12} {}\<newline>''
          [FmtStr (protocolText (po_socket port)), FmtStr (ep_address (so_local (po_socket port))),
           FmtInt (uint (ep_port (so_local (po_socket port)))), FmtStr (so_state (po_socket port)),
           FmtInt (uint (so_uid (po_socket port))), FmtInt (uint (so_inode (po_socket port))),
           FmtStr (ownerNames port), FmtStr (ownerPids port), FmtStr (ownerServices port)])
        (ob_value observed)),
      warningLines (ob_warnings observed))"

definition exitCode :: "ErrorCode \<Rightarrow> int" where
  "exitCode code =
     (case code of
        InvalidArgument \<Rightarrow> 2
      | NotFound \<Rightarrow> 3
      | PermissionDenied \<Rightarrow> 4
      | Unsupported \<Rightarrow> 6
      | Unavailable \<Rightarrow> 6
      | Conflict \<Rightarrow> 7
      | Timeout \<Rightarrow> 8
      | Interrupted \<Rightarrow> 130
      | _ \<Rightarrow> 5)"

section \<open>Lemmas\<close>

lemma isSecretKey_eq [simp]: "isSecretKey = secretKey"
  by (simp add: fun_eq_iff isSecretKey_def secretKey_def cli_lower_def json_lower_def)

interpretation text_redaction: redaction displayLoop
proof unfold_locales
  fix k v xs
  assume k: "secret_flag k"
  then have "CHR ''='' \<notin> set k" by (simp add: secret_flag_def)
  from str_find_first [OF this, of v] k
  show "displayLoop False ((k @ ''='' @ v) # xs) = (k @ ''=<redacted>'') # displayLoop False xs"
    by (simp add: substr_def secret_flag_def)
qed (simp_all add: secret_flag_def str_find_absent not_secret_argument Let_def)

lemma displayLoop_redactLoop: "displayLoop b xs = redactLoop b xs"
  by (induction xs arbitrary: b) (simp_all add: Let_def split: option.split)

lemma displayedArguments_eq: "displayedArguments xs raw = arguments xs raw"
  by (simp add: displayedArguments_def arguments_def displayLoop_redactLoop)

lemma tableCell_length [simp]: "length (tableCell s width) = width"
  by (auto simp: tableCell_def substr_def Let_def)

lemma shortened_length: "length (shortened s width) = min (length s) width"
  by (auto simp: shortened_def substr_def)

lemma exitCode_nonzero [simp]: "exitCode code \<noteq> 0" "exitCode code \<in> {2 .. 8} \<union> {130}"
  by (cases code; simp add: exitCode_def)+

lemma confirmed_None [simp]: "\<not> confirmed None d"
  by (simp add: confirmed_def)

section \<open>Log messages on a terminal\<close>

definition printable :: "char \<Rightarrow> bool" where
  "printable c \<longleftrightarrow> 32 \<le> char_code c \<and> char_code c \<noteq> 127"

definition hex_digit :: "nat \<Rightarrow> char" where
  "hex_digit n = (if n < 10 then char_of (48 + n) else char_of (87 + n))"

text \<open>What is relied on of \<open>fmt\<close>: \<open>{:02x}\<close> writes a byte as two hexadecimal digits.\<close>

definition hex_format :: "Formats \<Rightarrow> bool" where
  "hex_format F \<longleftrightarrow> (\<forall>n < 256. fm_format F (CHR 0x5C # ''x{:02x}'') [FmtInt (int n)] =
     [CHR 0x5C, CHR ''x'', hex_digit (n div 16), hex_digit (n mod 16)])"

lemma printable_hex_digit: "n < 16 \<Longrightarrow> printable (hex_digit n)"
  by (auto simp: printable_def hex_digit_def)

lemma escapedLogCharacter_safe:
  assumes "hex_format F"
  shows "list_all printable (escapedLogCharacter F c)" "length (escapedLogCharacter F c) \<le> 4"
    "printable c \<Longrightarrow> escapedLogCharacter F c = [c]"
proof -
  have n: "char_code c < 256" by (rule char_code_less)
  then have "fm_format F (CHR 0x5C # ''x{:02x}'') [FmtInt (int (char_code c))] =
      [CHR 0x5C, CHR ''x'', hex_digit (char_code c div 16), hex_digit (char_code c mod 16)]"
    using assms unfolding hex_format_def by blast
  moreover have "printable (hex_digit (char_code c div 16))" "printable (hex_digit (char_code c mod 16))"
    using n by (auto intro!: printable_hex_digit simp: less_mult_imp_div_less)
  ultimately show "list_all printable (escapedLogCharacter F c)" "length (escapedLogCharacter F c) \<le> 4"
    unfolding escapedLogCharacter_def by (auto simp: printable_def)
  show "printable c \<Longrightarrow> escapedLogCharacter F c = [c]"
    by (auto simp: printable_def escapedLogCharacter_def)
qed

lemma safeLogLoop_safe:
  assumes "hex_format F"
  shows "list_all printable acc \<Longrightarrow> list_all printable (safeLogLoop F limit s acc)"
    and "length acc \<le> limit + 3 \<Longrightarrow> length (safeLogLoop F limit s acc) \<le> limit + 6"
proof -
  have dots: "list_all printable ''...''" by (simp add: printable_def)
  show "list_all printable acc \<Longrightarrow> list_all printable (safeLogLoop F limit s acc)"
    by (induction s arbitrary: acc) (use dots escapedLogCharacter_safe(1) [OF assms] in auto)
  show "length acc \<le> limit + 3 \<Longrightarrow> length (safeLogLoop F limit s acc) \<le> limit + 6"
  proof (induction s arbitrary: acc)
    case (Cons c s)
    have "length (escapedLogCharacter F c) \<le> 4" by (rule escapedLogCharacter_safe(2) [OF assms])
    with Cons show ?case by simp
  qed simp
qed

lemma safeLogLoop_plain:
  assumes "hex_format F" "list_all printable s" "length acc + length s \<le> limit"
  shows "safeLogLoop F limit s acc = acc @ s"
  using assms(2,3)
  by (induction s arbitrary: acc) (simp_all add: escapedLogCharacter_safe(3) [OF assms(1)])

section \<open>Properties\<close>

text \<open>
  C34. The two copies of the redaction agree: the text output shows a command line exactly as the JSON
  output does, redacted or raw, and so it hides the secrets and nothing else.
\<close>

theorem displayedArguments_as_json:
  "displayedArguments xs raw = arguments xs raw \<and>
   (displayedArguments xs False = displayedArguments ys False \<longleftrightarrow> same_but_secrets xs ys)"
proof
  show "displayedArguments xs raw = arguments xs raw" by (rule displayedArguments_eq)
  show "displayedArguments xs False = displayedArguments ys False \<longleftrightarrow> same_but_secrets xs ys"
    using text_redaction.exactly_secrets by (simp add: displayedArguments_def)
qed

text \<open>
  C33. A log message cannot control the terminal: whatever bytes the journal stores, the text shown
  contains no control character, is at most six bytes longer than the limit, and a message without
  control characters within the limit is shown unchanged.
\<close>

theorem safeLogText_safe:
  assumes "hex_format F"
  shows "list_all printable (safeLogText F s limit) \<and> length (safeLogText F s limit) \<le> limit + 6 \<and>
    (list_all printable s \<and> length s \<le> limit \<longrightarrow> safeLogText F s limit = s)"
  using safeLogLoop_safe [OF assms, of "[]" limit s] safeLogLoop_plain [OF assms, of s "[]" limit]
  by (simp add: safeLogText_def)

definition demo_Formats :: Formats where
  "demo_Formats =
     \<lparr>fm_format = (\<lambda>f args.
        case args of
          [FmtInt n] \<Rightarrow> [CHR 0x5C, CHR ''x'', hex_digit (nat n div 16), hex_digit (nat n mod 16)]
        | _ \<Rightarrow> f),
      fm_localTime = (\<lambda>_. None), fm_round = id\<rparr>"

theorem safeLogText_safe_witness:
  "list_all printable (safeLogText demo_Formats [CHR 0x1B, CHR ''['', CHR ''2'', CHR ''J''] 4096) \<and>
   safeLogText demo_Formats [CHR 0x1B, CHR ''['', CHR ''2'', CHR ''J''] 4096 =
     [CHR 0x5C, CHR ''x'', CHR ''1'', CHR ''b'', CHR ''['', CHR ''2'', CHR ''J'']"
proof
  have "hex_format demo_Formats" by (simp add: hex_format_def demo_Formats_def)
  from safeLogText_safe [OF this, of "[CHR 0x1B, CHR ''['', CHR ''2'', CHR ''J'']" 4096]
  show "list_all printable (safeLogText demo_Formats [CHR 0x1B, CHR ''['', CHR ''2'', CHR ''J''] 4096)"
    by blast
  show "safeLogText demo_Formats [CHR 0x1B, CHR ''['', CHR ''2'', CHR ''J''] 4096 =
     [CHR 0x5C, CHR ''x'', CHR ''1'', CHR ''b'', CHR ''['', CHR ''2'', CHR ''J'']"
    by code_simp
qed

end
