(* ===== verification/Contracts.thy ===== *)
theory Contracts
  imports Domain
begin

text \<open>
  The provider interfaces of \<open>include/lx/contracts\<close>. An abstract class is a record of operations
  over a world type \<open>'w\<close> (the state of everything outside the program); a service takes such
  records, as its constructor takes references. The clock and the waiting primitives of
  \<open>std::chrono\<close> and \<open>std::this_thread\<close> are one more such record.

  The second half defines the calls a service can make through these interfaces and, for each
  interface, the provider that records them.
\<close>

section \<open>Provider interfaces\<close>

record 'w IProcessProvider =
  pp_get :: "pid \<Rightarrow> ('w, ProcessInfo Observation result) io"
  pp_list :: "('w, ProcessInfo list Observation result) io"

record 'w ISignalProvider =
  sp_send :: "pid \<Rightarrow> ProcessSignal \<Rightarrow> ('w, SignalDelivery result) io"
  sp_waitForExit :: "pid \<Rightarrow> int \<Rightarrow> ('w, bool result) io"
  sp_capabilities :: "('w, SignalCapabilities) io"

record 'w IServiceProvider =
  vp_probe :: "('w, unit result) io"
  vp_list :: "('w, ServiceInfo list Observation result) io"
  vp_get :: "string \<Rightarrow> ('w, ServiceInfo Observation result) io"
  vp_unitByPid :: "pid \<Rightarrow> ('w, string option result) io"
  vp_start :: "string \<Rightarrow> ('w, unit result) io"
  vp_stop :: "string \<Rightarrow> ('w, unit result) io"
  vp_restart :: "string \<Rightarrow> ('w, unit result) io"

record 'w ISocketProvider =
  kp_query :: "SocketQuery \<Rightarrow> ('w, SocketInfo list Observation result) io"

record 'w ISocketOwnerResolver =
  or_resolve :: "u64 list \<Rightarrow> ('w, SocketOwnership Observation result) io"

text \<open>\<open>follow\<close> runs until the sink refuses an entry, the stop predicate holds or the journal
  fails; the sink and the stop predicate act on the world too.\<close>

type_synonym 'w JournalEntrySink = "JournalEntry Observation \<Rightarrow> ('w, unit result) io"
type_synonym 'w JournalStopRequested = "('w, bool) io"

record 'w IJournalProvider =
  jp_probe :: "('w, unit result) io"
  jp_query :: "LogQuery \<Rightarrow> ('w, JournalEntry list Observation result) io"
  jp_follow :: "LogQuery \<Rightarrow> 'w JournalEntrySink \<Rightarrow> 'w JournalStopRequested \<Rightarrow> ('w, unit result) io"

record 'w ISystemMetricsProvider =
  sy_sample :: "('w, SystemMetricsSample result) io"

record 'w IProcessMetricsProvider =
  pm_sample :: "('w, ProcessCpuSample list result) io"

record 'w Clock =
  ck_steadyNow :: "('w, int) io"
  ck_systemNow :: "('w, int) io"
  ck_sleep :: "int \<Rightarrow> ('w, unit) io"

section \<open>Answers\<close>

text \<open>What a listing showed; a listing that failed showed nothing.\<close>

fun showed :: "'a list Observation result \<Rightarrow> 'a list" where
  "showed (Inl e) = []"
| "showed (Inr ob) = ob_value ob"

text \<open>An answer that some run of an operation gives.\<close>

definition may_answer :: "('w, 'a) io \<Rightarrow> 'a \<Rightarrow> bool" where
  "may_answer m r \<longleftrightarrow> (\<exists>w. result_of m w = r)"

lemma may_answer_result [intro, simp]: "may_answer m (result_of m w)"
  by (auto simp: may_answer_def)

lemma may_answerI: "result_of m w = r \<Longrightarrow> may_answer m r"
  by (auto simp: may_answer_def)

section \<open>What the services rely on\<close>

text \<open>
  The laws of the interfaces, as far as the services depend on them. Each is discharged for the
  Linux adapter that implements the interface, in the theory of that adapter.
\<close>

locale process_provider =
  fixes P :: "'w IProcessProvider"
  assumes get_pid: "result_of (pp_get P p) w = Inr ob \<Longrightarrow> pi_pid (ob_value ob) = p"

locale signal_provider =
  fixes G :: "'w ISignalProvider"
  assumes send_echo:
    "result_of (sp_send G p sig) w = Inr d \<Longrightarrow> sd_pid d = p \<and> sd_signal d = sig"

locale owner_resolver =
  fixes R :: "'w ISocketOwnerResolver"
  assumes owners_sorted:
      "result_of (or_resolve R ns) w = Inr ob \<Longrightarrow> ob_value ob i = Some ps \<Longrightarrow>
       ps \<noteq> [] \<and> sorted ps \<and> distinct ps"
    and owners_asked:
      "result_of (or_resolve R ns) w = Inr ob \<Longrightarrow> dom (ob_value ob) \<subseteq> set ns"

locale socket_provider =
  fixes K :: "'w ISocketProvider"
  assumes no_owner_yet:
      "result_of (kp_query K q) w = Inr ob \<Longrightarrow> so \<in> set (ob_value ob) \<Longrightarrow> so_ownerPids so = []"
    and port_asked:
      "result_of (kp_query K q) w = Inr ob \<Longrightarrow> so \<in> set (ob_value ob) \<Longrightarrow>
       sq_localPort q = Some n \<Longrightarrow> ep_port (so_local so) = n"

text \<open>The steady clock: reading it returns the time of the world, and sleeping for \<open>d\<close> milliseconds
  lets at least that much time pass.\<close>

definition clock_runs :: "('w \<Rightarrow> int) \<Rightarrow> 'w Clock \<Rightarrow> bool" where
  "clock_runs time C \<longleftrightarrow>
     (\<forall>w. result_of (ck_steadyNow C) w = time w \<and> time w \<le> time (world_after (ck_steadyNow C) w)) \<and>
     (\<forall>w d. 0 \<le> d \<longrightarrow> time w + d * 1000000 \<le> time (world_after (ck_sleep C d) w))"

section \<open>Recorded providers\<close>

datatype call =
    CallProcessGet pid | CallProcessList
  | CallSend pid ProcessSignal | CallWait pid int | CallCapabilities
  | CallServiceProbe | CallServiceList | CallServiceGet string | CallUnitByPid pid
  | CallStart string | CallStop string | CallRestart string
  | CallSocketQuery SocketQuery | CallResolve "u64 list"
  | CallJournalProbe | CallJournalQuery LogQuery
  | CallSteadyNow | CallSystemNow | CallSleep int
  | CallSystemSample | CallProcessSample

text \<open>The calls that change the state of the machine: a signal, or a service lifecycle action.\<close>

fun destructive :: "call \<Rightarrow> bool" where
  "destructive (CallSend _ _) = True"
| "destructive (CallStart _) = True"
| "destructive (CallStop _) = True"
| "destructive (CallRestart _) = True"
| "destructive _ = False"

type_synonym 'w recorded = "'w \<times> call list"

definition recordProcessProvider :: "'w IProcessProvider \<Rightarrow> 'w recorded IProcessProvider" where
  "recordProcessProvider P =
     \<lparr>pp_get = (\<lambda>p. traced (CallProcessGet p) (pp_get P p)),
      pp_list = traced CallProcessList (pp_list P)\<rparr>"

definition recordSignalProvider :: "'w ISignalProvider \<Rightarrow> 'w recorded ISignalProvider" where
  "recordSignalProvider P =
     \<lparr>sp_send = (\<lambda>p s. traced (CallSend p s) (sp_send P p s)),
      sp_waitForExit = (\<lambda>p t. traced (CallWait p t) (sp_waitForExit P p t)),
      sp_capabilities = traced CallCapabilities (sp_capabilities P)\<rparr>"

definition recordServiceProvider :: "'w IServiceProvider \<Rightarrow> 'w recorded IServiceProvider" where
  "recordServiceProvider P =
     \<lparr>vp_probe = traced CallServiceProbe (vp_probe P),
      vp_list = traced CallServiceList (vp_list P),
      vp_get = (\<lambda>u. traced (CallServiceGet u) (vp_get P u)),
      vp_unitByPid = (\<lambda>p. traced (CallUnitByPid p) (vp_unitByPid P p)),
      vp_start = (\<lambda>u. traced (CallStart u) (vp_start P u)),
      vp_stop = (\<lambda>u. traced (CallStop u) (vp_stop P u)),
      vp_restart = (\<lambda>u. traced (CallRestart u) (vp_restart P u))\<rparr>"

definition recordSocketProvider :: "'w ISocketProvider \<Rightarrow> 'w recorded ISocketProvider" where
  "recordSocketProvider P = \<lparr>kp_query = (\<lambda>q. traced (CallSocketQuery q) (kp_query P q))\<rparr>"

definition recordOwnerResolver ::
  "'w ISocketOwnerResolver \<Rightarrow> 'w recorded ISocketOwnerResolver" where
  "recordOwnerResolver P = \<lparr>or_resolve = (\<lambda>is. traced (CallResolve is) (or_resolve P is))\<rparr>"

definition recordClock :: "'w Clock \<Rightarrow> 'w recorded Clock" where
  "recordClock C =
     \<lparr>ck_steadyNow = traced CallSteadyNow (ck_steadyNow C),
      ck_systemNow = traced CallSystemNow (ck_systemNow C),
      ck_sleep = (\<lambda>d. traced (CallSleep d) (ck_sleep C d))\<rparr>"

definition recordSystemMetrics ::
  "'w ISystemMetricsProvider \<Rightarrow> 'w recorded ISystemMetricsProvider" where
  "recordSystemMetrics P = \<lparr>sy_sample = traced CallSystemSample (sy_sample P)\<rparr>"

definition recordProcessMetrics ::
  "'w IProcessMetricsProvider \<Rightarrow> 'w recorded IProcessMetricsProvider" where
  "recordProcessMetrics P = \<lparr>pm_sample = traced CallProcessSample (pm_sample P)\<rparr>"

lemmas record_defs = recordProcessProvider_def recordSignalProvider_def recordServiceProvider_def
  recordSocketProvider_def recordOwnerResolver_def recordClock_def recordSystemMetrics_def
  recordProcessMetrics_def

text \<open>Recording a provider keeps what its operations compute and log.\<close>

lemma recordSignalProvider_sel [simp]:
  "sp_send (recordSignalProvider P) p s = traced (CallSend p s) (sp_send P p s)"
  "sp_waitForExit (recordSignalProvider P) p t = traced (CallWait p t) (sp_waitForExit P p t)"
  "sp_capabilities (recordSignalProvider P) = traced CallCapabilities (sp_capabilities P)"
  by (simp_all add: recordSignalProvider_def)

lemma recordProcessProvider_sel [simp]:
  "pp_get (recordProcessProvider Q) p = traced (CallProcessGet p) (pp_get Q p)"
  "pp_list (recordProcessProvider Q) = traced CallProcessList (pp_list Q)"
  by (simp_all add: recordProcessProvider_def)

lemma recordServiceProvider_sel [simp]:
  "vp_probe (recordServiceProvider V) = traced CallServiceProbe (vp_probe V)"
  "vp_list (recordServiceProvider V) = traced CallServiceList (vp_list V)"
  "vp_get (recordServiceProvider V) u = traced (CallServiceGet u) (vp_get V u)"
  "vp_unitByPid (recordServiceProvider V) p = traced (CallUnitByPid p) (vp_unitByPid V p)"
  "vp_start (recordServiceProvider V) u = traced (CallStart u) (vp_start V u)"
  "vp_stop (recordServiceProvider V) u = traced (CallStop u) (vp_stop V u)"
  "vp_restart (recordServiceProvider V) u = traced (CallRestart u) (vp_restart V u)"
  by (simp_all add: recordServiceProvider_def)

lemma recordOther_sel [simp]:
  "kp_query (recordSocketProvider K) q = traced (CallSocketQuery q) (kp_query K q)"
  "or_resolve (recordOwnerResolver R) ns = traced (CallResolve ns) (or_resolve R ns)"
  "ck_steadyNow (recordClock C) = traced CallSteadyNow (ck_steadyNow C)"
  "ck_systemNow (recordClock C) = traced CallSystemNow (ck_systemNow C)"
  "ck_sleep (recordClock C) d = traced (CallSleep d) (ck_sleep C d)"
  "sy_sample (recordSystemMetrics Y) = traced CallSystemSample (sy_sample Y)"
  "pm_sample (recordProcessMetrics M) = traced CallProcessSample (pm_sample M)"
  by (simp_all add: record_defs)

text \<open>The contract of a journal provider towards the commands that read it: no operation changes the
  state of the machine, unless the sink or the stop predicate it is given does.\<close>

locale reading_journal =
  fixes J :: "'w recorded IJournalProvider"
  assumes quiet_probe: "quiet destructive (jp_probe J)"
    and quiet_query: "quiet destructive (jp_query J q)"
    and quiet_follow: "(\<And>e. quiet destructive (sink e)) \<Longrightarrow> quiet destructive stop \<Longrightarrow>
      quiet destructive (jp_follow J q sink stop)"

end
