(* ===== verification/ServiceService.thy ===== *)
theory ServiceService
  imports Contracts
begin

text \<open>
  \<open>src/application/ServiceService.cpp\<close>: validation and normalisation of systemd unit names, and
  the service operations that are guarded by it. Every operation that takes a unit name
  normalises it before it reaches the provider.
\<close>

section \<open>Unit names\<close>

definition validUnitCharacter :: "char \<Rightarrow> bool" where
  "validUnitCharacter c \<longleftrightarrow> isalnum c \<or> c = CHR '':'' \<or> c = CHR ''_'' \<or> c = CHR ''-''
     \<or> c = CHR ''.'' \<or> c = CHR ''@'' \<or> c = CHR 0x5C"

definition invalidUnit :: "string \<Rightarrow> string result" where
  "invalidUnit message = failure (mkError InvalidArgument message 0 ''service'' ''validate unit'')"

definition service_suffix :: string where
  "service_suffix = ''.service''"

definition ServiceService_normalizeUnit :: "string \<Rightarrow> string result" where
  "ServiceService_normalizeUnit unit =
     (if unit = [] then invalidUnit ''Service unit must not be empty''
      else if length unit > 247 then invalidUnit ''Service unit name is too long''
      else if \<not> list_all validUnitCharacter unit
        then invalidUnit ''Service unit contains an invalid character''
      else if length unit \<ge> length service_suffix \<and>
              drop (length unit - length service_suffix) unit = service_suffix
        then success unit
      else success (unit @ service_suffix))"

section \<open>Operations\<close>

record 'w ServiceService =
  ss_serviceProvider :: "'w IServiceProvider"

definition ServiceService_list ::
  "'w ServiceService \<Rightarrow> ('w, ServiceInfo list Observation result) io" where
  "ServiceService_list S = vp_list (ss_serviceProvider S)"

definition ServiceService_inspect ::
  "'w ServiceService \<Rightarrow> string \<Rightarrow> ('w, ServiceInfo Observation result) io" where
  "ServiceService_inspect S unit =
     (case ServiceService_normalizeUnit unit of
        Inl e \<Rightarrow> return (failure e)
      | Inr normalized \<Rightarrow> vp_get (ss_serviceProvider S) normalized)"

definition ServiceService_unitByPid ::
  "'w ServiceService \<Rightarrow> pid \<Rightarrow> ('w, string option result) io" where
  "ServiceService_unitByPid S pid =
     (if pid \<le> 0
      then return (failure (mkError InvalidArgument ''PID must be greater than zero'' 0
                              ''service'' ''resolve PID''))
      else vp_unitByPid (ss_serviceProvider S) pid)"

definition ServiceService_start :: "'w ServiceService \<Rightarrow> string \<Rightarrow> ('w, unit result) io" where
  "ServiceService_start S unit =
     (case ServiceService_normalizeUnit unit of
        Inl e \<Rightarrow> return (failure e)
      | Inr normalized \<Rightarrow> vp_start (ss_serviceProvider S) normalized)"

definition ServiceService_stop :: "'w ServiceService \<Rightarrow> string \<Rightarrow> ('w, unit result) io" where
  "ServiceService_stop S unit =
     (case ServiceService_normalizeUnit unit of
        Inl e \<Rightarrow> return (failure e)
      | Inr normalized \<Rightarrow> vp_stop (ss_serviceProvider S) normalized)"

definition ServiceService_restart :: "'w ServiceService \<Rightarrow> string \<Rightarrow> ('w, unit result) io" where
  "ServiceService_restart S unit =
     (case ServiceService_normalizeUnit unit of
        Inl e \<Rightarrow> return (failure e)
      | Inr normalized \<Rightarrow> vp_restart (ss_serviceProvider S) normalized)"

lemmas ServiceService_defs = ServiceService_list_def ServiceService_inspect_def
  ServiceService_unitByPid_def ServiceService_start_def ServiceService_stop_def
  ServiceService_restart_def

section \<open>The shape of a normalised name\<close>

lemma length_service_suffix [simp]: "length service_suffix = 8"
  by (simp add: service_suffix_def)

lemma service_suffix_valid: "list_all validUnitCharacter service_suffix"
  by (simp add: service_suffix_def validUnitCharacter_def char_class_defs)

text \<open>The specification: names that pass the three checks, completed by the suffix.\<close>

definition unit_name_ok :: "string \<Rightarrow> bool" where
  "unit_name_ok unit \<longleftrightarrow> unit \<noteq> [] \<and> length unit \<le> 247 \<and> list_all validUnitCharacter unit"

definition with_suffix :: "string \<Rightarrow> string" where
  "with_suffix unit = (if ends_with unit service_suffix then unit else unit @ service_suffix)"

lemma normalizeUnit_iff:
  "ServiceService_normalizeUnit unit = Inr y \<longleftrightarrow> unit_name_ok unit \<and> y = with_suffix unit"
  by (auto simp: ServiceService_normalizeUnit_def invalidUnit_def unit_name_ok_def with_suffix_def
      ends_with_def)

lemma normalizeUnit_fail:
  "ServiceService_normalizeUnit unit = Inl e \<Longrightarrow> er_code e = InvalidArgument"
  by (auto simp: ServiceService_normalizeUnit_def invalidUnit_def split: if_splits)

lemma with_suffix_ends [simp]: "ends_with (with_suffix unit) service_suffix"
  by (simp add: with_suffix_def)

lemma with_suffix_idem [simp]: "with_suffix (with_suffix unit) = with_suffix unit"
  by (simp add: with_suffix_def)

lemma with_suffix_length: "length (with_suffix unit) \<le> length unit + 8"
  by (simp add: with_suffix_def)

lemma with_suffix_valid:
  "list_all validUnitCharacter unit \<Longrightarrow> list_all validUnitCharacter (with_suffix unit)"
  by (simp add: with_suffix_def service_suffix_valid)

lemma with_suffix_nonempty [simp]: "with_suffix unit \<noteq> []"
  by (auto simp: with_suffix_def service_suffix_def ends_with_def)

text \<open>Valid characters exclude everything that could leave the D-Bus string or the journal match
  it is put into: the path separator, the assignment sign, blanks and control characters.\<close>

lemma valid_character_harmless:
  "validUnitCharacter c \<Longrightarrow> c \<notin> {CHR ''/'', CHR ''='', CHR 0x22} \<and> \<not> isspace c \<and> 32 < char_code c"
  by (auto simp: validUnitCharacter_def char_class_defs)

section \<open>The calls of the operations\<close>

definition recordServiceService :: "'w ServiceService \<Rightarrow> 'w recorded ServiceService" where
  "recordServiceService S = \<lparr>ss_serviceProvider = recordServiceProvider (ss_serviceProvider S)\<rparr>"

lemma recordServiceService_sel [simp]:
  "ss_serviceProvider (recordServiceService S) = recordServiceProvider (ss_serviceProvider S)"
  by (simp add: recordServiceService_def)

lemma quiet_ServiceService [quiet_intros]:
  "quiet destructive (ServiceService_list (recordServiceService S))"
  "quiet destructive (ServiceService_inspect (recordServiceService S) u)"
  "quiet destructive (ServiceService_unitByPid (recordServiceService S) p)"
  by (auto simp: ServiceService_defs intro!: quiet_intros)

lemma transparent_ServiceService [transparent_intros]:
  "transparent (ServiceService_list (recordServiceService S)) (ServiceService_list S)"
  "transparent (ServiceService_inspect (recordServiceService S) u) (ServiceService_inspect S u)"
  "transparent (ServiceService_unitByPid (recordServiceService S) p) (ServiceService_unitByPid S p)"
  "transparent (ServiceService_stop (recordServiceService S) u) (ServiceService_stop S u)"
  by (simp_all add: ServiceService_defs transparent_intros)

definition stop_calls :: "string \<Rightarrow> call list" where
  "stop_calls u = (case ServiceService_normalizeUnit u of Inl _ \<Rightarrow> [] | Inr n \<Rightarrow> [CallStop n])"

lemma emits_ServiceService_stop:
  "emits (ServiceService_stop (recordServiceService S) u) (\<lambda>_ es. es = stop_calls u)"
  by (auto simp: ServiceService_stop_def stop_calls_def intro: emits_return emits_traced
      split: sum.split)

section \<open>Properties\<close>

text \<open>
  C36. A unit name that normalises without error reaches systemd only in a harmless form: it
  ends in \<open>.service\<close>, is at most 255 bytes long, consists of valid unit characters, and is the
  given name or the given name with the suffix appended.
\<close>

theorem normalizeUnit_sound:
  assumes "ServiceService_normalizeUnit unit = Inr name"
  shows "ends_with name ''.service'' \<and> length name \<le> 255 \<and> list_all validUnitCharacter name
    \<and> (name = unit \<or> name = unit @ ''.service'')"
proof -
  from assms have ok: "unit_name_ok unit" and name: "name = with_suffix unit"
    by (simp_all add: normalizeUnit_iff)
  have "length name \<le> 255"
    using with_suffix_length [of unit] ok name by (simp add: unit_name_ok_def)
  moreover have "list_all validUnitCharacter name"
    using ok name by (simp add: unit_name_ok_def with_suffix_valid)
  moreover have "ends_with name ''.service''"
    using with_suffix_ends [of unit] name by (simp add: service_suffix_def)
  moreover have "name = unit \<or> name = unit @ ''.service''"
    using name by (simp add: with_suffix_def service_suffix_def)
  ultimately show ?thesis by blast
qed

theorem normalizeUnit_sound_witness:
  "ends_with ''nginx.service'' ''.service'' \<and> length ''nginx.service'' \<le> 255
    \<and> list_all validUnitCharacter ''nginx.service''"
proof -
  have "ServiceService_normalizeUnit ''nginx'' = Inr ''nginx.service''"
    by (simp add: ServiceService_normalizeUnit_def validUnitCharacter_def char_class_defs
        service_suffix_def)
  from normalizeUnit_sound [OF this] show ?thesis by blast
qed

text \<open>
  Normalising a normalised name gives the same name back exactly when that name still fits
  the length limit of the input; a name whose suffix was added beyond it is refused the second
  time as too long.
\<close>

theorem normalizeUnit_again:
  assumes "ServiceService_normalizeUnit unit = Inr name"
  shows "ServiceService_normalizeUnit name =
    (if length name \<le> 247 then Inr name else invalidUnit ''Service unit name is too long'')"
proof (cases "length name \<le> 247")
  case True
  from assms have "unit_name_ok unit" "name = with_suffix unit"
    by (simp_all add: normalizeUnit_iff)
  with True have "unit_name_ok name" "name = with_suffix name"
    by (simp_all add: unit_name_ok_def with_suffix_valid)
  then have "ServiceService_normalizeUnit name = Inr name"
    by (simp add: normalizeUnit_iff)
  with True show ?thesis by simp
next
  case False
  then show ?thesis by (auto simp: ServiceService_normalizeUnit_def)
qed

text \<open>At 244 letters the first pass succeeds and the second fails.\<close>

lemma no_dot_no_suffix: "CHR ''.'' \<notin> set s \<Longrightarrow> \<not> ends_with s service_suffix"
  by (auto simp: ends_with_iff_suffix suffix_def service_suffix_def)

lemma normalizeUnit_letters:
  assumes "0 < n" "n \<le> 247"
  shows "ServiceService_normalizeUnit (replicate n CHR ''a'') =
     Inr (replicate n CHR ''a'' @ ''.service'')"
proof -
  have "validUnitCharacter CHR ''a''"
    by (simp add: validUnitCharacter_def char_class_defs)
  then have "unit_name_ok (replicate n CHR ''a'')"
    using assms by (simp add: unit_name_ok_def list_all_iff)
  moreover have "with_suffix (replicate n CHR ''a'') = replicate n CHR ''a'' @ ''.service''"
    using no_dot_no_suffix [of "replicate n CHR ''a''"]
    by (simp add: with_suffix_def service_suffix_def)
  ultimately show ?thesis by (simp add: normalizeUnit_iff)
qed

theorem normalizeUnit_again_witness:
  "ServiceService_normalizeUnit (replicate 244 CHR ''a'' @ ''.service'') =
     invalidUnit ''Service unit name is too long''"
  using normalizeUnit_again [OF normalizeUnit_letters [of 244]] by simp

end
