(* ===== verification/ProcessService.thy ===== *)
theory ProcessService
  imports ServiceService
begin

text \<open>
  \<open>src/application/ProcessService.cpp\<close>: inspection and filtered listing of processes with their
  systemd unit attached, and signalling behind the guard \<open>validateSignalTarget\<close>.
\<close>

section \<open>The service and its operations\<close>

record 'w ProcessService =
  ps_processProvider :: "'w IProcessProvider"
  ps_signalProvider :: "'w ISignalProvider"
  ps_selfPid :: pid
  ps_serviceService :: "'w ServiceService option"

text \<open>The condition under which a failed unit lookup becomes a warning.\<close>

definition ProcessService_inspect ::
  "'w ProcessService \<Rightarrow> pid \<Rightarrow> ('w, ProcessInfo Observation result) io" where
  "ProcessService_inspect S pid =
     (if pid \<le> 0
      then return (failure (mkError InvalidArgument ''PID must be greater than zero'' 0
                              ''process-service'' ''inspect''))
      else do {
        observed \<leftarrow> pp_get (ps_processProvider S) pid;
        case observed of
          Inl e \<Rightarrow> return (failure e)
        | Inr ob \<Rightarrow>
            (case ps_serviceService S of
               None \<Rightarrow> return (success ob)
             | Some services \<Rightarrow> do {
                 unit \<leftarrow> ServiceService_unitByPid services pid;
                 return (success
                   (case unit of
                      Inr u \<Rightarrow> ob\<lparr>ob_value := (ob_value ob)\<lparr>pi_systemdUnit := u\<rparr>\<rparr>
                    | Inl e \<Rightarrow>
                        (if er_code e \<noteq> Unavailable \<and> er_code e \<noteq> NotFound
                         then ob\<lparr>ob_warnings := ob_warnings ob @ [warningFrom e]\<rparr>
                         else ob)))
               })
      })"

text \<open>The requested user as a numeric id, where the whole text is one.\<close>

definition requestedUid :: "string \<Rightarrow> u32 option" where
  "requestedUid user =
     (let parsed = from_chars_unsigned (2 ^ 32 - 1) user in
      if consumed_all parsed user then Some (of_nat (fc_value_or 0 parsed)) else None)"

text \<open>The body of the loop in \<open>list\<close>: a process is skipped by the name and user filters, then its
  unit is looked up, then it is skipped by the service filter.\<close>

definition filteredOut :: "ProcessQuery \<Rightarrow> u32 option \<Rightarrow> ProcessInfo \<Rightarrow> bool" where
  "filteredOut query uid process \<longleftrightarrow>
     (case pq_name query of None \<Rightarrow> False | Some n \<Rightarrow> pi_name process \<noteq> n) \<or>
     (case pq_user query of None \<Rightarrow> False
      | Some u \<Rightarrow> (uid = None \<or> uid \<noteq> Some (pi_uid process)) \<and> pi_user process \<noteq> u)"

fun listMatches :: "'w ProcessService \<Rightarrow> ProcessQuery \<Rightarrow> u32 option \<Rightarrow>
    ProcessInfo list \<Rightarrow> ProcessInfo list \<Rightarrow> Warning list \<Rightarrow>
    ('w, (ProcessInfo list \<times> Warning list) result) io" where
  "listMatches S query uid [] matches warnings = return (success (matches, warnings))"
| "listMatches S query uid (process # rest) matches warnings =
     (if filteredOut query uid process
      then listMatches S query uid rest matches warnings
      else
        (case ps_serviceService S of
           None \<Rightarrow>
             (if pq_systemdUnit query \<noteq> None \<and> pi_systemdUnit process \<noteq> pq_systemdUnit query
              then listMatches S query uid rest matches warnings
              else listMatches S query uid rest (matches @ [process]) warnings)
         | Some services \<Rightarrow> do {
             unit \<leftarrow> ServiceService_unitByPid services (pi_pid process);
             case unit of
               Inr u \<Rightarrow>
                 (let process' = process\<lparr>pi_systemdUnit := u\<rparr> in
                  if pq_systemdUnit query \<noteq> None \<and> pi_systemdUnit process' \<noteq> pq_systemdUnit query
                  then listMatches S query uid rest matches warnings
                  else listMatches S query uid rest (matches @ [process']) warnings)
             | Inl e \<Rightarrow>
                 (if pq_systemdUnit query \<noteq> None \<and> er_code e = Unavailable
                  then return (failure e)
                  else
                    (let warnings' = (if er_code e \<noteq> Unavailable \<and> er_code e \<noteq> NotFound
                                      then warnings @ [warningFrom e] else warnings) in
                     if pq_systemdUnit query \<noteq> None \<and> pi_systemdUnit process \<noteq> pq_systemdUnit query
                     then listMatches S query uid rest matches warnings'
                     else listMatches S query uid rest (matches @ [process]) warnings'))
           }))"

definition normalizedQuery :: "'w ProcessService \<Rightarrow> ProcessQuery \<Rightarrow> ProcessQuery result" where
  "normalizedQuery S query =
     (if pq_name query = Some []
      then failure (mkError InvalidArgument ''Process name must not be empty'' 0
                      ''process-service'' ''list'')
      else if pq_user query = Some []
      then failure (mkError InvalidArgument ''Process user must not be empty'' 0
                      ''process-service'' ''list'')
      else
        (case pq_systemdUnit query of
           None \<Rightarrow> success query
         | Some unit \<Rightarrow>
             (if ps_serviceService S = None
              then failure (mkError Unavailable ''Service association is unavailable'' 0
                              ''process-service'' ''list'')
              else (case ServiceService_normalizeUnit unit of
                      Inl e \<Rightarrow> failure e
                    | Inr n \<Rightarrow> success (query\<lparr>pq_systemdUnit := Some n\<rparr>)))))"

definition ProcessService_list ::
  "'w ProcessService \<Rightarrow> ProcessQuery \<Rightarrow> ('w, ProcessInfo list Observation result) io" where
  "ProcessService_list S query0 =
     (case normalizedQuery S query0 of
        Inl e \<Rightarrow> return (failure e)
      | Inr query \<Rightarrow> do {
          observed \<leftarrow> pp_list (ps_processProvider S);
          case observed of
            Inl e \<Rightarrow> return (failure e)
          | Inr ob \<Rightarrow> do {
              r \<leftarrow> listMatches S query (Option.bind (pq_user query) requestedUid)
                     (ob_value ob) [] (ob_warnings ob);
              return (case r of
                        Inl e \<Rightarrow> failure e
                      | Inr (matches, warnings) \<Rightarrow>
                          success \<lparr>ob_value = matches, ob_warnings = warnings\<rparr>)
            }
        })"

definition ProcessService_validateSignalTarget :: "'w ProcessService \<Rightarrow> pid \<Rightarrow> unit result" where
  "ProcessService_validateSignalTarget S pid =
     (if pid \<le> 0
      then failure (mkError InvalidArgument ''PID must be greater than zero'' 0
                      ''process-service'' ''validate signal target'')
      else if pid = 1
      then failure (mkError Conflict ''Refusing to signal PID 1'' 0
                      ''process-service'' ''validate signal target'')
      else if pid = ps_selfPid S
      then failure (mkError Conflict ''Refusing to signal the LX process'' 0
                      ''process-service'' ''validate signal target'')
      else success ())"

definition ProcessService_signal ::
  "'w ProcessService \<Rightarrow> pid \<Rightarrow> ProcessSignal \<Rightarrow> ('w, SignalDelivery result) io" where
  "ProcessService_signal S pid sig =
     (case ProcessService_validateSignalTarget S pid of
        Inl e \<Rightarrow> return (failure e)
      | Inr _ \<Rightarrow> sp_send (ps_signalProvider S) pid sig)"

definition ProcessService_stop ::
  "'w ProcessService \<Rightarrow> pid \<Rightarrow> ('w, SignalDelivery result) io" where
  "ProcessService_stop S pid = ProcessService_signal S pid Terminate"

definition ProcessService_kill ::
  "'w ProcessService \<Rightarrow> pid \<Rightarrow> ('w, SignalDelivery result) io" where
  "ProcessService_kill S pid = ProcessService_signal S pid Kill"

definition ProcessService_waitForExit ::
  "'w ProcessService \<Rightarrow> pid \<Rightarrow> int \<Rightarrow> ('w, bool result) io" where
  "ProcessService_waitForExit S pid timeout =
     (case ProcessService_validateSignalTarget S pid of
        Inl e \<Rightarrow> return (failure e)
      | Inr _ \<Rightarrow> sp_waitForExit (ps_signalProvider S) pid timeout)"

definition ProcessService_signalCapabilities ::
  "'w ProcessService \<Rightarrow> ('w, SignalCapabilities) io" where
  "ProcessService_signalCapabilities S = sp_capabilities (ps_signalProvider S)"

section \<open>The signal guard\<close>

definition may_signal :: "'w ProcessService \<Rightarrow> pid \<Rightarrow> bool" where
  "may_signal S pid \<longleftrightarrow> 1 < pid \<and> pid \<noteq> ps_selfPid S"

lemma validateSignalTarget_iff:
  "ProcessService_validateSignalTarget S pid = Inr u \<longleftrightarrow> may_signal S pid"
  by (auto simp: ProcessService_validateSignalTarget_def may_signal_def)

lemma validateSignalTarget_cases:
  obtains "may_signal S pid" "ProcessService_validateSignalTarget S pid = Inr ()"
  | e where "\<not> may_signal S pid" "ProcessService_validateSignalTarget S pid = Inl e"
  by (cases "ProcessService_validateSignalTarget S pid")
     (metis validateSignalTarget_iff sum.distinct(1) old.unit.exhaust)+

section \<open>The calls of the operations\<close>

definition recordProcessService :: "'w ProcessService \<Rightarrow> 'w recorded ProcessService" where
  "recordProcessService S =
     \<lparr>ps_processProvider = recordProcessProvider (ps_processProvider S),
      ps_signalProvider = recordSignalProvider (ps_signalProvider S),
      ps_selfPid = ps_selfPid S,
      ps_serviceService = map_option recordServiceService (ps_serviceService S)\<rparr>"

lemma recordProcessService_sel [simp]:
  "ps_processProvider (recordProcessService S) = recordProcessProvider (ps_processProvider S)"
  "ps_signalProvider (recordProcessService S) = recordSignalProvider (ps_signalProvider S)"
  "ps_selfPid (recordProcessService S) = ps_selfPid S"
  "ps_serviceService (recordProcessService S) = map_option recordServiceService (ps_serviceService S)"
  by (simp_all add: recordProcessService_def)

lemma may_signal_record [simp]: "may_signal (recordProcessService S) = may_signal S"
  by (simp add: may_signal_def fun_eq_iff)

lemma validateSignalTarget_record [simp]:
  "ProcessService_validateSignalTarget (recordProcessService S) =
     ProcessService_validateSignalTarget S"
  by (simp add: ProcessService_validateSignalTarget_def fun_eq_iff)

lemma quiet_attached_unitByPid [quiet_intros]:
  "ps_serviceService (recordProcessService S) = Some T \<Longrightarrow>
   quiet destructive (ServiceService_unitByPid T p)"
  by (auto intro: quiet_intros)

lemma quiet_ProcessService_inspect [quiet_intros]:
  "quiet destructive (ProcessService_inspect (recordProcessService S) p)"
  unfolding ProcessService_inspect_def by (intro quiet_intros) (auto intro: quiet_intros)

lemma quiet_listMatches [quiet_intros]:
  "quiet destructive (listMatches (recordProcessService S) q uid ps ms ws)"
proof (induction ps arbitrary: ms ws)
  case (Cons p ps)
  show ?case unfolding listMatches.simps by (intro quiet_intros Cons.IH) assumption
qed (simp add: quiet_intros)

lemma quiet_ProcessService_list [quiet_intros]:
  "quiet destructive (ProcessService_list (recordProcessService S) q)"
  unfolding ProcessService_list_def by (intro quiet_intros) (auto intro: quiet_intros)

lemma quiet_ProcessService_waitForExit [quiet_intros]:
  "quiet destructive (ProcessService_waitForExit (recordProcessService S) p t)"
  by (auto simp: ProcessService_waitForExit_def intro!: quiet_intros)

lemma emits_ProcessService_signal:
  "emits (ProcessService_signal (recordProcessService S) p sig)
     (\<lambda>_ es. es = (if may_signal S p then [CallSend p sig] else []))"
  by (rule validateSignalTarget_cases [of S p])
     (auto simp: ProcessService_signal_def intro: emits_return emits_traced)

text \<open>Looking a unit up through the optional service, recorded or not.\<close>

lemma transparent_attached [transparent_intros]:
  "transparent m' m \<Longrightarrow> (\<And>T. transparent (f' (recordServiceService T)) (f T)) \<Longrightarrow>
   transparent (case ps_serviceService (recordProcessService S) of None \<Rightarrow> m' | Some T \<Rightarrow> f' T)
     (case ps_serviceService S of None \<Rightarrow> m | Some T \<Rightarrow> f T)"
  by (cases "ps_serviceService S") simp_all

lemma transparent_ProcessService_inspect [transparent_intros]:
  "transparent (ProcessService_inspect (recordProcessService S) p) (ProcessService_inspect S p)"
  unfolding ProcessService_inspect_def recordProcessService_sel(1) recordProcessProvider_sel
  by (intro transparent_intros)

lemma transparent_ProcessService_signal [transparent_intros]:
  "transparent (ProcessService_signal (recordProcessService S) p sig) (ProcessService_signal S p sig)"
  by (simp add: ProcessService_signal_def transparent_intros)

lemma transparent_ProcessService_waitForExit [transparent_intros]:
  "transparent (ProcessService_waitForExit (recordProcessService S) p t)
     (ProcessService_waitForExit S p t)"
  by (simp add: ProcessService_waitForExit_def transparent_intros)

section \<open>What a listing contains\<close>

text \<open>The name and user filters of a query, as a predicate on processes.\<close>

definition name_user_match :: "ProcessQuery \<Rightarrow> ProcessInfo \<Rightarrow> bool" where
  "name_user_match q p \<longleftrightarrow>
     (\<forall>n. pq_name q = Some n \<longrightarrow> pi_name p = n) \<and>
     (\<forall>u. pq_user q = Some u \<longrightarrow> requestedUid u = Some (pi_uid p) \<or> pi_user p = u)"

text \<open>A listed process is an observed one whose unit may have been filled in.\<close>

definition observed_as :: "ProcessInfo \<Rightarrow> ProcessInfo \<Rightarrow> bool" where
  "observed_as p r \<longleftrightarrow> (\<exists>u. r = p\<lparr>pi_systemdUnit := u\<rparr>)"

definition listed :: "ProcessQuery \<Rightarrow> ProcessInfo list \<Rightarrow> ProcessInfo list \<Rightarrow> bool" where
  "listed q ps rs \<longleftrightarrow> subseq (map pi_pid rs) (map pi_pid ps) \<and>
     (\<forall>r \<in> set rs. name_user_match q r \<and> (\<exists>p \<in> set ps. observed_as p r) \<and>
        (pq_systemdUnit q \<noteq> None \<longrightarrow> pi_systemdUnit r = pq_systemdUnit q))"

lemma filteredOut_iff:
  "filteredOut q (Option.bind (pq_user q) requestedUid) p \<longleftrightarrow> \<not> name_user_match q p"
  by (auto simp: filteredOut_def name_user_match_def split: option.splits)

lemma name_user_match_unit [simp]:
  "name_user_match q (p\<lparr>pi_systemdUnit := u\<rparr>) = name_user_match q p"
  by (simp add: name_user_match_def)

lemma observed_as_refl [simp]: "observed_as p p"
  unfolding observed_as_def by (rule exI [of _ "pi_systemdUnit p"]) simp

lemma observed_as_update [simp]: "observed_as p (p\<lparr>pi_systemdUnit := u\<rparr>)"
  by (auto simp: observed_as_def)

lemma listed_Nil [simp]: "listed q [] []"
  by (simp add: listed_def)

lemma listed_skip: "listed q ps rs \<Longrightarrow> listed q (p # ps) rs"
  by (auto simp: listed_def)

lemma listed_keep:
  "listed q ps rs \<Longrightarrow> name_user_match q r \<Longrightarrow> observed_as p r \<Longrightarrow> pi_pid r = pi_pid p \<Longrightarrow>
   (pq_systemdUnit q \<noteq> None \<longrightarrow> pi_systemdUnit r = pq_systemdUnit q) \<Longrightarrow>
   listed q (p # ps) (r # rs)"
  by (auto simp: listed_def)

lemma listMatches_listed:
  assumes "result_of (listMatches S q (Option.bind (pq_user q) requestedUid) ps ms ws) s =
    Inr (rs, ws')"
  shows "\<exists>rs'. rs = ms @ rs' \<and> listed q ps rs'"
  using assms
proof (induction ps arbitrary: ms ws s)
  case Nil
  then show ?case by simp
next
  case (Cons p ps)
  have skip: "\<exists>rs'. rs = ms @ rs' \<and> listed q (p # ps) rs'"
    if "result_of (listMatches S q (Option.bind (pq_user q) requestedUid) ps ms ws) s =
      Inr (rs, ws')" for ws s
    using Cons.IH [OF that] by (blast intro: listed_skip)
  have keep: "\<exists>rs'. rs = ms @ rs' \<and> listed q (p # ps) rs'"
    if run: "result_of (listMatches S q (Option.bind (pq_user q) requestedUid) ps (ms @ [r]) ws) s
        = Inr (rs, ws')"
      and r: "observed_as p r" "pi_pid r = pi_pid p" "name_user_match q r"
        "pq_systemdUnit q \<noteq> None \<longrightarrow> pi_systemdUnit r = pq_systemdUnit q" for r ws s
    using Cons.IH [OF run] r by (auto intro: listed_keep)
  show ?case
  proof (cases "name_user_match q p")
    case False
    then show ?thesis using Cons.prems skip by (simp add: filteredOut_iff)
  next
    case True
    then show ?thesis
      using Cons.prems
      by (auto simp: filteredOut_iff Let_def intro: keep skip
          split: option.split_asm if_split_asm sum.split_asm)
  qed
qed

text \<open>Without a service filter nothing that matches is lost, whatever the unit lookups answer.\<close>

lemma listMatches_complete:
  assumes "pq_systemdUnit q = None"
  shows "\<exists>rs ws'. result_of (listMatches S q (Option.bind (pq_user q) requestedUid) ps ms ws) s =
      Inr (rs, ws') \<and> map pi_pid rs = map pi_pid ms @ map pi_pid (filter (name_user_match q) ps)"
proof (induction ps arbitrary: ms ws s)
  case Nil
  then show ?case by simp
next
  case (Cons p ps)
  have keep: "\<exists>rs ws'. result_of (listMatches S q (Option.bind (pq_user q) requestedUid) ps (ms @ [r]) ws) s
      = Inr (rs, ws') \<and> map pi_pid rs = map pi_pid ms @ pi_pid p # map pi_pid (filter (name_user_match q) ps)"
    if "pi_pid r = pi_pid p" for r ws s
    using Cons.IH [of "ms @ [r]" ws s] that by simp
  show ?case
    using assms Cons.IH [of ms ws s] keep
    by (auto simp: filteredOut_iff Let_def split: option.split sum.split)
qed

section \<open>Properties\<close>

text \<open>
  C10. A signal request reaches the signal provider for exactly the processes other than PID 1,
  the running program and the non-positive ids (which \<open>kill(2)\<close> reads as process groups); for
  those it makes no call at all. This holds for every provider and in every world.
\<close>

theorem ProcessService_signal_guarded:
  "snd (world_after (ProcessService_signal (recordProcessService S) p sig) (w, [])) =
     (if 1 < p \<and> p \<noteq> ps_selfPid S then [CallSend p sig] else [])"
proof -
  obtain es where "snd (world_after (ProcessService_signal (recordProcessService S) p sig) (w, []))
      = snd (w, []) @ es" "es = (if may_signal S p then [CallSend p sig] else [])"
    using emits_ProcessService_signal by (rule emitsD)
  then show ?thesis by (simp add: may_signal_def)
qed

text \<open>
  C37. A process listing is sound for the query: it lists observed processes in the order they
  were observed, each of which has the requested name, the requested user (by name, or by id where
  the text is a number) and the requested, normalised unit. Without a service filter it is also
  complete: the listed ids are exactly those of the matching observed processes.
\<close>

theorem ProcessService_list_exact:
  assumes "result_of (ProcessService_list S q0) s = Inr ob"
  shows "\<exists>q observed. normalizedQuery S q0 = Inr q \<and>
      result_of (pp_list (ps_processProvider S)) s = Inr observed \<and>
      listed q (ob_value observed) (ob_value ob) \<and>
      (pq_systemdUnit q = None \<longrightarrow> map pi_pid (ob_value ob) =
         map pi_pid (filter (name_user_match q) (ob_value observed)))"
proof -
  obtain q where q: "normalizedQuery S q0 = Inr q"
    using assms by (cases "normalizedQuery S q0") (auto simp: ProcessService_list_def)
  obtain observed where o: "result_of (pp_list (ps_processProvider S)) s = Inr observed"
    using assms q
    by (cases "result_of (pp_list (ps_processProvider S)) s") (auto simp: ProcessService_list_def)
  let ?run = "\<lambda>s'. result_of (listMatches S q (Option.bind (pq_user q) requestedUid)
      (ob_value observed) [] (ob_warnings observed)) s'"
  obtain rs ws s' where r: "?run s' = Inr (rs, ws)" and ob: "ob_value ob = rs"
    using assms q o
    by (auto simp: ProcessService_list_def split: sum.split_asm prod.split_asm)
  have "listed q (ob_value observed) rs"
    using listMatches_listed [OF r] by simp
  moreover have "pq_systemdUnit q = None \<longrightarrow>
      map pi_pid rs = map pi_pid (filter (name_user_match q) (ob_value observed))"
    using listMatches_complete [of q S "ob_value observed" "[]" "ob_warnings observed" s'] r by auto
  ultimately show ?thesis using q o ob by (intro exI [of _ q] exI [of _ observed]) simp
qed

text \<open>A concrete service over any world, for the witnesses.\<close>

definition demo_process :: "pid \<Rightarrow> string \<Rightarrow> ProcessInfo" where
  "demo_process p n = default_ProcessInfo\<lparr>pi_pid := p, pi_name := n, pi_uid := 7\<rparr>"

definition demo_ProcessService :: "'w ProcessService" where
  "demo_ProcessService =
     \<lparr>ps_processProvider =
        \<lparr>pp_get = (\<lambda>p. return (success \<lparr>ob_value = demo_process p ''sh'', ob_warnings = []\<rparr>)),
         pp_list = return (success \<lparr>ob_value = [demo_process 4 ''sh'', demo_process 9 ''vi''],
                                    ob_warnings = []\<rparr>)\<rparr>,
      ps_signalProvider =
        \<lparr>sp_send = (\<lambda>p sig. return (success \<lparr>sd_pid = p, sd_signal = sig, sd_mechanism = ViaKill\<rparr>)),
         sp_waitForExit = (\<lambda>p t. return (success True)),
         sp_capabilities = return \<lparr>sc_signalingAvailable = True, sc_pidFdAvailable = False\<rparr>\<rparr>,
      ps_selfPid = 2, ps_serviceService = None\<rparr>"

theorem ProcessService_list_exact_witness:
  "\<exists>q observed.
      normalizedQuery (demo_ProcessService :: unit ProcessService) (default_ProcessQuery\<lparr>pq_name := Some ''vi''\<rparr>) = Inr q \<and>
      result_of (pp_list (ps_processProvider (demo_ProcessService :: unit ProcessService))) () = Inr observed \<and>
      listed q (ob_value observed) [demo_process 9 ''vi'']"
proof -
  have run: "result_of (ProcessService_list demo_ProcessService
      (default_ProcessQuery\<lparr>pq_name := Some ''vi''\<rparr>)) () =
    Inr \<lparr>ob_value = [demo_process 9 ''vi''], ob_warnings = []\<rparr>"
    by (simp add: ProcessService_list_def normalizedQuery_def demo_ProcessService_def
        default_ProcessQuery_def filteredOut_def demo_process_def default_ProcessInfo_def)
  show ?thesis using ProcessService_list_exact [OF run] by auto
qed

end
