(* ===== verification/PortService.thy ===== *)
theory PortService
  imports ProcessService
begin

text \<open>
  \<open>src/application/PortService.cpp\<close>: the sockets of a port with their owners, and the release of a
  port: preparing a plan, signalling its owners after a fresh check that the plan still describes
  the machine, waiting for them, and stopping a common systemd service.

  Two things of the environment are fields of the service besides its C++ members: the clock, and
  the order in which \<open>std::unordered_set<pid_t>\<close> is iterated (\<open>po_hashOrder\<close>, applied to the distinct
  elements in insertion order). \<open>stopManagedService\<close> polls without a bound of its own; its model
  takes fuel, and \<open>None\<close> means the loop was still polling when the fuel ran out.
\<close>

section \<open>Identities of the release targets\<close>

type_synonym SocketIdentity =
  "TransportProtocol \<times> AddressFamily \<times> string \<times> u16 \<times> u64 \<times> pid list"

definition socketIdentity :: "PortInfo \<Rightarrow> SocketIdentity" where
  "socketIdentity port =
     (so_protocol (po_socket port), so_family (po_socket port),
      ep_address (so_local (po_socket port)), ep_port (so_local (po_socket port)),
      so_inode (po_socket port), so_ownerPids (po_socket port))"

definition identities :: "PortReleasePlan \<Rightarrow> SocketIdentity list" where
  "identities plan = sort (map socketIdentity (rp_ports plan))"

definition sameTargets :: "PortReleasePlan \<Rightarrow> PortReleasePlan \<Rightarrow> bool" where
  "sameTargets expected current \<longleftrightarrow> identities expected = identities current"

text \<open>The lambda of \<open>remainingTargetsBelongTo\<close>: the same socket, whoever owns it.\<close>

definition sameSocket :: "PortInfo \<Rightarrow> PortInfo \<Rightarrow> bool" where
  "sameSocket currentPort candidate \<longleftrightarrow>
     so_protocol (po_socket candidate) = so_protocol (po_socket currentPort) \<and>
     so_family (po_socket candidate) = so_family (po_socket currentPort) \<and>
     ep_address (so_local (po_socket candidate)) = ep_address (so_local (po_socket currentPort)) \<and>
     ep_port (so_local (po_socket candidate)) = ep_port (so_local (po_socket currentPort)) \<and>
     so_inode (po_socket candidate) = so_inode (po_socket currentPort)"

definition remainingTargetsBelongTo :: "PortReleasePlan \<Rightarrow> PortReleasePlan \<Rightarrow> bool" where
  "remainingTargetsBelongTo original current \<longleftrightarrow>
     list_all (\<lambda>currentPort.
       case find (sameSocket currentPort) (rp_ports original) of
         None \<Rightarrow> False
       | Some found \<Rightarrow> std_includes (so_ownerPids (po_socket found))
                                    (so_ownerPids (po_socket currentPort)))
     (rp_ports current)"

definition changedTargetError :: Error where
  "changedTargetError = mkError Conflict
     ''Port ownership changed; refusing to signal a new target'' 0 ''port-service'' ''release''"

section \<open>The service and its inspection\<close>

record 'w PortService =
  po_socketProvider :: "'w ISocketProvider"
  po_ownerResolver :: "'w ISocketOwnerResolver"
  po_processService :: "'w ProcessService"
  po_serviceService :: "'w ServiceService option"
  po_gracePeriod :: int
  po_clock :: "'w Clock"
  po_hashOrder :: "pid list \<Rightarrow> pid list"

definition assignOwners :: "SocketOwnership \<Rightarrow> SocketInfo \<Rightarrow> SocketInfo" where
  "assignOwners ownership socket =
     (case ownership (so_inode socket) of
        None \<Rightarrow> socket
      | Some pids \<Rightarrow> socket\<lparr>so_ownerPids := pids\<rparr>)"

text \<open>The pids the second loop of \<open>inspect\<close> inserts, in insertion order.\<close>

definition insertedPids :: "SocketOwnership \<Rightarrow> SocketInfo list \<Rightarrow> pid list" where
  "insertedPids ownership sockets =
     concat (map (\<lambda>socket. case ownership (so_inode socket) of None \<Rightarrow> [] | Some pids \<Rightarrow> pids) sockets)"

fun inspectOwners :: "'w ProcessService \<Rightarrow> pid list \<Rightarrow> Warning list \<Rightarrow> (pid \<Rightarrow> ProcessInfo option) \<Rightarrow>
    ('w, Warning list \<times> (pid \<Rightarrow> ProcessInfo option)) io" where
  "inspectOwners S [] warnings processes = return (warnings, processes)"
| "inspectOwners S (pid # rest) warnings processes = do {
     process \<leftarrow> ProcessService_inspect S pid;
     case process of
       Inl e \<Rightarrow> inspectOwners S rest (warnings @ [warningFrom e]) processes
     | Inr ob \<Rightarrow> inspectOwners S rest (warnings @ ob_warnings ob) (emplace pid (ob_value ob) processes)
   }"

definition portOf :: "(pid \<Rightarrow> ProcessInfo option) \<Rightarrow> SocketInfo \<Rightarrow> PortInfo" where
  "portOf processes socket =
     \<lparr>po_socket = socket,
      po_owners = List.map_filter processes (so_ownerPids socket)\<rparr>"

definition PortService_inspect ::
  "'w PortService \<Rightarrow> SocketQuery \<Rightarrow> ('w, PortInfo list Observation result) io" where
  "PortService_inspect S query = do {
     sockets \<leftarrow> kp_query (po_socketProvider S) query;
     case sockets of
       Inl e \<Rightarrow> return (failure e)
     | Inr observed \<Rightarrow> do {
         ownership \<leftarrow> or_resolve (po_ownerResolver S)
           (filter (\<lambda>i. i \<noteq> 0) (map so_inode (ob_value observed)));
         case ownership of
           Inl e \<Rightarrow> return (failure e)
         | Inr owners \<Rightarrow> do {
             (warnings, processes) \<leftarrow> inspectOwners (po_processService S)
               (po_hashOrder S (remdups (insertedPids (ob_value owners) (ob_value observed))))
               (ob_warnings observed @ ob_warnings owners) Map.empty;
             return (success
               \<lparr>ob_value = map (portOf processes \<circ> assignOwners (ob_value owners)) (ob_value observed),
                ob_warnings = warnings\<rparr>)
           }
       }
   }"

section \<open>Preparing a release\<close>

text \<open>The owners of every socket in turn; a socket without owner ends the loop.\<close>

fun collectOwnerPids :: "PortInfo list \<Rightarrow> pid list \<Rightarrow> pid list option" where
  "collectOwnerPids [] acc = Some acc"
| "collectOwnerPids (port # rest) acc =
     (if so_ownerPids (po_socket port) = [] then None
      else collectOwnerPids rest (acc @ so_ownerPids (po_socket port)))"

text \<open>The first process with the pid among the owners of the ports.\<close>

fun findOwner :: "PortInfo list \<Rightarrow> pid \<Rightarrow> ProcessInfo option" where
  "findOwner [] pid = None"
| "findOwner (port # rest) pid =
     (case find (\<lambda>process. pi_pid process = pid) (po_owners port) of
        Some owner \<Rightarrow> Some owner
      | None \<Rightarrow> findOwner rest pid)"

text \<open>The loop over the owners: whether they are all managed by one service, and by which.\<close>

fun commonUnitLoop :: "PortInfo list \<Rightarrow> pid list \<Rightarrow> string option \<Rightarrow> bool \<times> string option" where
  "commonUnitLoop ports [] commonUnit = (True, commonUnit)"
| "commonUnitLoop ports (pid # rest) commonUnit =
     (case findOwner ports pid of
        None \<Rightarrow> (False, commonUnit)
      | Some owner \<Rightarrow>
          (case pi_systemdUnit owner of
             None \<Rightarrow> (False, commonUnit)
           | Some unit \<Rightarrow>
               (case commonUnit of
                  None \<Rightarrow> commonUnitLoop ports rest (Some unit)
                | Some c \<Rightarrow> if c \<noteq> unit then (False, commonUnit)
                            else commonUnitLoop ports rest commonUnit)))"

definition recommendedUnitFor :: "PortInfo list \<Rightarrow> pid list \<Rightarrow> string option" where
  "recommendedUnitFor ports pids =
     (if pids = [] then None
      else (case commonUnitLoop ports pids None of
              (managed, unit) \<Rightarrow> if managed then unit else None))"

fun validateAll :: "'w ProcessService \<Rightarrow> pid list \<Rightarrow> unit result" where
  "validateAll S [] = success ()"
| "validateAll S (pid # rest) =
     (case ProcessService_validateSignalTarget S pid of
        Inl e \<Rightarrow> failure e
      | Inr _ \<Rightarrow> validateAll S rest)"

text \<open>What \<open>prepareRelease\<close> does with the inspected ports.\<close>

definition planFrom :: "'w PortService \<Rightarrow> u16 \<Rightarrow> PortInfo list Observation \<Rightarrow>
    PortReleasePlan Observation result" where
  "planFrom S localPort inspected =
     (if ob_value inspected = []
      then failure (mkError NotFound (''No socket found for port '' @ nat_str (unat localPort)) 0
                      ''port-service'' ''prepare release'')
      else
        (case collectOwnerPids (ob_value inspected) [] of
           None \<Rightarrow> failure (mkError PermissionDenied
               ''Cannot safely release the port because a socket owner is unresolved'' 0
               ''port-service'' ''prepare release'')
         | Some pids \<Rightarrow>
             (let ownerPids = std_unique (sort pids);
                  plan = \<lparr>rp_localPort = localPort, rp_ports = ob_value inspected,
                          rp_ownerPids = ownerPids,
                          rp_recommendedUnit = recommendedUnitFor (ob_value inspected) ownerPids\<rparr> in
              (case validateAll (po_processService S) ownerPids of
                 Inl e \<Rightarrow> failure e
               | Inr _ \<Rightarrow> success \<lparr>ob_value = plan, ob_warnings = ob_warnings inspected\<rparr>))))"

definition PortService_prepareRelease ::
  "'w PortService \<Rightarrow> u16 \<Rightarrow> ('w, PortReleasePlan Observation result) io" where
  "PortService_prepareRelease S localPort =
     (if localPort = 0
      then return (failure (mkError InvalidArgument ''Port must be between 1 and 65535'' 0
                              ''port-service'' ''prepare release''))
      else do {
        inspected \<leftarrow> PortService_inspect S (default_SocketQuery\<lparr>sq_localPort := Some localPort\<rparr>);
        return (case inspected of
                  Inl e \<Rightarrow> failure e
                | Inr ports \<Rightarrow> planFrom S localPort ports)
      })"

section \<open>Releasing\<close>

definition released_nothing :: "PortReleaseResult Observation" where
  "released_nothing = \<lparr>ob_value = \<lparr>rr_released = True, rr_deliveries = [], rr_remaining = None\<rparr>,
     ob_warnings = []\<rparr>"

text \<open>The signalling loop shared by \<open>terminate\<close> and \<open>force\<close>: it stops at the first failure, whose
  message says whether some owners were signalled already.\<close>

fun signalOwners :: "'w ProcessService \<Rightarrow> ProcessSignal \<Rightarrow> pid list \<Rightarrow> SignalDelivery list \<Rightarrow>
    ('w, SignalDelivery list result) io" where
  "signalOwners S sig [] deliveries = return (success deliveries)"
| "signalOwners S sig (pid # rest) deliveries = do {
     delivery \<leftarrow> (case sig of Terminate \<Rightarrow> ProcessService_stop S pid
                            | Kill \<Rightarrow> ProcessService_kill S pid);
     case delivery of
       Inl e \<Rightarrow> return (failure
         (if deliveries \<noteq> []
          then e\<lparr>er_message := ''Port release was partially signaled: '' @ er_message e\<rparr>
          else e))
     | Inr d \<Rightarrow> signalOwners S sig rest (deliveries @ [d])
   }"

text \<open>The waiting loop: what is left of the grace period, in whole milliseconds.\<close>

fun awaitOwners :: "'w PortService \<Rightarrow> int \<Rightarrow> pid list \<Rightarrow> ('w, unit result) io" where
  "awaitOwners S deadline [] = return (success ())"
| "awaitOwners S deadline (pid # rest) = do {
     now \<leftarrow> ck_steadyNow (po_clock S);
     exited \<leftarrow> ProcessService_waitForExit (po_processService S) pid
       (if deadline \<le> now then 0 else (deadline - now) div 1000000);
     case exited of
       Inl e \<Rightarrow> return (failure e)
     | Inr _ \<Rightarrow> awaitOwners S deadline rest
   }"

definition PortService_terminate ::
  "'w PortService \<Rightarrow> PortReleasePlan \<Rightarrow> ('w, PortReleaseResult Observation result) io" where
  "PortService_terminate S plan = do {
     current \<leftarrow> PortService_prepareRelease S (rp_localPort plan);
     case current of
       Inl e \<Rightarrow> return (if er_code e = NotFound then success released_nothing else failure e)
     | Inr cur \<Rightarrow>
         (if \<not> sameTargets plan (ob_value cur) then return (failure changedTargetError)
          else do {
            signalled \<leftarrow> signalOwners (po_processService S) Terminate (rp_ownerPids plan) [];
            case signalled of
              Inl e \<Rightarrow> return (failure e)
            | Inr deliveries \<Rightarrow> do {
                start \<leftarrow> ck_steadyNow (po_clock S);
                awaited \<leftarrow> awaitOwners S (start + po_gracePeriod S * 1000000) (rp_ownerPids plan);
                case awaited of
                  Inl e \<Rightarrow> return (failure e)
                | Inr _ \<Rightarrow> do {
                    after \<leftarrow> PortService_prepareRelease S (rp_localPort plan);
                    return (case after of
                      Inl e \<Rightarrow>
                        (if er_code e = NotFound
                         then success \<lparr>ob_value = \<lparr>rr_released = True, rr_deliveries = deliveries,
                                                    rr_remaining = None\<rparr>,
                                       ob_warnings = ob_warnings cur\<rparr>
                         else failure e)
                    | Inr aft \<Rightarrow>
                        (if \<not> remainingTargetsBelongTo plan (ob_value aft)
                         then failure changedTargetError
                         else success \<lparr>ob_value = \<lparr>rr_released = False, rr_deliveries = deliveries,
                                                    rr_remaining = Some (ob_value aft)\<rparr>,
                                       ob_warnings = ob_warnings cur @ ob_warnings aft\<rparr>))
                  }
              }
          })
   }"

definition PortService_force ::
  "'w PortService \<Rightarrow> PortReleasePlan \<Rightarrow> ('w, PortReleaseResult Observation result) io" where
  "PortService_force S plan = do {
     current \<leftarrow> PortService_prepareRelease S (rp_localPort plan);
     case current of
       Inl e \<Rightarrow> return (if er_code e = NotFound then success released_nothing else failure e)
     | Inr cur \<Rightarrow>
         (if \<not> sameTargets plan (ob_value cur) then return (failure changedTargetError)
          else do {
            signalled \<leftarrow> signalOwners (po_processService S) Kill (rp_ownerPids plan) [];
            case signalled of
              Inl e \<Rightarrow> return (failure e)
            | Inr deliveries \<Rightarrow> do {
                start \<leftarrow> ck_steadyNow (po_clock S);
                awaited \<leftarrow> awaitOwners S (start + po_gracePeriod S * 1000000) (rp_ownerPids plan);
                case awaited of
                  Inl e \<Rightarrow> return (failure e)
                | Inr _ \<Rightarrow> do {
                    after \<leftarrow> PortService_prepareRelease S (rp_localPort plan);
                    return (case after of
                      Inl e \<Rightarrow>
                        (if er_code e = NotFound
                         then success \<lparr>ob_value = \<lparr>rr_released = True, rr_deliveries = deliveries,
                                                    rr_remaining = None\<rparr>,
                                       ob_warnings = ob_warnings cur\<rparr>
                         else failure e)
                    | Inr aft \<Rightarrow>
                        (if \<not> remainingTargetsBelongTo plan (ob_value aft)
                         then failure changedTargetError
                         else failure (mkError Timeout ''Port is still occupied after SIGKILL'' 0
                                         ''port-service'' ''force release'')))
                  }
              }
          })
   }"

text \<open>The polling loop of \<open>stopManagedService\<close>.\<close>

fun pollReleased :: "nat \<Rightarrow> 'w PortService \<Rightarrow> PortReleasePlan \<Rightarrow> string \<Rightarrow> int \<Rightarrow> Warning list \<Rightarrow>
    ('w, PortReleaseResult Observation result option) io" where
  "pollReleased 0 S plan unit deadline warnings = return None"
| "pollReleased (Suc fuel) S plan unit deadline warnings = do {
     after \<leftarrow> PortService_prepareRelease S (rp_localPort plan);
     case after of
       Inl e \<Rightarrow> return (Some
         (if er_code e = NotFound
          then success \<lparr>ob_value = \<lparr>rr_released = True, rr_deliveries = [], rr_remaining = None\<rparr>,
                        ob_warnings = warnings\<rparr>
          else failure e))
     | Inr aft \<Rightarrow>
         (if \<not> remainingTargetsBelongTo plan (ob_value aft)
          then return (Some (failure changedTargetError))
          else do {
            now \<leftarrow> ck_steadyNow (po_clock S);
            if deadline \<le> now
            then return (Some (failure (mkError Timeout
                   (''Port is still occupied after stopping '' @ unit) 0
                   ''port-service'' ''stop managed service'')))
            else do {
              _ \<leftarrow> ck_sleep (po_clock S) 25;
              pollReleased fuel S plan unit deadline (warnings @ ob_warnings aft)
            }
          })
   }"

definition PortService_stopManagedService ::
  "nat \<Rightarrow> 'w PortService \<Rightarrow> PortReleasePlan \<Rightarrow>
   ('w, PortReleaseResult Observation result option) io" where
  "PortService_stopManagedService fuel S plan =
     (case (rp_recommendedUnit plan, po_serviceService S) of
        (Some unit, Some services) \<Rightarrow> do {
          current \<leftarrow> PortService_prepareRelease S (rp_localPort plan);
          case current of
            Inl e \<Rightarrow> return (Some (if er_code e = NotFound then success released_nothing
                                   else failure e))
          | Inr cur \<Rightarrow>
              (if \<not> sameTargets plan (ob_value cur) \<or>
                  rp_recommendedUnit (ob_value cur) \<noteq> rp_recommendedUnit plan
               then return (Some (failure changedTargetError))
               else do {
                 stopped \<leftarrow> ServiceService_stop services unit;
                 case stopped of
                   Inl e \<Rightarrow> return (Some (failure e))
                 | Inr _ \<Rightarrow> do {
                     start \<leftarrow> ck_steadyNow (po_clock S);
                     pollReleased fuel S plan unit (start + po_gracePeriod S * 1000000)
                       (ob_warnings cur)
                   }
               })
        }
      | _ \<Rightarrow> return (Some (failure (mkError InvalidArgument
               ''Port release plan has no managed service'' 0 ''port-service''
               ''stop managed service''))))"

section \<open>The calls of the operations\<close>

definition recordPortService :: "'w PortService \<Rightarrow> 'w recorded PortService" where
  "recordPortService S =
     \<lparr>po_socketProvider = recordSocketProvider (po_socketProvider S),
      po_ownerResolver = recordOwnerResolver (po_ownerResolver S),
      po_processService = recordProcessService (po_processService S),
      po_serviceService = map_option recordServiceService (po_serviceService S),
      po_gracePeriod = po_gracePeriod S,
      po_clock = recordClock (po_clock S),
      po_hashOrder = po_hashOrder S\<rparr>"

lemma recordPortService_sel [simp]:
  "po_socketProvider (recordPortService S) = recordSocketProvider (po_socketProvider S)"
  "po_ownerResolver (recordPortService S) = recordOwnerResolver (po_ownerResolver S)"
  "po_processService (recordPortService S) = recordProcessService (po_processService S)"
  "po_serviceService (recordPortService S) = map_option recordServiceService (po_serviceService S)"
  "po_gracePeriod (recordPortService S) = po_gracePeriod S"
  "po_clock (recordPortService S) = recordClock (po_clock S)"
  "po_hashOrder (recordPortService S) = po_hashOrder S"
  by (simp_all add: recordPortService_def)

lemma quiet_inspectOwners [quiet_intros]:
  "quiet destructive (inspectOwners (recordProcessService S) ps ws m)"
proof (induction ps arbitrary: ws m)
  case (Cons p ps)
  show ?case unfolding inspectOwners.simps by (intro quiet_intros Cons.IH)
qed (simp add: quiet_intros)

lemma quiet_PortService_inspect [quiet_intros]:
  "quiet destructive (PortService_inspect (recordPortService S) q)"
  unfolding PortService_inspect_def recordPortService_sel recordOther_sel
  by (intro quiet_intros) simp_all

lemma quiet_PortService_prepareRelease [quiet_intros]:
  "quiet destructive (PortService_prepareRelease (recordPortService S) p)"
  unfolding PortService_prepareRelease_def by (intro quiet_intros)

lemma quiet_awaitOwners [quiet_intros]:
  "quiet destructive (awaitOwners (recordPortService S) d ps)"
proof (induction ps)
  case (Cons p ps)
  show ?case
    unfolding awaitOwners.simps recordPortService_sel recordOther_sel
    by (intro quiet_intros Cons.IH) simp
qed (simp add: quiet_intros)

lemma quiet_pollReleased [quiet_intros]:
  "quiet destructive (pollReleased n (recordPortService S) plan u d ws)"
proof (induction n arbitrary: ws)
  case (Suc n)
  show ?case
    unfolding pollReleased.simps recordPortService_sel recordOther_sel
    by (intro quiet_intros Suc.IH) simp_all
qed (simp add: quiet_intros)

lemma transparent_inspectOwners [transparent_intros]:
  "transparent (inspectOwners (recordProcessService S) ps ws m) (inspectOwners S ps ws m)"
proof (induction ps arbitrary: ws m)
  case (Cons p ps)
  show ?case unfolding inspectOwners.simps by (intro transparent_intros Cons.IH)
qed (simp add: transparent_intros)

lemma transparent_PortService_inspect [transparent_intros]:
  "transparent (PortService_inspect (recordPortService S) q) (PortService_inspect S q)"
  unfolding PortService_inspect_def recordPortService_sel recordOther_sel
  by (intro transparent_intros)

lemma validateAll_record [simp]: "validateAll (recordProcessService S) = validateAll S"
proof
  fix ps show "validateAll (recordProcessService S) ps = validateAll S ps"
    by (induction ps) (simp_all split: sum.split)
qed

lemma planFrom_record [simp]: "planFrom (recordPortService S) = planFrom S"
  by (simp add: planFrom_def fun_eq_iff cong: option.case_cong sum.case_cong)

lemma transparent_PortService_prepareRelease [transparent_intros]:
  "transparent (PortService_prepareRelease (recordPortService S) p) (PortService_prepareRelease S p)"
  unfolding PortService_prepareRelease_def planFrom_record by (intro transparent_intros)

text \<open>The signalling loop sends the signal to a prefix of the list, in order, and only to processes
  that may be signalled.\<close>

definition signals_prefix ::
  "'w ProcessService \<Rightarrow> ProcessSignal \<Rightarrow> pid list \<Rightarrow> call list \<Rightarrow> bool" where
  "signals_prefix S sig pids es \<longleftrightarrow> (\<exists>k. es = map (\<lambda>p. CallSend p sig) (take k pids) \<and>
     (\<forall>p \<in> set (take k pids). may_signal S p))"

lemma signals_prefix_Nil [simp]: "signals_prefix S sig ps []"
  unfolding signals_prefix_def by (rule exI [of _ 0]) simp

lemma signals_prefix_Cons:
  "may_signal S p \<Longrightarrow> signals_prefix S sig ps es \<Longrightarrow>
   signals_prefix S sig (p # ps) (CallSend p sig # es)"
  unfolding signals_prefix_def by (erule exE) (rule_tac x = "Suc k" in exI, simp)

lemma signalOwners_signal:
  "(case sig of Terminate \<Rightarrow> ProcessService_stop S p | Kill \<Rightarrow> ProcessService_kill S p) =
   ProcessService_signal S p sig"
  by (simp add: ProcessService_stop_def ProcessService_kill_def split: ProcessSignal.split)

text \<open>A refused target ends the loop.\<close>

lemma signal_refused:
  "\<not> may_signal S p \<Longrightarrow> \<exists>e. ProcessService_signal S p sig = return (failure e)"
  by (rule validateSignalTarget_cases [of S p]) (auto simp: ProcessService_signal_def)

lemma signal_allowed:
  "may_signal S p \<Longrightarrow> ProcessService_signal S p sig = sp_send (ps_signalProvider S) p sig"
  by (rule validateSignalTarget_cases [of S p]) (auto simp: ProcessService_signal_def)

lemma effects_signalOwners:
  "effects destructive (signalOwners (recordProcessService S) sig ps ds) (signals_prefix S sig ps)"
proof (induction ps arbitrary: ds)
  case Nil
  show ?case by (simp add: effect_intros)
next
  case (Cons p ps)
  show ?case
  proof (cases "may_signal S p")
    case False
    then obtain e where "ProcessService_signal (recordProcessService S) p sig = return (failure e)"
      using signal_refused [of "recordProcessService S" p sig] by auto
    then show ?thesis
      unfolding signalOwners.simps signalOwners_signal by (simp add: effect_intros)
  next
    case True
    have tail: "effects destructive
        (case d of Inl e \<Rightarrow> return (failure (if ds \<noteq> [] then e\<lparr>er_message :=
            ''Port release was partially signaled: '' @ er_message e\<rparr> else e))
         | Inr d \<Rightarrow> signalOwners (recordProcessService S) sig ps (ds @ [d]))
        (signals_prefix S sig ps)" for d
      by (intro effect_intros Cons.IH) simp
    have "emits (traced (CallSend p sig) (sp_send (ps_signalProvider S) p sig))
        (\<lambda>_ es. es = [CallSend p sig])"
      by (rule emits_traced) simp
    then show ?thesis
      unfolding signalOwners.simps signalOwners_signal effects_def
      using True signal_allowed [of "recordProcessService S" p sig]
      by (auto intro!: emits_bind [OF _ tail [unfolded effects_def]] signals_prefix_Cons)
  qed
qed

section \<open>Plans\<close>

text \<open>The processes that own a socket of a plan.\<close>

definition owners_of :: "PortReleasePlan \<Rightarrow> pid set" where
  "owners_of plan = (\<Union>port \<in> set (rp_ports plan). set (so_ownerPids (po_socket port)))"

lemma sameTargets_iff_mset:
  "sameTargets a b \<longleftrightarrow>
     mset (map socketIdentity (rp_ports a)) = mset (map socketIdentity (rp_ports b))"
  unfolding sameTargets_def identities_def by (rule sort_eq_iff_mset)

lemma owners_of_identities:
  "owners_of plan = (\<Union>(_, _, _, _, _, pids) \<in> set_mset (mset (map socketIdentity (rp_ports plan))). set pids)"
  by (auto simp: owners_of_def socketIdentity_def)

lemma sameTargets_owners: "sameTargets a b \<Longrightarrow> owners_of a = owners_of b"
  by (simp add: sameTargets_iff_mset owners_of_identities del: mset_map)

lemma collectOwnerPids_iff:
  "collectOwnerPids ports acc = Some pids \<longleftrightarrow>
     (\<forall>port \<in> set ports. so_ownerPids (po_socket port) \<noteq> []) \<and>
     pids = acc @ concat (map (\<lambda>port. so_ownerPids (po_socket port)) ports)"
  by (induction ports arbitrary: acc) auto

lemma validateAll_iff: "validateAll S pids = Inr u \<longleftrightarrow> (\<forall>p \<in> set pids. may_signal S p)"
proof (induction pids)
  case (Cons p pids)
  then show ?case by (cases rule: validateSignalTarget_cases [of S p]) auto
qed simp

definition managed_by :: "PortInfo list \<Rightarrow> string \<Rightarrow> pid \<Rightarrow> bool" where
  "managed_by ports unit p \<longleftrightarrow>
     (\<exists>owner. findOwner ports p = Some owner \<and> pi_systemdUnit owner = Some unit)"

lemma commonUnitLoop_Some:
  "commonUnitLoop ports pids (Some c) = (True, u) \<longleftrightarrow>
     u = Some c \<and> (\<forall>p \<in> set pids. managed_by ports c p)"
  by (induction pids) (auto simp: managed_by_def split: option.splits)

lemma recommendedUnitFor_iff:
  "recommendedUnitFor ports pids = Some unit \<longleftrightarrow>
     pids \<noteq> [] \<and> (\<forall>p \<in> set pids. managed_by ports unit p)"
proof (cases pids)
  case (Cons p rest)
  have "commonUnitLoop ports (p # rest) None = (True, Some unit) \<longleftrightarrow>
      (\<forall>q \<in> set (p # rest). managed_by ports unit q)"
  proof (cases "Option.bind (findOwner ports p) pi_systemdUnit")
    case None
    then show ?thesis by (auto simp: managed_by_def bind_eq_None_conv split: option.split)
  next
    case (Some u)
    then obtain owner where "findOwner ports p = Some owner" "pi_systemdUnit owner = Some u"
      by (auto simp: bind_eq_Some_conv)
    then show ?thesis by (auto simp: commonUnitLoop_Some managed_by_def)
  qed
  with Cons show ?thesis
    by (auto simp: recommendedUnitFor_def split: prod.splits if_splits)
qed (simp add: recommendedUnitFor_def)

text \<open>What a prepared plan says: which port, that every socket has an owner, who the owners are,
  that all of them may be signalled, and when a common service is recommended.\<close>

definition plan_ok :: "'w PortService \<Rightarrow> u16 \<Rightarrow> PortReleasePlan \<Rightarrow> bool" where
  "plan_ok S port plan \<longleftrightarrow> port \<noteq> 0 \<and> rp_localPort plan = port \<and> rp_ports plan \<noteq> [] \<and>
     (\<forall>info \<in> set (rp_ports plan). so_ownerPids (po_socket info) \<noteq> []) \<and>
     rp_ownerPids plan = sorted_list_of_set (owners_of plan) \<and>
     (\<forall>p \<in> owners_of plan. may_signal (po_processService S) p) \<and>
     (\<forall>unit. rp_recommendedUnit plan = Some unit \<longleftrightarrow>
        (\<forall>p \<in> owners_of plan. managed_by (rp_ports plan) unit p))"

lemma finite_owners_of [simp]: "finite (owners_of plan)"
  by (simp add: owners_of_def)

lemma planFrom_ok:
  assumes "planFrom S port inspected = Inr ob" "port \<noteq> 0"
  shows "plan_ok S port (ob_value ob)"
proof -
  obtain pids where pids: "collectOwnerPids (ob_value inspected) [] = Some pids"
    and nonempty: "ob_value inspected \<noteq> []"
    using assms by (auto simp: planFrom_def split: if_split_asm option.split_asm)
  from assms pids nonempty
  have valid: "validateAll (po_processService S) (std_unique (sort pids)) = Inr ()"
    and ob: "ob_value ob = \<lparr>rp_localPort = port, rp_ports = ob_value inspected,
      rp_ownerPids = std_unique (sort pids),
      rp_recommendedUnit = recommendedUnitFor (ob_value inspected) (std_unique (sort pids))\<rparr>"
    by (auto simp: planFrom_def Let_def split: sum.split_asm)
  have owners: "owners_of (ob_value ob) = set pids"
    using pids ob by (auto simp: owners_of_def collectOwnerPids_iff)
  have "pids \<noteq> []"
    using pids nonempty by (auto simp: collectOwnerPids_iff neq_Nil_conv)
  then have "std_unique (sort pids) \<noteq> []"
    by (metis set_empty sort_unique_props(1))
  with owners valid pids nonempty ob assms(2) show ?thesis
    by (simp add: plan_ok_def validateAll_iff recommendedUnitFor_iff collectOwnerPids_iff
        sort_unique_eq_sorted_list_of_set)
qed

lemma prepareRelease_ok:
  assumes "result_of (PortService_prepareRelease S port) w = Inr ob"
  shows "plan_ok S port (ob_value ob)"
  using assms
  by (auto simp: PortService_prepareRelease_def intro: planFrom_ok
      split: if_split_asm sum.split_asm)

section \<open>What a release signals\<close>

text \<open>\<open>terminate\<close> and \<open>force\<close> by the signal they send.\<close>

definition releaseWith :: "ProcessSignal \<Rightarrow> 'w PortService \<Rightarrow> PortReleasePlan \<Rightarrow>
    ('w, PortReleaseResult Observation result) io" where
  "releaseWith sig = (case sig of Terminate \<Rightarrow> PortService_terminate | Kill \<Rightarrow> PortService_force)"

text \<open>Both start with a fresh plan, stop there unless it has the same targets, and otherwise make
  only the calls of the signalling loop that change something.\<close>

lemma releaseWith_shape:
  "\<exists>k. releaseWith sig (recordPortService S) plan =
      State_Monad.bind (PortService_prepareRelease (recordPortService S) (rp_localPort plan)) k \<and>
    (\<forall>e. \<exists>r. k (Inl e) = return r) \<and>
    (\<forall>cur. \<not> sameTargets plan (ob_value cur) \<longrightarrow> k (Inr cur) = return (failure changedTargetError)) \<and>
    (\<forall>cur. sameTargets plan (ob_value cur) \<longrightarrow>
       effects destructive (k (Inr cur)) (signals_prefix (po_processService S) sig (rp_ownerPids plan)))"
proof (cases sig)
  case Terminate
  show ?thesis
    unfolding Terminate releaseWith_def ProcessSignal.case PortService_terminate_def
      recordPortService_sel recordOther_sel
    by (intro exI conjI allI impI, rule refl)
       (auto intro!: effects_before_quiet [OF effects_signalOwners] quiet_intros)
next
  case Kill
  show ?thesis
    unfolding Kill releaseWith_def ProcessSignal.case PortService_force_def
      recordPortService_sel recordOther_sel
    by (intro exI conjI allI impI, rule refl)
       (auto intro!: effects_before_quiet [OF effects_signalOwners] quiet_intros)
qed

lemma releaseWith_calls:
  "signals_prefix (po_processService S) sig (rp_ownerPids plan)
     (filter destructive (snd (world_after (releaseWith sig (recordPortService S) plan) (w, [])))) \<and>
   (filter destructive (snd (world_after (releaseWith sig (recordPortService S) plan) (w, []))) \<noteq> []
    \<longrightarrow> (\<exists>cur. result_of (PortService_prepareRelease S (rp_localPort plan)) w = Inr cur \<and>
         sameTargets plan (ob_value cur)))"
proof -
  let ?prepare = "PortService_prepareRelease (recordPortService S) (rp_localPort plan)"
  let ?s = "world_after ?prepare (w, [])"
  obtain k where run: "releaseWith sig (recordPortService S) plan = State_Monad.bind ?prepare k"
    and stop: "\<And>e. \<exists>r. k (Inl e) = return r"
    and refuse: "\<And>cur. \<not> sameTargets plan (ob_value cur) \<Longrightarrow>
      k (Inr cur) = return (failure changedTargetError)"
    and go: "\<And>cur. sameTargets plan (ob_value cur) \<Longrightarrow> effects destructive (k (Inr cur))
      (signals_prefix (po_processService S) sig (rp_ownerPids plan))"
    using releaseWith_shape [of sig S plan] by blast
  have fresh: "result_of ?prepare (w, []) =
      result_of (PortService_prepareRelease S (rp_localPort plan)) w"
    using transparentD(1) [OF transparent_PortService_prepareRelease] by (metis fst_conv)
  have silent: "filter destructive (snd ?s) = []"
    using quiet_world_after [OF quiet_PortService_prepareRelease, of S _ "(w, [])"] by simp
  show ?thesis
  proof (cases "result_of (PortService_prepareRelease S (rp_localPort plan)) w")
    case (Inl e)
    then show ?thesis using run fresh silent stop [of e] by auto
  next
    case (Inr cur)
    show ?thesis
    proof (cases "sameTargets plan (ob_value cur)")
      case False
      then show ?thesis using run fresh silent refuse [of cur] Inr by simp
    next
      case True
      obtain es where "filter destructive (snd (world_after (k (Inr cur)) ?s)) = es"
          "signals_prefix (po_processService S) sig (rp_ownerPids plan) es"
        using effects_world_after [OF go [OF True], of ?s] silent by auto
      then show ?thesis using run fresh Inr True by simp
    qed
  qed
qed

text \<open>The same as what the operations cannot do: another call than signalling an owner of the plan that
  may be signalled, or stopping the service it recommends.\<close>

lemma quiet_releaseWith:
  "quiet (\<lambda>c. destructive c \<and>
      \<not> (\<exists>p \<in> set (rp_ownerPids plan). c = CallSend p sig \<and> may_signal (po_processService S) p))
     (releaseWith sig (recordPortService S) plan)" (is "quiet ?D _")
proof -
  obtain k where run: "releaseWith sig (recordPortService S) plan =
      State_Monad.bind (PortService_prepareRelease (recordPortService S) (rp_localPort plan)) k"
    and stop: "\<And>e. \<exists>r. k (Inl e) = return r"
    and refuse: "\<And>cur. \<not> sameTargets plan (ob_value cur) \<Longrightarrow>
      k (Inr cur) = return (failure changedTargetError)"
    and go: "\<And>cur. sameTargets plan (ob_value cur) \<Longrightarrow> effects destructive (k (Inr cur))
      (signals_prefix (po_processService S) sig (rp_ownerPids plan))"
    using releaseWith_shape [of sig S plan] by blast
  have "quiet ?D (k (Inr cur))" if "sameTargets plan (ob_value cur)" for cur
    using go [OF that] unfolding effects_def quiet_def
  proof (rule emits_mono)
    fix x es
    assume "signals_prefix (po_processService S) sig (rp_ownerPids plan) (filter destructive es)"
    then obtain n where n: "filter destructive es = map (\<lambda>p. CallSend p sig) (take n (rp_ownerPids plan))"
        "\<forall>p \<in> set (take n (rp_ownerPids plan)). may_signal (po_processService S) p"
      unfolding signals_prefix_def by blast
    have "\<exists>p \<in> set (rp_ownerPids plan). c = CallSend p sig \<and> may_signal (po_processService S) p"
      if "c \<in> set es" "destructive c" for c
    proof -
      from that have "c \<in> set (filter destructive es)" by simp
      then show ?thesis unfolding n(1) using n(2) by (auto dest: in_set_takeD)
    qed
    then show "filter ?D es = []" by (auto simp: filter_empty_conv)
  qed
  moreover have "quiet ?D (k (Inl e))" for e
    using stop [of e] by (auto simp: quiet_return)
  moreover have "quiet ?D (k (Inr cur))" if "\<not> sameTargets plan (ob_value cur)" for cur
    unfolding refuse [OF that] by (rule quiet_return)
  ultimately have "quiet ?D (k r)" for r
    by (cases r) blast+
  moreover have "quiet ?D (PortService_prepareRelease (recordPortService S) (rp_localPort plan))"
    by (rule quiet_mono [OF quiet_PortService_prepareRelease]) simp
  ultimately show ?thesis unfolding run by (intro quiet_bind)
qed

lemma terminate_remaining:
  assumes "result_of (PortService_terminate S plan) w = Inr ob" "\<not> rr_released (ob_value ob)"
  obtains w' after where "result_of (PortService_prepareRelease S (rp_localPort plan)) w' = Inr after"
    "rr_remaining (ob_value ob) = Some (ob_value after)"
  using assms that
  by (auto 4 4 simp: PortService_terminate_def released_nothing_def split: sum.split_asm if_split_asm)

text \<open>A port is reported as released only after a look at it said that there is nothing.\<close>

definition looked_free :: "'w PortService \<Rightarrow> u16 \<Rightarrow> 'w \<Rightarrow> 'w \<Rightarrow> bool" where
  "looked_free S port w v \<longleftrightarrow> v = world_after (PortService_prepareRelease S port) w \<and>
     (\<exists>e. result_of (PortService_prepareRelease S port) w = Inl e \<and> er_code e = NotFound)"

lemma terminate_looked:
  assumes "result_of (PortService_terminate S plan) w = Inr ob" "rr_released (ob_value ob)"
  shows "\<exists>w'. looked_free S (rp_localPort plan) w' (world_after (PortService_terminate S plan) w)"
  using assms
  by (auto 4 4 simp: PortService_terminate_def looked_free_def split: sum.split_asm if_split_asm)

lemma force_looked:
  assumes "result_of (PortService_force S plan) w = Inr ob"
  shows "\<exists>w'. looked_free S (rp_localPort plan) w' (world_after (PortService_force S plan) w)"
  using assms
  by (auto 4 4 simp: PortService_force_def looked_free_def split: sum.split_asm if_split_asm)

lemma pollReleased_looked:
  "result_of (pollReleased fuel S plan unit deadline ws) w = Some (Inr ob) \<Longrightarrow>
   \<exists>w'. looked_free S (rp_localPort plan) w' (world_after (pollReleased fuel S plan unit deadline ws) w)"
proof (induction fuel arbitrary: ws w)
  case (Suc fuel)
  then show ?case by (auto simp: looked_free_def split: sum.split_asm if_split_asm)
qed simp

lemma stopManagedService_looked:
  assumes "result_of (PortService_stopManagedService fuel S plan) w = Some (Inr ob)"
  shows "\<exists>w'. looked_free S (rp_localPort plan) w' (world_after (PortService_stopManagedService fuel S plan) w)"
  using assms pollReleased_looked [of fuel S plan]
  by (auto simp: PortService_stopManagedService_def looked_free_def simp del: pollReleased.simps
      split: option.split_asm sum.split_asm if_split_asm)

section \<open>Stopping the managed service ends\<close>

text \<open>
  The assumptions on the environment, for the steady clock reading \<open>time\<close> of a world: the clock
  runs (\<open>clock_runs\<close>), and no provider operation turns it back.
\<close>

definition inspection_advances :: "('w \<Rightarrow> int) \<Rightarrow> 'w PortService \<Rightarrow> bool" where
  "inspection_advances time S \<longleftrightarrow>
     (\<forall>q. advances time (kp_query (po_socketProvider S) q)) \<and>
     (\<forall>ns. advances time (or_resolve (po_ownerResolver S) ns)) \<and>
     (\<forall>p. advances time (pp_get (ps_processProvider (po_processService S)) p)) \<and>
     (\<forall>T p. ps_serviceService (po_processService S) = Some T \<longrightarrow>
        advances time (vp_unitByPid (ss_serviceProvider T) p))"

lemma advances_inspectOwners [advance_intros]:
  assumes "inspection_advances time S"
  shows "advances time (inspectOwners (po_processService S) ps ws m)"
proof (induction ps arbitrary: ws m)
  case (Cons p ps)
  have "advances time (ProcessService_inspect (po_processService S) p)"
    using assms unfolding ProcessService_inspect_def ServiceService_unitByPid_def inspection_advances_def
    by (intro advance_intros) auto
  then show ?case
    unfolding inspectOwners.simps by (intro advance_intros Cons.IH)
qed (simp add: advance_intros)

lemma advances_prepareRelease [advance_intros]:
  assumes "inspection_advances time S"
  shows "advances time (PortService_prepareRelease S p)"
  using assms unfolding PortService_prepareRelease_def PortService_inspect_def
  by (intro advance_intros) (simp_all add: inspection_advances_def)

text \<open>Each round sleeps for 25 ms, so the number of rounds is bounded by the time left.\<close>

lemma pollReleased_returns:
  assumes "clock_runs time (po_clock S)" "inspection_advances time S"
    and "deadline \<le> time w + 25000000 * int n"
  shows "result_of (pollReleased (Suc n) S plan unit deadline ws) w \<noteq> None"
  using assms(3)
proof (induction n arbitrary: w ws)
  case 0
  let ?w1 = "world_after (PortService_prepareRelease S (rp_localPort plan)) w"
  have "deadline \<le> result_of (ck_steadyNow (po_clock S)) ?w1"
    using 0 assms(1) advancesD [OF advances_prepareRelease [OF assms(2)], of w "rp_localPort plan"]
    by (simp add: clock_runs_def)
  then show ?case by (simp split: sum.split)
next
  case (Suc n)
  let ?w1 = "world_after (PortService_prepareRelease S (rp_localPort plan)) w"
  let ?w3 = "world_after (ck_sleep (po_clock S) 25) (world_after (ck_steadyNow (po_clock S)) ?w1)"
  have "time w \<le> time ?w1"
    by (rule advancesD [OF advances_prepareRelease [OF assms(2)]])
  moreover have "time ?w1 \<le> time (world_after (ck_steadyNow (po_clock S)) ?w1)"
    using assms(1) by (simp add: clock_runs_def)
  moreover have "time (world_after (ck_steadyNow (po_clock S)) ?w1) + 25 * 1000000 \<le> time ?w3"
    using assms(1) unfolding clock_runs_def by (metis zero_le_numeral)
  ultimately have "deadline \<le> time ?w3 + 25000000 * int n"
    using Suc.prems by simp
  note IH = Suc.IH [OF this]
  show ?case
    by (subst pollReleased.simps) (use IH in \<open>simp split: sum.split\<close>)
qed

text \<open>The number of rounds that is always enough.\<close>

definition poll_rounds :: "'w PortService \<Rightarrow> nat" where
  "poll_rounds S = nat (po_gracePeriod S * 1000000 div 25000000) + 2"

lemma poll_rounds_enough:
  assumes "start \<le> t"
  shows "start + po_gracePeriod S * 1000000 \<le> t + 25000000 * int (poll_rounds S - 1)"
proof -
  let ?g = "po_gracePeriod S * 1000000"
  have "?g \<le> 25000000 * (?g div 25000000 + 1)"
    by (simp add: algebra_simps)
  also have "\<dots> \<le> 25000000 * int (poll_rounds S - 1)"
    by (simp add: poll_rounds_def)
  finally show ?thesis using assms by simp
qed

lemma stopManagedService_returns:
  assumes clock: "clock_runs time (po_clock S)" and providers: "inspection_advances time S"
    and fuel: "poll_rounds S \<le> fuel"
  shows "result_of (PortService_stopManagedService fuel S plan) w \<noteq> None"
proof -
  have "result_of (State_Monad.bind (ck_steadyNow (po_clock S)) (\<lambda>start.
      pollReleased fuel S plan unit (start + po_gracePeriod S * 1000000) ws)) w \<noteq> None" for unit ws w
  proof -
    let ?w1 = "world_after (ck_steadyNow (po_clock S)) w"
    let ?deadline = "time w + po_gracePeriod S * 1000000"
    have "time w \<le> time ?w1" and start: "result_of (ck_steadyNow (po_clock S)) w = time w"
      using clock by (simp_all add: clock_runs_def)
    then have "?deadline \<le> time ?w1 + 25000000 * int (poll_rounds S - 1)"
      by (intro poll_rounds_enough)
    also have "\<dots> \<le> time ?w1 + 25000000 * int (fuel - 1)"
      using fuel by simp
    finally have "result_of (pollReleased (Suc (fuel - 1)) S plan unit ?deadline ws) ?w1 \<noteq> None"
      by (rule pollReleased_returns [OF clock providers])
    moreover have "Suc (fuel - 1) = fuel" using fuel by (simp add: poll_rounds_def)
    ultimately show ?thesis using start by simp
  qed
  then show ?thesis
    unfolding PortService_stopManagedService_def
    by (auto simp del: pollReleased.simps split: option.split sum.split)
qed

text \<open>Which call \<open>stopManagedService\<close> makes, and after what.\<close>

lemma stopManagedService_calls:
  "filter destructive (snd (world_after
      (PortService_stopManagedService fuel (recordPortService S) plan) (w, []))) =
   (case (rp_recommendedUnit plan, po_serviceService S,
          result_of (PortService_prepareRelease S (rp_localPort plan)) w) of
      (Some unit, Some _, Inr cur) \<Rightarrow>
        if sameTargets plan (ob_value cur) \<and> rp_recommendedUnit (ob_value cur) = Some unit
        then stop_calls unit else []
    | _ \<Rightarrow> [])"
proof (cases "rp_recommendedUnit plan = None \<or> po_serviceService S = None")
  case True
  then show ?thesis by (auto simp: PortService_stopManagedService_def split: option.split)
next
  case False
  then obtain unit services where u: "rp_recommendedUnit plan = Some unit"
    and v: "po_serviceService S = Some services" by auto
  let ?prepare = "PortService_prepareRelease (recordPortService S) (rp_localPort plan)"
  let ?s = "world_after ?prepare (w, [])"
  have fresh: "result_of ?prepare (w, []) =
      result_of (PortService_prepareRelease S (rp_localPort plan)) w"
    using transparentD(1) [OF transparent_PortService_prepareRelease] by (metis fst_conv)
  have silent: "filter destructive (snd ?s) = []"
    using quiet_world_after [OF quiet_PortService_prepareRelease, of S _ "(w, [])"] by simp
  let ?rest = "\<lambda>ws (stopped :: unit result). case stopped of
      Inl e \<Rightarrow> return (Some (failure e))
    | Inr _ \<Rightarrow> do {
        start \<leftarrow> ck_steadyNow (recordClock (po_clock S));
        pollReleased fuel (recordPortService S) plan unit (start + po_gracePeriod S * 1000000) ws
      }"
  let ?stop = "ServiceService_stop (recordServiceService services) unit"
  have "effects destructive ?stop (\<lambda>es. es = stop_calls unit)"
    unfolding effects_def
    by (rule emits_mono [OF emits_ServiceService_stop]) (auto simp: stop_calls_def split: sum.split)
  moreover have "quiet destructive (?rest ws stopped)" for ws stopped
    unfolding recordOther_sel by (intro quiet_intros) simp
  ultimately have stop: "effects destructive (State_Monad.bind ?stop (?rest ws))
      (\<lambda>es. es = stop_calls unit)" for ws
    by (rule effects_before_quiet)
  have after: "filter destructive (snd (world_after (State_Monad.bind ?stop (?rest ws)) ?s)) =
      stop_calls unit" for ws
    using effects_world_after [OF stop [of ws], where s = ?s] silent by auto
  show ?thesis
    unfolding PortService_stopManagedService_def
    using u v fresh silent after [unfolded recordOther_sel]
    by (auto simp del: pollReleased.simps world_after_bind
        simp add: world_after_bind [of ?prepare] split: sum.split)
qed

section \<open>Over providers that keep their contracts\<close>

text \<open>What an inspection returns, socket by socket.\<close>

lemma inspect_result:
  assumes "result_of (PortService_inspect S q) w = Inr ob"
  obtains observed owners w1 warnings processes where
    "result_of (kp_query (po_socketProvider S) q) w = Inr observed"
    "result_of (or_resolve (po_ownerResolver S)
       (filter (\<lambda>i. i \<noteq> 0) (map so_inode (ob_value observed)))) w1 = Inr owners"
    "result_of (inspectOwners (po_processService S)
       (po_hashOrder S (remdups (insertedPids (ob_value owners) (ob_value observed))))
       (ob_warnings observed @ ob_warnings owners) Map.empty)
       (world_after (or_resolve (po_ownerResolver S)
         (filter (\<lambda>i. i \<noteq> 0) (map so_inode (ob_value observed)))) w1) = (warnings, processes)"
    "ob_value ob = map (portOf processes \<circ> assignOwners (ob_value owners)) (ob_value observed)"
  using assms that
  by (auto simp: PortService_inspect_def split: sum.split_asm prod.split_asm)

lemma prepareRelease_inspect:
  assumes "result_of (PortService_prepareRelease S port) w = Inr ob"
  obtains inspected where
    "result_of (PortService_inspect S (default_SocketQuery\<lparr>sq_localPort := Some port\<rparr>)) w = Inr inspected"
    "rp_ports (ob_value ob) = ob_value inspected"
  using assms that
  by (auto simp: PortService_prepareRelease_def planFrom_def Let_def
      split: sum.split_asm if_split_asm option.split_asm)

context process_provider
begin

lemma inspect_pid:
  assumes "ps_processProvider S = P" "result_of (ProcessService_inspect S p) w = Inr ob"
  shows "pi_pid (ob_value ob) = p"
  using assms get_pid [of p w]
  by (auto simp: ProcessService_inspect_def split: if_split_asm sum.split_asm option.split_asm)

lemma inspectOwners_pid:
  assumes "ps_processProvider S = P" "\<forall>p info. m p = Some info \<longrightarrow> pi_pid info = p"
    and "result_of (inspectOwners S ps ws m) w = (ws', m')"
  shows "m' p = Some info \<Longrightarrow> pi_pid info = p"
  using assms(2,3)
proof (induction ps arbitrary: ws m w)
  case (Cons q ps)
  show ?case
  proof (cases "result_of (ProcessService_inspect S q) w")
    case (Inl e)
    then show ?thesis using Cons.prems Cons.IH [OF Cons.prems(1,2)] by simp
  next
    case (Inr ob)
    then have "\<forall>p info. emplace q (ob_value ob) m p = Some info \<longrightarrow> pi_pid info = p"
      using Cons.prems(2) inspect_pid [OF assms(1), of q w] by (simp add: emplace_def split: option.split)
    from Cons.IH [OF Cons.prems(1) this] show ?thesis using Cons.prems(3) Inr by simp
  qed
qed auto

text \<open>The owners attached to a socket are a subsequence of its owner ids.\<close>

lemma inspect_owners:
  assumes "ps_processProvider (po_processService S) = P"
    and "result_of (PortService_inspect S q) w = Inr ob" "port \<in> set (ob_value ob)"
  shows "subseq (map pi_pid (po_owners port)) (so_ownerPids (po_socket port))"
proof -
  obtain ps ws w1 ws' processes owners observed where
      run: "result_of (inspectOwners (po_processService S) ps ws Map.empty) w1 = (ws', processes)"
    and "ob_value ob = map (portOf processes \<circ> assignOwners owners) observed"
    using assms(2) by (rule inspect_result) blast
  then obtain socket where "port = portOf processes socket"
    using assms(3) by auto
  moreover have "processes p = Some info \<Longrightarrow> pi_pid info = p" for p info
    using inspectOwners_pid [OF assms(1) _ run] by simp
  moreover have "subseq (map pi_pid (List.map_filter processes ps)) ps"
    if "\<And>p info. processes p = Some info \<Longrightarrow> pi_pid info = p" for ps and processes :: "pid \<Rightarrow> ProcessInfo option"
    using that by (induction ps) (auto simp: map_filter_simps split: option.split)
  ultimately show ?thesis by (simp add: portOf_def)
qed

end

context socket_provider
begin

lemma inspect_local_port:
  assumes "po_socketProvider S = K" and "result_of (PortService_inspect S q) w = Inr ob"
    and "port \<in> set (ob_value ob)" and "sq_localPort q = Some n"
  shows "ep_port (so_local (po_socket port)) = n"
proof -
  obtain observed owners processes where query: "result_of (kp_query K q) w = Inr observed"
    and ports: "ob_value ob = map (portOf processes \<circ> assignOwners owners) (ob_value observed)"
    using assms(2) unfolding assms(1) [symmetric] by (rule inspect_result) blast
  then obtain socket where "socket \<in> set (ob_value observed)" "port = portOf processes (assignOwners owners socket)"
    using assms(3) by auto
  with port_asked [OF query _ assms(4)] show ?thesis
    by (auto simp: portOf_def assignOwners_def split: option.split)
qed

end

context owner_resolver
begin

lemma inspect_owner_ids:
  assumes "po_ownerResolver S = R" "socket_provider (po_socketProvider S)"
    and "result_of (PortService_inspect S q) w = Inr ob" "port \<in> set (ob_value ob)"
  shows "sorted (so_ownerPids (po_socket port)) \<and> distinct (so_ownerPids (po_socket port))"
proof -
  from assms(3) obtain observed owners w1 processes socket ns where
      o: "result_of (kp_query (po_socketProvider S) q) w = Inr observed"
    and r: "result_of (or_resolve R ns) w1 = Inr owners"
    and p: "port = portOf processes (assignOwners (ob_value owners) socket)"
    and m: "socket \<in> set (ob_value observed)"
    using assms(1,4) by (elim inspect_result) auto
  have "so_ownerPids socket = []"
    using socket_provider.no_owner_yet [OF assms(2) o m] .
  with p owners_sorted [OF r] show ?thesis
    by (auto simp: portOf_def assignOwners_def split: option.split)
qed

text \<open>On prepared plans, the check after a release says what its name says: every socket left is one
  of the plan's, with no new owner.\<close>

lemma remaining_iff:
  assumes "po_ownerResolver S = R" "socket_provider (po_socketProvider S)"
    and "result_of (PortService_prepareRelease S port) w0 = Inr original"
    and "result_of (PortService_prepareRelease S port') w = Inr current"
  shows "remainingTargetsBelongTo (ob_value original) (ob_value current) \<longleftrightarrow>
    (\<forall>c \<in> set (rp_ports (ob_value current)).
       \<exists>found. find (sameSocket c) (rp_ports (ob_value original)) = Some found \<and>
         set (so_ownerPids (po_socket c)) \<subseteq> set (so_ownerPids (po_socket found)))"
proof -
  have sorted: "sorted (so_ownerPids (po_socket c)) \<and> distinct (so_ownerPids (po_socket c))"
    if "result_of (PortService_prepareRelease S n) w' = Inr plan" "c \<in> set (rp_ports (ob_value plan))"
    for n w' plan c
    using that by (elim prepareRelease_inspect) (metis inspect_owner_ids [OF assms(1,2)])
  have "find (sameSocket c) (rp_ports (ob_value original)) = Some found \<Longrightarrow>
      found \<in> set (rp_ports (ob_value original))" for c found
    by (auto simp: find_Some_iff)
  then have "(case find (sameSocket c) (rp_ports (ob_value original)) of
        None \<Rightarrow> False
      | Some found \<Rightarrow> std_includes (so_ownerPids (po_socket found)) (so_ownerPids (po_socket c))) \<longleftrightarrow>
      (\<exists>found. find (sameSocket c) (rp_ports (ob_value original)) = Some found \<and>
         set (so_ownerPids (po_socket c)) \<subseteq> set (so_ownerPids (po_socket found)))"
    if "c \<in> set (rp_ports (ob_value current))" for c
    using sorted [OF assms(3)] sorted [OF assms(4) that]
    by (cases "find (sameSocket c) (rp_ports (ob_value original))")
       (simp_all add: std_includes_iff_subset)
  then show ?thesis by (simp add: remainingTargetsBelongTo_def list_all_iff)
qed

end

section \<open>Properties\<close>

text \<open>A concrete service for the witnesses: the world is the steady clock, one socket listens on
  port 8080 for the first 30 ms and is owned by two processes of one unit.\<close>

definition demo_services :: "'w ServiceService" where
  "demo_services = \<lparr>ss_serviceProvider =
     \<lparr>vp_probe = return (success ()),
      vp_list = return (success \<lparr>ob_value = [], ob_warnings = []\<rparr>),
      vp_get = (\<lambda>u. return (success
        \<lparr>ob_value = default_ServiceInfo\<lparr>si_unitName := u\<rparr>, ob_warnings = []\<rparr>)),
      vp_unitByPid = (\<lambda>p. return (success (Some ''web.service''))),
      vp_start = (\<lambda>u. return (success ())),
      vp_stop = (\<lambda>u. return (success ())),
      vp_restart = (\<lambda>u. return (success ()))\<rparr>\<rparr>"

definition demo_socket :: SocketInfo where
  "demo_socket = \<lparr>so_protocol = Tcp, so_family = IPv4,
     so_local = \<lparr>ep_address = ''0.0.0.0'', ep_port = 8080\<rparr>, so_remote = None,
     so_state = ''LISTEN'', so_uid = 7, so_inode = 5, so_ownerPids = []\<rparr>"

definition demo_PortService :: "int PortService" where
  "demo_PortService =
     \<lparr>po_socketProvider = \<lparr>kp_query = (\<lambda>q. State (\<lambda>t. (success
        \<lparr>ob_value = (if t < 30000000 then [demo_socket] else []), ob_warnings = []\<rparr>, t)))\<rparr>,
      po_ownerResolver = \<lparr>or_resolve = (\<lambda>ns. return (success
        \<lparr>ob_value = [5 \<mapsto> [4, 9]], ob_warnings = []\<rparr>))\<rparr>,
      po_processService = demo_ProcessService\<lparr>ps_serviceService := Some demo_services\<rparr>,
      po_serviceService = Some demo_services,
      po_gracePeriod = 100,
      po_clock = \<lparr>ck_steadyNow = State (\<lambda>t. (t, t)), ck_systemNow = State (\<lambda>t. (t, t)),
                  ck_sleep = (\<lambda>d. State (\<lambda>t. ((), t + d * 1000000)))\<rparr>,
      po_hashOrder = id\<rparr>"

definition demo_plan :: PortReleasePlan where
  "demo_plan = \<lparr>rp_localPort = 8080,
     rp_ports = [\<lparr>po_socket = demo_socket\<lparr>so_ownerPids := [4, 9]\<rparr>,
       po_owners = [(demo_process 4 ''sh'')\<lparr>pi_systemdUnit := Some ''web.service''\<rparr>,
                    (demo_process 9 ''sh'')\<lparr>pi_systemdUnit := Some ''web.service''\<rparr>]\<rparr>],
     rp_ownerPids = [4, 9], rp_recommendedUnit = Some ''web.service''\<rparr>"

lemmas demo_defs = demo_PortService_def demo_services_def demo_socket_def demo_plan_def
  demo_ProcessService_def demo_process_def default_ProcessInfo_def

lemma demo_prepare:
  "result_of (PortService_prepareRelease demo_PortService 8080) 0 =
     Inr \<lparr>ob_value = demo_plan, ob_warnings = []\<rparr>"
  by (simp add: demo_defs PortService_prepareRelease_def PortService_inspect_def insertedPids_def
      ProcessService_inspect_def ServiceService_unitByPid_def assignOwners_def portOf_def planFrom_def
      recommendedUnitFor_def ProcessService_validateSignalTarget_def List.map_filter_def
      emplace_def Let_def)

lemma demo_sameTargets: "sameTargets demo_plan demo_plan"
  by (simp add: sameTargets_def)

text \<open>
  C1. Releasing a port signals only what the user agreed to: whatever happened to the machine
  since the plan was prepared, every call of \<open>terminate\<close> or \<open>force\<close> that changes something is the
  operation's own signal, sent to a process that owned a socket of the plan and still owns a
  socket of the port now, is not PID 1, not a process group and not the program itself; no process
  is signalled twice, and the owners are signalled in increasing order.
\<close>

theorem PortService_release_signals_owners:
  assumes "result_of (PortService_prepareRelease S port) w0 = Inr prepared"
    and "calls = filter destructive (snd (world_after
      ((case sig of Terminate \<Rightarrow> PortService_terminate | Kill \<Rightarrow> PortService_force)
         (recordPortService S) (ob_value prepared)) (w, [])))"
  shows "\<exists>pids. calls = map (\<lambda>p. CallSend p sig) pids \<and> sorted pids \<and> distinct pids \<and>
    (\<forall>p \<in> set pids. 1 < p \<and> p \<noteq> ps_selfPid (po_processService S) \<and>
       p \<in> owners_of (ob_value prepared) \<and>
       (\<exists>current. result_of (PortService_prepareRelease S port) w = Inr current \<and>
          sameTargets (ob_value prepared) (ob_value current) \<and> p \<in> owners_of (ob_value current)))"
proof -
  let ?plan = "ob_value prepared"
  have ok: "plan_ok S port ?plan" using assms(1) by (rule prepareRelease_ok)
  have calls: "calls = filter destructive (snd (world_after (releaseWith sig (recordPortService S) ?plan) (w, [])))"
    using assms(2) by (simp add: releaseWith_def cong: ProcessSignal.case_cong)
  obtain k where k: "calls = map (\<lambda>p. CallSend p sig) (take k (rp_ownerPids ?plan))"
      "\<forall>p \<in> set (take k (rp_ownerPids ?plan)). may_signal (po_processService S) p"
    using releaseWith_calls [of S sig ?plan w] unfolding calls [symmetric] signals_prefix_def by blast
  have owners: "set (take k (rp_ownerPids ?plan)) \<subseteq> owners_of ?plan"
    using ok set_take_subset [of k "rp_ownerPids ?plan"] by (auto simp: plan_ok_def)
  have fresh: "\<exists>current. result_of (PortService_prepareRelease S port) w = Inr current \<and>
      sameTargets ?plan (ob_value current)" if "calls \<noteq> []"
    using releaseWith_calls [of S sig ?plan w] that ok
    unfolding calls [symmetric] by (simp add: plan_ok_def)
  show ?thesis
  proof (intro exI [of _ "take k (rp_ownerPids ?plan)"] conjI ballI)
    fix p assume p: "p \<in> set (take k (rp_ownerPids ?plan))"
    then show "1 < p" "p \<noteq> ps_selfPid (po_processService S)" "p \<in> owners_of ?plan"
      using k(2) owners by (auto simp: may_signal_def)
    have "calls \<noteq> []" using p k(1) by (metis empty_iff empty_set map_is_Nil_conv)
    then show "\<exists>current. result_of (PortService_prepareRelease S port) w = Inr current \<and>
        sameTargets ?plan (ob_value current) \<and> p \<in> owners_of (ob_value current)"
      using fresh p owners sameTargets_owners by blast
  qed (use k(1) ok in \<open>simp_all add: plan_ok_def sorted_wrt_take\<close>)
qed

theorem PortService_release_signals_owners_witness:
  "\<exists>pids. filter destructive (snd (world_after
      (PortService_force (recordPortService demo_PortService) demo_plan) (0, []))) =
        map (\<lambda>p. CallSend p Kill) pids \<and> sorted pids \<and>
    set pids \<subseteq> owners_of demo_plan"
  using PortService_release_signals_owners [OF demo_prepare refl, of Kill 0] by auto

text \<open>
  A release reports what the last inspection of the port said: it says the port was released exactly
  when that inspection answered that nothing was found, and otherwise (only after SIGTERM; a port that survives
  SIGKILL is an error) it hands back the sockets that inspection found, all of which belong to the
  confirmed plan.
\<close>

theorem PortService_release_outcome:
  assumes "result_of ((case sig of Terminate \<Rightarrow> PortService_terminate | Kill \<Rightarrow> PortService_force)
      S plan) w = Inr ob"
  shows "\<exists>w'. world_after ((case sig of Terminate \<Rightarrow> PortService_terminate | Kill \<Rightarrow> PortService_force)
        S plan) w = world_after (PortService_prepareRelease S (rp_localPort plan)) w' \<and>
    (if rr_released (ob_value ob)
     then rr_remaining (ob_value ob) = None \<and>
       (\<exists>e. result_of (PortService_prepareRelease S (rp_localPort plan)) w' = Inl e \<and>
            er_code e = NotFound)
     else sig = Terminate \<and>
       (\<exists>after. result_of (PortService_prepareRelease S (rp_localPort plan)) w' = Inr after \<and>
          rr_remaining (ob_value ob) = Some (ob_value after) \<and>
          remainingTargetsBelongTo plan (ob_value after)))"
  using assms
  by (cases sig)
     (auto 4 4 simp: PortService_terminate_def PortService_force_def released_nothing_def
       split: sum.split_asm if_split_asm)

theorem PortService_release_outcome_witness:
  "\<exists>w'. world_after (PortService_force demo_PortService demo_plan) 30000000 =
      world_after (PortService_prepareRelease demo_PortService (rp_localPort demo_plan)) w' \<and>
    (\<exists>e. result_of (PortService_prepareRelease demo_PortService (rp_localPort demo_plan)) w' = Inl e \<and>
         er_code e = NotFound)"
proof -
  have "result_of (PortService_force demo_PortService demo_plan) 30000000 = Inr released_nothing"
    by (simp add: demo_defs PortService_force_def PortService_prepareRelease_def
        PortService_inspect_def insertedPids_def planFrom_def)
  then show ?thesis
    using PortService_release_outcome [of Kill demo_PortService demo_plan 30000000 released_nothing]
    by (simp add: released_nothing_def)
qed

text \<open>
  C12. A prepared plan is complete: it is for a non-zero port, names at least one socket, every
  socket has an owner, the owner list is exactly the sorted owners of the sockets, each of them may
  be signalled, and a service is recommended exactly when every owner was observed to belong to it.
\<close>

theorem PortService_prepareRelease_complete:
  assumes "result_of (PortService_prepareRelease S port) w = Inr ob"
  shows "port \<noteq> 0 \<and> rp_localPort (ob_value ob) = port \<and> rp_ports (ob_value ob) \<noteq> [] \<and>
    (\<forall>info \<in> set (rp_ports (ob_value ob)). so_ownerPids (po_socket info) \<noteq> []) \<and>
    rp_ownerPids (ob_value ob) = sorted_list_of_set (owners_of (ob_value ob)) \<and>
    (\<forall>p \<in> owners_of (ob_value ob). 1 < p \<and> p \<noteq> ps_selfPid (po_processService S)) \<and>
    (\<forall>unit. rp_recommendedUnit (ob_value ob) = Some unit \<longleftrightarrow>
       (\<forall>p \<in> owners_of (ob_value ob). managed_by (rp_ports (ob_value ob)) unit p))"
  using prepareRelease_ok [OF assms] by (simp add: plan_ok_def may_signal_def)

theorem PortService_prepareRelease_complete_witness:
  "rp_ownerPids demo_plan = sorted_list_of_set (owners_of demo_plan) \<and>
   owners_of demo_plan \<subseteq> Collect (managed_by (rp_ports demo_plan) ''web.service'')"
  using PortService_prepareRelease_complete [OF demo_prepare]
  by (auto simp: demo_plan_def [THEN arg_cong, of rp_recommendedUnit])

text \<open>
  C7. Stopping the service behind a port makes one change at most: a stop of the recommended unit,
  in its normalised form, and only when the fresh plan has the same targets and recommends the same
  unit. Polling the port afterwards changes nothing.
\<close>

theorem PortService_stopManagedService_stops_unit:
  "filter destructive (snd (world_after
      (PortService_stopManagedService fuel (recordPortService S) plan) (w, []))) =
   (case (rp_recommendedUnit plan, po_serviceService S,
          result_of (PortService_prepareRelease S (rp_localPort plan)) w) of
      (Some unit, Some _, Inr current) \<Rightarrow>
        if sameTargets plan (ob_value current) \<and> rp_recommendedUnit (ob_value current) = Some unit
        then (case ServiceService_normalizeUnit unit of Inl _ \<Rightarrow> [] | Inr name \<Rightarrow> [CallStop name])
        else []
    | _ \<Rightarrow> [])"
  using stopManagedService_calls [of fuel S plan w] unfolding stop_calls_def .

text \<open>
  Stopping the service behind a port returns: on a clock that runs and with providers that do
  not turn it back, the polling loop ends after at most one round per 25 ms of the grace period and
  two more, whatever the providers answer.
\<close>

theorem PortService_stopManagedService_returns:
  assumes "clock_runs time (po_clock S)" and "inspection_advances time S"
    and "nat (po_gracePeriod S * 1000000 div 25000000) + 2 \<le> fuel"
  shows "\<exists>r. result_of (PortService_stopManagedService fuel S plan) w = Some r"
  using stopManagedService_returns [OF assms(1,2), of fuel plan w] assms(3)
  by (simp add: poll_rounds_def)

lemma demo_clock: "clock_runs (\<lambda>t. t) (po_clock demo_PortService)"
  by (simp add: clock_runs_def demo_PortService_def)

lemma demo_advances: "inspection_advances (\<lambda>t. t) demo_PortService"
  by (auto simp: inspection_advances_def demo_defs advances_def)

theorem PortService_stopManagedService_returns_witness:
  "\<exists>r. result_of (PortService_stopManagedService 6 demo_PortService demo_plan) 0 = Some r"
  by (rule PortService_stopManagedService_returns [OF demo_clock demo_advances])
     (simp add: demo_PortService_def)

end
