(* ===== verification/ResourceResolver.thy ===== *)
theory ResourceResolver
  imports PortService
begin

text \<open>
  \<open>src/application/ResourceResolver.cpp\<close>: from the text a user types to the resource it means. A
  prefixed expression is parsed, an unprefixed number is looked up as a process and as a port, and
  any other text as a service and then as a process name; an expression that matches several
  resources is refused.
\<close>

section \<open>The resolver\<close>

record 'w ResourceResolver =
  rs_portService :: "'w PortService"
  rs_processService :: "'w ProcessService"
  rs_serviceService :: "'w ServiceService"

definition positiveInteger :: "string \<Rightarrow> nat \<Rightarrow> string \<Rightarrow> nat result" where
  "positiveInteger text maximum kind =
     (let parsed = from_chars_unsigned (2 ^ 64 - 1) text;
          v = fc_value_or 0 parsed in
      if text = [] \<or> fc_ec parsed \<noteq> ErrcOk \<or> fc_ptr parsed \<noteq> length text \<or> v = 0 \<or> maximum < v
      then failure (mkError InvalidArgument (''Invalid '' @ kind @ '': '' @ text) 0
                      ''resource-resolver'' ''parse'')
      else success v)"

definition quoted :: "string \<Rightarrow> string" where
  "quoted s = CHR 0x22 # s @ [CHR 0x22]"

definition notFound :: "string \<Rightarrow> Error" where
  "notFound expression = mkError NotFound (''No observable resource matched '' @ quoted expression) 0
     ''resource-resolver'' ''resolve''"

text \<open>The branch for an expression with a colon at position \<open>colon\<close>.\<close>

definition resolvePrefixed :: "string \<Rightarrow> nat \<Rightarrow> ResourceTarget result" where
  "resolvePrefixed expression colon =
     (let prefix = substr expression 0 colon;
          text = drop (colon + 1) expression in
      if prefix = ''port''
      then (case positiveInteger text 65535 ''port'' of
              Inl e \<Rightarrow> failure e
            | Inr port \<Rightarrow> success (PortTarget (of_nat port)))
      else if prefix = ''pid''
      then (case positiveInteger text (nat pid_max) ''PID'' of
              Inl e \<Rightarrow> failure e
            | Inr p \<Rightarrow> success (ProcessTarget (int p)))
      else if prefix = ''service''
      then (case ServiceService_normalizeUnit text of
              Inl e \<Rightarrow> failure e
            | Inr unit \<Rightarrow> success (ServiceTarget unit))
      else failure (mkError InvalidArgument
             (''Unknown resource prefix '' @ quoted prefix @ ''; use port:, pid:, or service:'') 0
             ''resource-resolver'' ''resolve''))"

text \<open>The branch for a positive number.\<close>

definition resolveNumber ::
  "'w ResourceResolver \<Rightarrow> string \<Rightarrow> nat \<Rightarrow> ('w, ResourceTarget result) io" where
  "resolveNumber S expression numeric = do {
     processExists \<leftarrow>
       (if numeric \<le> nat pid_max
        then do {
          process \<leftarrow> ProcessService_inspect (rs_processService S) (int numeric);
          return (Result_hasValue process)
        }
        else return False);
     portExists \<leftarrow>
       (if numeric \<le> 65535
        then do {
          ports \<leftarrow> PortService_inspect (rs_portService S)
            (default_SocketQuery\<lparr>sq_localPort := Some (of_nat numeric)\<rparr>);
          return (case ports of Inl _ \<Rightarrow> False | Inr ob \<Rightarrow> ob_value ob \<noteq> [])
        }
        else return False);
     return
       (if processExists \<and> portExists
        then failure (mkError Conflict
               (''Multiple resources matched '' @ quoted expression @ '': port:'' @ expression
                  @ '' and pid:'' @ expression) 0 ''resource-resolver'' ''resolve'')
        else if portExists then success (PortTarget (of_nat numeric))
        else if processExists then success (ProcessTarget (int numeric))
        else failure (notFound expression))
   }"

text \<open>The branch for a name.\<close>

definition resolveName ::
  "'w ResourceResolver \<Rightarrow> string \<Rightarrow> ('w, ResourceTarget result) io" where
  "resolveName S expression = do {
     service \<leftarrow> ServiceService_inspect (rs_serviceService S) expression;
     case service of
       Inr ob \<Rightarrow> return (success (ServiceTarget (si_unitName (ob_value ob))))
     | Inl _ \<Rightarrow> do {
         processes \<leftarrow> ProcessService_list (rs_processService S)
           (default_ProcessQuery\<lparr>pq_name := Some expression\<rparr>);
         return (case processes of
           Inl e \<Rightarrow> failure e
         | Inr ob \<Rightarrow>
             (case ob_value ob of
                [] \<Rightarrow> failure (notFound expression)
              | [process] \<Rightarrow> success (ProcessTarget (pi_pid process))
              | several \<Rightarrow> failure (mkError Conflict
                  (''Multiple processes matched '' @ quoted expression @ ''; use'' @
                   concat (map (\<lambda>process. '' pid:'' @ int_str (pi_pid process)) several)) 0
                  ''resource-resolver'' ''resolve'')))
       }
   }"

definition ResourceResolver_resolve ::
  "'w ResourceResolver \<Rightarrow> string \<Rightarrow> ('w, ResourceTarget result) io" where
  "ResourceResolver_resolve S expression =
     (if expression = []
      then return (failure (mkError InvalidArgument ''Resource expression must not be empty'' 0
                              ''resource-resolver'' ''resolve''))
      else
        (case str_find CHR '':'' expression 0 of
           Some colon \<Rightarrow> return (resolvePrefixed expression colon)
         | None \<Rightarrow>
             (case positiveInteger expression (2 ^ 64 - 1) ''number'' of
                Inr numeric \<Rightarrow> resolveNumber S expression numeric
              | Inl _ \<Rightarrow> resolveName S expression)))"

section \<open>Numbers\<close>

lemma positiveInteger_iff:
  "positiveInteger text maximum kind = Inr n \<longleftrightarrow>
     text \<noteq> [] \<and> (\<forall>c \<in> set text. isdigit c) \<and> n = digits_value text \<and>
     0 < n \<and> n \<le> maximum \<and> n < 2 ^ 64"
proof (cases "consumed_all (from_chars_unsigned (2 ^ 64 - 1) text) text")
  case True
  then have "fc_value_or 0 (from_chars_unsigned (2 ^ 64 - 1) text) = digits_value text"
    by (rule from_chars_unsigned_value)
  moreover have "text \<noteq> [] \<and> (\<forall>c \<in> set text. isdigit c) \<and> digits_value text \<le> 2 ^ 64 - 1"
    using True unfolding from_chars_unsigned_all .
  moreover have "fc_ec (from_chars_unsigned (2 ^ 64 - 1) text) = ErrcOk"
      "fc_ptr (from_chars_unsigned (2 ^ 64 - 1) text) = length text"
    using True by (simp_all add: consumed_all_def)
  ultimately show ?thesis
    unfolding positiveInteger_def Let_def by auto
next
  case False
  moreover from this have "\<not> (text \<noteq> [] \<and> (\<forall>c \<in> set text. isdigit c) \<and> digits_value text < 2 ^ 64)"
    by (auto simp: from_chars_unsigned_all)
  ultimately show ?thesis
    unfolding positiveInteger_def Let_def by (auto simp: consumed_all_def)
qed

lemma positiveInteger_nat_str:
  "0 < n \<Longrightarrow> n \<le> maximum \<Longrightarrow> n < 2 ^ 64 \<Longrightarrow> positiveInteger (nat_str n) maximum kind = Inr n"
  by (simp add: positiveInteger_iff nat_str_digits)

section \<open>Prefixed expressions\<close>

text \<open>The text that names a resource beyond doubt.\<close>

fun resource_text :: "ResourceTarget \<Rightarrow> string" where
  "resource_text (PortTarget port) = ''port:'' @ nat_str (unat port)"
| "resource_text (ProcessTarget p) = ''pid:'' @ nat_str (nat p)"
| "resource_text (ServiceTarget unit) = ''service:'' @ unit"

text \<open>The resources that have one: ports and process ids in range, and service names that
  normalise to themselves.\<close>

fun nameable :: "ResourceTarget \<Rightarrow> bool" where
  "nameable (PortTarget port) \<longleftrightarrow> port \<noteq> 0"
| "nameable (ProcessTarget p) \<longleftrightarrow> 0 < p \<and> p \<le> pid_max"
| "nameable (ServiceTarget unit) \<longleftrightarrow> ServiceService_normalizeUnit unit = Inr unit"

lemma resolve_prefixed:
  assumes "CHR '':'' \<notin> set p"
  shows "ResourceResolver_resolve S (p @ CHR '':'' # text) =
    return (resolvePrefixed (p @ CHR '':'' # text) (length p))"
proof -
  have "str_find CHR '':'' (p @ CHR '':'' # text) 0 = Some (length p)"
    using assms unfolding str_find_def by (subst drop_0, subst find_index_append) auto
  then show ?thesis by (simp add: ResourceResolver_resolve_def)
qed

lemma resolve_port:
  "ResourceResolver_resolve S (''port:'' @ text) =
     return (map_sum id (\<lambda>n. PortTarget (of_nat n)) (positiveInteger text 65535 ''port''))"
  using resolve_prefixed [of "''port''" S "text"]
  by (auto simp: resolvePrefixed_def substr_def Let_def split: sum.split)

lemma resolve_pid:
  "ResourceResolver_resolve S (''pid:'' @ text) =
     return (map_sum id (\<lambda>n. ProcessTarget (int n)) (positiveInteger text (nat pid_max) ''PID''))"
  using resolve_prefixed [of "''pid''" S "text"]
  by (auto simp: resolvePrefixed_def substr_def Let_def split: sum.split)

lemma resolve_service:
  "ResourceResolver_resolve S (''service:'' @ text) =
     return (map_sum id ServiceTarget (ServiceService_normalizeUnit text))"
  using resolve_prefixed [of "''service''" S "text"]
  by (auto simp: resolvePrefixed_def substr_def Let_def split: sum.split)

lemmas resolve_simps = resolve_port resolve_pid resolve_service

lemma resolve_resource_text:
  assumes "nameable t"
  shows "ResourceResolver_resolve S (resource_text t) = return (Inr t)"
proof (cases t)
  case (PortTarget port)
  have "unat port < 65536" using unsigned_less [of port, where ?'a = nat] by simp
  moreover have "0 < unat port" using assms PortTarget by (simp add: unat_gt_0)
  ultimately have "positiveInteger (nat_str (unat port)) 65535 ''port'' = Inr (unat port)"
    by (intro positiveInteger_nat_str) auto
  then show ?thesis using PortTarget by (simp only: resource_text.simps resolve_port) simp
next
  case (ProcessTarget p)
  then have "positiveInteger (nat_str (nat p)) (nat pid_max) ''PID'' = Inr (nat p)"
    using assms by (intro positiveInteger_nat_str) (auto simp: pid_max_def)
  then show ?thesis
    using assms ProcessTarget by (simp only: resource_text.simps resolve_pid) simp
next
  case (ServiceTarget unit)
  then show ?thesis using assms by (simp only: resource_text.simps resolve_service) simp
qed

section \<open>The calls of the resolver\<close>

definition recordResourceResolver :: "'w ResourceResolver \<Rightarrow> 'w recorded ResourceResolver" where
  "recordResourceResolver S =
     \<lparr>rs_portService = recordPortService (rs_portService S),
      rs_processService = recordProcessService (rs_processService S),
      rs_serviceService = recordServiceService (rs_serviceService S)\<rparr>"

lemma recordResourceResolver_sel [simp]:
  "rs_portService (recordResourceResolver S) = recordPortService (rs_portService S)"
  "rs_processService (recordResourceResolver S) = recordProcessService (rs_processService S)"
  "rs_serviceService (recordResourceResolver S) = recordServiceService (rs_serviceService S)"
  by (simp_all add: recordResourceResolver_def)

lemma quiet_ResourceResolver_resolve [quiet_intros]:
  "quiet destructive (ResourceResolver_resolve (recordResourceResolver S) e)"
  unfolding ResourceResolver_resolve_def resolveNumber_def resolveName_def recordResourceResolver_sel
  by (intro quiet_intros)

section \<open>Properties\<close>

text \<open>
  Every resource that can be named is resolved from its prefixed text, to exactly that
  resource, without asking any provider: the world is unchanged and the answer does not depend on it.
\<close>

theorem resolve_prefixed_roundtrip:
  assumes "case t of PortTarget port \<Rightarrow> port \<noteq> 0 | ProcessTarget p \<Rightarrow> 0 < p \<and> p \<le> pid_max
    | ServiceTarget unit \<Rightarrow> ServiceService_normalizeUnit unit = Inr unit"
  shows "run_state (ResourceResolver_resolve S (resource_text t)) w = (Inr t, w)"
proof -
  have "nameable t" using assms by (cases t) simp_all
  then show ?thesis by (simp add: resolve_resource_text)
qed

theorem resolve_prefixed_roundtrip_witness:
  "run_state (ResourceResolver_resolve
      \<lparr>rs_portService = demo_PortService, rs_processService = demo_ProcessService,
       rs_serviceService = demo_services\<rparr> (resource_text (PortTarget 8080))) 0 =
     (Inr (PortTarget 8080), 0)"
  by (rule resolve_prefixed_roundtrip) simp

text \<open>
  An unprefixed number is never guessed: it resolves to a port only when a socket was found
  there and no process with that id was observed, to a process only in the opposite case, and an
  expression that means both is refused as a conflict.
\<close>

theorem resolve_number_unambiguous:
  assumes "\<forall>c \<in> set expression. isdigit c" "expression \<noteq> []"
    and "n = digits_value expression" "0 < n" "n \<le> 65535"
    and "process = result_of (ProcessService_inspect (rs_processService S) (int n)) w"
    and "ports = result_of (PortService_inspect (rs_portService S)
           (default_SocketQuery\<lparr>sq_localPort := Some (of_nat n)\<rparr>))
           (world_after (ProcessService_inspect (rs_processService S) (int n)) w)"
  shows "result_of (ResourceResolver_resolve S expression) w =
    (case (process, ports) of
       (Inr _, Inr ob) \<Rightarrow>
         if ob_value ob = [] then Inr (ProcessTarget (int n))
         else Inl (mkError Conflict (''Multiple resources matched '' @ quoted expression @ '': port:''
                @ expression @ '' and pid:'' @ expression) 0 ''resource-resolver'' ''resolve'')
     | (Inl _, Inr ob) \<Rightarrow>
         if ob_value ob = [] then Inl (notFound expression) else Inr (PortTarget (of_nat n))
     | (Inr _, Inl _) \<Rightarrow> Inr (ProcessTarget (int n))
     | (Inl _, Inl _) \<Rightarrow> Inl (notFound expression))"
proof -
  have no_colon: "str_find CHR '':'' expression 0 = None"
    using assms(1) by (auto simp: str_find_def find_index_None isdigit_def)
  have number: "positiveInteger expression (2 ^ 64 - 1) ''number'' = Inr n"
    using assms(1-5) by (simp add: positiveInteger_iff)
  have small: "n \<le> nat pid_max" using assms(5) by (simp add: pid_max_def)
  have run: "ResourceResolver_resolve S expression = resolveNumber S expression n"
    using no_colon number assms(2) by (simp add: ResourceResolver_resolve_def)
  show ?thesis
    using small assms(5-) unfolding run
    by (auto simp: resolveNumber_def Result_hasValue_def split: sum.split)
qed

theorem resolve_number_unambiguous_witness:
  "result_of (ResourceResolver_resolve
      \<lparr>rs_portService = demo_PortService, rs_processService = demo_ProcessService,
       rs_serviceService = demo_services\<rparr> ''8080'') 30000000 = Inr (ProcessTarget 8080)"
proof -
  let ?S = "\<lparr>rs_portService = demo_PortService, rs_processService = demo_ProcessService,
       rs_serviceService = demo_services\<rparr>"
  have n: "8080 = digits_value ''8080''" by (simp add: digits_value_def)
  have process: "result_of (ProcessService_inspect (rs_processService ?S) (int 8080)) 30000000 =
      Inr \<lparr>ob_value = demo_process 8080 ''sh'', ob_warnings = []\<rparr>"
    and same: "world_after (ProcessService_inspect (rs_processService ?S) (int 8080)) 30000000 = 30000000"
    by (simp_all add: ProcessService_inspect_def demo_ProcessService_def)
  have ports: "result_of (PortService_inspect (rs_portService ?S)
      (default_SocketQuery\<lparr>sq_localPort := Some (of_nat 8080)\<rparr>)) 30000000 =
      Inr \<lparr>ob_value = [], ob_warnings = []\<rparr>"
    by (simp add: PortService_inspect_def demo_defs insertedPids_def)
  show ?thesis
    using resolve_number_unambiguous [of "''8080''" 8080 _ ?S 30000000, OF _ _ n _ _ refl refl]
    unfolding process same ports by (simp add: isdigit_def)
qed

end
