(* ===== verification/LogService.thy ===== *)
theory LogService
  imports ServiceService
begin

text \<open>
  \<open>src/application/LogService.cpp\<close>: validation of journal queries, and the reading of the
  \<open>--since\<close> argument.

  Time points are counts of nanoseconds in a signed 64-bit integer. Signed overflow is undefined in
  C++, so the functions that compute time points return an option, and \<open>None\<close> stands for a run
  with undefined behaviour. The time zone functions of the C library and \<open>std::get_time\<close>, whose
  answers depend on the installed locale and time zone data, are a parameter of the model.
\<close>

section \<open>Time points\<close>

definition int64_ok :: "int \<Rightarrow> bool" where
  "int64_ok i \<longleftrightarrow> - (2 ^ 63) \<le> i \<and> i < 2 ^ 63"

definition checked64 :: "int \<Rightarrow> int option" where
  "checked64 i = (if int64_ok i then Some i else None)"

text \<open>Subtracting seconds from a time point converts them to nanoseconds first.\<close>

definition minus_seconds :: "int \<Rightarrow> int \<Rightarrow> int option" where
  "minus_seconds now seconds = Option.bind (checked64 (seconds * 1000000000)) (\<lambda>ns. checked64 (now - ns))"

definition invalid_log :: "string \<Rightarrow> string \<Rightarrow> 'a result" where
  "invalid_log message operation = failure (mkError InvalidArgument message 0 ''log'' operation)"

definition relative_form_message :: string where
  "relative_form_message = ''Invalid relative time; use forms such as 30s, 10m, 2h, or 3d''"

definition unitSeconds :: "char \<Rightarrow> nat option" where
  "unitSeconds c =
     (if c = CHR ''s'' then Some 1
      else if c = CHR ''m'' then Some 60
      else if c = CHR ''h'' then Some (60 * 60)
      else if c = CHR ''d'' then Some (24 * 60 * 60)
      else None)"

definition parseRelative :: "string \<Rightarrow> int \<Rightarrow> int result option" where
  "parseRelative text now =
     (if length text < 2 then Some (invalid_log relative_form_message ''parse since'')
      else
        (let parsed = from_chars_unsigned (2 ^ 64 - 1) (butlast text);
             amount = fc_value_or 0 parsed in
         if \<not> consumed_all parsed (butlast text)
         then Some (invalid_log relative_form_message ''parse since'')
         else
           (case unitSeconds (last text) of
              None \<Rightarrow> Some (invalid_log ''Invalid relative time unit; expected s, m, h, or d'' ''parse since'')
            | Some multiplier \<Rightarrow>
                (if (2 ^ 63 - 1) div multiplier < amount
                 then Some (invalid_log ''Relative time is out of range'' ''parse since'')
                 else
                   (case minus_seconds now (int (amount * multiplier)) of
                      None \<Rightarrow> None
                    | Some since \<Rightarrow>
                        Some (if since < 0
                              then invalid_log ''Relative time precedes the Unix epoch'' ''parse since''
                              else success since))))))"

section \<open>Local time\<close>

record tm =
  tm_year :: int
  tm_mon :: int
  tm_mday :: int
  tm_hour :: int
  tm_min :: int
  tm_sec :: int

text \<open>
  \<open>lt_getTime\<close> extracts a broken-down time in the format \<open>%Y-%m-%d %H:%M:%S\<close> and returns it with the
  unread rest, or \<open>None\<close> when the extraction fails; \<open>lt_mktime\<close> and \<open>lt_localtime\<close> convert between
  broken-down local time and seconds since the epoch.
\<close>

record LocalTime =
  lt_getTime :: "string \<Rightarrow> (tm \<times> string) option"
  lt_mktime :: "tm \<Rightarrow> int"
  lt_localtime :: "int \<Rightarrow> tm option"

definition sameLocalTime :: "LocalTime \<Rightarrow> tm \<Rightarrow> int \<Rightarrow> bool" where
  "sameLocalTime L expected v =
     (case lt_localtime L v of
        None \<Rightarrow> False
      | Some actual \<Rightarrow>
          tm_year actual = tm_year expected \<and> tm_mon actual = tm_mon expected \<and>
          tm_mday actual = tm_mday expected \<and> tm_hour actual = tm_hour expected \<and>
          tm_min actual = tm_min expected \<and> tm_sec actual = tm_sec expected)"

text \<open>Everything \<open>parseSince\<close> does after the relative form has been ruled out;
  \<open>stream.eof()\<close> holds after \<open>std::ws\<close> exactly when only blanks were left.\<close>

definition parseAbsolute :: "LocalTime \<Rightarrow> string \<Rightarrow> int result option" where
  "parseAbsolute L text =
     (case lt_getTime L text of
        None \<Rightarrow> Some (invalid_log ''Invalid absolute time; expected YYYY-MM-DD HH:MM:SS'' ''parse since'')
      | Some (parsedTime, rest) \<Rightarrow>
          (if \<not> list_all isspace rest
           then Some (invalid_log ''Absolute time contains trailing characters'' ''parse since'')
           else
             (let converted = lt_mktime L parsedTime in
              if converted < 0 \<or> \<not> sameLocalTime L parsedTime converted
              then Some (invalid_log ''Absolute time is not a valid local date'' ''parse since'')
              else map_option success (checked64 (converted * 1000000000)))))"

definition LogService_parseSince :: "LocalTime \<Rightarrow> string \<Rightarrow> int \<Rightarrow> int result option" where
  "LogService_parseSince L text now =
     (if text \<noteq> [] \<and> (last text = CHR ''s'' \<or> last text = CHR ''m'' \<or> last text = CHR ''h''
                         \<or> last text = CHR ''d'')
      then parseRelative text now
      else parseAbsolute L text)"

section \<open>Queries\<close>

record 'w LogService =
  ls_journalProvider :: "'w IJournalProvider"

definition LogService_normalize :: "LogQuery \<Rightarrow> LogQuery result" where
  "LogService_normalize query =
     (if lq_unit query = None \<and> lq_pid query = None
      then invalid_log ''A service unit or PID is required for log queries'' ''validate query''
      else if (case lq_pid query of None \<Rightarrow> False | Some p \<Rightarrow> p \<le> 0)
      then invalid_log ''PID must be greater than zero'' ''validate query''
      else if lq_limit query = 0 \<or> lq_limit query > 10000
      then invalid_log ''Log line limit must be between 1 and 10000'' ''validate query''
      else
        (case lq_unit query of
           None \<Rightarrow> success query
         | Some unit \<Rightarrow>
             (case ServiceService_normalizeUnit unit of
                Inl e \<Rightarrow> failure e
              | Inr n \<Rightarrow> success (query\<lparr>lq_unit := Some n\<rparr>))))"

definition LogService_read ::
  "'w LogService \<Rightarrow> LogQuery \<Rightarrow> ('w, JournalEntry list Observation result) io" where
  "LogService_read S query =
     (case LogService_normalize query of
        Inl e \<Rightarrow> return (failure e)
      | Inr normalized \<Rightarrow> jp_query (ls_journalProvider S) normalized)"

definition LogService_follow ::
  "'w LogService \<Rightarrow> LogQuery \<Rightarrow> 'w JournalEntrySink \<Rightarrow> 'w JournalStopRequested \<Rightarrow>
   ('w, unit result) io" where
  "LogService_follow S query sink stopRequested =
     (case LogService_normalize query of
        Inl e \<Rightarrow> return (failure e)
      | Inr normalized \<Rightarrow>
          jp_follow (ls_journalProvider S) (normalized\<lparr>lq_follow := True\<rparr>) sink stopRequested)"

section \<open>Lemmas\<close>

lemma int64_ok_times: "0 \<le> n \<Longrightarrow> int64_ok n \<longleftrightarrow> n < 2 ^ 63"
  by (auto simp: int64_ok_def)

text \<open>From a time point since the epoch a subtraction overflows only through the conversion.\<close>

lemma minus_seconds_eq:
  assumes "0 \<le> now" "now < 2 ^ 63" "0 \<le> seconds"
  shows "minus_seconds now seconds =
    (if seconds * 1000000000 < 2 ^ 63 then Some (now - seconds * 1000000000) else None)"
  using assms by (auto simp: minus_seconds_def checked64_def int64_ok_def)

lemma unitSeconds_pos: "unitSeconds u = Some k \<Longrightarrow> 0 < k"
  by (auto simp: unitSeconds_def split: if_splits)

lemma unitSeconds_suffix:
  "unitSeconds u = Some k \<Longrightarrow> u = CHR ''s'' \<or> u = CHR ''m'' \<or> u = CHR ''h'' \<or> u = CHR ''d''"
  by (auto simp: unitSeconds_def split: if_splits)

lemma nat_less_div_iff: "0 < (k::nat) \<Longrightarrow> m div k < n \<longleftrightarrow> m < n * k"
  by (simp add: div_less_iff_less_mult)

lemma nanoseconds_fit:
  "int m * 1000000000 < 2 ^ 63 \<longleftrightarrow> \<not> 2 ^ 63 - 1 < m * 1000000000"
  by (simp add: not_less) linarith

lemma parseRelative_number:
  assumes "n < 2 ^ 64" "unitSeconds u = Some k"
  shows "parseRelative (nat_str n @ [u]) now =
    (if 2 ^ 63 - 1 < n * k then Some (invalid_log ''Relative time is out of range'' ''parse since'')
     else (case minus_seconds now (int (n * k)) of
             None \<Rightarrow> None
           | Some since \<Rightarrow> Some (if since < 0
               then invalid_log ''Relative time precedes the Unix epoch'' ''parse since''
               else success since)))"
proof -
  have "n \<le> 2 ^ 64 - 1" using assms(1) by simp
  then have "consumed_all (from_chars_unsigned (2 ^ 64 - 1) (nat_str n)) (nat_str n)"
    and "fc_value_or 0 (from_chars_unsigned (2 ^ 64 - 1) (nat_str n)) = n"
    by (simp_all only: from_chars_unsigned_nat_str from_chars_unsigned_nat_str_value)
  moreover have "\<not> length (nat_str n @ [u]) < 2"
    using nat_str_nonempty [of n] by (cases "nat_str n") auto
  ultimately show ?thesis
    using assms(2) unitSeconds_pos [OF assms(2)]
    unfolding parseRelative_def Let_def butlast_snoc last_snoc
    by (simp add: nat_less_div_iff)
qed

text \<open>A time zone without offset in which only one time is known.\<close>

definition demo_LocalTime :: LocalTime where
  "demo_LocalTime =
     \<lparr>lt_getTime = (\<lambda>s. Some (\<lparr>tm_year = 70, tm_mon = 0, tm_mday = 1, tm_hour = 0, tm_min = 0,
                              tm_sec = 9\<rparr>, [])),
      lt_mktime = (\<lambda>f. tm_sec f),
      lt_localtime = (\<lambda>t. Some \<lparr>tm_year = 70, tm_mon = 0, tm_mday = 1, tm_hour = 0, tm_min = 0,
                              tm_sec = t\<rparr>)\<rparr>"

section \<open>Properties\<close>

text \<open>
  C38. What a relative \<open>--since\<close> means: a number with unit \<open>s\<close>, \<open>m\<close>, \<open>h\<close> or \<open>d\<close> denotes the time point that
  many seconds before now, provided it is not before the epoch; larger amounts are refused. Between
  the largest amount whose nanoseconds fit and the bound the code checks, the computation overflows.
\<close>

theorem parseSince_relative:
  assumes "n < 2 ^ 64" "unitSeconds u = Some k" "0 \<le> now" "now < 2 ^ 63"
  shows "LogService_parseSince L (nat_str n @ [u]) now =
    (if 2 ^ 63 - 1 < n * k
     then Some (Inl (mkError InvalidArgument ''Relative time is out of range'' 0 ''log'' ''parse since''))
     else if 2 ^ 63 - 1 < n * k * 1000000000 then None
     else if now < int (n * k * 1000000000)
     then Some (Inl (mkError InvalidArgument ''Relative time precedes the Unix epoch'' 0 ''log''
                       ''parse since''))
     else Some (Inr (now - int (n * k * 1000000000))))"
proof -
  have "LogService_parseSince L (nat_str n @ [u]) now = parseRelative (nat_str n @ [u]) now"
    using unitSeconds_suffix [OF assms(2)] by (simp add: LogService_parseSince_def)
  moreover have "minus_seconds now (int (n * k)) =
      (if 2 ^ 63 - 1 < n * k * 1000000000 then None else Some (now - int (n * k * 1000000000)))"
    using minus_seconds_eq [OF assms(3,4), of "int (n * k)"] nanoseconds_fit [of "n * k"] by simp
  ultimately show ?thesis
    unfolding parseRelative_number [OF assms(1,2)] by (simp add: invalid_log_def)
qed

text \<open>An hour ago, and the overflow: two hundred thousand days.\<close>

theorem parseSince_relative_witness:
  "LogService_parseSince demo_LocalTime (nat_str 1 @ ''h'') 5000000000000 = Some (Inr 1400000000000) \<and>
   LogService_parseSince demo_LocalTime (nat_str 200000 @ ''d'') 5000000000000 = None"
proof -
  have h: "unitSeconds CHR ''h'' = Some 3600" and d: "unitSeconds CHR ''d'' = Some 86400"
    by (simp_all add: unitSeconds_def)
  show ?thesis
    using parseSince_relative [OF _ h, of 1 5000000000000 demo_LocalTime]
      parseSince_relative [OF _ d, of 200000 5000000000000 demo_LocalTime]
    by simp
qed

text \<open>
  What an absolute \<open>--since\<close> means: it is accepted only as a local time that exists, and then
  denotes the second at which the local clock shows exactly the fields that were read.
\<close>

theorem parseSince_absolute:
  assumes "last text \<notin> set ''smhd''" "text \<noteq> []"
    and "LogService_parseSince L text now = Some (Inr t)"
  shows "\<exists>fields rest seconds. lt_getTime L text = Some (fields, rest) \<and> list_all isspace rest \<and>
    t = seconds * 1000000000 \<and> 0 \<le> seconds \<and> t < 2 ^ 63 \<and> lt_localtime L seconds = Some fields"
proof -
  have "parseAbsolute L text = Some (Inr t)"
    using assms by (auto simp: LogService_parseSince_def split: if_splits)
  then show ?thesis
    by (auto simp: parseAbsolute_def invalid_log_def sameLocalTime_def Let_def checked64_def
        int64_ok_def split: option.split_asm prod.split_asm if_split_asm)
qed

theorem parseSince_absolute_witness:
  "\<exists>fields rest seconds. lt_getTime demo_LocalTime ''1970-01-01 00:00:09'' = Some (fields, rest) \<and>
    9000000000 = seconds * 1000000000 \<and> lt_localtime demo_LocalTime seconds = Some fields"
proof -
  have "LogService_parseSince demo_LocalTime ''1970-01-01 00:00:09'' 0 = Some (Inr 9000000000)"
    by (simp add: LogService_parseSince_def parseAbsolute_def demo_LocalTime_def sameLocalTime_def
        checked64_def int64_ok_def)
  from parseSince_absolute [OF _ _ this] show ?thesis by auto
qed

text \<open>
  A journal query reaches the journal only in validated form: restricted to a unit in
  normalised form or to a positive process id, and asking for 1 to 10000 entries; nothing else of the
  query changes.
\<close>

theorem LogService_normalize_valid:
  assumes "LogService_normalize query = Inr q"
  shows "(lq_unit q \<noteq> None \<or> lq_pid q \<noteq> None) \<and> 1 \<le> lq_limit q \<and> lq_limit q \<le> 10000 \<and>
    (\<forall>p. lq_pid q = Some p \<longrightarrow> 0 < p) \<and>
    (\<forall>u. lq_unit q = Some u \<longrightarrow> (\<exists>u0. lq_unit query = Some u0 \<and>
        ServiceService_normalizeUnit u0 = Inr u)) \<and>
    q = query\<lparr>lq_unit := lq_unit q\<rparr>"
  using assms
  by (auto simp: LogService_normalize_def invalid_log_def not_le Suc_le_eq
      split: option.split_asm if_split_asm sum.split_asm)

theorem LogService_normalize_valid_witness:
  "\<exists>q. LogService_normalize (default_LogQuery\<lparr>lq_unit := Some ''ssh''\<rparr>) = Inr q \<and>
     1 \<le> lq_limit q \<and> lq_limit q \<le> 10000"
proof -
  have "LogService_normalize (default_LogQuery\<lparr>lq_unit := Some ''ssh''\<rparr>) =
      Inr (default_LogQuery\<lparr>lq_unit := Some ''ssh.service''\<rparr>)"
    by (simp add: LogService_normalize_def default_LogQuery_def ServiceService_normalizeUnit_def
        validUnitCharacter_def char_class_defs service_suffix_def)
  from LogService_normalize_valid [OF this] this show ?thesis by blast
qed

end
