(* ===== verification/InspectService.thy ===== *)
theory InspectService
  imports ResourceResolver LogService
begin

text \<open>
  \<open>src/application/InspectService.cpp\<close>: the resources related to one resource. From a port it follows
  the owners to their services and logs, from a process its service, ports and logs, from a service
  its processes, their ports and its logs.
\<close>

section \<open>Growing the graph\<close>

definition addWarnings :: "Warning list \<Rightarrow> ResourceGraph \<Rightarrow> ResourceGraph" where
  "addWarnings ws graph = graph\<lparr>rg_warnings := rg_warnings graph @ ws\<rparr>"

definition addProcess :: "ProcessInfo \<Rightarrow> ResourceGraph \<Rightarrow> ResourceGraph" where
  "addProcess process graph =
     (if list_ex (\<lambda>v. pi_pid v = pi_pid process) (rg_processes graph) then graph
      else graph\<lparr>rg_processes := rg_processes graph @ [process]\<rparr>)"

definition addService :: "ServiceInfo \<Rightarrow> ResourceGraph \<Rightarrow> ResourceGraph" where
  "addService service graph =
     (if list_ex (\<lambda>v. si_unitName v = si_unitName service) (rg_services graph) then graph
      else graph\<lparr>rg_services := rg_services graph @ [service]\<rparr>)"

definition addLogEntry :: "JournalEntry \<Rightarrow> ResourceGraph \<Rightarrow> ResourceGraph" where
  "addLogEntry entry graph =
     (if je_cursor entry \<noteq> [] \<and> list_ex (\<lambda>v. je_cursor v = je_cursor entry) (rg_recentLogs graph)
      then graph
      else graph\<lparr>rg_recentLogs := rg_recentLogs graph @ [entry]\<rparr>)"

definition addLogs ::
  "ResourceGraph \<Rightarrow> 'w LogService \<Rightarrow> LogQuery \<Rightarrow> ('w, ResourceGraph) io" where
  "addLogs graph service query = do {
     logs \<leftarrow> LogService_read service (query\<lparr>lq_limit := 20\<rparr>);
     return (case logs of
       Inl e \<Rightarrow> addWarnings [warningFrom e] graph
     | Inr ob \<Rightarrow> fold addLogEntry (ob_value ob) (addWarnings (ob_warnings ob) graph))
   }"

definition finalizeLogs :: "ResourceGraph \<Rightarrow> ResourceGraph" where
  "finalizeLogs graph =
     (let sorted = sort_key je_timestamp (rg_recentLogs graph) in
      graph\<lparr>rg_recentLogs := (if length sorted > 20 then drop (length sorted - 20) sorted
                             else sorted)\<rparr>)"

section \<open>The three roots\<close>

record 'w InspectService =
  is_resolver :: "'w ResourceResolver"
  is_portService :: "'w PortService"
  is_processService :: "'w ProcessService"
  is_serviceService :: "'w ServiceService"
  is_logService :: "'w LogService"

text \<open>A service that was looked up goes into the graph, or its failure into the warnings.\<close>

definition noteService ::
  "ServiceInfo Observation result \<Rightarrow> ResourceGraph \<Rightarrow> ResourceGraph" where
  "noteService service graph =
     (case service of
        Inl e \<Rightarrow> addWarnings [warningFrom e] graph
      | Inr ob \<Rightarrow> addService (ob_value ob) (addWarnings (ob_warnings ob) graph))"

fun inspectUnits :: "'w InspectService \<Rightarrow> string list \<Rightarrow> ResourceGraph \<Rightarrow> ('w, ResourceGraph) io" where
  "inspectUnits S [] graph = return graph"
| "inspectUnits S (unit # rest) graph = do {
     service \<leftarrow> ServiceService_inspect (is_serviceService S) unit;
     graph' \<leftarrow> addLogs (noteService service graph) (is_logService S)
       (default_LogQuery\<lparr>lq_unit := Some unit\<rparr>);
     inspectUnits S rest graph'
   }"

fun inspectPids :: "'w InspectService \<Rightarrow> pid list \<Rightarrow> ResourceGraph \<Rightarrow> ('w, ResourceGraph) io" where
  "inspectPids S [] graph = return graph"
| "inspectPids S (pid # rest) graph = do {
     graph' \<leftarrow> addLogs graph (is_logService S) (default_LogQuery\<lparr>lq_pid := Some pid\<rparr>);
     inspectPids S rest graph'
   }"

definition inspectPortRoot ::
  "'w InspectService \<Rightarrow> u16 \<Rightarrow> ResourceGraph \<Rightarrow> ('w, ResourceGraph result) io" where
  "inspectPortRoot S port graph = do {
     ports \<leftarrow> PortService_inspect (is_portService S)
       (default_SocketQuery\<lparr>sq_localPort := Some port\<rparr>);
     case ports of
       Inl e \<Rightarrow> return (failure e)
     | Inr ob \<Rightarrow>
         (if ob_value ob = []
          then return (failure (mkError NotFound (''No socket found for port '' @ nat_str (unat port)) 0
                                  ''inspect-service'' ''inspect port''))
          else do {
            let owners = concat (map po_owners (ob_value ob));
            let graph1 = fold addProcess owners
                  ((addWarnings (ob_warnings ob) graph)\<lparr>rg_ports := ob_value ob\<rparr>);
            graph2 \<leftarrow> inspectUnits S (std_set (List.map_filter pi_systemdUnit owners)) graph1;
            graph3 \<leftarrow> inspectPids S
              (std_set (map pi_pid (filter (\<lambda>p. pi_systemdUnit p = None) owners))) graph2;
            return (success graph3)
          })
   }"

definition inspectProcessRoot ::
  "'w InspectService \<Rightarrow> pid \<Rightarrow> ResourceGraph \<Rightarrow> ('w, ResourceGraph result) io" where
  "inspectProcessRoot S pid graph = do {
     process \<leftarrow> ProcessService_inspect (is_processService S) pid;
     case process of
       Inl e \<Rightarrow> return (failure e)
     | Inr ob \<Rightarrow> do {
         let graph1 = addProcess (ob_value ob) (addWarnings (ob_warnings ob) graph);
         graph2 \<leftarrow>
           (case pi_systemdUnit (ob_value ob) of
              None \<Rightarrow> return graph1
            | Some unit \<Rightarrow> do {
                service \<leftarrow> ServiceService_inspect (is_serviceService S) unit;
                return (noteService service graph1)
              });
         ports \<leftarrow> PortService_inspect (is_portService S) default_SocketQuery;
         let graph3 =
           (case ports of
              Inl e \<Rightarrow> addWarnings [warningFrom e] graph2
            | Inr po \<Rightarrow> (addWarnings (ob_warnings po) graph2)\<lparr>rg_ports := rg_ports graph2 @
                filter (\<lambda>port. pid \<in> set (so_ownerPids (po_socket port))) (ob_value po)\<rparr>);
         graph4 \<leftarrow> addLogs graph3 (is_logService S) (default_LogQuery\<lparr>lq_pid := Some pid\<rparr>);
         return (success graph4)
       }
   }"

definition inspectServiceRoot ::
  "'w InspectService \<Rightarrow> string \<Rightarrow> ResourceGraph \<Rightarrow> ('w, ResourceGraph result) io" where
  "inspectServiceRoot S unit graph = do {
     service \<leftarrow> ServiceService_inspect (is_serviceService S) unit;
     case service of
       Inl e \<Rightarrow> return (failure e)
     | Inr ob \<Rightarrow> do {
         let graph1 = addService (ob_value ob) (addWarnings (ob_warnings ob) graph);
         processes \<leftarrow> ProcessService_list (is_processService S)
           (default_ProcessQuery\<lparr>pq_systemdUnit := Some unit\<rparr>);
         let graph2 =
           (case processes of
              Inl e \<Rightarrow> addWarnings [warningFrom e] graph1
            | Inr ps \<Rightarrow> (addWarnings (ob_warnings ps) graph1)\<lparr>rg_processes := ob_value ps\<rparr>);
         let pids = (case processes of Inl _ \<Rightarrow> [] | Inr ps \<Rightarrow> map pi_pid (ob_value ps));
         ports \<leftarrow> PortService_inspect (is_portService S) default_SocketQuery;
         let graph3 =
           (case ports of
              Inl e \<Rightarrow> addWarnings [warningFrom e] graph2
            | Inr po \<Rightarrow> (addWarnings (ob_warnings po) graph2)\<lparr>rg_ports := rg_ports graph2 @
                filter (\<lambda>port. list_ex (\<lambda>p. p \<in> set pids) (so_ownerPids (po_socket port)))
                  (ob_value po)\<rparr>);
         graph4 \<leftarrow> addLogs graph3 (is_logService S) (default_LogQuery\<lparr>lq_unit := Some unit\<rparr>);
         return (success graph4)
       }
   }"

definition emptyGraph :: "ResourceTarget \<Rightarrow> ResourceGraph" where
  "emptyGraph target = \<lparr>rg_root = target, rg_ports = [], rg_processes = [], rg_services = [],
     rg_recentLogs = [], rg_warnings = []\<rparr>"

definition InspectService_inspectTarget ::
  "'w InspectService \<Rightarrow> ResourceTarget \<Rightarrow> ('w, ResourceGraph result) io" where
  "InspectService_inspectTarget S target = do {
     r \<leftarrow> (case target of
             PortTarget port \<Rightarrow> inspectPortRoot S port (emptyGraph target)
           | ProcessTarget pid \<Rightarrow> inspectProcessRoot S pid (emptyGraph target)
           | ServiceTarget unit \<Rightarrow> inspectServiceRoot S unit (emptyGraph target));
     return (case r of Inl e \<Rightarrow> failure e | Inr graph \<Rightarrow> success (finalizeLogs graph))
   }"

definition InspectService_inspect ::
  "'w InspectService \<Rightarrow> string \<Rightarrow> ('w, ResourceGraph result) io" where
  "InspectService_inspect S expression = do {
     target \<leftarrow> ResourceResolver_resolve (is_resolver S) expression;
     case target of
       Inl e \<Rightarrow> return (failure e)
     | Inr t \<Rightarrow> InspectService_inspectTarget S t
   }"

section \<open>What every step keeps\<close>

text \<open>The part of the graph that adding logs, services and warnings leaves alone.\<close>

definition same_resources :: "ResourceGraph \<Rightarrow> ResourceGraph \<Rightarrow> bool" where
  "same_resources g h \<longleftrightarrow> rg_root h = rg_root g \<and> rg_ports h = rg_ports g \<and>
     rg_processes h = rg_processes g"

text \<open>No service twice, and no journal entry twice as far as entries can be told apart.\<close>

definition no_duplicates :: "ResourceGraph \<Rightarrow> bool" where
  "no_duplicates g \<longleftrightarrow> distinct (map si_unitName (rg_services g)) \<and>
     distinct (filter (\<lambda>c. c \<noteq> []) (map je_cursor (rg_recentLogs g)))"

definition keeps :: "ResourceGraph \<Rightarrow> ResourceGraph \<Rightarrow> bool" where
  "keeps g h \<longleftrightarrow> same_resources g h \<and> (no_duplicates g \<longrightarrow> no_duplicates h)"

lemma keeps_refl [simp]: "keeps g g"
  by (simp add: keeps_def same_resources_def)

lemma keeps_trans: "keeps g h \<Longrightarrow> keeps h k \<Longrightarrow> keeps g k"
  by (simp add: keeps_def same_resources_def)

lemma keeps_addWarnings [simp]: "keeps g (addWarnings ws g)"
  by (simp add: keeps_def same_resources_def no_duplicates_def addWarnings_def)

lemma keeps_addService: "keeps g (addService s g)"
  by (auto simp: keeps_def same_resources_def no_duplicates_def addService_def list_ex_iff)

lemma keeps_addLogEntry: "keeps g (addLogEntry e g)"
  by (auto simp: keeps_def same_resources_def no_duplicates_def addLogEntry_def list_ex_iff)

lemma keeps_fold_logs: "keeps g (fold addLogEntry es g)"
  by (induction es arbitrary: g) (auto intro: keeps_trans [OF keeps_addLogEntry])

lemma keeps_noteService: "keeps g (noteService s g)"
  by (cases s) (auto simp: noteService_def intro: keeps_trans [OF keeps_addWarnings keeps_addService])

lemma keeps_addLogs: "keeps g (result_of (addLogs g L q) w)"
  by (auto simp: addLogs_def intro: keeps_trans [OF keeps_addWarnings keeps_fold_logs]
      split: sum.split)

lemma keeps_inspectUnits: "keeps g (result_of (inspectUnits S us g) w)"
proof (induction us arbitrary: g w)
  case (Cons u us)
  show ?case
    unfolding inspectUnits.simps result_of_bind world_after_bind
    by (rule keeps_trans [OF keeps_trans [OF keeps_noteService keeps_addLogs] Cons.IH])
qed simp

lemma keeps_inspectPids: "keeps g (result_of (inspectPids S ps g) w)"
proof (induction ps arbitrary: g w)
  case (Cons p ps)
  show ?case
    unfolding inspectPids.simps result_of_bind world_after_bind
    by (rule keeps_trans [OF keeps_addLogs Cons.IH])
qed simp

lemma addProcess_fold:
  "rg_root (fold addProcess ps g) = rg_root g \<and> rg_ports (fold addProcess ps g) = rg_ports g \<and>
   (no_duplicates g \<longrightarrow> no_duplicates (fold addProcess ps g)) \<and>
   set (map pi_pid (rg_processes (fold addProcess ps g))) =
     set (map pi_pid (rg_processes g)) \<union> set (map pi_pid ps) \<and>
   (distinct (map pi_pid (rg_processes g)) \<longrightarrow>
    distinct (map pi_pid (rg_processes (fold addProcess ps g))))"
proof (induction ps arbitrary: g)
  case (Cons p ps)
  have "rg_root (addProcess p g) = rg_root g" "rg_ports (addProcess p g) = rg_ports g"
      "no_duplicates (addProcess p g) = no_duplicates g"
      "set (map pi_pid (rg_processes (addProcess p g))) =
        insert (pi_pid p) (set (map pi_pid (rg_processes g)))"
      "distinct (map pi_pid (rg_processes g)) \<Longrightarrow>
        distinct (map pi_pid (rg_processes (addProcess p g)))"
    by (auto simp: addProcess_def no_duplicates_def list_ex_iff image_iff) (metis)+
  then show ?case using Cons.IH [of "addProcess p g"] by auto
qed simp

lemma set_map_filter_some: "set (List.map_filter f xs) = {y. \<exists>x \<in> set xs. f x = Some y}"
  by (force simp: List.map_filter_def)

lemma fold_addProcess_rest:
  "rg_services (fold addProcess ps g) = rg_services g" "rg_recentLogs (fold addProcess ps g) = rg_recentLogs g"
  "rg_warnings (fold addProcess ps g) = rg_warnings g"
  by (induction ps arbitrary: g) (simp_all add: addProcess_def)

lemma keeps_emptyGraph: "keeps (emptyGraph t) g \<Longrightarrow> no_duplicates g"
  by (simp add: keeps_def no_duplicates_def emptyGraph_def)

lemma keepsD:
  "keeps g h \<Longrightarrow> rg_root h = rg_root g \<and> rg_ports h = rg_ports g \<and> rg_processes h = rg_processes g \<and>
     (no_duplicates g \<longrightarrow> no_duplicates h)"
  by (simp add: keeps_def same_resources_def)

text \<open>The logs of the final graph: sorted by time, at most twenty, from those collected.\<close>

lemma finalizeLogs_props:
  "length (rg_recentLogs (finalizeLogs g)) \<le> 20"
  "sorted (map je_timestamp (rg_recentLogs (finalizeLogs g)))"
  "same_resources g (finalizeLogs g)"
  "no_duplicates g \<Longrightarrow> no_duplicates (finalizeLogs g)"
proof -
  let ?s = "sort_key je_timestamp (rg_recentLogs g)"
  show "length (rg_recentLogs (finalizeLogs g)) \<le> 20"
    by (simp add: finalizeLogs_def Let_def)
  show "sorted (map je_timestamp (rg_recentLogs (finalizeLogs g)))"
    by (simp add: finalizeLogs_def Let_def drop_map [symmetric] sorted_wrt_drop)
  show "same_resources g (finalizeLogs g)"
    by (simp add: finalizeLogs_def Let_def same_resources_def)
  assume g: "no_duplicates g"
  have "mset (filter (\<lambda>c. c \<noteq> []) (map je_cursor ?s)) =
      mset (filter (\<lambda>c. c \<noteq> []) (map je_cursor (rg_recentLogs g)))"
    by simp
  then have "distinct (filter (\<lambda>c. c \<noteq> []) (map je_cursor ?s))"
    using g by (metis mset_eq_imp_distinct_iff no_duplicates_def)
  then have "distinct (filter (\<lambda>c. c \<noteq> []) (map je_cursor (drop n ?s)))" for n
    by (metis append_take_drop_id distinct_append filter_append map_append)
  then show "no_duplicates (finalizeLogs g)"
    using g \<open>distinct (filter (\<lambda>c. c \<noteq> []) (map je_cursor ?s))\<close>
    by (simp add: finalizeLogs_def Let_def no_duplicates_def)
qed

section \<open>Where services and logs come from\<close>

text \<open>The query for the logs of a unit, and of a process.\<close>

definition unit_logs :: "string \<Rightarrow> LogQuery" where
  "unit_logs u = default_LogQuery\<lparr>lq_unit := Some u, lq_limit := 20\<rparr>"

definition pid_logs :: "pid \<Rightarrow> LogQuery" where
  "pid_logs p = default_LogQuery\<lparr>lq_pid := Some p, lq_limit := 20\<rparr>"

text \<open>A service and an entry that the services answered for one of the units and queries.\<close>

definition service_of :: "'w InspectService \<Rightarrow> string set \<Rightarrow> ServiceInfo \<Rightarrow> bool" where
  "service_of S U service \<longleftrightarrow> (\<exists>u \<in> U. \<exists>ob.
     may_answer (ServiceService_inspect (is_serviceService S) u) (Inr ob) \<and> service = ob_value ob)"

definition entry_of :: "'w InspectService \<Rightarrow> LogQuery set \<Rightarrow> JournalEntry \<Rightarrow> bool" where
  "entry_of S Q entry \<longleftrightarrow> (\<exists>q \<in> Q. \<exists>ob.
     may_answer (LogService_read (is_logService S) q) (Inr ob) \<and> entry \<in> set (ob_value ob))"

text \<open>A unit that was looked up: its service is there under its name, or a warning says why not.\<close>

definition unit_shown :: "'w InspectService \<Rightarrow> ResourceGraph \<Rightarrow> string \<Rightarrow> bool" where
  "unit_shown S g u \<longleftrightarrow> (\<exists>answer. may_answer (ServiceService_inspect (is_serviceService S) u) answer \<and>
     (case answer of
        Inl e \<Rightarrow> warningFrom e \<in> set (rg_warnings g)
      | Inr ob \<Rightarrow> \<exists>service \<in> set (rg_services g). si_unitName service = si_unitName (ob_value ob)))"

text \<open>Logs that were asked for: every entry, or one with its cursor, is kept, or a warning says why not.\<close>

definition same_entry :: "JournalEntry \<Rightarrow> JournalEntry \<Rightarrow> bool" where
  "same_entry kept entry \<longleftrightarrow> kept = entry \<or> je_cursor entry \<noteq> [] \<and> je_cursor kept = je_cursor entry"

definition logs_shown ::
  "'w InspectService \<Rightarrow> Warning list \<Rightarrow> (JournalEntry \<Rightarrow> bool) \<Rightarrow> LogQuery \<Rightarrow> bool" where
  "logs_shown S ws kept q \<longleftrightarrow> (\<exists>answer. may_answer (LogService_read (is_logService S) q) answer \<and>
     (case answer of
        Inl e \<Rightarrow> warningFrom e \<in> set ws
      | Inr ob \<Rightarrow> \<forall>entry \<in> set (ob_value ob). \<exists>e. kept e \<and> same_entry e entry))"

text \<open>An entry of the final graph, or one that gave way to twenty that are not older.\<close>

definition collected :: "ResourceGraph \<Rightarrow> JournalEntry \<Rightarrow> bool" where
  "collected g entry \<longleftrightarrow> entry \<in> set (rg_recentLogs g) \<or>
     length (rg_recentLogs g) = 20 \<and> (\<forall>e \<in> set (rg_recentLogs g). je_timestamp entry \<le> je_timestamp e)"

text \<open>The graph \<open>h\<close> adds to \<open>g\<close> exactly the services of the units \<open>U\<close> and the logs of the queries \<open>Q\<close>.\<close>

definition adds ::
  "'w InspectService \<Rightarrow> string set \<Rightarrow> LogQuery set \<Rightarrow> ResourceGraph \<Rightarrow> ResourceGraph \<Rightarrow> bool" where
  "adds S U Q g h \<longleftrightarrow>
     (set (rg_services g) \<subseteq> set (rg_services h) \<and> set (rg_recentLogs g) \<subseteq> set (rg_recentLogs h) \<and>
      set (rg_warnings g) \<subseteq> set (rg_warnings h)) \<and>
     (\<forall>service \<in> set (rg_services h). service \<in> set (rg_services g) \<or> service_of S U service) \<and>
     (\<forall>entry \<in> set (rg_recentLogs h). entry \<in> set (rg_recentLogs g) \<or> entry_of S Q entry) \<and>
     (\<forall>u \<in> U. unit_shown S h u) \<and>
     (\<forall>q \<in> Q. logs_shown S (rg_warnings h) (\<lambda>e. e \<in> set (rg_recentLogs h)) q)"

lemma service_of_mono: "service_of S U service \<Longrightarrow> U \<subseteq> V \<Longrightarrow> service_of S V service"
  unfolding service_of_def by blast

lemma entry_of_mono: "entry_of S Q entry \<Longrightarrow> Q \<subseteq> R \<Longrightarrow> entry_of S R entry"
  unfolding entry_of_def by blast

lemma unit_shown_mono:
  "unit_shown S g u \<Longrightarrow> set (rg_services g) \<subseteq> set (rg_services h) \<Longrightarrow> set (rg_warnings g) \<subseteq> set (rg_warnings h)
   \<Longrightarrow> unit_shown S h u"
  unfolding unit_shown_def by (fastforce split: sum.split_asm)

lemma logs_shown_mono:
  "logs_shown S ws kept q \<Longrightarrow> set ws \<subseteq> set vs \<Longrightarrow> (\<And>e. kept e \<Longrightarrow> kept' e) \<Longrightarrow> logs_shown S vs kept' q"
  unfolding logs_shown_def by (fastforce split: sum.split_asm)

lemma adds_trans:
  assumes "adds S U Q g h" "adds S V R h k"
  shows "adds S (U \<union> V) (Q \<union> R) g k"
  unfolding adds_def
proof (intro conjI ballI)
  fix service assume "service \<in> set (rg_services k)"
  then show "service \<in> set (rg_services g) \<or> service_of S (U \<union> V) service"
    using assms unfolding adds_def by (meson Un_upper1 Un_upper2 service_of_mono)
next
  fix entry assume "entry \<in> set (rg_recentLogs k)"
  then show "entry \<in> set (rg_recentLogs g) \<or> entry_of S (Q \<union> R) entry"
    using assms unfolding adds_def by (meson Un_upper1 Un_upper2 entry_of_mono)
next
  fix u assume "u \<in> U \<union> V"
  then show "unit_shown S k u"
    using assms unfolding adds_def by (meson Un_iff unit_shown_mono)
next
  fix q assume "q \<in> Q \<union> R"
  moreover have "set (rg_warnings h) \<subseteq> set (rg_warnings k)" "set (rg_recentLogs h) \<subseteq> set (rg_recentLogs k)"
    using assms(2) unfolding adds_def by blast+
  ultimately show "logs_shown S (rg_warnings k) (\<lambda>e. e \<in> set (rg_recentLogs k)) q"
    using assms unfolding adds_def by (auto intro: logs_shown_mono)
qed (use assms in \<open>auto simp: adds_def\<close>)

lemma adds_nothing:
  "rg_services h = rg_services g \<Longrightarrow> rg_recentLogs h = rg_recentLogs g \<Longrightarrow>
   set (rg_warnings g) \<subseteq> set (rg_warnings h) \<Longrightarrow> adds S {} {} g h"
  by (simp add: adds_def)

lemma adds_noteService:
  "adds S {u} {} g (noteService (result_of (ServiceService_inspect (is_serviceService S) u) w) g)"
proof (cases "result_of (ServiceService_inspect (is_serviceService S) u) w")
  case (Inl e)
  then have "unit_shown S (addWarnings [warningFrom e] g) u"
    unfolding unit_shown_def by (intro exI [of _ "Inl e"]) (auto simp: addWarnings_def intro: may_answerI)
  then show ?thesis by (simp add: Inl noteService_def adds_def) (auto simp: addWarnings_def)
next
  case (Inr ob)
  let ?h = "addService (ob_value ob) (addWarnings (ob_warnings ob) g)"
  have "unit_shown S ?h u"
    unfolding unit_shown_def
    by (intro exI [of _ "Inr ob"]) (use Inr in \<open>auto simp: addService_def list_ex_iff intro: may_answerI\<close>)
  moreover have "service_of S {u} (ob_value ob)"
    unfolding service_of_def using may_answerI [OF Inr] by blast
  ultimately show ?thesis
    by (auto simp: Inr noteService_def adds_def) (auto simp: addService_def addWarnings_def split: if_split_asm)
qed

lemma fold_addLogEntry:
  "rg_services (fold addLogEntry es g) = rg_services g \<and> rg_warnings (fold addLogEntry es g) = rg_warnings g \<and>
   set (rg_recentLogs g) \<subseteq> set (rg_recentLogs (fold addLogEntry es g)) \<and>
   set (rg_recentLogs (fold addLogEntry es g)) \<subseteq> set (rg_recentLogs g) \<union> set es \<and>
   (\<forall>entry \<in> set es. \<exists>e \<in> set (rg_recentLogs (fold addLogEntry es g)). same_entry e entry)"
proof (induction es arbitrary: g)
  case (Cons entry es)
  have "rg_services (addLogEntry entry g) = rg_services g" "rg_warnings (addLogEntry entry g) = rg_warnings g"
      "set (rg_recentLogs g) \<subseteq> set (rg_recentLogs (addLogEntry entry g))"
      "set (rg_recentLogs (addLogEntry entry g)) \<subseteq> insert entry (set (rg_recentLogs g))"
      "\<exists>e \<in> set (rg_recentLogs (addLogEntry entry g)). same_entry e entry"
    by (auto simp: addLogEntry_def list_ex_iff same_entry_def)
  then show ?case using Cons.IH [of "addLogEntry entry g"] by (simp only: fold_Cons comp_apply list.set) blast
qed simp

lemma adds_addLogs:
  "adds S {} {q\<lparr>lq_limit := 20\<rparr>} g (result_of (addLogs g (is_logService S) q) w)"
proof (cases "result_of (LogService_read (is_logService S) (q\<lparr>lq_limit := 20\<rparr>)) w")
  case (Inl e)
  then have "logs_shown S (rg_warnings (addWarnings [warningFrom e] g)) kept (q\<lparr>lq_limit := 20\<rparr>)" for kept
    unfolding logs_shown_def by (intro exI [of _ "Inl e"]) (auto simp: addWarnings_def intro: may_answerI)
  then show ?thesis by (simp add: Inl addLogs_def adds_def) (auto simp: addWarnings_def)
next
  case (Inr ob)
  let ?h = "fold addLogEntry (ob_value ob) (addWarnings (ob_warnings ob) g)"
  note h = fold_addLogEntry [of "ob_value ob" "addWarnings (ob_warnings ob) g"]
  have "logs_shown S (rg_warnings ?h) (\<lambda>e. e \<in> set (rg_recentLogs ?h)) (q\<lparr>lq_limit := 20\<rparr>)"
    unfolding logs_shown_def
    by (intro exI [of _ "Inr ob"]) (use may_answerI [OF Inr] h in auto)
  moreover have "entry_of S {q\<lparr>lq_limit := 20\<rparr>} entry" if "entry \<in> set (ob_value ob)" for entry
    unfolding entry_of_def using may_answerI [OF Inr] that by blast
  ultimately show ?thesis
    using h by (auto simp: Inr addLogs_def adds_def) (auto simp: addWarnings_def)
qed

lemma addLogs_services: "rg_services (result_of (addLogs g L q) w) = rg_services g"
  by (simp add: addLogs_def fold_addLogEntry addWarnings_def split: sum.split)

lemma adds_inspectUnits:
  "adds S (set us) (unit_logs ` set us) g (result_of (inspectUnits S us g) w)"
proof (induction us arbitrary: g w)
  case (Cons u us)
  have "adds S ({u} \<union> {} \<union> set us) ({} \<union> {unit_logs u} \<union> unit_logs ` set us) g
      (result_of (inspectUnits S (u # us) g) w)"
    unfolding inspectUnits.simps result_of_bind world_after_bind unit_logs_def
    by (rule adds_trans [OF adds_trans [OF adds_noteService
        adds_addLogs [of S "default_LogQuery\<lparr>lq_unit := Some u\<rparr>", simplified]] Cons.IH [unfolded unit_logs_def]])
  then show ?case by simp
qed (simp add: adds_nothing)

lemma adds_inspectPids:
  "adds S {} (pid_logs ` set ps) g (result_of (inspectPids S ps g) w)"
proof (induction ps arbitrary: g w)
  case (Cons p ps)
  have "adds S ({} \<union> {}) ({pid_logs p} \<union> pid_logs ` set ps) g (result_of (inspectPids S (p # ps) g) w)"
    unfolding inspectPids.simps result_of_bind world_after_bind pid_logs_def
    by (rule adds_trans [OF adds_addLogs [of S "default_LogQuery\<lparr>lq_pid := Some p\<rparr>", simplified]
        Cons.IH [unfolded pid_logs_def]])
  then show ?case by simp
qed (simp add: adds_nothing)

text \<open>Sorting and cutting the logs leaves the newest.\<close>

lemma finalizeLogs_collects:
  "rg_services (finalizeLogs g) = rg_services g" "rg_warnings (finalizeLogs g) = rg_warnings g"
  "set (rg_recentLogs (finalizeLogs g)) \<subseteq> set (rg_recentLogs g)"
  "entry \<in> set (rg_recentLogs g) \<Longrightarrow> collected (finalizeLogs g) entry"
proof -
  define s where "s = sort_key je_timestamp (rg_recentLogs g)"
  show "rg_services (finalizeLogs g) = rg_services g" "rg_warnings (finalizeLogs g) = rg_warnings g"
    by (simp_all add: finalizeLogs_def Let_def)
  show "set (rg_recentLogs (finalizeLogs g)) \<subseteq> set (rg_recentLogs g)"
    by (auto simp: finalizeLogs_def Let_def dest: in_set_dropD)
  assume "entry \<in> set (rg_recentLogs g)"
  then have "entry \<in> set s" by (simp add: s_def)
  then obtain i where i: "i < length s" "entry = s ! i" by (auto simp: in_set_conv_nth)
  have sorted: "sorted (map je_timestamp s)" by (simp add: s_def)
  have fin: "rg_recentLogs (finalizeLogs g) = (if length s > 20 then drop (length s - 20) s else s)"
    by (simp add: finalizeLogs_def Let_def s_def)
  show "collected (finalizeLogs g) entry"
  proof (cases "length s > 20 \<and> i < length s - 20")
    case True
    have "je_timestamp entry \<le> je_timestamp e" if "e \<in> set (drop (length s - 20) s)" for e
    proof -
      obtain k where k: "k < length s - (length s - 20)" "e = s ! (length s - 20 + k)"
        using \<open>e \<in> _\<close> by (auto simp: in_set_conv_nth)
      then have "i \<le> length s - 20 + k" "length s - 20 + k < length s" using True by linarith+
      with sorted_nth_mono [OF sorted, of i "length s - 20 + k"] i k(2) show ?thesis by simp
    qed
    with True show ?thesis by (simp add: collected_def fin)
  next
    case False
    then have "entry \<in> set (if length s > 20 then drop (length s - 20) s else s)"
      using i by (auto simp: in_set_conv_nth intro!: exI [of _ "i - (length s - 20)"])
    then show ?thesis unfolding collected_def fin by (rule disjI1)
  qed
qed

section \<open>What each root reaches\<close>

text \<open>The units and the log queries that belong to a root, from the ports and processes of its graph.\<close>

fun reached_units :: "ResourceTarget \<Rightarrow> ResourceGraph \<Rightarrow> string set" where
  "reached_units (PortTarget port) g =
     {u. \<exists>info \<in> set (rg_ports g). \<exists>owner \<in> set (po_owners info). pi_systemdUnit owner = Some u}"
| "reached_units (ProcessTarget p) g = {u. \<exists>process \<in> set (rg_processes g). pi_systemdUnit process = Some u}"
| "reached_units (ServiceTarget unit) g = {unit}"

fun reached_logs :: "ResourceTarget \<Rightarrow> ResourceGraph \<Rightarrow> LogQuery set" where
  "reached_logs (PortTarget port) g = unit_logs ` reached_units (PortTarget port) g \<union>
     pid_logs ` {p. \<exists>info \<in> set (rg_ports g). \<exists>owner \<in> set (po_owners info).
       pi_systemdUnit owner = None \<and> pi_pid owner = p}"
| "reached_logs (ProcessTarget p) g = {pid_logs p}"
| "reached_logs (ServiceTarget unit) g = {unit_logs unit}"

lemma inspectPortRoot_graph:
  assumes "result_of (inspectPortRoot S port (emptyGraph t)) w = Inr g"
  shows "rg_root g = t \<and> no_duplicates g \<and>
    adds S (reached_units (PortTarget port) g) (reached_logs (PortTarget port) g) (emptyGraph t) g \<and>
    (\<exists>ob. result_of (PortService_inspect (is_portService S) (default_SocketQuery\<lparr>sq_localPort := Some port\<rparr>)) w
       = Inr ob \<and> rg_ports g = ob_value ob) \<and>
    rg_ports g \<noteq> [] \<and> distinct (map pi_pid (rg_processes g)) \<and>
    set (map pi_pid (rg_processes g)) =
      (\<Union>info \<in> set (rg_ports g). set (map pi_pid (po_owners info)))"
proof -
  let ?q = "default_SocketQuery\<lparr>sq_localPort := Some port\<rparr>"
  obtain ob where ob: "result_of (PortService_inspect (is_portService S) ?q) w = Inr ob"
    and nonempty: "ob_value ob \<noteq> []"
    using assms
    by (cases "result_of (PortService_inspect (is_portService S) ?q) w")
       (auto simp: inspectPortRoot_def split: if_split_asm)
  let ?g0 = "(addWarnings (ob_warnings ob) (emptyGraph t))\<lparr>rg_ports := ob_value ob\<rparr>"
  let ?g1 = "fold addProcess (concat (map po_owners (ob_value ob))) ?g0"
  define owners where "owners = concat (map po_owners (ob_value ob))"
  define units where "units = std_set (List.map_filter pi_systemdUnit owners)"
  define pids where "pids = std_set (map pi_pid (filter (\<lambda>p. pi_systemdUnit p = None) owners))"
  obtain w1 w2 where
    run: "result_of (inspectPids S pids (result_of (inspectUnits S units ?g1) w1)) w2 = g"
    using assms ob nonempty unfolding inspectPortRoot_def Let_def units_def pids_def owners_def by simp
  have kept: "keeps ?g1 g"
    unfolding run [symmetric] by (rule keeps_trans [OF keeps_inspectUnits keeps_inspectPids])
  have ports: "rg_ports g = ob_value ob"
    using keepsD [OF kept] addProcess_fold [of "concat (map po_owners (ob_value ob))" ?g0] by simp
  have "set units = reached_units (PortTarget port) g"
    using ports by (auto simp: units_def owners_def set_map_filter_some)
  moreover have "set pids = {p. \<exists>info \<in> set (rg_ports g). \<exists>owner \<in> set (po_owners info).
      pi_systemdUnit owner = None \<and> pi_pid owner = p}"
    using ports by (auto simp: pids_def owners_def)
  ultimately have reached: "set units = reached_units (PortTarget port) g"
      "unit_logs ` set units \<union> pid_logs ` set pids = reached_logs (PortTarget port) g"
    by simp_all
  have "adds S ({} \<union> set units \<union> {}) ({} \<union> unit_logs ` set units \<union> pid_logs ` set pids) (emptyGraph t) g"
    unfolding run [symmetric]
    by (rule adds_trans [OF adds_trans [OF _ adds_inspectUnits] adds_inspectPids])
       (rule adds_nothing, simp_all add: fold_addProcess_rest addWarnings_def emptyGraph_def)
  then have adds: "adds S (reached_units (PortTarget port) g) (reached_logs (PortTarget port) g) (emptyGraph t) g"
    unfolding reached [symmetric] by simp
  note kept
  moreover have "no_duplicates ?g0"
    by (simp add: no_duplicates_def addWarnings_def emptyGraph_def)
  ultimately show ?thesis
    using nonempty addProcess_fold [of "concat (map po_owners (ob_value ob))" ?g0] keepsD [of ?g1 g] adds ob
    by (simp add: addWarnings_def emptyGraph_def image_UN del: reached_units.simps reached_logs.simps)
qed

lemma inspectProcessRoot_graph:
  assumes "result_of (inspectProcessRoot S p (emptyGraph t)) w = Inr g"
  shows "rg_root g = t \<and> no_duplicates g \<and>
    adds S (reached_units (ProcessTarget p) g) (reached_logs (ProcessTarget p) g) (emptyGraph t) g \<and>
    (\<exists>ob. result_of (ProcessService_inspect (is_processService S) p) w = Inr ob \<and>
       rg_processes g = [ob_value ob]) \<and>
    (\<exists>answer. may_answer (PortService_inspect (is_portService S) default_SocketQuery) answer \<and>
       rg_ports g = filter (\<lambda>info. p \<in> set (so_ownerPids (po_socket info))) (showed answer) \<and>
       (\<forall>e. answer = Inl e \<longrightarrow> warningFrom e \<in> set (rg_warnings g)))"
proof -
  obtain ob where ob: "result_of (ProcessService_inspect (is_processService S) p) w = Inr ob"
    using assms by (auto simp: inspectProcessRoot_def split: sum.split_asm)
  let ?g1 = "addProcess (ob_value ob) (addWarnings (ob_warnings ob) (emptyGraph t))"
  have g1: "rg_root ?g1 = t" "rg_processes ?g1 = [ob_value ob]" "rg_ports ?g1 = []" "no_duplicates ?g1"
    by (simp_all add: addProcess_def addWarnings_def emptyGraph_def no_duplicates_def)
  let ?m = "case pi_systemdUnit (ob_value ob) of
      None \<Rightarrow> return ?g1
    | Some unit \<Rightarrow> do {
        service \<leftarrow> ServiceService_inspect (is_serviceService S) unit;
        return (noteService service ?g1)
      }"
  define w1 where "w1 = world_after (ProcessService_inspect (is_processService S) p) w"
  define w2 where "w2 = world_after ?m w1"
  define g2 where "g2 = result_of ?m w1"
  define g3 where "g3 = (case result_of (PortService_inspect (is_portService S) default_SocketQuery) w2 of
        Inl e \<Rightarrow> addWarnings [warningFrom e] g2
      | Inr po \<Rightarrow> (addWarnings (ob_warnings po) g2)\<lparr>rg_ports := rg_ports g2 @
          filter (\<lambda>port. p \<in> set (so_ownerPids (po_socket port))) (ob_value po)\<rparr>)"
  have g2: "keeps ?g1 g2"
    by (simp add: g2_def keeps_noteService split: option.split)
  have g: "result_of (addLogs g3 (is_logService S) (default_LogQuery\<lparr>lq_pid := Some p\<rparr>))
      (world_after (PortService_inspect (is_portService S) default_SocketQuery) w2) = g"
    using assms ob unfolding inspectProcessRoot_def Let_def g3_def g2_def w2_def w1_def by simp
  define answer where "answer = result_of (PortService_inspect (is_portService S) default_SocketQuery) w2"
  have g3': "rg_root g3 = t \<and> rg_processes g3 = [ob_value ob] \<and> no_duplicates g3 \<and>
      rg_ports g3 = filter (\<lambda>info. p \<in> set (so_ownerPids (po_socket info))) (showed answer) \<and>
      (\<forall>e. answer = Inl e \<longrightarrow> warningFrom e \<in> set (rg_warnings g3))"
    using keepsD [OF g2] g1 unfolding g3_def answer_def [symmetric]
    by (cases answer) (simp_all add: addWarnings_def no_duplicates_def)
  have last: "adds S {} {pid_logs p} g3 g"
    unfolding g [symmetric] pid_logs_def
    by (rule adds_addLogs [of S "default_LogQuery\<lparr>lq_pid := Some p\<rparr>", simplified])
  have "adds S ({u. pi_systemdUnit (ob_value ob) = Some u}) {} ?g1 g2"
    using adds_noteService [of S _ ?g1 w1] unfolding g2_def
    by (cases "pi_systemdUnit (ob_value ob)") (auto intro: adds_nothing)
  moreover have "adds S {} {} (emptyGraph t) ?g1" "adds S {} {} g2 g3"
    unfolding g3_def
    by (auto intro!: adds_nothing simp: addProcess_def addWarnings_def emptyGraph_def split: sum.split)
  ultimately have "adds S ({} \<union> {u. pi_systemdUnit (ob_value ob) = Some u} \<union> {} \<union> {})
      ({} \<union> {} \<union> {} \<union> {pid_logs p}) (emptyGraph t) g"
    using last by (blast intro: adds_trans)
  moreover have kept: "keeps g3 g" unfolding g [symmetric] by (rule keeps_addLogs)
  moreover have "{u. pi_systemdUnit (ob_value ob) = Some u} = reached_units (ProcessTarget p) g"
    using keepsD [OF kept] g3' by simp
  ultimately have "adds S (reached_units (ProcessTarget p) g) (reached_logs (ProcessTarget p) g) (emptyGraph t) g"
    by simp
  moreover have "set (rg_warnings g3) \<subseteq> set (rg_warnings g)"
    using last by (simp add: adds_def)
  moreover have "may_answer (PortService_inspect (is_portService S) default_SocketQuery) answer"
    by (simp add: answer_def)
  ultimately show ?thesis using keepsD [OF kept] g3' ob by auto
qed

text \<open>A listing for a unit: processes of the normalised unit, in the order they were observed.\<close>

lemma list_unit:
  assumes "result_of (ProcessService_list S (default_ProcessQuery\<lparr>pq_systemdUnit := Some u\<rparr>)) w = Inr ob"
  obtains n observed where "ServiceService_normalizeUnit u = Inr n"
    and "\<forall>p \<in> set (ob_value ob). pi_systemdUnit p = Some n"
    and "may_answer (pp_list (ps_processProvider S)) (Inr observed)"
    and "subseq (map pi_pid (ob_value ob)) (map pi_pid (ob_value observed))"
proof -
  obtain n where n: "ServiceService_normalizeUnit u = Inr n"
    using assms
    by (cases "ServiceService_normalizeUnit u")
       (auto simp: ProcessService_list_def normalizedQuery_def default_ProcessQuery_def
         split: sum.split_asm if_split_asm)
  let ?q = "default_ProcessQuery\<lparr>pq_systemdUnit := Some n\<rparr>"
  obtain observed where observed: "result_of (pp_list (ps_processProvider S)) w = Inr observed"
    using assms n
    by (auto simp: ProcessService_list_def normalizedQuery_def default_ProcessQuery_def
        split: sum.split_asm if_split_asm prod.split_asm)
  obtain ws' s where
    "result_of (listMatches S ?q (Option.bind (pq_user ?q) requestedUid) (ob_value observed) []
      (ob_warnings observed)) s = Inr (ob_value ob, ws')"
    using assms n observed
    by (auto simp: ProcessService_list_def normalizedQuery_def default_ProcessQuery_def
        split: sum.split_asm if_split_asm prod.split_asm)
  from listMatches_listed [OF this] show thesis
    using that [OF n _ may_answerI [OF observed]] by (auto simp: listed_def)
qed

definition lists_once :: "'w IProcessProvider \<Rightarrow> bool" where
  "lists_once P \<longleftrightarrow> (\<forall>ob. may_answer (pp_list P) (Inr ob) \<longrightarrow> distinct (map pi_pid (ob_value ob)))"

lemma list_unit_distinct:
  assumes "result_of (ProcessService_list S (default_ProcessQuery\<lparr>pq_systemdUnit := Some u\<rparr>)) w = Inr ob"
    and "lists_once (ps_processProvider S)"
  shows "distinct (map pi_pid (ob_value ob))"
  using assms(1)
proof (rule list_unit)
  fix observed
  assume "may_answer (pp_list (ps_processProvider S)) (Inr observed)"
    and "subseq (map pi_pid (ob_value ob)) (map pi_pid (ob_value observed))"
  moreover from this have "distinct (map pi_pid (ob_value observed))"
    using assms(2) by (simp add: lists_once_def)
  ultimately show ?thesis by (metis distinct_nthsI subseq_conv_nths)
qed

lemma inspectServiceRoot_graph:
  assumes "result_of (inspectServiceRoot S u (emptyGraph t)) w = Inr g"
  shows "rg_root g = t \<and> no_duplicates g \<and>
    adds S (reached_units (ServiceTarget u) g) (reached_logs (ServiceTarget u) g) (emptyGraph t) g \<and>
    (\<exists>ob. result_of (ServiceService_inspect (is_serviceService S) u) w = Inr ob \<and> rg_services g = [ob_value ob]) \<and>
    (\<exists>listing. may_answer (ProcessService_list (is_processService S)
         (default_ProcessQuery\<lparr>pq_systemdUnit := Some u\<rparr>)) listing \<and>
       rg_processes g = showed listing \<and> (\<forall>e. listing = Inl e \<longrightarrow> warningFrom e \<in> set (rg_warnings g))) \<and>
    (\<exists>answer. may_answer (PortService_inspect (is_portService S) default_SocketQuery) answer \<and>
       rg_ports g = filter (\<lambda>info. \<exists>p \<in> set (rg_processes g). pi_pid p \<in> set (so_ownerPids (po_socket info)))
         (showed answer) \<and>
       (\<forall>e. answer = Inl e \<longrightarrow> warningFrom e \<in> set (rg_warnings g)))"
proof -
  obtain ob where ob: "result_of (ServiceService_inspect (is_serviceService S) u) w = Inr ob"
    using assms by (auto simp: inspectServiceRoot_def split: sum.split_asm)
  let ?g1 = "addService (ob_value ob) (addWarnings (ob_warnings ob) (emptyGraph t))"
  have g1: "rg_root ?g1 = t" "rg_processes ?g1 = []" "rg_ports ?g1 = []" "no_duplicates ?g1"
      "rg_services ?g1 = [ob_value ob]"
    by (simp_all add: addService_def addWarnings_def emptyGraph_def no_duplicates_def)
  define w0 where "w0 = world_after (ServiceService_inspect (is_serviceService S) u) w"
  let ?list = "ProcessService_list (is_processService S) (default_ProcessQuery\<lparr>pq_systemdUnit := Some u\<rparr>)"
  define processes where "processes = result_of ?list w0"
  define answer where "answer = result_of (PortService_inspect (is_portService S) default_SocketQuery)
    (world_after ?list w0)"
  define g2 where "g2 = (case processes of
        Inl e \<Rightarrow> addWarnings [warningFrom e] ?g1
      | Inr ps \<Rightarrow> (addWarnings (ob_warnings ps) ?g1)\<lparr>rg_processes := ob_value ps\<rparr>)"
  define pids where "pids = (case processes of Inl _ \<Rightarrow> [] | Inr ps \<Rightarrow> map pi_pid (ob_value ps))"
  define g3 where "g3 = (case answer of
        Inl e \<Rightarrow> addWarnings [warningFrom e] g2
      | Inr po \<Rightarrow> (addWarnings (ob_warnings po) g2)\<lparr>rg_ports := rg_ports g2 @
          filter (\<lambda>port. list_ex (\<lambda>p. p \<in> set pids) (so_ownerPids (po_socket port))) (ob_value po)\<rparr>)"
  have g: "result_of (addLogs g3 (is_logService S) (default_LogQuery\<lparr>lq_unit := Some u\<rparr>))
      (world_after (PortService_inspect (is_portService S) default_SocketQuery) (world_after ?list w0)) = g"
    using assms ob
    unfolding inspectServiceRoot_def Let_def g3_def g2_def pids_def processes_def answer_def w0_def by simp
  have g2': "rg_root g2 = t \<and> rg_ports g2 = [] \<and> no_duplicates g2 \<and> rg_services g2 = [ob_value ob] \<and>
      pids = map pi_pid (rg_processes g2) \<and> rg_processes g2 = showed processes \<and>
      (\<forall>e. processes = Inl e \<longrightarrow> warningFrom e \<in> set (rg_warnings g2))"
    using g1 unfolding g2_def pids_def by (cases processes) (simp_all add: addWarnings_def no_duplicates_def)
  have member: "list_ex (\<lambda>p. p \<in> set pids) ps \<longleftrightarrow> (\<exists>q \<in> set (rg_processes g2). pi_pid q \<in> set ps)" for ps
    using g2' by (auto simp: list_ex_iff)
  have g3': "rg_root g3 = t \<and> no_duplicates g3 \<and> rg_processes g3 = rg_processes g2 \<and>
      rg_services g3 = [ob_value ob] \<and> set (rg_warnings g2) \<subseteq> set (rg_warnings g3) \<and>
      rg_ports g3 = filter (\<lambda>info. \<exists>p \<in> set (rg_processes g2). pi_pid p \<in> set (so_ownerPids (po_socket info)))
        (showed answer) \<and> (\<forall>e. answer = Inl e \<longrightarrow> warningFrom e \<in> set (rg_warnings g3))"
    using g2' unfolding g3_def member by (cases answer) (auto simp: addWarnings_def no_duplicates_def)
  have last: "adds S {} {unit_logs u} g3 g"
    unfolding g [symmetric] unit_logs_def
    by (rule adds_addLogs [of S "default_LogQuery\<lparr>lq_unit := Some u\<rparr>", simplified])
  have "adds S {u} {} (emptyGraph t) ?g1"
    using adds_noteService [of S u "emptyGraph t" w] ob by (simp add: noteService_def)
  moreover have "adds S {} {} ?g1 g3"
    using adds_trans [of S "{}" "{}" ?g1 g2 "{}" "{}" g3] unfolding g3_def g2_def
    by (auto intro!: adds_nothing simp: addWarnings_def split: sum.split)
  ultimately have "adds S ({u} \<union> {} \<union> {}) ({} \<union> {} \<union> {unit_logs u}) (emptyGraph t) g"
    using last by (blast intro: adds_trans)
  moreover have kept: "keeps g3 g" unfolding g [symmetric] by (rule keeps_addLogs)
  moreover have "rg_services g = rg_services g3" unfolding g [symmetric] by (rule addLogs_services)
  moreover have "set (rg_warnings g3) \<subseteq> set (rg_warnings g)"
    using last by (simp add: adds_def)
  moreover have "may_answer ?list processes"
      "may_answer (PortService_inspect (is_portService S) default_SocketQuery) answer"
    by (simp_all add: processes_def answer_def)
  ultimately show ?thesis
    using keepsD [OF kept] g3' g2' ob
    by (intro conjI exI [of _ ob] exI [of _ processes] exI [of _ answer]) (auto simp del: filter_cong)
qed

text \<open>What an inspection says of the services and logs of its graph.\<close>

definition services_from :: "'w InspectService \<Rightarrow> string set \<Rightarrow> ResourceGraph \<Rightarrow> bool" where
  "services_from S U g \<longleftrightarrow> list_all (service_of S U) (rg_services g) \<and> (\<forall>u \<in> U. unit_shown S g u)"

definition logs_from :: "'w InspectService \<Rightarrow> LogQuery set \<Rightarrow> ResourceGraph \<Rightarrow> bool" where
  "logs_from S Q g \<longleftrightarrow> list_all (entry_of S Q) (rg_recentLogs g) \<and>
     (\<forall>q \<in> Q. logs_shown S (rg_warnings g) (collected g) q)"

lemma adds_final:
  assumes "adds S U Q (emptyGraph t) h"
  shows "services_from S U (finalizeLogs h)" and "logs_from S Q (finalizeLogs h)"
proof -
  have empty: "rg_services (emptyGraph t) = []" "rg_recentLogs (emptyGraph t) = []"
    by (simp_all add: emptyGraph_def)
  show "services_from S U (finalizeLogs h)"
    using assms empty
    by (auto simp: adds_def services_from_def list_all_iff finalizeLogs_collects(1,2) intro: unit_shown_mono)
  show "logs_from S Q (finalizeLogs h)"
    using assms empty finalizeLogs_collects(3) [of h] finalizeLogs_collects(4)
    by (auto simp: adds_def logs_from_def list_all_iff finalizeLogs_collects(2) intro: logs_shown_mono)
qed

section \<open>The calls of an inspection\<close>

definition recordInspectService :: "'w recorded LogService \<Rightarrow> 'w InspectService \<Rightarrow>
    'w recorded InspectService" where
  "recordInspectService L S =
     \<lparr>is_resolver = recordResourceResolver (is_resolver S),
      is_portService = recordPortService (is_portService S),
      is_processService = recordProcessService (is_processService S),
      is_serviceService = recordServiceService (is_serviceService S),
      is_logService = L\<rparr>"

lemma recordInspectService_sel [simp]:
  "is_resolver (recordInspectService L S) = recordResourceResolver (is_resolver S)"
  "is_portService (recordInspectService L S) = recordPortService (is_portService S)"
  "is_processService (recordInspectService L S) = recordProcessService (is_processService S)"
  "is_serviceService (recordInspectService L S) = recordServiceService (is_serviceService S)"
  "is_logService (recordInspectService L S) = L"
  by (simp_all add: recordInspectService_def)

definition quiet_journal :: "'w recorded LogService \<Rightarrow> bool" where
  "quiet_journal L \<longleftrightarrow> (\<forall>q. quiet destructive (jp_query (ls_journalProvider L) q))"

lemma quiet_addLogs [quiet_intros]: "quiet_journal L \<Longrightarrow> quiet destructive (addLogs g L q)"
  unfolding addLogs_def LogService_read_def quiet_journal_def
  by (intro quiet_intros) simp

lemma quiet_inspectUnits [quiet_intros]:
  "quiet_journal L \<Longrightarrow> quiet destructive (inspectUnits (recordInspectService L S) us g)"
proof (induction us arbitrary: g)
  case (Cons u us)
  show ?case
    unfolding inspectUnits.simps recordInspectService_sel
    by (intro quiet_intros Cons.IH Cons.prems)
qed (simp add: quiet_intros)

lemma quiet_inspectPids [quiet_intros]:
  "quiet_journal L \<Longrightarrow> quiet destructive (inspectPids (recordInspectService L S) ps g)"
proof (induction ps arbitrary: g)
  case (Cons p ps)
  show ?case
    unfolding inspectPids.simps recordInspectService_sel
    by (intro quiet_intros Cons.IH Cons.prems)
qed (simp add: quiet_intros)

lemma quiet_roots [quiet_intros]:
  assumes "quiet_journal L"
  shows "quiet destructive (inspectPortRoot (recordInspectService L S) port g)"
    "quiet destructive (inspectProcessRoot (recordInspectService L S) p g)"
    "quiet destructive (inspectServiceRoot (recordInspectService L S) unit g)"
  unfolding inspectPortRoot_def inspectProcessRoot_def inspectServiceRoot_def recordInspectService_sel
  by (intro quiet_intros assms)+

lemma quiet_InspectService_inspect [quiet_intros]:
  assumes "quiet_journal L"
  shows "quiet destructive (InspectService_inspect (recordInspectService L S) e)"
proof -
  have "quiet destructive (InspectService_inspectTarget (recordInspectService L S) t)" for t
    unfolding InspectService_inspectTarget_def
    by (cases t) (simp_all only: ResourceTarget.case, (intro quiet_intros assms)+)
  then show ?thesis
    unfolding InspectService_inspect_def recordInspectService_sel by (intro quiet_intros)
qed

text \<open>A journal that keeps its contract, behind the log service.\<close>

context reading_journal
begin

lemma journal_service_quiet: "quiet_journal \<lparr>ls_journalProvider = J\<rparr>"
  by (simp add: quiet_journal_def quiet_query)

lemma quiet_read: "quiet destructive (LogService_read \<lparr>ls_journalProvider = J\<rparr> q)"
  unfolding LogService_read_def by (intro quiet_intros) (simp add: quiet_query)

lemma quiet_log_follow:
  "(\<And>e. quiet destructive (sink e)) \<Longrightarrow> quiet destructive stop \<Longrightarrow>
   quiet destructive (LogService_follow \<lparr>ls_journalProvider = J\<rparr> q sink stop)"
  unfolding LogService_follow_def by (intro quiet_intros) (simp add: quiet_follow)

end

text \<open>A journal without entries, for the witnesses.\<close>

definition demo_journal :: "'w IJournalProvider" where
  "demo_journal =
     \<lparr>jp_probe = return (success ()),
      jp_query = (\<lambda>q. return (success \<lparr>ob_value = [], ob_warnings = []\<rparr>)),
      jp_follow = (\<lambda>q sink stop. return (success ()))\<rparr>"

lemma demo_journal_reads: "reading_journal demo_journal"
  by unfold_locales (simp_all add: demo_journal_def quiet_return)

section \<open>Properties\<close>

text \<open>
  C24. The graph of an inspection holds what its root reaches, and nothing else. Its root is the target; its
  logs are at most twenty, in time order, no entry twice; no service appears twice. From a port: the sockets
  the socket query for that port answered, at least one, all on that port where the provider keeps its
  contract, and exactly the processes that own one of them, each once. From a process: that process, and of
  the sockets listed exactly those it owns. From a service: that service, exactly the processes listed for
  its unit (each of the normalised unit, and once where the provider lists each process once), and of the
  sockets listed exactly those one of them owns. The services are those of the units of the owners, of the
  process, or the unit itself, and each such unit's service is there or a warning says why not. The logs are
  entries read for these units, for owners without a unit, for the process, or for the service, and of what
  was read only what gave way to twenty newer entries is missing, or a warning says why.
\<close>

theorem InspectService_graph_related:
  assumes "result_of (InspectService_inspectTarget S target) w = Inr g"
  shows "rg_root g = target \<and> length (rg_recentLogs g) \<le> 20 \<and>
    sorted (map je_timestamp (rg_recentLogs g)) \<and>
    distinct (filter (\<lambda>c. c \<noteq> []) (map je_cursor (rg_recentLogs g))) \<and>
    distinct (map si_unitName (rg_services g)) \<and>
    services_from S (reached_units target g) g \<and> logs_from S (reached_logs target g) g \<and>
    (case target of
       PortTarget port \<Rightarrow>
         (\<exists>ob. result_of (PortService_inspect (is_portService S)
              (default_SocketQuery\<lparr>sq_localPort := Some port\<rparr>)) w = Inr ob \<and> rg_ports g = ob_value ob) \<and>
         (socket_provider (po_socketProvider (is_portService S)) \<longrightarrow>
            (\<forall>info \<in> set (rg_ports g). ep_port (so_local (po_socket info)) = port)) \<and>
         rg_ports g \<noteq> [] \<and> distinct (map pi_pid (rg_processes g)) \<and>
         set (map pi_pid (rg_processes g)) =
           (\<Union>info \<in> set (rg_ports g). set (map pi_pid (po_owners info)))
     | ProcessTarget p \<Rightarrow>
         (\<exists>ob. result_of (ProcessService_inspect (is_processService S) p) w = Inr ob \<and>
            rg_processes g = [ob_value ob]) \<and>
         (\<exists>answer. may_answer (PortService_inspect (is_portService S) default_SocketQuery) answer \<and>
            rg_ports g = filter (\<lambda>info. p \<in> set (so_ownerPids (po_socket info))) (showed answer) \<and>
            (\<forall>e. answer = Inl e \<longrightarrow> warningFrom e \<in> set (rg_warnings g)))
     | ServiceTarget unit \<Rightarrow>
         (\<exists>ob. result_of (ServiceService_inspect (is_serviceService S) unit) w = Inr ob \<and>
            rg_services g = [ob_value ob]) \<and>
         (\<exists>listing. may_answer (ProcessService_list (is_processService S)
              (default_ProcessQuery\<lparr>pq_systemdUnit := Some unit\<rparr>)) listing \<and>
            rg_processes g = showed listing \<and> (\<forall>e. listing = Inl e \<longrightarrow> warningFrom e \<in> set (rg_warnings g))) \<and>
         (\<forall>p \<in> set (rg_processes g).
            \<exists>n. ServiceService_normalizeUnit unit = Inr n \<and> pi_systemdUnit p = Some n) \<and>
         (lists_once (ps_processProvider (is_processService S)) \<longrightarrow> distinct (map pi_pid (rg_processes g))) \<and>
         (\<exists>answer. may_answer (PortService_inspect (is_portService S) default_SocketQuery) answer \<and>
            rg_ports g = filter (\<lambda>info. \<exists>p \<in> set (rg_processes g). pi_pid p \<in> set (so_ownerPids (po_socket info)))
              (showed answer) \<and>
            (\<forall>e. answer = Inl e \<longrightarrow> warningFrom e \<in> set (rg_warnings g))))"
proof -
  let ?m = "case target of
      PortTarget port \<Rightarrow> inspectPortRoot S port (emptyGraph target)
    | ProcessTarget pid \<Rightarrow> inspectProcessRoot S pid (emptyGraph target)
    | ServiceTarget unit \<Rightarrow> inspectServiceRoot S unit (emptyGraph target)"
  obtain h where h: "result_of ?m w = Inr h" and g: "g = finalizeLogs h"
    using assms unfolding InspectService_inspectTarget_def by (auto split: sum.split_asm)
  have kept: "rg_root g = rg_root h \<and> rg_ports g = rg_ports h \<and> rg_processes g = rg_processes h \<and>
      rg_services g = rg_services h \<and> rg_warnings g = rg_warnings h"
    and dup: "no_duplicates h \<Longrightarrow> no_duplicates g"
    using finalizeLogs_props(3,4) [of h] finalizeLogs_collects(1,2) [of h] g by (simp_all add: same_resources_def)
  have logs: "length (rg_recentLogs g) \<le> 20" "sorted (map je_timestamp (rg_recentLogs g))"
    using finalizeLogs_props(1,2) g by simp_all
  have reached: "reached_units target g = reached_units target h" "reached_logs target g = reached_logs target h"
    using kept by (cases target; simp)+
  have origin: "services_from S (reached_units target g) g \<and> logs_from S (reached_logs target g) g"
    if "adds S (reached_units target h) (reached_logs target h) (emptyGraph target) h"
    unfolding reached using adds_final [OF that] g by simp
  show ?thesis
  proof (cases target)
    case (PortTarget port)
    note facts = inspectPortRoot_graph [of S port target w h]
    have "ep_port (so_local (po_socket info)) = port"
      if "socket_provider (po_socketProvider (is_portService S))" "info \<in> set (rg_ports g)" for info
      using facts h kept PortTarget that(2) socket_provider.inspect_local_port [OF that(1) refl, of _ w _ info]
      by auto
    then show ?thesis
      using facts origin PortTarget h kept dup logs
      by (simp add: no_duplicates_def del: reached_units.simps reached_logs.simps)
  next
    case (ProcessTarget p)
    then show ?thesis
      using inspectProcessRoot_graph [of S p target w h] origin h kept dup logs
      by (simp add: no_duplicates_def del: reached_units.simps reached_logs.simps)
  next
    case (ServiceTarget unit)
    note facts = inspectServiceRoot_graph [of S unit target w h]
    let ?list = "ProcessService_list (is_processService S) (default_ProcessQuery\<lparr>pq_systemdUnit := Some unit\<rparr>)"
    obtain listing where listing: "may_answer ?list listing" "rg_processes g = showed listing"
      using facts ServiceTarget h kept by auto
    have "\<forall>p \<in> set (rg_processes g). \<exists>n. ServiceService_normalizeUnit unit = Inr n \<and> pi_systemdUnit p = Some n"
      using listing by (cases listing) (auto simp: may_answer_def elim: list_unit)
    moreover have "distinct (map pi_pid (rg_processes g))"
      if "lists_once (ps_processProvider (is_processService S))"
      using listing that by (cases listing) (auto simp: may_answer_def dest: list_unit_distinct)
    ultimately show ?thesis
      using facts origin ServiceTarget h kept dup logs
      by (simp add: no_duplicates_def del: reached_units.simps reached_logs.simps)
  qed
qed

text \<open>A machine with one socket, which keeps the contract of the socket provider.\<close>

definition demo_sockets :: "int ISocketProvider" where
  "demo_sockets = \<lparr>kp_query = (\<lambda>q. return (success
     \<lparr>ob_value = filter (\<lambda>so. case sq_localPort q of None \<Rightarrow> True | Some n \<Rightarrow> ep_port (so_local so) = n) [demo_socket],
      ob_warnings = []\<rparr>))\<rparr>"

lemma demo_sockets_contract: "socket_provider demo_sockets"
  by unfold_locales (auto simp: demo_sockets_def demo_socket_def split: if_split_asm option.split_asm)

definition demo_InspectService :: "int InspectService" where
  "demo_InspectService =
     \<lparr>is_resolver = \<lparr>rs_portService = demo_PortService, rs_processService = demo_ProcessService,
        rs_serviceService = demo_services\<rparr>,
      is_portService = demo_PortService\<lparr>po_socketProvider := demo_sockets\<rparr>,
      is_processService = demo_ProcessService, is_serviceService = demo_services,
      is_logService = \<lparr>ls_journalProvider = demo_journal\<rparr>\<rparr>"

theorem InspectService_graph_related_witness:
  "\<exists>g. result_of (InspectService_inspectTarget demo_InspectService (PortTarget 8080)) 0 = Inr g \<and>
     rg_root g = PortTarget 8080 \<and> length (rg_recentLogs g) \<le> 20 \<and>
     list_all (\<lambda>info. ep_port (so_local (po_socket info)) = 8080) (rg_ports g) \<and>
     services_from demo_InspectService (reached_units (PortTarget 8080) g) g"
proof -
  have "\<exists>ob. result_of (PortService_inspect (is_portService demo_InspectService)
      (default_SocketQuery\<lparr>sq_localPort := Some 8080\<rparr>)) 0 = Inr ob \<and> ob_value ob \<noteq> []"
    by (simp add: demo_InspectService_def PortService_inspect_def demo_sockets_def default_SocketQuery_def demo_defs
        split: prod.split)
  then obtain g where g: "result_of (InspectService_inspectTarget demo_InspectService (PortTarget 8080)) 0 = Inr g"
    by (auto simp: InspectService_inspectTarget_def inspectPortRoot_def Let_def)
  moreover have "socket_provider (po_socketProvider (is_portService demo_InspectService))"
    by (simp add: demo_InspectService_def demo_sockets_contract)
  ultimately show ?thesis
    using InspectService_graph_related [OF g] by (auto simp: list_all_iff simp del: reached_units.simps)
qed

end
