(* ===== verification/FindService.thy ===== *)
theory FindService
  imports PortService
begin

text \<open>
  \<open>src/application/FindService.cpp\<close>: a case-insensitive substring search over services, processes
  and ports, in which a matching service pulls in its processes and a matching process its ports.
\<close>

section \<open>Matching\<close>

definition lower :: "string \<Rightarrow> string" where
  "lower s = map tolower s"

definition contains :: "string \<Rightarrow> string \<Rightarrow> bool" where
  "contains s needle \<longleftrightarrow> str_contains (lower s) needle"

definition processMatches :: "ProcessInfo \<Rightarrow> string \<Rightarrow> bool" where
  "processMatches process query \<longleftrightarrow>
     contains (pi_name process) query \<or> contains (pi_user process) query \<or>
     (case pi_executable process of None \<Rightarrow> False | Some x \<Rightarrow> contains x query) \<or>
     list_ex (\<lambda>argument. contains argument query) (pi_argv process)"

definition serviceFound :: "string \<Rightarrow> ServiceInfo \<Rightarrow> bool" where
  "serviceFound normalized service \<longleftrightarrow>
     contains (si_unitName service) normalized \<or> contains (si_description service) normalized"

definition processFound :: "string \<Rightarrow> string list \<Rightarrow> ProcessInfo \<Rightarrow> bool" where
  "processFound normalized matchedUnits process \<longleftrightarrow>
     processMatches process normalized \<or>
     (case pi_systemdUnit process of None \<Rightarrow> False | Some u \<Rightarrow> u \<in> set matchedUnits)"

definition portFound :: "string \<Rightarrow> string list \<Rightarrow> pid list \<Rightarrow> PortInfo \<Rightarrow> bool" where
  "portFound normalized matchedUnits matchedPids port \<longleftrightarrow>
     contains (nat_str (unat (ep_port (so_local (po_socket port))))) normalized \<or>
     list_ex (\<lambda>p. p \<in> set matchedPids) (so_ownerPids (po_socket port)) \<or>
     list_ex (\<lambda>owner. case pi_systemdUnit owner of None \<Rightarrow> False | Some u \<Rightarrow> u \<in> set matchedUnits)
       (po_owners port)"

section \<open>The search\<close>

record 'w FindService =
  fs_portService :: "'w PortService"
  fs_processService :: "'w ProcessService"
  fs_serviceService :: "'w ServiceService"

text \<open>The final step: nothing found is an error that quotes the query as it was typed.\<close>

definition concludeFind :: "string \<Rightarrow> FindResult \<Rightarrow> FindResult result" where
  "concludeFind query found =
     (if fr_services found = [] \<and> fr_processes found = [] \<and> fr_ports found = [] \<and>
         fr_executables found = []
      then failure (mkError NotFound
             (''No observable resource matched '' @ CHR 0x22 # query @ [CHR 0x22]) 0
             ''find-service'' ''find'')
      else success found)"

definition FindService_find :: "'w FindService \<Rightarrow> string \<Rightarrow> ('w, FindResult result) io" where
  "FindService_find S query =
     (let normalized = lower query in
      if normalized = []
      then return (failure (mkError InvalidArgument ''Find query must not be empty'' 0
                              ''find-service'' ''find''))
      else do {
        services \<leftarrow> ServiceService_list (fs_serviceService S);
        let foundServices = (case services of
              Inl _ \<Rightarrow> [] | Inr ob \<Rightarrow> filter (serviceFound normalized) (ob_value ob));
        let serviceWarnings = (case services of
              Inl e \<Rightarrow> [warningFrom e] | Inr ob \<Rightarrow> ob_warnings ob);
        let matchedUnits = map si_unitName foundServices;
        processes \<leftarrow> ProcessService_list (fs_processService S) default_ProcessQuery;
        case processes of
          Inl e \<Rightarrow> return (failure e)
        | Inr observed \<Rightarrow> do {
            let foundProcesses = filter (processFound normalized matchedUnits) (ob_value observed);
            let executables = std_set (List.map_filter pi_executable foundProcesses);
            ports \<leftarrow> PortService_inspect (fs_portService S) default_SocketQuery;
            let foundPorts = (case ports of
                  Inl _ \<Rightarrow> []
                | Inr ob \<Rightarrow> filter (portFound normalized matchedUnits (map pi_pid foundProcesses))
                              (ob_value ob));
            let portWarnings = (case ports of
                  Inl e \<Rightarrow> [warningFrom e] | Inr ob \<Rightarrow> ob_warnings ob);
            return (concludeFind query
              \<lparr>fr_services = foundServices, fr_processes = foundProcesses, fr_ports = foundPorts,
               fr_executables = executables,
               fr_warnings = serviceWarnings @ ob_warnings observed @ portWarnings\<rparr>)
          }
      })"

section \<open>Lemmas\<close>

lemma lower_lower [simp]: "lower (lower s) = lower s"
  by (simp add: lower_def comp_def)

lemma lower_eq_Nil [simp]: "lower s = [] \<longleftrightarrow> s = []"
  by (simp add: lower_def)

text \<open>Matching ignores case on both sides.\<close>

lemma contains_lower: "contains s (lower q) \<longleftrightarrow> sublist (lower q) (lower s)"
  by (simp add: contains_def str_contains_iff_sublist)

definition recordFindService :: "'w FindService \<Rightarrow> 'w recorded FindService" where
  "recordFindService S =
     \<lparr>fs_portService = recordPortService (fs_portService S),
      fs_processService = recordProcessService (fs_processService S),
      fs_serviceService = recordServiceService (fs_serviceService S)\<rparr>"

lemma recordFindService_sel [simp]:
  "fs_portService (recordFindService S) = recordPortService (fs_portService S)"
  "fs_processService (recordFindService S) = recordProcessService (fs_processService S)"
  "fs_serviceService (recordFindService S) = recordServiceService (fs_serviceService S)"
  by (simp_all add: recordFindService_def)

lemma quiet_FindService_find [quiet_intros]:
  "quiet destructive (FindService_find (recordFindService S) q)"
  unfolding FindService_find_def recordFindService_sel by (intro quiet_intros)

section \<open>What is related to a query\<close>

text \<open>
  The meaning of a search, stated without the code's matching functions: a text mentions the query when some
  stretch of it is the query up to the case of its letters, and the relation reaches from services to their
  processes and from both to ports.
\<close>

definition mentions :: "string \<Rightarrow> string \<Rightarrow> bool" where
  "mentions query s \<longleftrightarrow> (\<exists>before m after. s = before @ m @ after \<and> map tolower m = map tolower query)"

definition service_related :: "string \<Rightarrow> ServiceInfo \<Rightarrow> bool" where
  "service_related query service \<longleftrightarrow>
     mentions query (si_unitName service) \<or> mentions query (si_description service)"

definition unit_related :: "string \<Rightarrow> ServiceInfo list \<Rightarrow> ProcessInfo \<Rightarrow> bool" where
  "unit_related query services process \<longleftrightarrow>
     (\<exists>service \<in> set services. service_related query service \<and>
        pi_systemdUnit process = Some (si_unitName service))"

definition process_related :: "string \<Rightarrow> ServiceInfo list \<Rightarrow> ProcessInfo \<Rightarrow> bool" where
  "process_related query services process \<longleftrightarrow>
     mentions query (pi_name process) \<or> mentions query (pi_user process) \<or>
     (\<exists>x. pi_executable process = Some x \<and> mentions query x) \<or>
     (\<exists>argument \<in> set (pi_argv process). mentions query argument) \<or>
     unit_related query services process"

definition port_related :: "string \<Rightarrow> ServiceInfo list \<Rightarrow> ProcessInfo list \<Rightarrow> PortInfo \<Rightarrow> bool" where
  "port_related query services processes port \<longleftrightarrow>
     mentions query (nat_str (unat (ep_port (so_local (po_socket port))))) \<or>
     (\<exists>process \<in> set processes. process_related query services process \<and>
        pi_pid process \<in> set (so_ownerPids (po_socket port))) \<or>
     (\<exists>owner \<in> set (po_owners port). unit_related query services owner)"

lemma contains_mentions: "contains s (lower q) \<longleftrightarrow> mentions q s"
proof
  assume "contains s (lower q)"
  then obtain before after where "map tolower s = before @ map tolower q @ after"
    by (auto simp: contains_lower [unfolded lower_def] lower_def sublist_def)
  then obtain b rest where "s = b @ rest" "map tolower q @ after = map tolower rest"
    by (auto simp: map_eq_append_conv)
  then obtain m a where "s = b @ m @ a" "map tolower m = map tolower q"
    by (metis append_eq_map_conv)
  then show "mentions q s" by (auto simp: mentions_def)
next
  assume "mentions q s"
  then obtain b m a where s: "s = b @ m @ a" and m: "map tolower m = map tolower q"
    by (auto simp: mentions_def)
  have "map tolower s = map tolower b @ map tolower q @ map tolower a"
    unfolding s map_append m by simp
  then show "contains s (lower q)" unfolding contains_lower by (auto simp: lower_def sublist_def)
qed

lemma serviceFound_related: "serviceFound (lower q) = service_related q"
  by (simp add: fun_eq_iff serviceFound_def service_related_def contains_mentions)

lemma matchedUnit_related:
  "(case pi_systemdUnit p of None \<Rightarrow> False | Some u \<Rightarrow> u \<in> set (map si_unitName (filter (service_related q) services)))
   \<longleftrightarrow> unit_related q services p"
  by (auto simp: unit_related_def split: option.split)

lemma processFound_related:
  "processFound (lower q) (map si_unitName (filter (service_related q) services)) = process_related q services"
  unfolding fun_eq_iff processFound_def matchedUnit_related process_related_def processMatches_def
  by (auto simp: contains_mentions list_ex_iff split: option.split)

lemma portFound_related:
  "portFound (lower q) (map si_unitName (filter (service_related q) services))
     (map pi_pid (filter (process_related q services) processes)) = port_related q services processes"
  unfolding fun_eq_iff portFound_def matchedUnit_related port_related_def
  by (auto simp: contains_mentions list_ex_iff)

lemma std_set_executables: "std_set (List.map_filter pi_executable ps) =
    sorted_list_of_set {x. \<exists>p \<in> set ps. pi_executable p = Some x}"
  unfolding std_set_def sort_unique_eq_sorted_list_of_set
  by (rule arg_cong [where f = sorted_list_of_set]) (force simp: List.map_filter_def)

text \<open>What a search concludes from what the three listings showed.\<close>

definition found_related ::
  "string \<Rightarrow> ServiceInfo list \<Rightarrow> ProcessInfo list \<Rightarrow> PortInfo list \<Rightarrow> FindResult result \<Rightarrow> bool" where
  "found_related query services processes ports found \<longleftrightarrow>
     (case found of
        Inl e \<Rightarrow> er_code e = NotFound \<and>
          (\<forall>s \<in> set services. \<not> service_related query s) \<and>
          (\<forall>p \<in> set processes. \<not> process_related query services p) \<and>
          (\<forall>port \<in> set ports. \<not> port_related query services processes port)
      | Inr r \<Rightarrow>
          fr_services r = filter (service_related query) services \<and>
          fr_processes r = filter (process_related query services) processes \<and>
          fr_ports r = filter (port_related query services processes) ports \<and>
          fr_executables r = sorted_list_of_set {x. \<exists>p \<in> set (fr_processes r). pi_executable p = Some x} \<and>
          (fr_services r \<noteq> [] \<or> fr_processes r \<noteq> [] \<or> fr_ports r \<noteq> []))"

lemma concludeFind_related:
  assumes "fs = filter (service_related query) services"
    and "fp = filter (process_related query services) processes"
    and "fo = filter (port_related query services processes) ports"
  shows "found_related query services processes ports (concludeFind query
    \<lparr>fr_services = fs, fr_processes = fp, fr_ports = fo,
     fr_executables = std_set (List.map_filter pi_executable fp), fr_warnings = ws\<rparr>)"
proof -
  have "std_set (List.map_filter pi_executable []) = []"
    by (simp add: map_filter_simps std_set_def)
  then have none: "std_set (List.map_filter pi_executable fp) = []" if "fp = []"
    using that by simp
  show ?thesis
  proof (cases "fs = [] \<and> fp = [] \<and> fo = []")
    case True
    then have "filter (service_related query) services = []"
        "filter (process_related query services) processes = []"
        "filter (port_related query services processes) ports = []"
      using assms by simp_all
    with True none show ?thesis
      by (simp add: found_related_def concludeFind_def filter_empty_conv)
  next
    case False
    then show ?thesis
      using assms by (auto simp: found_related_def concludeFind_def std_set_executables)
  qed
qed

section \<open>Properties\<close>

text \<open>
  C25. A search finds exactly what is related to the query, or says that nothing is. With a query, and
  where the processes could be listed, it succeeds with the services whose name or description mentions the
  query in any case, the processes that mention it in their name, user, executable or an argument or that
  belong to such a service, the ports whose number contains it or that such a process owns or such a service
  manages, in the observed order, and each executable of a found process once; or it fails with \<open>NotFound\<close>,
  and then nothing that was listed is related. Where the services or the ports cannot be listed a warning
  says so. An empty query is refused and a failed process listing passed on.
\<close>

theorem FindService_find_exact:
  assumes "w1 = world_after (ServiceService_list (fs_serviceService S)) w"
    and "w2 = world_after (ProcessService_list (fs_processService S) default_ProcessQuery) w1"
    and "services = result_of (ServiceService_list (fs_serviceService S)) w"
    and "ports = result_of (PortService_inspect (fs_portService S) default_SocketQuery) w2"
  shows "if query = []
    then \<exists>e. result_of (FindService_find S query) w = Inl e \<and> er_code e = InvalidArgument
    else case result_of (ProcessService_list (fs_processService S) default_ProcessQuery) w1 of
      Inl e \<Rightarrow> result_of (FindService_find S query) w = Inl e
    | Inr processes \<Rightarrow>
        found_related query (showed services) (ob_value processes) (showed ports)
          (result_of (FindService_find S query) w) \<and>
        (\<forall>r e. result_of (FindService_find S query) w = Inr r \<and> (services = Inl e \<or> ports = Inl e) \<longrightarrow>
           warningFrom e \<in> set (fr_warnings r))"
proof (cases "query = []")
  case True
  then show ?thesis by (simp add: FindService_find_def)
next
  case False
  let ?listing = "result_of (ProcessService_list (fs_processService S) default_ProcessQuery) w1"
  show ?thesis
  proof (cases ?listing)
    case (Inl e)
    with False assms show ?thesis by (simp add: FindService_find_def Let_def)
  next
    case (Inr processes)
    define fs where "fs = (case services of
        Inl _ \<Rightarrow> [] | Inr ob \<Rightarrow> filter (serviceFound (lower query)) (ob_value ob))"
    define fp where "fp = filter (processFound (lower query) (map si_unitName fs)) (ob_value processes)"
    define fo where "fo = (case ports of
        Inl _ \<Rightarrow> []
      | Inr ob \<Rightarrow> filter (portFound (lower query) (map si_unitName fs) (map pi_pid fp)) (ob_value ob))"
    define ws where "ws = (case services of Inl e \<Rightarrow> [warningFrom e] | Inr ob \<Rightarrow> ob_warnings ob) @
      ob_warnings processes @ (case ports of Inl e \<Rightarrow> [warningFrom e] | Inr ob \<Rightarrow> ob_warnings ob)"
    have found: "result_of (FindService_find S query) w = concludeFind query \<lparr>fr_services = fs,
        fr_processes = fp, fr_ports = fo, fr_executables = std_set (List.map_filter pi_executable fp),
        fr_warnings = ws\<rparr>"
      using False Inr unfolding fs_def fp_def fo_def ws_def assms by (simp add: FindService_find_def Let_def)
    have fs: "fs = filter (service_related query) (showed services)"
      by (cases services) (simp_all add: fs_def serviceFound_related)
    have fp: "fp = filter (process_related query (showed services)) (ob_value processes)"
      by (simp add: fp_def fs processFound_related)
    have fo: "fo = filter (port_related query (showed services) (ob_value processes)) (showed ports)"
      by (cases ports) (simp_all only: fo_def fs fp portFound_related showed.simps sum.case filter.simps)
    have "warningFrom e \<in> set (fr_warnings r)"
      if "result_of (FindService_find S query) w = Inr r" "services = Inl e \<or> ports = Inl e" for r e
      using that found by (auto simp: concludeFind_def ws_def split: if_split_asm)
    then show ?thesis
      using False Inr concludeFind_related [OF fs fp fo, of ws] found by auto
  qed
qed

definition demo_find :: "int FindService" where
  "demo_find = \<lparr>fs_portService = demo_PortService, fs_processService = demo_ProcessService,
     fs_serviceService = demo_services\<rparr>"

theorem FindService_find_exact_witness:
  "\<exists>processes. result_of (ProcessService_list demo_ProcessService default_ProcessQuery)
      (world_after (ServiceService_list demo_services) (0 :: int)) = Inr processes \<and>
    found_related ''VI'' (showed (result_of (ServiceService_list demo_services) (0 :: int))) (ob_value processes)
      (showed (result_of (PortService_inspect demo_PortService default_SocketQuery)
        (world_after (ProcessService_list demo_ProcessService default_ProcessQuery)
          (world_after (ServiceService_list demo_services) (0 :: int)))))
      (result_of (FindService_find demo_find ''VI'') 0) \<and>
    (\<exists>r. result_of (FindService_find demo_find ''VI'') 0 = Inr r)"
proof -
  have typed: "lower ''VI'' = ''vi''" by code_simp
  have demo: "fs_portService demo_find = demo_PortService" "fs_processService demo_find = demo_ProcessService"
      "fs_serviceService demo_find = demo_services"
    by (simp_all add: demo_find_def)
  have "\<exists>processes. result_of (ProcessService_list demo_ProcessService default_ProcessQuery)
      (world_after (ServiceService_list demo_services) (0 :: int)) = Inr processes"
    by (simp add: demo_defs ServiceService_list_def ProcessService_list_def normalizedQuery_def
        default_ProcessQuery_def)
  then obtain processes where processes: "result_of (ProcessService_list demo_ProcessService
      default_ProcessQuery) (world_after (ServiceService_list demo_services) (0 :: int)) = Inr processes" ..
  have answer: "\<exists>r. result_of (FindService_find demo_find ''VI'') 0 = Inr r"
    unfolding FindService_find_def typed
    by (simp add: demo_find_def Let_def demo_defs lower_def tolower_def isupper_def
        ServiceService_list_def ProcessService_list_def normalizedQuery_def default_ProcessQuery_def
        filteredOut_def processFound_def processMatches_def contains_def concludeFind_def)
  from FindService_find_exact [OF refl refl refl refl, where S = demo_find and w = 0 and query = "''VI''"]
  show ?thesis unfolding demo using answer processes by simp
qed

end
