(* ===== verification/DoctorService.thy ===== *)
theory DoctorService
  imports Contracts
begin

text \<open>
  \<open>src/application/DoctorService.cpp\<close>: one probe per capability of the machine, reported in a fixed
  list of checks.
\<close>

section \<open>The service\<close>

record 'w DoctorService =
  do_processProvider :: "'w IProcessProvider"
  do_socketProvider :: "'w ISocketProvider"
  do_signalProvider :: "'w ISignalProvider"
  do_serviceProvider :: "'w IServiceProvider"
  do_journalProvider :: "'w IJournalProvider"
  do_getpid :: pid

text \<open>A check starts as unavailable and not checked; the answer of its probe replaces both.\<close>

definition uncheckedReport :: DoctorReport where
  "uncheckedReport =
     [\<lparr>cc_name = ''Project foundation'', cc_status = Available,
       cc_detail = ''C++17 application and test infrastructure are ready''\<rparr>,
      \<lparr>cc_name = ''Process API'', cc_status = CapUnavailable, cc_detail = ''not checked''\<rparr>,
      \<lparr>cc_name = ''Socket API'', cc_status = CapUnavailable, cc_detail = ''not checked''\<rparr>,
      \<lparr>cc_name = ''Process signals'', cc_status = CapUnavailable, cc_detail = ''not checked''\<rparr>,
      \<lparr>cc_name = ''systemd'', cc_status = CapUnavailable, cc_detail = ''not checked''\<rparr>,
      \<lparr>cc_name = ''Journal'', cc_status = CapUnavailable, cc_detail = ''not checked''\<rparr>]"

definition answered :: "'a result \<Rightarrow> string \<Rightarrow> CapabilityCheck \<Rightarrow> CapabilityCheck" where
  "answered answer detail check =
     (case answer of
        Inr _ \<Rightarrow> check\<lparr>cc_status := Available, cc_detail := detail\<rparr>
      | Inl e \<Rightarrow> check\<lparr>cc_detail := er_message e\<rparr>)"

definition signalCheck :: "SignalCapabilities \<Rightarrow> CapabilityCheck \<Rightarrow> CapabilityCheck" where
  "signalCheck capabilities check =
     (if sc_signalingAvailable capabilities
      then check\<lparr>cc_status := Available,
                 cc_detail := (if sc_pidFdAvailable capabilities
                               then ''Process signaling uses pidfd when possible''
                               else ''Process signaling uses kill(2) fallback'')\<rparr>
      else check\<lparr>cc_detail := ''Process signaling is unavailable''\<rparr>)"

definition update_check ::
  "nat \<Rightarrow> (CapabilityCheck \<Rightarrow> CapabilityCheck) \<Rightarrow> DoctorReport \<Rightarrow> DoctorReport" where
  "update_check i f checks = checks[i := f (checks ! i)]"

definition DoctorService_inspect :: "'w DoctorService \<Rightarrow> ('w, DoctorReport) io" where
  "DoctorService_inspect S = do {
     process \<leftarrow> pp_get (do_processProvider S) (do_getpid S);
     let r1 = update_check 1 (answered process ''ProcFS process inspection is available'') uncheckedReport;
     sockets \<leftarrow> kp_query (do_socketProvider S) (default_SocketQuery\<lparr>sq_protocol := Some Tcp\<rparr>);
     let r2 = update_check 2 (answered sockets ''INET_DIAG socket inspection is available'') r1;
     capabilities \<leftarrow> sp_capabilities (do_signalProvider S);
     let r3 = update_check 3 (signalCheck capabilities) r2;
     systemd \<leftarrow> vp_probe (do_serviceProvider S);
     let r4 = update_check 4 (answered systemd ''systemd service management is available'') r3;
     journal \<leftarrow> jp_probe (do_journalProvider S);
     let r5 = update_check 5 (answered journal ''Local journal queries are available'') r4;
     return r5
   }"

section \<open>Properties\<close>

lemma answered_status [simp]:
  "cc_status (answered a d c) = (if Result_hasValue a then Available else cc_status c)"
  "cc_name (answered a d c) = cc_name c"
  by (simp_all add: answered_def Result_hasValue_def split: sum.split)

lemma signalCheck_status [simp]:
  "cc_status (signalCheck k c) = (if sc_signalingAvailable k then Available else cc_status c)"
  "cc_name (signalCheck k c) = cc_name c"
  by (simp_all add: signalCheck_def)

text \<open>
  The doctor reports each capability truthfully: always the same six checks in the same order,
  and each of the five probed ones available exactly when its probe, run in that order, succeeded.
\<close>

theorem DoctorService_inspect_truthful:
  "\<exists>w1 w2 w3 w4.
     map cc_name (result_of (DoctorService_inspect S) w) =
       [''Project foundation'', ''Process API'', ''Socket API'', ''Process signals'', ''systemd'', ''Journal''] \<and>
     map (\<lambda>c. cc_status c = Available) (result_of (DoctorService_inspect S) w) =
       [True,
        Result_hasValue (result_of (pp_get (do_processProvider S) (do_getpid S)) w),
        Result_hasValue (result_of (kp_query (do_socketProvider S)
          (default_SocketQuery\<lparr>sq_protocol := Some Tcp\<rparr>)) w1),
        sc_signalingAvailable (result_of (sp_capabilities (do_signalProvider S)) w2),
        Result_hasValue (result_of (vp_probe (do_serviceProvider S)) w3),
        Result_hasValue (result_of (jp_probe (do_journalProvider S)) w4)]"
proof -
  define w1 where "w1 = world_after (pp_get (do_processProvider S) (do_getpid S)) w"
  define w2 where "w2 = world_after (kp_query (do_socketProvider S)
    (default_SocketQuery\<lparr>sq_protocol := Some Tcp\<rparr>)) w1"
  define w3 where "w3 = world_after (sp_capabilities (do_signalProvider S)) w2"
  define w4 where "w4 = world_after (vp_probe (do_serviceProvider S)) w3"
  have "result_of (DoctorService_inspect S) w =
    [uncheckedReport ! 0,
     answered (result_of (pp_get (do_processProvider S) (do_getpid S)) w)
       ''ProcFS process inspection is available'' (uncheckedReport ! 1),
     answered (result_of (kp_query (do_socketProvider S)
       (default_SocketQuery\<lparr>sq_protocol := Some Tcp\<rparr>)) w1)
       ''INET_DIAG socket inspection is available'' (uncheckedReport ! 2),
     signalCheck (result_of (sp_capabilities (do_signalProvider S)) w2) (uncheckedReport ! 3),
     answered (result_of (vp_probe (do_serviceProvider S)) w3)
       ''systemd service management is available'' (uncheckedReport ! 4),
     answered (result_of (jp_probe (do_journalProvider S)) w4)
       ''Local journal queries are available'' (uncheckedReport ! 5)]"
    by (simp add: DoctorService_inspect_def update_check_def Let_def w1_def w2_def w3_def w4_def
        uncheckedReport_def numeral_nat)
  then show ?thesis
    by (intro exI [of _ w1] exI [of _ w2] exI [of _ w3] exI [of _ w4])
       (simp add: uncheckedReport_def numeral_nat)
qed

end
