(* ===== verification/MetricsService.thy ===== *)
theory MetricsService
  imports Contracts
begin

text \<open>
  \<open>src/application/MetricsService.cpp\<close> and \<open>src/application/StatusService.cpp\<close>: processor and memory
  figures from two samples.

  The percentages are computed in \<open>double\<close>. Every floating-point operation of the code is the exact
  operation followed by a rounding function \<open>rnd\<close>, a parameter of the model, so that what is proved
  holds for every rounding mode and width; tick counts are 64-bit words, and their differences wrap.
\<close>

section \<open>The operations\<close>

record 'w MetricsService =
  me_system :: "'w ISystemMetricsProvider"
  me_processes :: "'w IProcessMetricsProvider"
  me_waiter :: "int \<Rightarrow> ('w, unit) io"

definition MetricsService_capture :: "'w MetricsService \<Rightarrow> ('w, MetricsSnapshot result) io" where
  "MetricsService_capture S = do {
     system \<leftarrow> sy_sample (me_system S);
     case system of
       Inl e \<Rightarrow> return (failure e)
     | Inr sys \<Rightarrow> do {
         processes \<leftarrow> pm_sample (me_processes S);
         return (case processes of
                   Inl e \<Rightarrow> failure e
                 | Inr ps \<Rightarrow> success \<lparr>ms_system = sys, ms_processes = ps\<rparr>)
       }
   }"

definition std_clamp :: "real \<Rightarrow> real \<Rightarrow> real \<Rightarrow> real" where
  "std_clamp v lo hi = (if v < lo then lo else if hi < v then hi else v)"

definition usedMemory :: "SystemMetricsSample \<Rightarrow> u64" where
  "usedMemory system =
     (if sm_memoryAvailableBytes system \<le> sm_memoryTotalBytes system
      then sm_memoryTotalBytes system - sm_memoryAvailableBytes system else 0)"

definition hostPercent :: "(real \<Rightarrow> real) \<Rightarrow> u64 \<Rightarrow> u64 \<Rightarrow> real" where
  "hostPercent rnd ticks idle =
     std_clamp (rnd (rnd (100 * rnd (real (unat (ticks - idle)))) / rnd (real (unat ticks)))) 0 100"

definition cpuCount :: "SystemMetricsSample \<Rightarrow> u32" where
  "cpuCount system = max 1 (sm_logicalCpuCount system)"

definition processPercent :: "(real \<Rightarrow> real) \<Rightarrow> u32 \<Rightarrow> u64 \<Rightarrow> u64 \<Rightarrow> real" where
  "processPercent rnd cpus used ticks =
     std_clamp (rnd (rnd (rnd (100 * rnd (real (unat used))) * rnd (real (unat cpus)))
                     / rnd (real (unat ticks))))
       0 (rnd (100 * rnd (real (unat cpus))))"

text \<open>\<open>old[process.pid] = process\<close> for every earlier sample, and the loop over the current ones.\<close>

definition samplesByPid :: "ProcessCpuSample list \<Rightarrow> pid \<Rightarrow> ProcessCpuSample option" where
  "samplesByPid samples = fold (\<lambda>s m. m(pc_pid s \<mapsto> s)) samples Map.empty"

fun processPercents :: "(real \<Rightarrow> real) \<Rightarrow> u32 \<Rightarrow> u64 \<Rightarrow> (pid \<Rightarrow> ProcessCpuSample option) \<Rightarrow>
    ProcessCpuSample list \<Rightarrow> (pid \<Rightarrow> real option) \<Rightarrow> (pid \<Rightarrow> real option)" where
  "processPercents rnd cpus ticks old [] percents = percents"
| "processPercents rnd cpus ticks old (process # rest) percents =
     (case old (pc_pid process) of
        None \<Rightarrow> processPercents rnd cpus ticks old rest percents
      | Some found \<Rightarrow>
          (if pc_startTimeTicks found \<noteq> pc_startTimeTicks process \<or>
              pc_cpuTimeTicks process < pc_cpuTimeTicks found
           then processPercents rnd cpus ticks old rest percents
           else processPercents rnd cpus ticks old rest
                  (percents(pc_pid process \<mapsto>
                     processPercent rnd cpus (pc_cpuTimeTicks process - pc_cpuTimeTicks found) ticks))))"

definition MetricsService_compare ::
  "(real \<Rightarrow> real) \<Rightarrow> MetricsSnapshot \<Rightarrow> MetricsSnapshot \<Rightarrow> MetricsView" where
  "MetricsService_compare rnd previous current =
     (let sys = ms_system current;
          before = sm_cpu (ms_system previous);
          now = sm_cpu sys;
          host = \<lparr>hs_hostname = sm_hostname sys, hs_cpuPercent = None,
                  hs_memoryTotalBytes = sm_memoryTotalBytes sys,
                  hs_memoryUsedBytes = usedMemory sys, hs_uptime = sm_uptime sys\<rparr> in
      if ct_totalTicks before < ct_totalTicks now \<and> ct_idleTicks before \<le> ct_idleTicks now
      then
        (let ticks = ct_totalTicks now - ct_totalTicks before;
             idle = ct_idleTicks now - ct_idleTicks before in
         \<lparr>mv_host = (if idle \<le> ticks then host\<lparr>hs_cpuPercent := Some (hostPercent rnd ticks idle)\<rparr>
                     else host),
          mv_processCpuPercent = processPercents rnd (cpuCount sys) ticks
            (samplesByPid (ms_processes previous)) (ms_processes current) Map.empty\<rparr>)
      else \<lparr>mv_host = host, mv_processCpuPercent = Map.empty\<rparr>)"

definition MetricsService_measure ::
  "(real \<Rightarrow> real) \<Rightarrow> 'w MetricsService \<Rightarrow> int \<Rightarrow> ('w, MetricsView result) io" where
  "MetricsService_measure rnd S interval = do {
     previous \<leftarrow> MetricsService_capture S;
     case previous of
       Inl e \<Rightarrow> return (failure e)
     | Inr before \<Rightarrow> do {
         _ \<leftarrow> me_waiter S interval;
         current \<leftarrow> MetricsService_capture S;
         return (case current of
                   Inl e \<Rightarrow> failure e
                 | Inr now \<Rightarrow> success (MetricsService_compare rnd before now))
       }
   }"

definition StatusService_get ::
  "(real \<Rightarrow> real) \<Rightarrow> 'w MetricsService \<Rightarrow> int \<Rightarrow> ('w, HostStatus result) io" where
  "StatusService_get rnd S interval = do {
     measured \<leftarrow> MetricsService_measure rnd S interval;
     return (case measured of Inl e \<Rightarrow> failure e | Inr view \<Rightarrow> success (mv_host view))
   }"

definition StatusService_measure ::
  "(real \<Rightarrow> real) \<Rightarrow> 'w MetricsService \<Rightarrow> int \<Rightarrow> ('w, MetricsView result) io" where
  "StatusService_measure rnd S interval = MetricsService_measure rnd S interval"

section \<open>Lemmas\<close>

lemma std_clamp_bounds: "lo \<le> hi \<Longrightarrow> lo \<le> std_clamp v lo hi \<and> std_clamp v lo hi \<le> hi"
  by (simp add: std_clamp_def)

lemma std_clamp_nonneg: "0 \<le> v \<Longrightarrow> std_clamp v 0 hi = min hi v"
  by (simp add: std_clamp_def min_def)

lemma usedMemory_le: "usedMemory s \<le> sm_memoryTotalBytes s"
  by (simp add: usedMemory_def word_le_nat_alt unat_sub)

lemma cpuCount_pos: "1 \<le> unat (cpuCount s)"
proof -
  have "(1::32 word) \<le> cpuCount s" by (simp add: cpuCount_def)
  then show ?thesis by (simp add: word_le_nat_alt)
qed

text \<open>A percentage belongs to a process only if an earlier sample of the same process, not of an
  earlier process with the same id, exists; then it is the share of the difference.\<close>

definition percent_of :: "(real \<Rightarrow> real) \<Rightarrow> u32 \<Rightarrow> u64 \<Rightarrow> (pid \<Rightarrow> ProcessCpuSample option) \<Rightarrow>
    ProcessCpuSample \<Rightarrow> real \<Rightarrow> bool" where
  "percent_of rnd cpus ticks old process x \<longleftrightarrow>
     (\<exists>before. old (pc_pid process) = Some before \<and>
        pc_startTimeTicks before = pc_startTimeTicks process \<and>
        pc_cpuTimeTicks before \<le> pc_cpuTimeTicks process \<and>
        x = processPercent rnd cpus (pc_cpuTimeTicks process - pc_cpuTimeTicks before) ticks)"

lemma processPercents_sound:
  assumes "processPercents rnd cpus ticks old ps m p = Some x"
  shows "m p = Some x \<or> (\<exists>process \<in> set ps. pc_pid process = p \<and> percent_of rnd cpus ticks old process x)"
  using assms
proof (induction ps arbitrary: m)
  case (Cons q ps)
  show ?case
  proof (cases "old (pc_pid q)")
    case None
    then show ?thesis using Cons by auto
  next
    case (Some before)
    show ?thesis
    proof (cases "pc_startTimeTicks before \<noteq> pc_startTimeTicks q \<or> pc_cpuTimeTicks q < pc_cpuTimeTicks before")
      case True
      then show ?thesis using Some Cons by auto
    next
      case False
      let ?x = "processPercent rnd cpus (pc_cpuTimeTicks q - pc_cpuTimeTicks before) ticks"
      have q: "percent_of rnd cpus ticks old q ?x"
        using Some False by (auto simp: percent_of_def not_less)
      have "processPercents rnd cpus ticks old ps (m(pc_pid q \<mapsto> ?x)) p = Some x"
        using Cons.prems Some False by simp
      from Cons.IH [OF this] show ?thesis using q by (auto split: if_splits)
    qed
  qed
qed simp

lemma processPercent_bounds:
  "0 \<le> rnd (100 * rnd (real (unat cpus))) \<Longrightarrow> 0 \<le> processPercent rnd cpus used ticks \<and>
     processPercent rnd cpus used ticks \<le> rnd (100 * rnd (real (unat cpus)))"
  unfolding processPercent_def by (rule std_clamp_bounds)

lemma samplesByPid_mem:
  assumes "samplesByPid samples p = Some s"
  shows "s \<in> set samples \<and> pc_pid s = p"
proof -
  have "fold (\<lambda>s m. m(pc_pid s \<mapsto> s)) ss m p = Some s \<Longrightarrow>
      m p = Some s \<or> s \<in> set ss \<and> pc_pid s = p" for ss m
    by (induction ss arbitrary: m) (force split: if_splits)+
  from this [of samples Map.empty] assms show ?thesis by (simp add: samplesByPid_def)
qed

lemma quiet_MetricsService_capture [quiet_intros]:
  "quiet destructive (MetricsService_capture
     \<lparr>me_system = recordSystemMetrics Y, me_processes = recordProcessMetrics Q, me_waiter = wt\<rparr>)"
  unfolding MetricsService_capture_def MetricsService.simps recordOther_sel
  by (intro quiet_intros) simp_all

section \<open>Properties\<close>

text \<open>
  C39. The figures shown stay in their ranges whatever the samples say and however the processor
  rounds: the processor share of the host is between 0 and 100, that of a process between 0 and
  100 for each of the (at least one) processors, and the used memory does not exceed the total.
\<close>

theorem MetricsService_compare_bounds:
  assumes "\<forall>x \<ge> 0. 0 \<le> rnd x" and "view = MetricsService_compare rnd previous current"
  shows "(\<forall>x. hs_cpuPercent (mv_host view) = Some x \<longrightarrow> 0 \<le> x \<and> x \<le> 100) \<and>
    (\<forall>p x. mv_processCpuPercent view p = Some x \<longrightarrow>
       0 \<le> x \<and> x \<le> rnd (100 * rnd (real (unat (max 1 (sm_logicalCpuCount (ms_system current))))))) \<and>
    hs_memoryUsedBytes (mv_host view) \<le> hs_memoryTotalBytes (mv_host view)"
proof (intro conjI allI impI)
  fix x assume "hs_cpuPercent (mv_host view) = Some x"
  then have "\<exists>ticks idle. x = hostPercent rnd ticks idle"
    using assms(2) by (auto simp: MetricsService_compare_def Let_def split: if_splits)
  then show "0 \<le> x" "x \<le> 100"
    by (auto simp: hostPercent_def std_clamp_def)
next
  fix p x assume "mv_processCpuPercent view p = Some x"
  then obtain ticks old process where
    "percent_of rnd (cpuCount (ms_system current)) ticks old process x"
    using assms(2)
    by (auto simp: MetricsService_compare_def Let_def split: if_splits dest!: processPercents_sound)
  moreover have "0 \<le> rnd (real (unat (cpuCount (ms_system current))))"
    using assms(1) of_nat_0_le_iff by blast
  then have "0 \<le> rnd (100 * rnd (real (unat (cpuCount (ms_system current)))))"
    using assms(1) by simp
  ultimately have "0 \<le> x \<and> x \<le> rnd (100 * rnd (real (unat (cpuCount (ms_system current)))))"
    unfolding percent_of_def using processPercent_bounds by blast
  then show "0 \<le> x"
    "x \<le> rnd (100 * rnd (real (unat (max 1 (sm_logicalCpuCount (ms_system current))))))"
    by (simp_all add: cpuCount_def)
next
  show "hs_memoryUsedBytes (mv_host view) \<le> hs_memoryTotalBytes (mv_host view)"
    using assms(2) usedMemory_le by (simp add: MetricsService_compare_def Let_def)
qed

definition demo_sample :: "u64 \<Rightarrow> u64 \<Rightarrow> u64 \<Rightarrow> MetricsSnapshot" where
  "demo_sample ticks idle cpu =
     \<lparr>ms_system = \<lparr>sm_cpu = \<lparr>ct_totalTicks = ticks, ct_idleTicks = idle\<rparr>, sm_memoryTotalBytes = 100,
        sm_memoryAvailableBytes = 40, sm_uptime = 9, sm_logicalCpuCount = 4, sm_hostname = ''h''\<rparr>,
      ms_processes = [\<lparr>pc_pid = 4, pc_startTimeTicks = 7, pc_cpuTimeTicks = cpu\<rparr>]\<rparr>"

theorem MetricsService_compare_bounds_witness:
  "hs_memoryUsedBytes (mv_host (MetricsService_compare (\<lambda>x. x) (demo_sample 10 5 1) (demo_sample 30 15 2)))
     \<le> hs_memoryTotalBytes (mv_host (MetricsService_compare (\<lambda>x. x) (demo_sample 10 5 1) (demo_sample 30 15 2)))"
  using MetricsService_compare_bounds [of "\<lambda>x. x", OF _ refl] by blast

text \<open>
  A processor share is never charged to the wrong process: a process has one only if the
  previous snapshot holds a sample with the same id and the same start time, so an id that was
  reused gets none; in exact arithmetic the share is the difference of the process's ticks over
  the difference of all ticks, times the number of processors, cut off at the maximum.
\<close>

theorem MetricsService_compare_same_process:
  assumes "mv_processCpuPercent (MetricsService_compare (\<lambda>x. x) previous current) p = Some x"
  shows "\<exists>before now ticks. before \<in> set (ms_processes previous) \<and> now \<in> set (ms_processes current) \<and>
    pc_pid before = p \<and> pc_pid now = p \<and> pc_startTimeTicks before = pc_startTimeTicks now \<and>
    ticks = int (unat (ct_totalTicks (sm_cpu (ms_system current)))) -
            int (unat (ct_totalTicks (sm_cpu (ms_system previous)))) \<and> 0 < ticks \<and>
    x = min (100 * real (unat (cpuCount (ms_system current))))
          (100 * (real (unat (pc_cpuTimeTicks now)) - real (unat (pc_cpuTimeTicks before))) *
           real (unat (cpuCount (ms_system current))) / real_of_int ticks)"
proof -
  let ?t0 = "ct_totalTicks (sm_cpu (ms_system previous))"
  let ?t1 = "ct_totalTicks (sm_cpu (ms_system current))"
  let ?n = "cpuCount (ms_system current)"
  from assms have less: "?t0 < ?t1"
    by (auto simp: MetricsService_compare_def Let_def split: if_splits)
  obtain now before where now: "now \<in> set (ms_processes current)" "pc_pid now = p"
    and before: "samplesByPid (ms_processes previous) p = Some before"
      "pc_startTimeTicks before = pc_startTimeTicks now" "pc_cpuTimeTicks before \<le> pc_cpuTimeTicks now"
    and x: "x = processPercent (\<lambda>x. x) ?n (pc_cpuTimeTicks now - pc_cpuTimeTicks before) (?t1 - ?t0)"
    using assms
    by (auto simp: MetricsService_compare_def Let_def percent_of_def split: if_splits
        dest!: processPercents_sound)
  have ticks: "real (unat (?t1 - ?t0)) = real_of_int (int (unat ?t1) - int (unat ?t0))"
    using less by (simp add: unat_sub order_less_imp_le word_less_nat_alt of_nat_diff)
  have used: "real (unat (pc_cpuTimeTicks now - pc_cpuTimeTicks before)) =
      real (unat (pc_cpuTimeTicks now)) - real (unat (pc_cpuTimeTicks before))"
    using before(3) by (simp add: unat_sub word_le_nat_alt of_nat_diff)
  have positive: "0 < int (unat ?t1) - int (unat ?t0)"
    using less unfolding word_less_nat_alt by linarith
  have "0 \<le> real (unat (pc_cpuTimeTicks now)) - real (unat (pc_cpuTimeTicks before))"
    using before(3) unfolding word_le_nat_alt by linarith
  then have "0 \<le> 100 * (real (unat (pc_cpuTimeTicks now)) - real (unat (pc_cpuTimeTicks before))) *
      real (unat ?n) / real_of_int (int (unat ?t1) - int (unat ?t0))"
    using positive by (intro divide_nonneg_nonneg mult_nonneg_nonneg of_nat_0_le_iff) linarith+
  then have "x = min (100 * real (unat ?n))
      (100 * (real (unat (pc_cpuTimeTicks now)) - real (unat (pc_cpuTimeTicks before))) * real (unat ?n)
        / real_of_int (int (unat ?t1) - int (unat ?t0)))"
    unfolding x processPercent_def used ticks by (rule std_clamp_nonneg)
  with now before positive samplesByPid_mem [OF before(1)] show ?thesis by blast
qed

lemma demo_percent:
  "mv_processCpuPercent (MetricsService_compare (\<lambda>x. x) (demo_sample 10 5 1) (demo_sample 30 15 2)) 4 =
     Some 20"
  by (simp add: MetricsService_compare_def demo_sample_def Let_def samplesByPid_def cpuCount_def
      processPercent_def std_clamp_def)

theorem MetricsService_compare_same_process_witness:
  "\<exists>before now. before \<in> set (ms_processes (demo_sample 10 5 1)) \<and>
     now \<in> set (ms_processes (demo_sample 30 15 2)) \<and> pc_startTimeTicks before = pc_startTimeTicks now"
  using MetricsService_compare_same_process [OF demo_percent] by blast

end
