(* ===== verification/CliApp.thy ===== *)
theory CliApp
  imports CliText InspectService FindService DoctorService MetricsService
begin

text \<open>
  \<open>src/cli/CliApp.cpp\<close>, the class \<open>CliApp\<close>: the commands of the program, from the parsed command line
  to the exit code. The command line parser is CLI11, a parameter: \<open>ParsedArguments\<close> holds the
  variables \<open>run\<close> binds to its options and whether each subcommand was given. The standard streams,
  the SIGINT handler and the clock are the record \<open>Console\<close>, whose operations act on the same world as
  the services. Successive writes to a stream are one write of the joined text.

  A run ends with an exit code; with an exception, which only writing a JSON document can throw;
  still polling a service that was stopped, when the rounds given to it are over; or without a
  defined result: in the signed overflow of a relative time, or by reading an absent optional.
\<close>

section \<open>The environment of a run\<close>

record 'w Console =
  cn_output :: "string \<Rightarrow> ('w, unit) io"
  cn_error :: "string \<Rightarrow> ('w, unit) io"
  cn_getline :: "('w, string option) io"
  cn_clearInterrupt :: "('w, unit) io"
  cn_sigaction :: "('w, int option) io"
  cn_restoreAction :: "('w, unit) io"
  cn_interruptRequested :: "('w, bool) io"
  cn_systemNow :: "('w, int) io"
  cn_strerror :: "int \<Rightarrow> string"

record ParsedArguments =
  pa_json :: "bool option"
  pa_quiet :: bool
  pa_noColor :: bool
  pa_doctor :: bool
  pa_status :: bool
  pa_tui :: bool
  pa_process :: bool
  pa_stopProcess :: bool
  pa_killProcess :: bool
  pa_port :: bool
  pa_freePort :: bool
  pa_service :: bool
  pa_log :: bool
  pa_inspect :: bool
  pa_find :: bool
  pa_processPid :: "pid option"
  pa_rawCommand :: bool
  pa_processName :: "string option"
  pa_processUser :: "string option"
  pa_processService :: "string option"
  pa_stopPid :: pid
  pa_killPid :: pid
  pa_confirmKill :: bool
  pa_portNumber :: "u32 option"
  pa_freePortNumber :: u32
  pa_confirmRelease :: bool
  pa_serviceUnit :: "string option"
  pa_serviceAction :: string
  pa_confirmServiceAction :: bool
  pa_logUnit :: "string option"
  pa_logPid :: "pid option"
  pa_logLines :: u32
  pa_logSince :: "string option"
  pa_followLog :: bool
  pa_inspectExpression :: string
  pa_findQuery :: string

text \<open>The checks that are attached to the options: the ranges of process ids, ports and log lines and
  the names of the service actions. A value that was given has passed its check, an option marked as
  required was given with its subcommand, and a nested subcommand comes with its parent.\<close>

definition checkedPid :: "pid \<Rightarrow> bool" where
  "checkedPid p \<longleftrightarrow> 1 \<le> p \<and> p \<le> pid_max"

definition checkedPort :: "u32 \<Rightarrow> bool" where
  "checkedPort n \<longleftrightarrow> 1 \<le> n \<and> n \<le> 65535"

definition checkedArguments :: "ParsedArguments \<Rightarrow> bool" where
  "checkedArguments a \<longleftrightarrow>
     pred_option checkedPid (pa_processPid a) \<and>
     (pa_stopProcess a \<longrightarrow> pa_process a \<and> checkedPid (pa_stopPid a)) \<and>
     (pa_killProcess a \<longrightarrow> pa_process a \<and> checkedPid (pa_killPid a)) \<and>
     pred_option checkedPort (pa_portNumber a) \<and>
     (pa_freePort a \<longrightarrow> pa_port a \<and> checkedPort (pa_freePortNumber a)) \<and>
     pa_serviceAction a \<in> {[], ''start'', ''stop'', ''restart''} \<and>
     pred_option checkedPid (pa_logPid a) \<and> 1 \<le> pa_logLines a \<and> pa_logLines a \<le> 10000"

text \<open>\<open>CLI::ParseError\<close>: its exit code and message, what \<open>--json\<close> was set to before it was thrown, and
  what \<open>app.exit\<close> writes and returns for it.\<close>

record ParseFailure =
  pf_exitCode :: int
  pf_what :: string
  pf_json :: "bool option"
  pf_output :: string
  pf_error :: string
  pf_appExit :: int

record 'w CliEnv =
  en_console :: "'w Console"
  en_formats :: Formats
  en_dump :: json_dump
  en_timeZone :: LocalTime
  en_parse :: "string list \<Rightarrow> ParseFailure + ParsedArguments"
  en_noColor :: "string option"
  en_pollRounds :: nat

record 'w CliApp =
  ca_doctorService :: "'w DoctorService"
  ca_processService :: "'w ProcessService"
  ca_portService :: "'w PortService"
  ca_serviceService :: "'w ServiceService"
  ca_logService :: "'w LogService"
  ca_inspectService :: "'w InspectService"
  ca_findService :: "'w FindService"
  ca_statusService :: "'w MetricsService option"
  ca_tuiRunner :: "('w, unit result) io option"

datatype cli_outcome = Exits int | Throws | StillPolling | Undefined

record OutputOptions =
  oo_quiet :: bool
  oo_colorEnabled :: bool

definition outputOptionsOf :: "string option \<Rightarrow> ParsedArguments \<Rightarrow> OutputOptions" where
  "outputOptionsOf noColorEnvironment a =
     \<lparr>oo_quiet = pa_quiet a,
      oo_colorEnabled = (\<not> pa_noColor a \<and> (noColorEnvironment = None \<or> noColorEnvironment = Some []))\<rparr>"

text \<open>What the command bodies share: the environment, whether the output is JSON, and the options.\<close>

record 'w CliRun =
  cr_env :: "'w CliEnv"
  cr_json :: bool
  cr_options :: OutputOptions

section \<open>Streams, errors and confirmation\<close>

definition writeOutput :: "'w CliRun \<Rightarrow> string \<Rightarrow> ('w, unit) io" where
  "writeOutput R s = (if s = [] then return () else cn_output (en_console (cr_env R)) s)"

definition writeError :: "'w CliRun \<Rightarrow> string \<Rightarrow> ('w, unit) io" where
  "writeError R s = (if s = [] then return () else cn_error (en_console (cr_env R)) s)"

text \<open>With \<open>--quiet\<close> the diagnostics go to a stream nobody reads.\<close>

definition writeDiagnostics :: "'w CliRun \<Rightarrow> string \<Rightarrow> ('w, unit) io" where
  "writeDiagnostics R s = (if oo_quiet (cr_options R) then return () else writeError R s)"

definition writeUnlessQuiet :: "'w CliRun \<Rightarrow> string \<Rightarrow> ('w, unit) io" where
  "writeUnlessQuiet R s = (if oo_quiet (cr_options R) then return () else writeOutput R s)"

definition writeJson :: "'w CliRun \<Rightarrow> string option \<Rightarrow> int \<Rightarrow> ('w, cli_outcome) io" where
  "writeJson R document code =
     (case document of
        None \<Rightarrow> return Throws
      | Some s \<Rightarrow> do { _ \<leftarrow> writeOutput R (s @ ''\<newline>''); return (Exits code) })"

definition writeBoth :: "'w CliRun \<Rightarrow> string \<times> string \<Rightarrow> ('w, cli_outcome) io" where
  "writeBoth R texts = do {
     _ \<leftarrow> writeOutput R (fst texts);
     _ \<leftarrow> writeDiagnostics R (snd texts);
     return (Exits 0)
   }"

definition cli_fail :: "'w CliRun \<Rightarrow> string \<Rightarrow> string \<Rightarrow> Error \<Rightarrow> ('w, cli_outcome) io" where
  "cli_fail R command operation failed =
     (if cr_json R
      then writeJson R (JsonSerializer_error (en_dump (cr_env R)) command operation failed)
             (exitCode (er_code failed))
      else do {
        _ \<leftarrow> writeError R (er_message failed @ ''\<newline>'');
        return (Exits (exitCode (er_code failed)))
      })"

definition cli_confirm :: "'w CliRun \<Rightarrow> string \<Rightarrow> bool \<Rightarrow> ('w, bool) io" where
  "cli_confirm R prompt defaultYes = do {
     _ \<leftarrow> writeOutput R prompt;
     answer \<leftarrow> cn_getline (en_console (cr_env R));
     return (confirmed answer defaultYes)
   }"

definition cancelled :: "'w CliRun \<Rightarrow> ('w, cli_outcome) io" where
  "cancelled R = do { _ \<leftarrow> writeUnlessQuiet R ''Cancelled.\<newline>''; return (Exits 0) }"

abbreviation formatted :: "'w CliRun \<Rightarrow> string \<Rightarrow> fmt_arg list \<Rightarrow> string" where
  "formatted R \<equiv> fm_format (en_formats (cr_env R))"

section \<open>The SIGINT handler\<close>

definition InterruptGuard_install :: "'w Console \<Rightarrow> ('w, int option) io" where
  "InterruptGuard_install C = do { _ \<leftarrow> cn_clearInterrupt C; cn_sigaction C }"

definition InterruptGuard_requested :: "'w Console \<Rightarrow> ('w, bool) io" where
  "InterruptGuard_requested C = cn_interruptRequested C"

definition InterruptGuard_destroy :: "'w Console \<Rightarrow> bool \<Rightarrow> ('w, unit) io" where
  "InterruptGuard_destroy C installed = (if installed then cn_restoreAction C else return ())"

section \<open>The commands\<close>

definition runTui :: "'w CliRun \<Rightarrow> 'w CliApp \<Rightarrow> ('w, cli_outcome) io" where
  "runTui R A =
     (case ca_tuiRunner A of
        None \<Rightarrow> cli_fail R ''tui'' ''run'' (mkError Unavailable
          ''LX was built without terminal UI support'' 0 ''cli'' ''tui'')
      | Some runner \<Rightarrow> do {
          ran \<leftarrow> runner;
          case ran of Inl e \<Rightarrow> cli_fail R ''tui'' ''run'' e | Inr _ \<Rightarrow> return (Exits 0)
        })"

definition runDoctor :: "'w CliRun \<Rightarrow> 'w CliApp \<Rightarrow> ('w, cli_outcome) io" where
  "runDoctor R A = do {
     report \<leftarrow> DoctorService_inspect (ca_doctorService A);
     if cr_json R then writeJson R (JsonSerializer_doctor (en_dump (cr_env R)) report) 0
     else writeBoth R (printDoctorReport (en_formats (cr_env R)) report, [])
   }"

definition runStatus :: "'w CliRun \<Rightarrow> 'w CliApp \<Rightarrow> ('w, cli_outcome) io" where
  "runStatus R A =
     (case ca_statusService A of
        None \<Rightarrow> cli_fail R ''status'' ''read'' (mkError Unavailable
          ''Status metrics are unavailable'' 0 ''cli'' ''status'')
      | Some service \<Rightarrow> do {
          got \<leftarrow> StatusService_get (fm_round (en_formats (cr_env R))) service 250;
          case got of
            Inl e \<Rightarrow> cli_fail R ''status'' ''read'' e
          | Inr status \<Rightarrow>
              (if cr_json R then writeJson R (JsonSerializer_status (en_dump (cr_env R)) status) 0
               else writeBoth R (printStatus (en_formats (cr_env R)) status, []))
        })"

definition runInspect :: "'w CliRun \<Rightarrow> 'w CliApp \<Rightarrow> string \<Rightarrow> ('w, cli_outcome) io" where
  "runInspect R A expression = do {
     inspected \<leftarrow> InspectService_inspect (ca_inspectService A) expression;
     case inspected of
       Inl e \<Rightarrow> cli_fail R ''inspect'' ''inspect'' e
     | Inr graph \<Rightarrow>
         (if cr_json R then writeJson R (JsonSerializer_inspect (en_dump (cr_env R)) graph) 0
          else writeBoth R (printResourceGraph (en_formats (cr_env R)) graph))
   }"

definition runFind :: "'w CliRun \<Rightarrow> 'w CliApp \<Rightarrow> string \<Rightarrow> ('w, cli_outcome) io" where
  "runFind R A query = do {
     searched \<leftarrow> FindService_find (ca_findService A) query;
     case searched of
       Inl e \<Rightarrow> cli_fail R ''find'' ''search'' e
     | Inr found \<Rightarrow>
         (if cr_json R then writeJson R (JsonSerializer_find (en_dump (cr_env R)) found) 0
          else writeBoth R (printFindResult (en_formats (cr_env R)) found))
   }"

definition runStopProcess :: "'w CliRun \<Rightarrow> 'w CliApp \<Rightarrow> pid \<Rightarrow> ('w, cli_outcome) io" where
  "runStopProcess R A stopPid = do {
     stopped \<leftarrow> ProcessService_stop (ca_processService A) stopPid;
     case stopped of
       Inl e \<Rightarrow> cli_fail R ''process'' ''stop'' e
     | Inr delivery \<Rightarrow> do {
         _ \<leftarrow> writeUnlessQuiet R (formatted R ''Sent SIGTERM to PID {} via {}\<newline>''
           [FmtInt stopPid, FmtStr (mechanismName (sd_mechanism delivery))]);
         return (Exits 0)
       }
   }"

definition runKillProcess :: "'w CliRun \<Rightarrow> 'w CliApp \<Rightarrow> pid \<Rightarrow> bool \<Rightarrow> ('w, cli_outcome) io" where
  "runKillProcess R A killPid confirmKill =
     (case ProcessService_validateSignalTarget (ca_processService A) killPid of
        Inl e \<Rightarrow> cli_fail R ''process'' ''kill'' e
      | Inr _ \<Rightarrow> do {
          target \<leftarrow> ProcessService_inspect (ca_processService A) killPid;
          case target of
            Inl e \<Rightarrow> cli_fail R ''process'' ''kill'' e
          | Inr observed \<Rightarrow> do {
              agreed \<leftarrow> (if confirmKill then return True
                else cli_confirm R (formatted R ''Force termination of PID {} ({}) with SIGKILL? [y/N] ''
                  [FmtInt killPid, FmtStr (pi_name (ob_value observed))]) False);
              if \<not> agreed then cancelled R
              else do {
                killed \<leftarrow> ProcessService_kill (ca_processService A) killPid;
                case killed of
                  Inl e \<Rightarrow> cli_fail R ''process'' ''kill'' e
                | Inr delivery \<Rightarrow> do {
                    _ \<leftarrow> writeUnlessQuiet R (formatted R ''Sent SIGKILL to PID {} via {}\<newline>''
                      [FmtInt killPid, FmtStr (mechanismName (sd_mechanism delivery))]);
                    return (Exits 0)
                  }
              }
            }
        })"

text \<open>The processor figures are attached when they could be measured.\<close>

definition measuredOr ::
  "'w CliRun \<Rightarrow> 'w CliApp \<Rightarrow> (MetricsView \<Rightarrow> 'a) \<Rightarrow> 'a \<Rightarrow> ('w, 'a) io" where
  "measuredOr R A attach unmeasured =
     (case ca_statusService A of
        None \<Rightarrow> return unmeasured
      | Some service \<Rightarrow> do {
          metrics \<leftarrow> StatusService_measure (fm_round (en_formats (cr_env R))) service 250;
          return (case metrics of Inl _ \<Rightarrow> unmeasured | Inr view \<Rightarrow> attach view)
        })"

definition validateError :: "string \<Rightarrow> Error" where
  "validateError message = mkError InvalidArgument message 0 ''cli'' ''validate''"

definition runProcess :: "'w CliRun \<Rightarrow> 'w CliApp \<Rightarrow> ParsedArguments \<Rightarrow> ('w, cli_outcome) io" where
  "runProcess R A a =
     (let hasFilters = (pa_processName a \<noteq> None \<or> pa_processUser a \<noteq> None \<or> pa_processService a \<noteq> None) in
      case pa_processPid a of
        None \<Rightarrow>
          (if pa_rawCommand a
           then cli_fail R ''process'' ''validate'' (validateError ''--raw-command requires a process PID'')
           else do {
             listing \<leftarrow> ProcessService_list (ca_processService A)
               \<lparr>pq_name = pa_processName a, pq_user = pa_processUser a, pq_systemdUnit = pa_processService a\<rparr>;
             case listing of
               Inl e \<Rightarrow> cli_fail R ''process'' ''list'' e
             | Inr observed \<Rightarrow> do {
                 shown \<leftarrow> measuredOr R A (attachCpuToAll observed) observed;
                 if cr_json R then writeJson R (JsonSerializer_processes (en_dump (cr_env R)) shown) 0
                 else writeBoth R (printProcesses (en_formats (cr_env R)) shown)
               }
           })
      | Some processPid \<Rightarrow>
          (if hasFilters
           then cli_fail R ''process'' ''validate''
             (validateError ''Process PID cannot be combined with list filters'')
           else do {
             inspected \<leftarrow> ProcessService_inspect (ca_processService A) processPid;
             case inspected of
               Inl e \<Rightarrow> cli_fail R ''process'' ''inspect'' e
             | Inr observed \<Rightarrow> do {
                 shown \<leftarrow> measuredOr R A
                   (\<lambda>view. observed\<lparr>ob_value := attachCpuToOne (ob_value observed) view\<rparr>) observed;
                 if cr_json R
                 then writeJson R (JsonSerializer_process (en_dump (cr_env R)) shown (pa_rawCommand a)) 0
                 else writeBoth R (printProcess (en_formats (cr_env R)) shown (pa_rawCommand a)
                        (oo_quiet (cr_options R)), [])
               }
           }))"

definition runServiceAction ::
  "'w CliRun \<Rightarrow> 'w CliApp \<Rightarrow> string \<Rightarrow> string \<Rightarrow> bool \<Rightarrow> ('w, cli_outcome) io" where
  "runServiceAction R A unit action confirmedAlready = do {
     agreed \<leftarrow> (if (action = ''stop'' \<or> action = ''restart'') \<and> \<not> confirmedAlready
       then cli_confirm R (formatted R ''{} {}? [y/N] ''
         [FmtStr (if action = ''stop'' then ''Stop'' else ''Restart''), FmtStr unit]) False
       else return True);
     if \<not> agreed then cancelled R
     else do {
       submitted \<leftarrow> (if action = ''start'' then ServiceService_start (ca_serviceService A) unit
         else if action = ''stop'' then ServiceService_stop (ca_serviceService A) unit
         else ServiceService_restart (ca_serviceService A) unit);
       case submitted of
         Inl e \<Rightarrow> cli_fail R ''service'' action e
       | Inr _ \<Rightarrow> do {
           _ \<leftarrow> writeUnlessQuiet R (formatted R ''{} submitted for {}\<newline>'' [FmtStr action, FmtStr unit]);
           return (Exits 0)
         }
     }
   }"

definition runService :: "'w CliRun \<Rightarrow> 'w CliApp \<Rightarrow> ParsedArguments \<Rightarrow> ('w, cli_outcome) io" where
  "runService R A a =
     (case pa_serviceUnit a of
        None \<Rightarrow> do {
          listing \<leftarrow> ServiceService_list (ca_serviceService A);
          case listing of
            Inl e \<Rightarrow> cli_fail R ''service'' ''list'' e
          | Inr observed \<Rightarrow>
              (if cr_json R then writeJson R (JsonSerializer_services (en_dump (cr_env R)) observed) 0
               else writeBoth R (printServices observed))
        }
      | Some unit \<Rightarrow>
          (if pa_serviceAction a = []
           then do {
             inspected \<leftarrow> ServiceService_inspect (ca_serviceService A) unit;
             case inspected of
               Inl e \<Rightarrow> cli_fail R ''service'' ''inspect'' e
             | Inr observed \<Rightarrow>
                 (if cr_json R then writeJson R (JsonSerializer_service (en_dump (cr_env R)) observed) 0
                  else writeBoth R (printService (en_formats (cr_env R)) observed))
           }
           else runServiceAction R A unit (pa_serviceAction a) (pa_confirmServiceAction a)))"

text \<open>The sink of \<open>log --follow\<close>. An exception thrown in it unwinds the provider's loop; the model's sink
  returns an error of its own for it, with which the loop ends too.\<close>

definition sinkThrew :: Error where
  "sinkThrew = mkError OperationFailed ''json exception'' 0 ''nlohmann'' ''dump''"

definition followSink :: "'w CliRun \<Rightarrow> 'w JournalEntrySink" where
  "followSink R entry =
     (if cr_json R
      then (case JsonSerializer_logEvent (en_dump (cr_env R)) entry of
              None \<Rightarrow> return (failure sinkThrew)
            | Some s \<Rightarrow> do { _ \<leftarrow> writeOutput R (s @ ''\<newline>''); return (success ()) })
      else do {
        _ \<leftarrow> writeBoth R (printJournalEntry (en_formats (cr_env R)) entry);
        return (success ())
      })"

definition runFollow :: "'w CliRun \<Rightarrow> 'w CliApp \<Rightarrow> LogQuery \<Rightarrow> ('w, cli_outcome) io" where
  "runFollow R A query =
     (let C = en_console (cr_env R) in do {
        installed \<leftarrow> InterruptGuard_install C;
        case installed of
          Some n \<Rightarrow> cli_fail R ''log'' ''follow'' (mkError OperationFailed
            (''Unable to install SIGINT handler: '' @ cn_strerror C n) n ''cli'' ''install SIGINT handler'')
        | None \<Rightarrow> do {
            followed \<leftarrow> LogService_follow (ca_logService A) query (followSink R) (InterruptGuard_requested C);
            outcome \<leftarrow> (case followed of
              Inr _ \<Rightarrow> return (Exits 0)
            | Inl e \<Rightarrow>
                (if e = sinkThrew then return Throws
                 else if er_code e = Interrupted then return (Exits 130)
                 else cli_fail R ''log'' ''follow'' e));
            _ \<leftarrow> InterruptGuard_destroy C True;
            return outcome
          }
      })"

definition runLog :: "'w CliRun \<Rightarrow> 'w CliApp \<Rightarrow> ParsedArguments \<Rightarrow> ('w, cli_outcome) io" where
  "runLog R A a =
     (let query = default_LogQuery\<lparr>lq_unit := pa_logUnit a, lq_pid := pa_logPid a,
                                   lq_limit := unat (pa_logLines a)\<rparr>;
          continue = (\<lambda>query.
            if pa_followLog a then runFollow R A query
            else do {
              entries \<leftarrow> LogService_read (ca_logService A) query;
              case entries of
                Inl e \<Rightarrow> cli_fail R ''log'' ''read'' e
              | Inr observed \<Rightarrow>
                  (if cr_json R then writeJson R (JsonSerializer_logs (en_dump (cr_env R)) observed) 0
                   else writeBoth R (printJournalEntries (en_formats (cr_env R)) observed))
            }) in
      case pa_logSince a of
        None \<Rightarrow> continue query
      | Some since \<Rightarrow> do {
          now \<leftarrow> cn_systemNow (en_console (cr_env R));
          case LogService_parseSince (en_timeZone (cr_env R)) since now of
            None \<Rightarrow> return Undefined
          | Some (Inl e) \<Rightarrow> cli_fail R ''log'' ''read'' e
          | Some (Inr t) \<Rightarrow> continue (query\<lparr>lq_since := Some t\<rparr>)
        })"

text \<open>\<open>port free\<close>: first the service that owns the port, else a termination signal to the owners, and for
  those that stay a kill signal; each step is confirmed unless \<open>--yes\<close> is given.\<close>

definition releaseByService ::
  "'w CliRun \<Rightarrow> 'w CliApp \<Rightarrow> ParsedArguments \<Rightarrow> PortReleasePlan \<Rightarrow> string \<Rightarrow> ('w, cli_outcome) io" where
  "releaseByService R A a plan unit = do {
     agreed \<leftarrow> (if pa_confirmRelease a then return True
       else cli_confirm R (formatted R ''Stop {}? [Y/n] '' [FmtStr unit]) True);
     if \<not> agreed then cancelled R
     else do {
       stopped \<leftarrow> PortService_stopManagedService (en_pollRounds (cr_env R)) (ca_portService A) plan;
       case stopped of
         None \<Rightarrow> return StillPolling
       | Some (Inl e) \<Rightarrow> cli_fail R ''port'' ''free'' e
       | Some (Inr released) \<Rightarrow> do {
           _ \<leftarrow> writeDiagnostics R (warningLines (ob_warnings released));
           _ \<leftarrow> writeUnlessQuiet R (formatted R ''Port {} released by stopping {}.\<newline>''
             [FmtInt (uint (pa_freePortNumber a)), FmtStr unit]);
           return (Exits 0)
         }
     }
   }"

definition releaseByForce ::
  "'w CliRun \<Rightarrow> 'w CliApp \<Rightarrow> ParsedArguments \<Rightarrow> PortReleaseResult \<Rightarrow> ('w, cli_outcome) io" where
  "releaseByForce R A a terminated = do {
     _ \<leftarrow> writeOutput R ''Port is still occupied.\<newline>'';
     agreed \<leftarrow> (if pa_confirmRelease a then return True
       else cli_confirm R ''Force remaining owners with SIGKILL? [y/N] '' False);
     if \<not> agreed then cancelled R
     else (case rr_remaining terminated of
        None \<Rightarrow> return Undefined
      | Some remaining \<Rightarrow> do {
          forced \<leftarrow> PortService_force (ca_portService A) remaining;
          case forced of
            Inl e \<Rightarrow> cli_fail R ''port'' ''free'' e
          | Inr released \<Rightarrow> do {
              _ \<leftarrow> writeDiagnostics R (warningLines (ob_warnings released));
              _ \<leftarrow> writeUnlessQuiet R (formatted R ''Port {} released with SIGKILL.\<newline>''
                [FmtInt (uint (pa_freePortNumber a))]);
              return (Exits 0)
            }
        })
   }"

definition releaseBySignal ::
  "'w CliRun \<Rightarrow> 'w CliApp \<Rightarrow> ParsedArguments \<Rightarrow> PortReleasePlan \<Rightarrow> ('w, cli_outcome) io" where
  "releaseBySignal R A a plan = do {
     agreed \<leftarrow> (if pa_confirmRelease a then return True
       else cli_confirm R ''Send SIGTERM to all owners? [Y/n] '' True);
     if \<not> agreed then cancelled R
     else do {
       terminated \<leftarrow> PortService_terminate (ca_portService A) plan;
       case terminated of
         Inl e \<Rightarrow> cli_fail R ''port'' ''free'' e
       | Inr observed \<Rightarrow> do {
           _ \<leftarrow> writeDiagnostics R (warningLines (ob_warnings observed));
           if rr_released (ob_value observed)
           then do {
             _ \<leftarrow> writeUnlessQuiet R (formatted R ''Port {} released with SIGTERM.\<newline>''
               [FmtInt (uint (pa_freePortNumber a))]);
             return (Exits 0)
           }
           else releaseByForce R A a (ob_value observed)
         }
     }
   }"

definition runFreePort :: "'w CliRun \<Rightarrow> 'w CliApp \<Rightarrow> ParsedArguments \<Rightarrow> ('w, cli_outcome) io" where
  "runFreePort R A a = do {
     prepared \<leftarrow> PortService_prepareRelease (ca_portService A) (ucast (pa_freePortNumber a));
     case prepared of
       Inl e \<Rightarrow> cli_fail R ''port'' ''free'' e
     | Inr observed \<Rightarrow>
         (let plan = ob_value observed in do {
            _ \<leftarrow> writeOutput R (printReleasePlan (en_formats (cr_env R)) plan);
            case rp_recommendedUnit plan of
              Some unit \<Rightarrow> releaseByService R A a plan unit
            | None \<Rightarrow> releaseBySignal R A a plan
          })
   }"

definition runPort :: "'w CliRun \<Rightarrow> 'w CliApp \<Rightarrow> u32 option \<Rightarrow> ('w, cli_outcome) io" where
  "runPort R A portNumber =
     (let query = default_SocketQuery\<lparr>sq_localPort := map_option ucast portNumber\<rparr>;
          operation = (if portNumber = None then ''list'' else ''inspect'') in do {
        inspected \<leftarrow> PortService_inspect (ca_portService A) query;
        case inspected of
          Inl e \<Rightarrow> cli_fail R ''port'' operation e
        | Inr observed \<Rightarrow>
            (case portNumber of
               Some n \<Rightarrow>
                 (if ob_value observed = []
                  then cli_fail R ''port'' ''inspect'' (mkError NotFound
                         (''No socket found for port '' @ nat_str (unat n)) 0 ''cli'' ''inspect'')
                  else if cr_json R
                  then writeJson R (JsonSerializer_ports (en_dump (cr_env R)) observed operation) 0
                  else writeBoth R (printPorts (en_formats (cr_env R)) observed))
             | None \<Rightarrow>
                 (if cr_json R
                  then writeJson R (JsonSerializer_ports (en_dump (cr_env R)) observed operation) 0
                  else writeBoth R (printPorts (en_formats (cr_env R)) observed)))
      })"

section \<open>Dispatch\<close>

definition mutating :: "ParsedArguments \<Rightarrow> bool" where
  "mutating a \<longleftrightarrow> pa_stopProcess a \<or> pa_killProcess a \<or> pa_freePort a \<or>
     (pa_service a \<and> pa_serviceAction a \<noteq> []) \<or> pa_tui a"

definition CliApp_dispatch :: "'w CliRun \<Rightarrow> 'w CliApp \<Rightarrow> ParsedArguments \<Rightarrow> ('w, cli_outcome) io" where
  "CliApp_dispatch R A a =
     (if cr_json R \<and> mutating a
      then cli_fail R (if pa_freePort a then ''port'' else if pa_service a then ''service'' else ''process'')
             ''mutate'' (validateError ''--json is only supported by read-only commands'')
      else if pa_tui a then runTui R A
      else if pa_doctor a then runDoctor R A
      else if pa_status a then runStatus R A
      else if pa_inspect a then runInspect R A (pa_inspectExpression a)
      else if pa_find a then runFind R A (pa_findQuery a)
      else if pa_stopProcess a then runStopProcess R A (pa_stopPid a)
      else if pa_killProcess a then runKillProcess R A (pa_killPid a) (pa_confirmKill a)
      else if pa_process a then runProcess R A a
      else if pa_service a then runService R A a
      else if pa_log a then runLog R A a
      else if pa_freePort a then runFreePort R A a
      else if pa_port a then runPort R A (pa_portNumber a)
      else return (Exits 0))"

text \<open>The scan of \<open>argv\<close> for \<open>--json\<close>, and what the parser's flag makes of it.\<close>

definition jsonRequested :: "string list \<Rightarrow> bool option \<Rightarrow> bool" where
  "jsonRequested args flag = (case flag of None \<Rightarrow> ''--json'' \<in> set args | Some b \<Rightarrow> b)"

definition CliApp_run :: "'w CliEnv \<Rightarrow> 'w CliApp \<Rightarrow> string list \<Rightarrow> ('w, cli_outcome) io" where
  "CliApp_run E A args =
     (case en_parse E args of
        Inr a \<Rightarrow>
          CliApp_dispatch \<lparr>cr_env = E, cr_json = jsonRequested args (pa_json a),
                           cr_options = outputOptionsOf (en_noColor E) a\<rparr> A a
      | Inl pf \<Rightarrow>
          (let R = \<lparr>cr_env = E, cr_json = jsonRequested args (pf_json pf),
                    cr_options = \<lparr>oo_quiet = False, oo_colorEnabled = False\<rparr>\<rparr> in
           if pf_exitCode pf \<noteq> 0 \<and> cr_json R
           then writeJson R (JsonSerializer_error (en_dump E) ''cli'' ''parse''
                  (mkError InvalidArgument (pf_what pf) 0 ''cli'' ''parse'')) 2
           else do {
             _ \<leftarrow> writeOutput R (pf_output pf);
             _ \<leftarrow> writeError R (pf_error pf);
             return (Exits (if pf_appExit pf = 0 then 0 else 2))
           }))"

section \<open>The calls of a run\<close>

text \<open>
  A run over recorded services: the console is not recorded, and the journal, whose \<open>follow\<close> takes
  programs over the same worlds, is one over recorded worlds from the start.
\<close>

definition recordMetricsService :: "'w MetricsService \<Rightarrow> 'w recorded MetricsService" where
  "recordMetricsService S =
     \<lparr>me_system = recordSystemMetrics (me_system S), me_processes = recordProcessMetrics (me_processes S),
      me_waiter = (\<lambda>d. traced (CallSleep d) (me_waiter S d))\<rparr>"

definition recordDoctorService ::
  "'w recorded IJournalProvider \<Rightarrow> 'w DoctorService \<Rightarrow> 'w recorded DoctorService" where
  "recordDoctorService J S =
     \<lparr>do_processProvider = recordProcessProvider (do_processProvider S),
      do_socketProvider = recordSocketProvider (do_socketProvider S),
      do_signalProvider = recordSignalProvider (do_signalProvider S),
      do_serviceProvider = recordServiceProvider (do_serviceProvider S),
      do_journalProvider = J, do_getpid = do_getpid S\<rparr>"

definition silentConsole :: "'w Console \<Rightarrow> 'w recorded Console" where
  "silentConsole C =
     \<lparr>cn_output = (\<lambda>s. silently (cn_output C s)), cn_error = (\<lambda>s. silently (cn_error C s)),
      cn_getline = silently (cn_getline C), cn_clearInterrupt = silently (cn_clearInterrupt C),
      cn_sigaction = silently (cn_sigaction C), cn_restoreAction = silently (cn_restoreAction C),
      cn_interruptRequested = silently (cn_interruptRequested C), cn_systemNow = silently (cn_systemNow C),
      cn_strerror = cn_strerror C\<rparr>"

definition silentEnv :: "'w CliEnv \<Rightarrow> 'w recorded CliEnv" where
  "silentEnv E =
     \<lparr>en_console = silentConsole (en_console E), en_formats = en_formats E, en_dump = en_dump E,
      en_timeZone = en_timeZone E, en_parse = en_parse E, en_noColor = en_noColor E,
      en_pollRounds = en_pollRounds E\<rparr>"

definition recordCliApp :: "'w recorded IJournalProvider \<Rightarrow> ('w recorded, unit result) io option \<Rightarrow>
    'w CliApp \<Rightarrow> 'w recorded CliApp" where
  "recordCliApp J tui A =
     \<lparr>ca_doctorService = recordDoctorService J (ca_doctorService A),
      ca_processService = recordProcessService (ca_processService A),
      ca_portService = recordPortService (ca_portService A),
      ca_serviceService = recordServiceService (ca_serviceService A),
      ca_logService = \<lparr>ls_journalProvider = J\<rparr>,
      ca_inspectService = recordInspectService \<lparr>ls_journalProvider = J\<rparr> (ca_inspectService A),
      ca_findService = recordFindService (ca_findService A),
      ca_statusService = map_option recordMetricsService (ca_statusService A),
      ca_tuiRunner = tui\<rparr>"

lemma recordCliApp_sel [simp]:
  "ca_doctorService (recordCliApp J tui A) = recordDoctorService J (ca_doctorService A)"
  "ca_processService (recordCliApp J tui A) = recordProcessService (ca_processService A)"
  "ca_portService (recordCliApp J tui A) = recordPortService (ca_portService A)"
  "ca_serviceService (recordCliApp J tui A) = recordServiceService (ca_serviceService A)"
  "ca_logService (recordCliApp J tui A) = \<lparr>ls_journalProvider = J\<rparr>"
  "ca_inspectService (recordCliApp J tui A) =
     recordInspectService \<lparr>ls_journalProvider = J\<rparr> (ca_inspectService A)"
  "ca_findService (recordCliApp J tui A) = recordFindService (ca_findService A)"
  "ca_statusService (recordCliApp J tui A) = map_option recordMetricsService (ca_statusService A)"
  "ca_tuiRunner (recordCliApp J tui A) = tui"
  by (simp_all add: recordCliApp_def)

context reading_journal
begin

lemma quiet_doctor: "quiet destructive (DoctorService_inspect (recordDoctorService J S))"
  unfolding DoctorService_inspect_def recordDoctorService_def DoctorService.simps
    recordProcessProvider_sel recordSignalProvider_sel recordServiceProvider_sel recordOther_sel Let_def
  by (intro quiet_intros quiet_probe) simp_all

end

lemma silentEnv_sel [simp]:
  "en_formats (silentEnv E) = en_formats E" "en_dump (silentEnv E) = en_dump E"
  "en_timeZone (silentEnv E) = en_timeZone E" "en_parse (silentEnv E) = en_parse E"
  "en_noColor (silentEnv E) = en_noColor E" "en_pollRounds (silentEnv E) = en_pollRounds E"
  "en_console (silentEnv E) = silentConsole (en_console E)"
  by (simp_all add: silentEnv_def)

lemma silentConsole_sel [simp]:
  "cn_output (silentConsole C) s = silently (cn_output C s)"
  "cn_error (silentConsole C) s = silently (cn_error C s)"
  "cn_getline (silentConsole C) = silently (cn_getline C)"
  "cn_clearInterrupt (silentConsole C) = silently (cn_clearInterrupt C)"
  "cn_sigaction (silentConsole C) = silently (cn_sigaction C)"
  "cn_restoreAction (silentConsole C) = silently (cn_restoreAction C)"
  "cn_interruptRequested (silentConsole C) = silently (cn_interruptRequested C)"
  "cn_systemNow (silentConsole C) = silently (cn_systemNow C)"
  "cn_strerror (silentConsole C) = cn_strerror C"
  by (simp_all add: silentConsole_def)

abbreviation silent_run :: "'w CliEnv \<Rightarrow> bool \<Rightarrow> OutputOptions \<Rightarrow> 'w recorded CliRun" where
  "silent_run E json opts \<equiv> \<lparr>cr_env = silentEnv E, cr_json = json, cr_options = opts\<rparr>"

text \<open>Talking to the user calls no provider.\<close>

lemma quiet_writes [quiet_intros]:
  "quiet D (writeOutput (silent_run E json opts) s)"
  "quiet D (writeError (silent_run E json opts) s)"
  "quiet D (writeDiagnostics (silent_run E json opts) s)"
  "quiet D (writeUnlessQuiet (silent_run E json opts) s)"
  "quiet D (writeJson (silent_run E json opts) d n)"
  "quiet D (writeBoth (silent_run E json opts) texts)"
  "quiet D (cli_fail (silent_run E json opts) c oper e)"
  "quiet D (cli_confirm (silent_run E json opts) prompt dflt)"
  "quiet D (cancelled (silent_run E json opts))"
  by (simp_all add: writeOutput_def writeError_def writeDiagnostics_def writeUnlessQuiet_def writeJson_def
      writeBoth_def cli_fail_def cli_confirm_def cancelled_def quiet_intros split: option.split)

lemma quiet_measure [quiet_intros]:
  "quiet destructive (MetricsService_measure rnd (recordMetricsService S) d)"
  unfolding MetricsService_measure_def recordMetricsService_def MetricsService.simps(3)
  by (intro quiet_intros) simp

lemma quiet_status [quiet_intros]:
  "quiet destructive (StatusService_get rnd (recordMetricsService S) d)"
  "quiet destructive (StatusService_measure rnd (recordMetricsService S) d)"
  unfolding StatusService_get_def StatusService_measure_def by (intro quiet_intros)+

lemma quiet_case_map_option [quiet_intros]:
  "quiet D m \<Longrightarrow> (\<And>y. r = Some y \<Longrightarrow> quiet D (f (h y))) \<Longrightarrow>
   quiet D (case map_option h r of None \<Rightarrow> m | Some x \<Rightarrow> f x)"
  by (cases r) simp_all

lemma quiet_measuredOr [quiet_intros]:
  "quiet destructive (measuredOr (silent_run E json opts) (recordCliApp J tui A) f u)"
  unfolding measuredOr_def recordCliApp_sel by (intro quiet_intros)

lemmas cli_sel = recordCliApp_sel CliRun.simps silentEnv_sel silentConsole_sel

context reading_journal
begin

lemma quiet_runFollow:
  "quiet destructive (runFollow (silent_run E json opts) (recordCliApp J tui A) q)"
proof -
  have "quiet destructive (followSink (silent_run E json opts) e)" for e
    unfolding followSink_def by (intro quiet_intros)
  then show ?thesis
    unfolding runFollow_def cli_sel Let_def InterruptGuard_install_def InterruptGuard_requested_def
      InterruptGuard_destroy_def
    by (intro quiet_intros quiet_log_follow)
qed

lemma quiet_runLog: "quiet destructive (runLog (silent_run E json opts) (recordCliApp J tui A) a)"
  unfolding runLog_def cli_sel Let_def by (intro quiet_intros quiet_read quiet_runFollow)

text \<open>The commands that only read.\<close>

lemma quiet_reading_commands:
  "quiet destructive (runDoctor (silent_run E json opts) (recordCliApp J tui A))"
  "quiet destructive (runStatus (silent_run E json opts) (recordCliApp J tui A))"
  "quiet destructive (runInspect (silent_run E json opts) (recordCliApp J tui A) x)"
  "quiet destructive (runFind (silent_run E json opts) (recordCliApp J tui A) x)"
  "quiet destructive (runProcess (silent_run E json opts) (recordCliApp J tui A) a)"
  "quiet destructive (runPort (silent_run E json opts) (recordCliApp J tui A) n)"
  unfolding runDoctor_def runStatus_def runInspect_def runFind_def runProcess_def runPort_def
    recordCliApp_sel Let_def
  by (intro quiet_intros quiet_doctor journal_service_quiet)+

end

section \<open>The calls a command line asks for\<close>

text \<open>
  The call \<open>c\<close> changes the machine the way the command line says: it signals the process that was
  named; or acts on the unit that was named; or, to free a port, signals an owner of one of the
  port's sockets as an inspection found them, or stops the service such an inspection recommended.
\<close>

definition frees :: "'w PortService \<Rightarrow> u16 \<Rightarrow> call \<Rightarrow> bool" where
  "frees S port c \<longleftrightarrow>
     (\<exists>w cur. result_of (PortService_prepareRelease S port) w = Inr cur \<and>
        ((\<exists>p sig. c = CallSend p sig \<and> p \<in> owners_of (ob_value cur) \<and> may_signal (po_processService S) p) \<or>
         (\<exists>u n. rp_recommendedUnit (ob_value cur) = Some u \<and> ServiceService_normalizeUnit u = Inr n \<and>
            c = CallStop n)))"

definition requested_call :: "'w CliApp \<Rightarrow> ParsedArguments \<Rightarrow> call \<Rightarrow> bool" where
  "requested_call A a c \<longleftrightarrow>
     pa_stopProcess a \<and> c = CallSend (pa_stopPid a) Terminate \<and>
       may_signal (ca_processService A) (pa_stopPid a) \<or>
     pa_killProcess a \<and> c = CallSend (pa_killPid a) Kill \<and>
       may_signal (ca_processService A) (pa_killPid a) \<or>
     pa_service a \<and> (\<exists>u n. pa_serviceUnit a = Some u \<and> ServiceService_normalizeUnit u = Inr n \<and>
       (pa_serviceAction a, c) \<in> {(''start'', CallStart n), (''stop'', CallStop n), (''restart'', CallRestart n)}) \<or>
     pa_freePort a \<and> (\<exists>port. uint port = uint (pa_freePortNumber a) \<and> frees (ca_portService A) port c)"

text \<open>The conversion of a checked port number to 16 bits keeps its value.\<close>

lemma checkedPort_ucast: "checkedPort n \<Longrightarrow> uint (ucast n :: u16) = uint n"
  by (simp add: checkedPort_def unsigned_ucast_eq take_bit_eq_mod word_le_def)

lemma quiet_signal:
  "(may_signal S p \<Longrightarrow> \<not> D (CallSend p sig)) \<Longrightarrow>
   quiet D (ProcessService_signal (recordProcessService S) p sig)"
  unfolding quiet_def
  by (rule emits_mono [OF emits_ProcessService_signal]) (auto split: if_splits)

lemma quiet_stop_kill:
  "(may_signal S p \<Longrightarrow> \<not> D (CallSend p Terminate)) \<Longrightarrow>
     quiet D (ProcessService_stop (recordProcessService S) p)"
  "(may_signal S p \<Longrightarrow> \<not> D (CallSend p Kill)) \<Longrightarrow>
     quiet D (ProcessService_kill (recordProcessService S) p)"
  unfolding ProcessService_stop_def ProcessService_kill_def by (rule quiet_signal; simp)+

lemma quiet_service_actions:
  "(\<And>n. ServiceService_normalizeUnit u = Inr n \<Longrightarrow> \<not> D (CallStart n)) \<Longrightarrow>
     quiet D (ServiceService_start (recordServiceService S) u)"
  "(\<And>n. ServiceService_normalizeUnit u = Inr n \<Longrightarrow> \<not> D (CallStop n)) \<Longrightarrow>
     quiet D (ServiceService_stop (recordServiceService S) u)"
  "(\<And>n. ServiceService_normalizeUnit u = Inr n \<Longrightarrow> \<not> D (CallRestart n)) \<Longrightarrow>
     quiet D (ServiceService_restart (recordServiceService S) u)"
  by (auto simp: ServiceService_defs intro!: quiet_intros)

lemma quiet_stopManagedService:
  assumes "\<And>e. D e \<Longrightarrow> destructive e"
    and "\<And>u n. rp_recommendedUnit plan = Some u \<Longrightarrow> ServiceService_normalizeUnit u = Inr n \<Longrightarrow> \<not> D (CallStop n)"
  shows "quiet D (PortService_stopManagedService fuel (recordPortService S) plan)"
proof -
  have poll: "quiet D (pollReleased fuel (recordPortService S) plan u d ws)" for u d ws
    by (rule quiet_mono [OF quiet_pollReleased assms(1)])
  have prepare: "quiet D (PortService_prepareRelease (recordPortService S) p)" for p
    by (rule quiet_mono [OF quiet_PortService_prepareRelease assms(1)])
  have now: "\<not> D CallSteadyNow" using assms(1) by fastforce
  show ?thesis
  proof (cases "rp_recommendedUnit plan = None \<or> po_serviceService S = None")
    case True
    then show ?thesis
      by (auto simp: PortService_stopManagedService_def quiet_intros split: option.split)
  next
    case False
    then obtain u T where "rp_recommendedUnit plan = Some u" "po_serviceService S = Some T" by auto
    then show ?thesis
      unfolding PortService_stopManagedService_def recordPortService_sel recordOther_sel
      by (simp add: quiet_intros quiet_service_actions assms(2) now poll prepare
          del: pollReleased.simps)
  qed
qed

text \<open>A plan that was prepared names the owners of its sockets.\<close>

lemma prepared_owners:
  "result_of (PortService_prepareRelease S port) w = Inr cur \<Longrightarrow>
   set (rp_ownerPids (ob_value cur)) = owners_of (ob_value cur) \<and> rp_localPort (ob_value cur) = port"
  using prepareRelease_ok [of S port w cur] by (auto simp: plan_ok_def)

lemma quiet_release:
  assumes "result_of (PortService_prepareRelease S port) w = Inr cur"
  shows "quiet (\<lambda>c. destructive c \<and> \<not> frees S port c)
      (PortService_terminate (recordPortService S) (ob_value cur))"
    and "quiet (\<lambda>c. destructive c \<and> \<not> frees S port c)
      (PortService_force (recordPortService S) (ob_value cur))"
proof -
  have "quiet (\<lambda>c. destructive c \<and> \<not> frees S port c)
      (releaseWith sig (recordPortService S) (ob_value cur))" for sig
    using prepared_owners [OF assms] assms
    by (intro quiet_mono [OF quiet_releaseWith]) (auto simp: frees_def)
  from this [of Terminate] this [of Kill] show
    "quiet (\<lambda>c. destructive c \<and> \<not> frees S port c)
       (PortService_terminate (recordPortService S) (ob_value cur))"
    "quiet (\<lambda>c. destructive c \<and> \<not> frees S port c)
       (PortService_force (recordPortService S) (ob_value cur))"
    by (simp_all add: releaseWith_def)
qed

lemma prepareRelease_recorded:
  "result_of (PortService_prepareRelease (recordPortService S) port) s =
   result_of (PortService_prepareRelease S port) (fst s)"
  by (rule transparentD(1) [OF transparent_PortService_prepareRelease])

lemma quiet_runFreePort:
  defines "D \<equiv> \<lambda>S (a :: ParsedArguments) c. destructive c \<and> \<not> frees S (ucast (pa_freePortNumber a)) c"
  shows "quiet (D (ca_portService A) a) (runFreePort (silent_run E json opts) (recordCliApp J tui A) a)"
proof -
  let ?R = "silent_run E json opts" and ?A = "recordCliApp J tui A" and ?S = "ca_portService A"
  let ?port = "ucast (pa_freePortNumber a) :: u16"
  have force: "quiet (D ?S a) (releaseByForce ?R ?A a (ob_value ob))"
    if ob: "result_of (PortService_terminate (recordPortService ?S) (ob_value cur)) s = Inr ob"
        "\<not> rr_released (ob_value ob)"
      and cur: "result_of (PortService_prepareRelease ?S ?port) w = Inr cur" for ob cur s w
  proof -
    obtain s' after where
        "result_of (PortService_prepareRelease (recordPortService ?S) (rp_localPort (ob_value cur))) s' = Inr after"
        "rr_remaining (ob_value ob) = Some (ob_value after)"
      using ob by (rule terminate_remaining)
    then have "result_of (PortService_prepareRelease ?S ?port) (fst s') = Inr after"
        "rr_remaining (ob_value ob) = Some (ob_value after)"
      using prepared_owners [OF cur] by (simp_all add: prepareRelease_recorded)
    then show ?thesis
      unfolding releaseByForce_def recordCliApp_sel
      by (simp add: quiet_intros quiet_release(2) [folded D_def] D_def)
  qed
  have signal: "quiet (D ?S a) (releaseBySignal ?R ?A a (ob_value cur))"
    if cur: "result_of (PortService_prepareRelease ?S ?port) w = Inr cur" for cur w
  proof -
    have go: "quiet (D ?S a) (PortService_terminate (recordPortService ?S) (ob_value cur))"
      using quiet_release(1) [OF cur] unfolding D_def .
    show ?thesis
      unfolding releaseBySignal_def recordCliApp_sel
      by (rule quiet_bind, intro quiet_intros, rule quiet_if, rule quiet_writes(9),
          rule quiet_bind_result [OF go])
         (intro quiet_intros force [OF _ _ cur])
  qed
  have service: "quiet (D ?S a) (releaseByService ?R ?A a (ob_value cur) unit)"
    if "result_of (PortService_prepareRelease ?S ?port) w = Inr cur" for cur w unit
    unfolding releaseByService_def recordCliApp_sel
    by (intro quiet_intros quiet_stopManagedService) (use that in \<open>auto simp: D_def frees_def\<close>)
  have branch: "quiet (D ?S a) (case rp_recommendedUnit (ob_value cur) of
      Some unit \<Rightarrow> releaseByService ?R ?A a (ob_value cur) unit | None \<Rightarrow> releaseBySignal ?R ?A a (ob_value cur))"
    if "result_of (PortService_prepareRelease ?S ?port) w = Inr cur" for cur w
    using service [OF that] signal [OF that] by (simp split: option.split)
  have prepare: "quiet (D ?S a) (PortService_prepareRelease (recordPortService ?S) ?port)"
    by (rule quiet_mono [OF quiet_PortService_prepareRelease]) (simp add: D_def)
  show ?thesis
    unfolding runFreePort_def recordCliApp_sel Let_def
    by (intro quiet_bind_result [OF prepare])
       (auto simp: prepareRelease_recorded intro!: quiet_intros branch)
qed

lemma quiet_runServiceAction:
  assumes "\<And>n. ServiceService_normalizeUnit u = Inr n \<Longrightarrow> \<not> D (if action = ''start'' then CallStart n
      else if action = ''stop'' then CallStop n else CallRestart n)"
  shows "quiet D (runServiceAction (silent_run E json opts) (recordCliApp J tui A) u action yes)"
  unfolding runServiceAction_def recordCliApp_sel
  by (intro quiet_intros quiet_service_actions) (use assms in \<open>auto split: if_splits\<close>)

lemma quiet_runService:
  assumes "\<And>e. D e \<Longrightarrow> destructive e"
    and "\<And>u n. pa_serviceUnit a = Some u \<Longrightarrow> pa_serviceAction a \<noteq> [] \<Longrightarrow>
      ServiceService_normalizeUnit u = Inr n \<Longrightarrow>
      \<not> D (if pa_serviceAction a = ''start'' then CallStart n
           else if pa_serviceAction a = ''stop'' then CallStop n else CallRestart n)"
  shows "quiet D (runService (silent_run E json opts) (recordCliApp J tui A) a)"
  unfolding runService_def recordCliApp_sel
  by (intro quiet_intros quiet_mono [OF quiet_ServiceService(1)] quiet_mono [OF quiet_ServiceService(2)]
      quiet_runServiceAction assms)

lemma quiet_runKillProcess:
  assumes "\<And>e. D e \<Longrightarrow> destructive e"
    and "may_signal (ca_processService A) p \<Longrightarrow> \<not> D (CallSend p Kill)"
  shows "quiet D (runKillProcess (silent_run E json opts) (recordCliApp J tui A) p yes)"
  unfolding runKillProcess_def recordCliApp_sel
  by (intro quiet_intros quiet_mono [OF quiet_ProcessService_inspect] quiet_stop_kill assms)

lemma quiet_runStopProcess:
  assumes "may_signal (ca_processService A) p \<Longrightarrow> \<not> D (CallSend p Terminate)"
  shows "quiet D (runStopProcess (silent_run E json opts) (recordCliApp J tui A) p)"
  unfolding runStopProcess_def recordCliApp_sel by (intro quiet_intros quiet_stop_kill assms)

section \<open>Without consent\<close>

text \<open>A user who agrees to nothing: no line can be read, or the line is neither empty nor a yes.\<close>

definition never_agrees :: "'w Console \<Rightarrow> bool" where
  "never_agrees C \<longleftrightarrow> (\<forall>w d. \<not> confirmed (result_of (cn_getline C) w) d)"

lemma quiet_refused:
  assumes "never_agrees (en_console E)"
  shows "quiet D (State_Monad.bind (cli_confirm (silent_run E json opts) prompt d)
    (\<lambda>agreed. if \<not> agreed then cancelled (silent_run E json opts) else m))"
proof -
  have "\<not> result_of (cli_confirm (silent_run E json opts) prompt d) s" for s
    using assms by (simp add: cli_confirm_def never_agrees_def)
  then show ?thesis by (intro quiet_bind_result quiet_writes) (simp add: quiet_writes)
qed

lemma quiet_refused_commands:
  assumes "never_agrees (en_console E)"
  shows "quiet destructive (runKillProcess (silent_run E json opts) (recordCliApp J tui A) p False)"
    and "action \<in> {''stop'', ''restart''} \<Longrightarrow>
      quiet destructive (runServiceAction (silent_run E json opts) (recordCliApp J tui A) u action False)"
    and "\<not> pa_confirmRelease a \<Longrightarrow>
      quiet destructive (runFreePort (silent_run E json opts) (recordCliApp J tui A) a)"
proof -
  note refused = quiet_refused [OF assms, of destructive json opts]
  show "quiet destructive (runKillProcess (silent_run E json opts) (recordCliApp J tui A) p False)"
    unfolding runKillProcess_def recordCliApp_sel if_False
    by (rule refused quiet_case_sum quiet_writes(7) quiet_ProcessService_inspect quiet_bind)+
  show "quiet destructive (runServiceAction (silent_run E json opts) (recordCliApp J tui A) u action False)"
    if "action \<in> {''stop'', ''restart''}"
    using that refused unfolding runServiceAction_def recordCliApp_sel by auto
  have "quiet destructive (releaseByService (silent_run E json opts) (recordCliApp J tui A) a plan unit)"
      "quiet destructive (releaseBySignal (silent_run E json opts) (recordCliApp J tui A) a plan)"
    if "\<not> pa_confirmRelease a" for plan unit
    using that refused unfolding releaseByService_def releaseBySignal_def recordCliApp_sel by simp_all
  then show "quiet destructive (runFreePort (silent_run E json opts) (recordCliApp J tui A) a)"
    if "\<not> pa_confirmRelease a"
    using that unfolding runFreePort_def recordCliApp_sel Let_def by (intro quiet_intros)
qed

context reading_journal
begin

lemma quiet_dispatch_json:
  "json \<or> \<not> mutating a \<Longrightarrow>
   quiet destructive (CliApp_dispatch (silent_run E json opts) (recordCliApp J tui A) a)"
  unfolding CliApp_dispatch_def CliRun.simps
  by (intro quiet_intros quiet_reading_commands quiet_runLog quiet_runService)
     (auto simp: mutating_def)

lemma quiet_dispatch_refused:
  assumes "never_agrees (en_console E)" "\<not> pa_tui a" "\<not> pa_stopProcess a"
    "pa_serviceAction a \<in> {[], ''stop'', ''restart''}"
    "\<not> pa_confirmKill a" "\<not> pa_confirmRelease a" "\<not> pa_confirmServiceAction a"
  shows "quiet destructive (CliApp_dispatch (silent_run E json opts) (recordCliApp J tui A) a)"
proof -
  have kill: "quiet destructive (runKillProcess (silent_run E json opts) (recordCliApp J tui A) p (pa_confirmKill a))"
    for p using quiet_refused_commands(1) [OF assms(1)] assms(5) by simp
  have "quiet destructive (runServiceAction (silent_run E json opts) (recordCliApp J tui A) u
      (pa_serviceAction a) (pa_confirmServiceAction a))" if "pa_serviceAction a \<noteq> []" for u
    using quiet_refused_commands(2) [OF assms(1)] assms(4,7) that by simp
  then have service: "quiet destructive (runService (silent_run E json opts) (recordCliApp J tui A) a)"
    unfolding runService_def recordCliApp_sel by (intro quiet_intros)
  show ?thesis
    unfolding CliApp_dispatch_def CliRun.simps
    by (intro quiet_intros quiet_reading_commands quiet_runLog service kill
        quiet_refused_commands(3) [OF assms(1)])
       (use assms in auto)
qed

lemma quiet_dispatch_requested:
  assumes "\<not> pa_tui a" and checked: "checkedArguments a"
  shows "quiet (\<lambda>c. destructive c \<and> \<not> requested_call A a c)
    (CliApp_dispatch (silent_run E json opts) (recordCliApp J tui A) a)" (is "quiet ?D _")
proof -
  let ?R = "silent_run E json opts" and ?A = "recordCliApp J tui A"
  have reading: "quiet ?D m" if "quiet destructive m" for m :: "('w recorded, cli_outcome) io"
    using that by (rule quiet_mono) simp
  have "quiet ?D (runStopProcess ?R ?A (pa_stopPid a))" if "pa_stopProcess a"
    by (rule quiet_runStopProcess) (use that in \<open>auto simp: requested_call_def\<close>)
  moreover have "quiet ?D (runKillProcess ?R ?A (pa_killPid a) yes)" if "pa_killProcess a" for yes
    by (rule quiet_runKillProcess) (use that in \<open>auto simp: requested_call_def\<close>)
  moreover have "quiet ?D (runService ?R ?A a)" if "pa_service a"
    by (rule quiet_runService)
       (use that checked in \<open>auto simp: requested_call_def checkedArguments_def\<close>)
  moreover have "quiet ?D (runFreePort ?R ?A a)" if "pa_freePort a"
    by (rule quiet_mono [OF quiet_runFreePort])
       (use that checked checkedPort_ucast in \<open>fastforce simp: requested_call_def checkedArguments_def\<close>)
  ultimately show ?thesis
    unfolding CliApp_dispatch_def CliRun.simps
    by (intro quiet_intros reading [OF quiet_reading_commands(1)] reading [OF quiet_reading_commands(2)]
        reading [OF quiet_reading_commands(3)] reading [OF quiet_reading_commands(4)]
        reading [OF quiet_reading_commands(5)] reading [OF quiet_reading_commands(6)] reading [OF quiet_runLog])
       (use assms in auto)
qed

end

text \<open>A command line that does not parse makes no call at all.\<close>

lemma quiet_run:
  assumes "\<And>a. en_parse E args = Inr a \<Longrightarrow> quiet D (CliApp_dispatch
     (silent_run E (jsonRequested args (pa_json a)) (outputOptionsOf (en_noColor E) a)) A a)"
  shows "quiet D (CliApp_run (silentEnv E) A args)"
  unfolding CliApp_run_def Let_def silentEnv_sel CliRun.simps
  by (intro quiet_intros assms)

lemma quiet_log:
  "quiet D m \<Longrightarrow> filter D (snd (world_after m (w, []))) = []"
  using quiet_world_after [of D m "(w, [])"] by simp

text \<open>Unless the command line parses, names a command that changes something and asks for text, nothing
  changes.\<close>

lemma run_reads_only:
  assumes "reading_journal J"
    and "\<nexists>a. en_parse E args = Inr a \<and> mutating a \<and> \<not> jsonRequested args (pa_json a)"
  shows "filter destructive (snd (world_after
    (CliApp_run (silentEnv E) (recordCliApp J tui A) args) (w, []))) = []"
  by (intro quiet_log quiet_run reading_journal.quiet_dispatch_json [OF assms(1)]) (use assms(2) in blast)

section \<open>Exit codes\<close>

definition exits :: "cli_outcome \<Rightarrow> bool" where
  "exits r \<longleftrightarrow> (\<exists>n. r = Exits n \<and> n \<in> {0} \<union> {2 .. 8} \<union> {130})"

lemma exits_simps [simp]:
  "exits (Exits n) \<longleftrightarrow> n = 0 \<or> (2 \<le> n \<and> n \<le> 8) \<or> n = 130" "\<not> exits Throws" "\<not> exits StillPolling"
  "\<not> exits Undefined"
  by (auto simp: exits_def)

lemma exits_exitCode: "exits (Exits (exitCode code))"
  by (cases code) (simp_all add: exitCode_def)

text \<open>Documents that can be written.\<close>

definition writes_all :: "json_dump \<Rightarrow> bool" where
  "writes_all dump \<longleftrightarrow> (\<forall>j. dump j \<noteq> None)"

lemma yields_writes [yield_intros]:
  "yields exits (writeBoth R texts)" "yields exits (cancelled R)"
  by (simp_all add: writeBoth_def cancelled_def yields_def)

lemma yields_writeJson:
  "document \<noteq> None \<Longrightarrow> exits (Exits n) \<Longrightarrow> yields exits (writeJson R document n)"
  by (auto simp: writeJson_def yields_def)

lemma yields_cli_fail:
  "writes_all (en_dump (cr_env R)) \<Longrightarrow> yields exits (cli_fail R command operation e)"
  unfolding cli_fail_def JsonSerializer_error_def writes_all_def
  by (intro yield_intros yields_writeJson exits_exitCode) simp_all

lemmas document_defs = JsonSerializer_doctor_def JsonSerializer_status_def JsonSerializer_inspect_def
  JsonSerializer_find_def JsonSerializer_process_def JsonSerializer_processes_def JsonSerializer_ports_def
  JsonSerializer_service_def JsonSerializer_services_def JsonSerializer_logs_def

lemma yields_documents:
  assumes "writes_all (en_dump (cr_env R))"
  shows "yields exits (runTui R A)" "yields exits (runDoctor R A)" "yields exits (runStatus R A)"
    "yields exits (runInspect R A x)" "yields exits (runFind R A x)" "yields exits (runStopProcess R A p)"
    "yields exits (runKillProcess R A p yes)" "yields exits (runProcess R A a)"
    "yields exits (runService R A a)" "yields exits (runPort R A n)"
proof -
  note rules = yield_intros yields_cli_fail [OF assms] yields_writeJson
  have dump: "en_dump (cr_env R) j \<noteq> None" for j using assms by (simp add: writes_all_def)
  show "yields exits (runTui R A)" unfolding runTui_def by (intro rules) simp
  show "yields exits (runDoctor R A)"
    unfolding runDoctor_def document_defs by (intro rules dump) simp
  show "yields exits (runStatus R A)"
    unfolding runStatus_def document_defs by (intro rules dump) simp
  show "yields exits (runInspect R A x)"
    unfolding runInspect_def document_defs by (intro rules dump) simp
  show "yields exits (runFind R A x)"
    unfolding runFind_def document_defs by (intro rules dump) simp
  show "yields exits (runStopProcess R A p)"
    unfolding runStopProcess_def by (intro rules) simp
  show "yields exits (runKillProcess R A p yes)"
    unfolding runKillProcess_def by (intro rules) simp
  show "yields exits (runProcess R A a)"
    unfolding runProcess_def document_defs by (intro rules dump) simp_all
  show "yields exits (runService R A a)"
    unfolding runService_def runServiceAction_def document_defs by (intro rules dump) simp_all
  show "yields exits (runPort R A n)"
    unfolding runPort_def document_defs by (intro rules dump) simp_all
qed

lemma yields_runFreePort:
  assumes dump: "writes_all (en_dump (cr_env R))"
    and polled: "\<And>plan w. result_of (PortService_stopManagedService (en_pollRounds (cr_env R))
      (ca_portService A) plan) w \<noteq> None"
  shows "yields exits (runFreePort R A a)"
proof -
  note rules = yield_intros yields_cli_fail [OF dump]
  have force: "yields exits (releaseByForce R A a (ob_value ob))"
    if "result_of (PortService_terminate (ca_portService A) plan) w = Inr ob" "\<not> rr_released (ob_value ob)"
    for ob plan w
    unfolding releaseByForce_def
    by (intro rules) (use that in \<open>auto elim: terminate_remaining\<close>)
  have signal: "yields exits (releaseBySignal R A a plan)" for plan
    unfolding releaseBySignal_def
    by (rule yields_bind, rule yields_if, rule yields_writes, rule yields_bind_result)
       (intro rules force; simp)
  have service: "yields exits (releaseByService R A a plan unit)" for plan unit
    unfolding releaseByService_def
    by (rule yields_bind, rule yields_if, rule yields_writes, rule yields_bind_result)
       (intro rules; use polled in simp)
  show ?thesis
    unfolding runFreePort_def by (intro rules service signal)
qed

lemma yields_runLog:
  assumes dump: "writes_all (en_dump (cr_env R))" and "\<not> pa_followLog a"
    and since: "\<And>t now. pa_logSince a = Some t \<Longrightarrow> LogService_parseSince (en_timeZone (cr_env R)) t now \<noteq> None"
  shows "yields exits (runLog R A a)"
proof -
  have written: "en_dump (cr_env R) j \<noteq> None" for j using dump by (simp add: writes_all_def)
  show ?thesis
    unfolding runLog_def document_defs Let_def
    by (intro yield_intros yields_cli_fail [OF dump] yields_writeJson written)
       (use assms(2) since in auto)
qed

section \<open>Properties\<close>

lemma run_exits:
  assumes "writes_all (en_dump E)" and "clock_runs time (po_clock (ca_portService A))"
    and "inspection_advances time (ca_portService A)"
    and "nat (po_gracePeriod (ca_portService A) * 1000000 div 25000000) + 2 \<le> en_pollRounds E"
    and "\<And>a t now. en_parse E args = Inr a \<Longrightarrow> pa_logSince a = Some t \<Longrightarrow>
      LogService_parseSince (en_timeZone E) t now \<noteq> None"
    and "\<And>a. en_parse E args = Inr a \<Longrightarrow> \<not> pa_followLog a"
  shows "yields exits (CliApp_run E A args)"
proof -
  have polled: "result_of (PortService_stopManagedService (en_pollRounds E) (ca_portService A) plan) w \<noteq> None"
    for plan w
    using stopManagedService_returns [OF assms(2,3)] assms(4) by (simp add: poll_rounds_def)
  have dispatched: "yields exits (CliApp_dispatch R A a)"
    if "cr_env R = E" "en_parse E args = Inr a" for R a
    unfolding CliApp_dispatch_def
    by (intro yield_intros yields_cli_fail yields_documents yields_runFreePort yields_runLog)
       (use that assms polled in simp_all)
  show ?thesis
    unfolding CliApp_run_def Let_def JsonSerializer_error_def
    by (intro yield_intros yields_writeJson dispatched)
       (use assms(1) in \<open>simp_all add: writes_all_def\<close>)
qed

text \<open>A program over worlds that are the steady clock, whose console has no input and whose command line
  parser returns one given result.\<close>

definition demo_Console :: "int Console" where
  "demo_Console =
     \<lparr>cn_output = (\<lambda>s. return ()), cn_error = (\<lambda>s. return ()), cn_getline = return None,
      cn_clearInterrupt = return (), cn_sigaction = return None, cn_restoreAction = return (),
      cn_interruptRequested = return False, cn_systemNow = State (\<lambda>t. (t, t)), cn_strerror = (\<lambda>n. [])\<rparr>"

definition demo_arguments :: ParsedArguments where
  "demo_arguments =
     \<lparr>pa_json = None, pa_quiet = False, pa_noColor = False, pa_doctor = False, pa_status = False,
      pa_tui = False, pa_process = False, pa_stopProcess = False, pa_killProcess = False, pa_port = False,
      pa_freePort = False, pa_service = False, pa_log = False, pa_inspect = False, pa_find = False,
      pa_processPid = None, pa_rawCommand = False, pa_processName = None, pa_processUser = None,
      pa_processService = None, pa_stopPid = -1, pa_killPid = -1, pa_confirmKill = False,
      pa_portNumber = None, pa_freePortNumber = 0, pa_confirmRelease = False, pa_serviceUnit = None,
      pa_serviceAction = [], pa_confirmServiceAction = False, pa_logUnit = None, pa_logPid = None,
      pa_logLines = 50, pa_logSince = None, pa_followLog = False, pa_inspectExpression = [],
      pa_findQuery = []\<rparr>"

definition demo_kill :: "bool \<Rightarrow> ParsedArguments" where
  "demo_kill yes = demo_arguments\<lparr>pa_process := True, pa_killProcess := True, pa_killPid := 42,
     pa_confirmKill := yes\<rparr>"

definition demo_CliEnv :: "ParsedArguments \<Rightarrow> int CliEnv" where
  "demo_CliEnv a =
     \<lparr>en_console = demo_Console, en_formats = demo_Formats, en_dump = (\<lambda>j. Some []),
      en_timeZone = demo_LocalTime, en_parse = (\<lambda>args. Inr a), en_noColor = None, en_pollRounds = 6\<rparr>"

definition demo_CliApp :: "int CliApp" where
  "demo_CliApp =
     \<lparr>ca_doctorService =
        \<lparr>do_processProvider = ps_processProvider demo_ProcessService,
         do_socketProvider = po_socketProvider demo_PortService,
         do_signalProvider = ps_signalProvider demo_ProcessService,
         do_serviceProvider = ss_serviceProvider demo_services, do_journalProvider = demo_journal,
         do_getpid = 2\<rparr>,
      ca_processService = demo_ProcessService, ca_portService = demo_PortService,
      ca_serviceService = demo_services, ca_logService = \<lparr>ls_journalProvider = demo_journal\<rparr>,
      ca_inspectService = demo_InspectService,
      ca_findService = \<lparr>fs_portService = demo_PortService, fs_processService = demo_ProcessService,
         fs_serviceService = demo_services\<rparr>,
      ca_statusService = None, ca_tuiRunner = None\<rparr>"

text \<open>
  C4. Nothing happens without consent: if the user agrees to nothing (or nobody is there to be asked)
  and \<open>--yes\<close> was not given, then killing a process, freeing a port and stopping or restarting a
  service change nothing. The only commands that act unasked are \<open>process stop\<close> and
  \<open>service <unit> start\<close>.
\<close>

theorem CliApp_run_asks_first:
  assumes "reading_journal J" and "never_agrees (en_console E)" and "en_parse E args = Inr a"
    and "checkedArguments a" and "\<not> pa_tui a" and "\<not> pa_stopProcess a" and "pa_serviceAction a \<noteq> ''start''"
    and "\<not> pa_confirmKill a" and "\<not> pa_confirmRelease a" and "\<not> pa_confirmServiceAction a"
  shows "filter destructive (snd (world_after
    (CliApp_run (silentEnv E) (recordCliApp J tui A) args) (w, []))) = []"
  by (intro quiet_log quiet_run reading_journal.quiet_dispatch_refused [OF assms(1)])
     (use assms in \<open>auto simp: checkedArguments_def\<close>)

theorem CliApp_run_asks_first_witness:
  "filter destructive (snd (world_after (CliApp_run (silentEnv (demo_CliEnv (demo_kill False)))
     (recordCliApp demo_journal None demo_CliApp) [''process'', ''kill'', ''42'']) (0, []))) = []"
  by (rule CliApp_run_asks_first [OF demo_journal_reads, where a = "demo_kill False"])
     (simp_all add: demo_CliEnv_def demo_kill_def demo_arguments_def never_agrees_def demo_Console_def
      checkedArguments_def checkedPid_def pid_max_def)

text \<open>
  C6. A command does what it says and nothing else: if the arguments pass the checks of their options,
  every call of a run that changes the machine signals the process that was named, with the signal of
  the command and if it may be signalled; or does the action that was named to the unit that was named,
  normalised; or, for \<open>port free\<close>, signals a process that owned a socket of the port with the number that
  was named when it was inspected, or stops the service recommended then.
\<close>

theorem CliApp_run_acts_as_told:
  assumes "reading_journal J" and "en_parse E args = Inr a" and "checkedArguments a" and "\<not> pa_tui a"
    and "c \<in> set (snd (world_after (CliApp_run (silentEnv E) (recordCliApp J tui A) args) (w, [])))"
    and "destructive c"
  shows "requested_call A a c"
proof -
  have "quiet (\<lambda>c. destructive c \<and> \<not> requested_call A a c)
      (CliApp_run (silentEnv E) (recordCliApp J tui A) args)"
    by (intro quiet_run) (use assms(2-4) reading_journal.quiet_dispatch_requested [OF assms(1)] in auto)
  then show ?thesis using quiet_log assms(5,6) by (fastforce simp: filter_empty_conv)
qed

theorem CliApp_run_acts_as_told_witness:
  "requested_call demo_CliApp (demo_kill True) (CallSend 42 Kill)"
proof -
  have "CallSend 42 Kill \<in> set (snd (world_after (CliApp_run (silentEnv (demo_CliEnv (demo_kill True)))
      (recordCliApp demo_journal None demo_CliApp) []) (0, [])))"
    by (simp add: CliApp_run_def demo_CliEnv_def jsonRequested_def demo_kill_def demo_arguments_def
        CliApp_dispatch_def mutating_def runKillProcess_def demo_CliApp_def demo_ProcessService_def
        ProcessService_validateSignalTarget_def ProcessService_inspect_def ProcessService_kill_def
        ProcessService_signal_def writeUnlessQuiet_def outputOptionsOf_def writeOutput_def silentEnv_def
        silentConsole_def)
  then show ?thesis
    by (intro CliApp_run_acts_as_told [OF demo_journal_reads, where a = "demo_kill True" and tui = None])
       (simp_all add: demo_CliEnv_def demo_kill_def demo_arguments_def checkedArguments_def
        checkedPid_def pid_max_def)
qed

end
