(* ===== verification/TaskWorker.thy ===== *)
theory TaskWorker
  imports CppText
begin

text \<open>
  The class \<open>TaskWorker\<close> of \<open>src/tui/FtxuiTuiRunner.cpp\<close>: the thread on which the dashboard runs one
  background task at a time. The presentation thread submits tasks, reads and clears the result and
  finally destroys the worker; every section under the mutex is one step, and the threads
  interleave. What a task returns is arbitrary here; a task that throws has its exception's text as
  value, and \<open>work\<close> itself does not throw. The constructor starts the thread before \<open>busy_\<close> and \<open>stopping_\<close> are
  initialised; the model begins when they are.
\<close>

section \<open>State and operations\<close>

text \<open>Where the worker thread is: waiting on the condition variable, in a task, in the callback, or
  returned.\<close>

datatype 't task_pc = TaskWaiting | TaskRunning 't | TaskNotifying | TaskEnded

record 't TaskWorker =
  tw_pending :: "'t option"
  tw_result :: string
  tw_busy :: bool
  tw_stopping :: bool
  tw_thread :: "'t task_pc"

definition TaskWorker_init :: "'t TaskWorker" where
  "TaskWorker_init = \<lparr>tw_pending = None, tw_result = [], tw_busy = False, tw_stopping = False,
     tw_thread = TaskWaiting\<rparr>"

definition TaskWorker_submit :: "'t \<Rightarrow> 't TaskWorker \<Rightarrow> bool \<times> 't TaskWorker" where
  "TaskWorker_submit task w =
     (if tw_pending w \<noteq> None \<or> tw_busy w then (False, w)
      else (True, w\<lparr>tw_pending := Some task, tw_result := ''Loading...''\<rparr>))"

definition TaskWorker_clear :: "'t TaskWorker \<Rightarrow> 't TaskWorker" where
  "TaskWorker_clear w = w\<lparr>tw_result := []\<rparr>"

text \<open>The destructor up to the join, which waits until the thread has ended.\<close>

definition TaskWorker_destroy :: "'t TaskWorker \<Rightarrow> 't TaskWorker" where
  "TaskWorker_destroy w = w\<lparr>tw_stopping := True\<rparr>"

section \<open>Steps\<close>

datatype 't task_event = Accepted 't | Refused 't | Started 't | Finished 't | Internal

text \<open>One step of \<open>work\<close>.\<close>

inductive TaskWorker_work :: "'t TaskWorker \<Rightarrow> 't task_event \<Rightarrow> 't TaskWorker \<Rightarrow> bool" where
  wake_stopping: "tw_thread w = TaskWaiting \<Longrightarrow> tw_stopping w \<Longrightarrow>
    TaskWorker_work w Internal (w\<lparr>tw_thread := TaskEnded\<rparr>)"
| wake_task: "tw_thread w = TaskWaiting \<Longrightarrow> \<not> tw_stopping w \<Longrightarrow> tw_pending w = Some t \<Longrightarrow>
    TaskWorker_work w (Started t) (w\<lparr>tw_pending := None, tw_busy := True, tw_thread := TaskRunning t\<rparr>)"
| publish: "tw_thread w = TaskRunning t \<Longrightarrow>
    TaskWorker_work w (Finished t) (w\<lparr>tw_result := s, tw_busy := False, tw_thread := TaskNotifying\<rparr>)"
| notified: "tw_thread w = TaskNotifying \<Longrightarrow>
    TaskWorker_work w Internal (w\<lparr>tw_thread := TaskWaiting\<rparr>)"

inductive task_step :: "'t TaskWorker \<Rightarrow> 't task_event \<Rightarrow> 't TaskWorker \<Rightarrow> bool" where
  submit_ok: "TaskWorker_submit t w = (True, w') \<Longrightarrow> task_step w (Accepted t) w'"
| submit_refused: "TaskWorker_submit t w = (False, w') \<Longrightarrow> task_step w (Refused t) w'"
| clear: "task_step w Internal (TaskWorker_clear w)"
| destroy: "task_step w Internal (TaskWorker_destroy w)"
| work: "TaskWorker_work w l w' \<Longrightarrow> task_step w l w'"

inductive_cases taskWorkE: "TaskWorker_work w l w'"
inductive_cases taskStepE: "task_step w l w'"

text \<open>The histories of a worker, oldest event first.\<close>

inductive task_history :: "'t task_event list \<Rightarrow> 't TaskWorker \<Rightarrow> bool" where
  created: "task_history [] TaskWorker_init"
| later: "task_history h w \<Longrightarrow> task_step w l w' \<Longrightarrow> task_history (h @ [l]) w'"

fun accepted_of :: "'t task_event \<Rightarrow> 't list" where
  "accepted_of (Accepted t) = [t]"
| "accepted_of _ = []"

fun started_of :: "'t task_event \<Rightarrow> 't list" where
  "started_of (Started t) = [t]"
| "started_of _ = []"

fun finished_of :: "'t task_event \<Rightarrow> 't list" where
  "finished_of (Finished t) = [t]"
| "finished_of _ = []"

fun running_task :: "'t task_pc \<Rightarrow> 't list" where
  "running_task (TaskRunning t) = [t]"
| "running_task _ = []"

section \<open>Lemmas\<close>

lemmas task_defs = TaskWorker_submit_def TaskWorker_clear_def TaskWorker_destroy_def

lemma task_step_order:
  assumes "task_step w l w'" "tw_busy w \<longleftrightarrow> running_task (tw_thread w) \<noteq> []"
    "\<not> (tw_pending w \<noteq> None \<and> tw_busy w)"
  shows "started_of l @ (case tw_pending w' of None \<Rightarrow> [] | Some t \<Rightarrow> [t]) =
      (case tw_pending w of None \<Rightarrow> [] | Some t \<Rightarrow> [t]) @ accepted_of l"
    and "finished_of l @ running_task (tw_thread w') = running_task (tw_thread w) @ started_of l"
    and "tw_busy w' \<longleftrightarrow> running_task (tw_thread w') \<noteq> []" "\<not> (tw_pending w' \<noteq> None \<and> tw_busy w')"
  using assms
  by (auto simp: task_defs elim!: taskStepE taskWorkE split: if_splits option.split)

lemma task_history_order:
  assumes "task_history h w"
  shows "concat (map accepted_of h) =
      concat (map started_of h) @ (case tw_pending w of None \<Rightarrow> [] | Some t \<Rightarrow> [t])"
    and "concat (map started_of h) = concat (map finished_of h) @ running_task (tw_thread w)"
    and "tw_busy w \<longleftrightarrow> running_task (tw_thread w) \<noteq> []" "\<not> (tw_pending w \<noteq> None \<and> tw_busy w)"
  using assms
proof (induction rule: task_history.induct)
  case created
  { case 1 show ?case by (simp add: TaskWorker_init_def)
  next case 2 show ?case by (simp add: TaskWorker_init_def)
  next case 3 show ?case by (simp add: TaskWorker_init_def)
  next case 4 show ?case by (simp add: TaskWorker_init_def) }
next
  case (later h w l w')
  note order = task_step_order [OF later.hyps(2) later.IH(3,4)]
  { case 1 show ?case using later.IH(1) order(1) by simp
  next case 2 show ?case using later.IH(2) order(2) by simp
  next case 3 show ?case by (rule order(3))
  next case 4 show ?case by (rule order(4)) }
qed

text \<open>How many steps the thread has left once it is to stop.\<close>

fun task_steps_left :: "'t task_pc \<Rightarrow> nat" where
  "task_steps_left (TaskRunning t) = 3"
| "task_steps_left TaskNotifying = 2"
| "task_steps_left TaskWaiting = 1"
| "task_steps_left TaskEnded = 0"

lemma task_work_stopping:
  "TaskWorker_work w l w' \<Longrightarrow> tw_stopping w \<Longrightarrow>
   tw_stopping w' \<and> started_of l = [] \<and> Suc (task_steps_left (tw_thread w')) = task_steps_left (tw_thread w)"
  by (auto elim!: taskWorkE)

lemma task_work_progress:
  "tw_stopping w \<Longrightarrow> tw_thread w \<noteq> TaskEnded \<Longrightarrow> \<exists>l w'. TaskWorker_work w l w'"
  by (cases "tw_thread w") (blast intro: TaskWorker_work.intros)+

section \<open>Properties\<close>

text \<open>
  Every task that was accepted runs once, in the order of submission, and tasks never overlap: at
  any time the accepted tasks are the started ones followed by the one that is pending, the started
  ones are the finished ones followed by the one that is running, and no task is pending while
  another runs.
\<close>

theorem TaskWorker_runs_once:
  assumes "task_history h w"
  shows "concat (map accepted_of h) =
      concat (map finished_of h) @ running_task (tw_thread w) @
      (case tw_pending w of None \<Rightarrow> [] | Some t \<Rightarrow> [t]) \<and>
    concat (map started_of h) = concat (map finished_of h) @ running_task (tw_thread w) \<and>
    (running_task (tw_thread w) = [] \<or> tw_pending w = None)"
  using task_history_order [OF assms] by auto

theorem TaskWorker_runs_once_witness:
  "concat (map accepted_of [Accepted (7::nat), Started 7]) = [] @ [7] @ []"
proof -
  let ?w1 = "TaskWorker_init\<lparr>tw_pending := Some (7::nat), tw_result := ''Loading...''\<rparr>"
  let ?w2 = "?w1\<lparr>tw_pending := None, tw_busy := True, tw_thread := TaskRunning 7\<rparr>"
  have "task_step TaskWorker_init (Accepted 7) ?w1"
    by (rule task_step.submit_ok) (simp add: TaskWorker_init_def TaskWorker_submit_def)
  then have "task_history ([] @ [Accepted 7]) ?w1"
    by (rule task_history.later [OF task_history.created])
  moreover have "task_step ?w1 (Started 7) ?w2"
    by (intro task_step.work TaskWorker_work.wake_task) (simp_all add: TaskWorker_init_def)
  ultimately have "task_history (([] @ [Accepted 7]) @ [Started 7]) ?w2"
    by (rule task_history.later)
  from TaskWorker_runs_once [OF this] show ?thesis by simp
qed

text \<open>
  Leaving the dashboard ends its worker: once the destructor has asked, the thread ends after at
  most three more steps of its own, every step it can take is one towards the end, it starts no
  further task, and nothing the presentation thread does takes the request back.
\<close>

theorem TaskWorker_destroy_ends:
  fixes w :: "'t TaskWorker"
  shows "(\<exists>n. n \<le> 3 \<and> (\<exists>w'. tw_thread w' = TaskEnded \<and>
      ((\<lambda>u v. \<exists>l. TaskWorker_work u l v \<and> started_of l = []) ^^ n) (TaskWorker_destroy w) w')) \<and>
    (\<forall>v v' l. tw_stopping v \<and> task_step v l v' \<longrightarrow> tw_stopping v' \<and> started_of l = ([] :: 't list))"
proof
  define quiet_work where "quiet_work = (\<lambda>u v :: 't TaskWorker. \<exists>l. TaskWorker_work u l v \<and> started_of l = [])"
  have "tw_stopping u \<Longrightarrow> \<exists>w'. tw_thread w' = TaskEnded \<and>
      (quiet_work ^^ task_steps_left (tw_thread u)) u w'" for u
  proof (induction "task_steps_left (tw_thread u)" arbitrary: u)
    case 0
    then show ?case by (cases "tw_thread u") (auto intro: exI [of _ u])
  next
    case (Suc k)
    then have "tw_thread u \<noteq> TaskEnded" by auto
    then obtain l v where v: "TaskWorker_work u l v" using task_work_progress Suc.prems by blast
    have v': "tw_stopping v" "started_of l = []" "k = task_steps_left (tw_thread v)"
      using task_work_stopping [OF v Suc.prems] Suc.hyps(2) by simp_all
    from Suc.hyps(1) [OF v'(3,1)] obtain w' where w': "tw_thread w' = TaskEnded" "(quiet_work ^^ k) v w'"
      unfolding v'(3) by blast
    have "quiet_work u v" using v v'(2) unfolding quiet_work_def by blast
    then have "(quiet_work ^^ Suc k) u w'" using w'(2) by (rule relpowp_Suc_I2)
    with w'(1) show ?case unfolding Suc.hyps(2) [symmetric] by blast
  qed
  from this [of "TaskWorker_destroy w"] obtain w' where
      "tw_thread w' = TaskEnded"
      "(quiet_work ^^ task_steps_left (tw_thread (TaskWorker_destroy w))) (TaskWorker_destroy w) w'"
    by (auto simp: TaskWorker_destroy_def)
  moreover have "task_steps_left (tw_thread (TaskWorker_destroy w)) \<le> 3"
    by (cases "tw_thread (TaskWorker_destroy w)") simp_all
  ultimately show "\<exists>n. n \<le> 3 \<and> (\<exists>w'. tw_thread w' = TaskEnded \<and>
      ((\<lambda>u v. \<exists>l. TaskWorker_work u l v \<and> started_of l = []) ^^ n) (TaskWorker_destroy w) w')"
    unfolding quiet_work_def by blast
  show "\<forall>v v' l. tw_stopping v \<and> task_step v l v' \<longrightarrow> tw_stopping v' \<and> started_of l = ([] :: 't list)"
    by (auto simp: task_defs elim!: taskStepE dest: task_work_stopping split: if_splits)
qed

theorem TaskWorker_destroy_ends_witness:
  "\<exists>n. n \<le> 3 \<and> (\<exists>w'. tw_thread w' = TaskEnded \<and>
     ((\<lambda>u v. \<exists>l. TaskWorker_work u l v \<and> started_of l = []) ^^ n)
       (TaskWorker_destroy (TaskWorker_init :: nat TaskWorker)) w')"
  using TaskWorker_destroy_ends [of "TaskWorker_init :: nat TaskWorker"] by blast

end
