(* ===== verification/DashboardService.thy ===== *)
theory DashboardService
  imports PortService MetricsService
begin

text \<open>
  \<open>src/application/DashboardService.cpp\<close>: the periodic collection of everything the dashboard shows.
  A section whose provider fails keeps its previous contents and is marked stale; services are asked
  for at most every three seconds.

  The members the service changes between refreshes are a state record that \<open>refreshAt\<close> takes and
  returns.
\<close>

section \<open>The service\<close>

record 'w DashboardService =
  da_metrics :: "'w MetricsService"
  da_processes :: "'w ProcessService"
  da_ports :: "'w PortService"
  da_services :: "'w ServiceService"
  da_clock :: "'w Clock"

record DashboardState =
  dt_previousMetrics :: "MetricsSnapshot option"
  dt_previous :: "DashboardSnapshot option"
  dt_servicesRefreshedAt :: "int option"

definition attachCpu :: "MetricsView \<Rightarrow> ProcessInfo list \<Rightarrow> ProcessInfo list" where
  "attachCpu metrics = map (\<lambda>process. process\<lparr>pi_cpuPercent := mv_processCpuPercent metrics (pi_pid process)\<rparr>)"

definition warn :: "Warning list \<Rightarrow> DashboardSnapshot \<Rightarrow> DashboardSnapshot" where
  "warn ws snapshot = snapshot\<lparr>ds_warnings := ds_warnings snapshot @ ws\<rparr>"

definition metricsViewOf ::
  "(real \<Rightarrow> real) \<Rightarrow> MetricsSnapshot option \<Rightarrow> MetricsSnapshot result \<Rightarrow> MetricsView option" where
  "metricsViewOf rnd previous metrics =
     (case metrics of
        Inl _ \<Rightarrow> None
      | Inr m \<Rightarrow> Some (MetricsService_compare rnd (case previous of None \<Rightarrow> m | Some p \<Rightarrow> p) m))"

definition refreshHost ::
  "MetricsView option \<Rightarrow> MetricsSnapshot result \<Rightarrow> DashboardSnapshot \<Rightarrow> DashboardSnapshot" where
  "refreshHost view metrics next =
     (case (metrics, view) of
        (Inr _, Some v) \<Rightarrow> next\<lparr>ds_host := mv_host v, ds_hostStale := False\<rparr>
      | (Inl e, _) \<Rightarrow> warn [warningFrom e] (next\<lparr>ds_hostStale := True\<rparr>)
      | (Inr _, None) \<Rightarrow> next)"

definition refreshProcesses ::
  "MetricsView option \<Rightarrow> ProcessInfo list Observation result \<Rightarrow> DashboardSnapshot \<Rightarrow>
   DashboardSnapshot" where
  "refreshProcesses view processes next =
     (case processes of
        Inr ob \<Rightarrow> warn (ob_warnings ob)
          (next\<lparr>ds_processes := (case view of None \<Rightarrow> ob_value ob | Some v \<Rightarrow> attachCpu v (ob_value ob)),
                ds_processesStale := False\<rparr>)
      | Inl e \<Rightarrow> warn [warningFrom e] (next\<lparr>ds_processesStale := True\<rparr>))"

definition refreshPorts ::
  "PortInfo list Observation result \<Rightarrow> DashboardSnapshot \<Rightarrow> DashboardSnapshot" where
  "refreshPorts ports next =
     (case ports of
        Inr ob \<Rightarrow> warn (ob_warnings ob) (next\<lparr>ds_ports := ob_value ob, ds_portsStale := False\<rparr>)
      | Inl e \<Rightarrow> warn [warningFrom e] (next\<lparr>ds_portsStale := True\<rparr>))"

definition refreshServicesSection ::
  "ServiceInfo list Observation result \<Rightarrow> DashboardSnapshot \<Rightarrow> DashboardSnapshot" where
  "refreshServicesSection services next =
     (case services of
        Inr ob \<Rightarrow> warn (ob_warnings ob) (next\<lparr>ds_services := ob_value ob, ds_servicesStale := False\<rparr>)
      | Inl e \<Rightarrow> warn [warningFrom e] (next\<lparr>ds_servicesStale := True\<rparr>))"

text \<open>Three seconds in the nanoseconds of the steady clock.\<close>

definition servicesDue :: "int option \<Rightarrow> int \<Rightarrow> bool" where
  "servicesDue refreshedAt now =
     (case refreshedAt of None \<Rightarrow> True | Some t \<Rightarrow> 3000000000 \<le> now - t)"

definition DashboardService_refreshAt ::
  "(real \<Rightarrow> real) \<Rightarrow> 'w DashboardService \<Rightarrow> DashboardState \<Rightarrow> int \<Rightarrow>
   ('w, DashboardSnapshot \<times> DashboardState) io" where
  "DashboardService_refreshAt rnd S st now = do {
     capturedAt \<leftarrow> ck_systemNow (da_clock S);
     let next0 = (case dt_previous st of None \<Rightarrow> default_DashboardSnapshot | Some p \<Rightarrow> p)
                   \<lparr>ds_warnings := [], ds_capturedAt := capturedAt\<rparr>;
     metrics \<leftarrow> MetricsService_capture (da_metrics S);
     let view = metricsViewOf rnd (dt_previousMetrics st) metrics;
     let next1 = refreshHost view metrics next0;
     let metrics' = (case metrics of Inl _ \<Rightarrow> dt_previousMetrics st | Inr m \<Rightarrow> Some m);
     processes \<leftarrow> ProcessService_list (da_processes S) default_ProcessQuery;
     let next2 = refreshProcesses view processes next1;
     ports \<leftarrow> PortService_inspect (da_ports S) default_SocketQuery;
     let next3 = refreshPorts ports next2;
     if servicesDue (dt_servicesRefreshedAt st) now
     then do {
       services \<leftarrow> ServiceService_list (da_services S);
       let next4 = refreshServicesSection services next3;
       return (next4, \<lparr>dt_previousMetrics = metrics', dt_previous = Some next4,
                dt_servicesRefreshedAt = (case services of Inl _ \<Rightarrow> dt_servicesRefreshedAt st
                                                         | Inr _ \<Rightarrow> Some now)\<rparr>)
     }
     else return (next3, \<lparr>dt_previousMetrics = metrics', dt_previous = Some next3,
                   dt_servicesRefreshedAt = dt_servicesRefreshedAt st\<rparr>)
   }"

definition DashboardService_refresh ::
  "(real \<Rightarrow> real) \<Rightarrow> 'w DashboardService \<Rightarrow> DashboardState \<Rightarrow>
   ('w, DashboardSnapshot \<times> DashboardState) io" where
  "DashboardService_refresh rnd S st = do {
     now \<leftarrow> ck_steadyNow (da_clock S);
     DashboardService_refreshAt rnd S st now
   }"

section \<open>Lemmas\<close>

lemmas refresh_defs = refreshHost_def refreshProcesses_def refreshPorts_def
  refreshServicesSection_def warn_def

lemma metricsViewOf_None: "metricsViewOf rnd p m = None \<longleftrightarrow> (\<exists>e. m = Inl e)"
  by (simp add: metricsViewOf_def split: sum.split)

text \<open>The previous snapshot, or the initial one.\<close>

abbreviation shown :: "DashboardState \<Rightarrow> DashboardSnapshot" where
  "shown st \<equiv> (case dt_previous st of None \<Rightarrow> default_DashboardSnapshot | Some p \<Rightarrow> p)"

text \<open>Each step touches one section and the warnings, and only adds warnings.\<close>

lemma refreshHost_sections:
  "ds_processes (refreshHost v m s) = ds_processes s" "ds_processesStale (refreshHost v m s) = ds_processesStale s"
  "ds_ports (refreshHost v m s) = ds_ports s" "ds_portsStale (refreshHost v m s) = ds_portsStale s"
  "ds_services (refreshHost v m s) = ds_services s" "ds_servicesStale (refreshHost v m s) = ds_servicesStale s"
  by (simp_all add: refresh_defs split: sum.split option.split prod.split)

lemma refreshProcesses_sections:
  "ds_host (refreshProcesses v p s) = ds_host s" "ds_hostStale (refreshProcesses v p s) = ds_hostStale s"
  "ds_ports (refreshProcesses v p s) = ds_ports s" "ds_portsStale (refreshProcesses v p s) = ds_portsStale s"
  "ds_services (refreshProcesses v p s) = ds_services s"
  "ds_servicesStale (refreshProcesses v p s) = ds_servicesStale s"
  "set (ds_warnings s) \<subseteq> set (ds_warnings (refreshProcesses v p s))"
  by (auto simp: refresh_defs split: sum.split)

lemma refreshPorts_sections:
  "ds_host (refreshPorts p s) = ds_host s" "ds_hostStale (refreshPorts p s) = ds_hostStale s"
  "ds_processes (refreshPorts p s) = ds_processes s"
  "ds_processesStale (refreshPorts p s) = ds_processesStale s"
  "ds_services (refreshPorts p s) = ds_services s" "ds_servicesStale (refreshPorts p s) = ds_servicesStale s"
  "set (ds_warnings s) \<subseteq> set (ds_warnings (refreshPorts p s))"
  by (auto simp: refresh_defs split: sum.split)

lemma refreshServices_sections:
  "ds_host (refreshServicesSection p s) = ds_host s" "ds_hostStale (refreshServicesSection p s) = ds_hostStale s"
  "ds_processes (refreshServicesSection p s) = ds_processes s"
  "ds_processesStale (refreshServicesSection p s) = ds_processesStale s"
  "ds_ports (refreshServicesSection p s) = ds_ports s" "ds_portsStale (refreshServicesSection p s) = ds_portsStale s"
  "set (ds_warnings s) \<subseteq> set (ds_warnings (refreshServicesSection p s))"
  by (auto simp: refresh_defs split: sum.split)

lemmas section_simps = refreshHost_sections refreshProcesses_sections(1-6) refreshPorts_sections(1-6)
  refreshServices_sections(1-6)

text \<open>The snapshot a refresh returns, from the answers of its four providers; \<open>services\<close> is \<open>None\<close> when
  they were not asked.\<close>

definition next_snapshot :: "DashboardSnapshot \<Rightarrow> MetricsView option \<Rightarrow> MetricsSnapshot result \<Rightarrow>
    ProcessInfo list Observation result \<Rightarrow> PortInfo list Observation result \<Rightarrow>
    ServiceInfo list Observation result option \<Rightarrow> DashboardSnapshot" where
  "next_snapshot s0 view metrics processes ports services =
     (case services of None \<Rightarrow> id | Some r \<Rightarrow> refreshServicesSection r)
       (refreshPorts ports (refreshProcesses view processes (refreshHost view metrics s0)))"

text \<open>A section is fresh with the observed contents, or stale with the contents it had, and then the
  error is among the warnings.\<close>

definition fresh_or_stale :: "'a result \<Rightarrow> 'b \<Rightarrow> ('a \<Rightarrow> 'b) \<Rightarrow> 'b \<Rightarrow> bool \<Rightarrow> Warning list \<Rightarrow> bool" where
  "fresh_or_stale answer old content new stale warnings \<longleftrightarrow>
     (case answer of
        Inr ob \<Rightarrow> new = content ob \<and> \<not> stale
      | Inl e \<Rightarrow> new = old \<and> stale \<and> warningFrom e \<in> set warnings)"

lemma next_snapshot_services_warnings:
  "set (ds_warnings (refreshPorts ports (refreshProcesses view processes (refreshHost view metrics s0))))
     \<subseteq> set (ds_warnings (next_snapshot s0 view metrics processes ports services))"
  using refreshServices_sections(7) by (auto simp: next_snapshot_def split: option.split)

lemma next_snapshot_host:
  assumes "view = metricsViewOf rnd p metrics"
    and "s = next_snapshot s0 view metrics processes ports services"
  shows "fresh_or_stale metrics (ds_host s0) (\<lambda>_. mv_host (the view)) (ds_host s) (ds_hostStale s)
    (ds_warnings s)"
proof (cases metrics)
  case (Inl e)
  then have "warningFrom e \<in> set (ds_warnings (refreshHost view metrics s0))"
    by (simp add: refresh_defs)
  then have "warningFrom e \<in> set (ds_warnings s)"
    using assms(2) refreshProcesses_sections(7) refreshPorts_sections(7)
      next_snapshot_services_warnings by blast
  then show ?thesis
    using assms Inl by (auto simp: fresh_or_stale_def next_snapshot_def section_simps split: option.split)
       (simp_all add: refresh_defs)
next
  case (Inr m)
  then show ?thesis
    using assms metricsViewOf_None [of rnd p metrics]
    by (auto simp: fresh_or_stale_def next_snapshot_def section_simps split: option.split)
       (simp_all add: refresh_defs split: option.split)
qed

lemma next_snapshot_processes:
  assumes "s = next_snapshot s0 view metrics processes ports services"
  shows "fresh_or_stale processes (ds_processes s0)
    (\<lambda>ob. case view of None \<Rightarrow> ob_value ob | Some v \<Rightarrow> attachCpu v (ob_value ob))
    (ds_processes s) (ds_processesStale s) (ds_warnings s)"
proof (cases processes)
  case (Inl e)
  then have "warningFrom e \<in> set (ds_warnings (refreshProcesses view processes (refreshHost view metrics s0)))"
    by (simp add: refreshProcesses_def warn_def)
  then have "warningFrom e \<in> set (ds_warnings s)"
    using assms refreshPorts_sections(7) next_snapshot_services_warnings by blast
  then show ?thesis
    using assms Inl
    by (auto simp: fresh_or_stale_def next_snapshot_def section_simps split: option.split)
       (simp_all add: refreshProcesses_def warn_def section_simps)
next
  case (Inr ob)
  then show ?thesis
    using assms
    by (auto simp: fresh_or_stale_def next_snapshot_def section_simps split: option.split)
       (simp_all add: refreshProcesses_def warn_def)
qed

lemma next_snapshot_ports:
  assumes "s = next_snapshot s0 view metrics processes ports services"
  shows "fresh_or_stale ports (ds_ports s0) ob_value (ds_ports s) (ds_portsStale s) (ds_warnings s)"
proof (cases ports)
  case (Inl e)
  then have "warningFrom e \<in> set (ds_warnings (refreshPorts ports (refreshProcesses view processes
      (refreshHost view metrics s0))))"
    by (simp add: refreshPorts_def warn_def)
  then have "warningFrom e \<in> set (ds_warnings s)"
    using assms next_snapshot_services_warnings by blast
  then show ?thesis
    using assms Inl
    by (auto simp: fresh_or_stale_def next_snapshot_def section_simps split: option.split)
       (simp_all add: refreshPorts_def warn_def section_simps)
next
  case (Inr ob)
  then show ?thesis
    using assms
    by (auto simp: fresh_or_stale_def next_snapshot_def section_simps split: option.split)
       (simp_all add: refreshPorts_def warn_def)
qed

lemma next_snapshot_services:
  assumes "s = next_snapshot s0 view metrics processes ports services"
  shows "case services of
      None \<Rightarrow> ds_services s = ds_services s0 \<and> ds_servicesStale s = ds_servicesStale s0
    | Some r \<Rightarrow> fresh_or_stale r (ds_services s0) ob_value (ds_services s) (ds_servicesStale s) (ds_warnings s)"
  using assms
  by (auto simp: fresh_or_stale_def next_snapshot_def refreshServicesSection_def warn_def section_simps
      split: option.split sum.split)

text \<open>A refresh is \<open>next_snapshot\<close> of the answers it got.\<close>

lemma refreshAt_answers:
  assumes "result_of (DashboardService_refreshAt rnd S st now) w = (s, st')"
  obtains metrics processes ports services capturedAt w1 w2 w3 w4 where
    "metrics = result_of (MetricsService_capture (da_metrics S)) w1"
    "processes = result_of (ProcessService_list (da_processes S) default_ProcessQuery) w2"
    "ports = result_of (PortService_inspect (da_ports S) default_SocketQuery) w3"
    "services = (if servicesDue (dt_servicesRefreshedAt st) now
                 then Some (result_of (ServiceService_list (da_services S)) w4) else None)"
    "s = next_snapshot ((shown st)\<lparr>ds_warnings := [], ds_capturedAt := capturedAt\<rparr>)
           (metricsViewOf rnd (dt_previousMetrics st) metrics) metrics processes ports services"
    "dt_previous st' = Some s"
    "dt_servicesRefreshedAt st' =
       (case services of Some (Inr _) \<Rightarrow> Some now | _ \<Rightarrow> dt_servicesRefreshedAt st)"
proof -
  define w1 where "w1 = world_after (ck_systemNow (da_clock S)) w"
  define w2 where "w2 = world_after (MetricsService_capture (da_metrics S)) w1"
  define w3 where "w3 = world_after (ProcessService_list (da_processes S) default_ProcessQuery) w2"
  define w4 where "w4 = world_after (PortService_inspect (da_ports S) default_SocketQuery) w3"
  show thesis
  proof (rule that [OF refl refl refl refl])
    let ?metrics = "result_of (MetricsService_capture (da_metrics S)) w1"
    let ?services = "if servicesDue (dt_servicesRefreshedAt st) now
      then Some (result_of (ServiceService_list (da_services S)) w4) else None"
    show "s = next_snapshot ((shown st)\<lparr>ds_warnings := [],
          ds_capturedAt := result_of (ck_systemNow (da_clock S)) w\<rparr>)
        (metricsViewOf rnd (dt_previousMetrics st) ?metrics) ?metrics
        (result_of (ProcessService_list (da_processes S) default_ProcessQuery) w2)
        (result_of (PortService_inspect (da_ports S) default_SocketQuery) w3) ?services"
      using assms unfolding DashboardService_refreshAt_def Let_def next_snapshot_def w4_def w3_def w2_def w1_def
      by (auto split: if_split_asm)
    show "dt_previous st' = Some s"
      "dt_servicesRefreshedAt st' =
         (case ?services of Some (Inr _) \<Rightarrow> Some now | _ \<Rightarrow> dt_servicesRefreshedAt st)"
      using assms unfolding DashboardService_refreshAt_def Let_def w4_def w3_def w2_def w1_def
      by (auto split: if_split_asm sum.split)
  qed
qed

section \<open>Properties\<close>

text \<open>
  C30. A refresh never loses or invents data: each of the four sections either shows what its provider
  just returned and is not marked stale, or shows what it showed before, is marked stale and the
  failure is among the warnings; services that were not due keep contents and mark. What is shown is
  also what the next refresh starts from.
\<close>

theorem DashboardService_refresh_sections:
  "case result_of (DashboardService_refreshAt rnd S st now) w of (s, st') \<Rightarrow> \<exists>w1 w2 w3 w4 view.
    view = metricsViewOf rnd (dt_previousMetrics st) (result_of (MetricsService_capture (da_metrics S)) w1) \<and>
    fresh_or_stale (result_of (MetricsService_capture (da_metrics S)) w1) (ds_host (shown st))
      (\<lambda>_. mv_host (the view)) (ds_host s) (ds_hostStale s) (ds_warnings s) \<and>
    fresh_or_stale (result_of (ProcessService_list (da_processes S) default_ProcessQuery) w2)
      (ds_processes (shown st))
      (\<lambda>ob. case view of None \<Rightarrow> ob_value ob | Some v \<Rightarrow> attachCpu v (ob_value ob))
      (ds_processes s) (ds_processesStale s) (ds_warnings s) \<and>
    fresh_or_stale (result_of (PortService_inspect (da_ports S) default_SocketQuery) w3)
      (ds_ports (shown st)) ob_value (ds_ports s) (ds_portsStale s) (ds_warnings s) \<and>
    (if servicesDue (dt_servicesRefreshedAt st) now
     then fresh_or_stale (result_of (ServiceService_list (da_services S)) w4) (ds_services (shown st))
            ob_value (ds_services s) (ds_servicesStale s) (ds_warnings s)
     else ds_services s = ds_services (shown st) \<and> ds_servicesStale s = ds_servicesStale (shown st)) \<and>
    dt_previous st' = Some s"
proof (cases "result_of (DashboardService_refreshAt rnd S st now) w", rule refreshAt_answers, assumption)
  fix s st' metrics processes ports services capturedAt w1 w2 w3 w4
  let ?s0 = "(shown st)\<lparr>ds_warnings := [], ds_capturedAt := capturedAt\<rparr>"
  let ?view = "metricsViewOf rnd (dt_previousMetrics st) metrics"
  assume m: "metrics = result_of (MetricsService_capture (da_metrics S)) w1"
    and p: "processes = result_of (ProcessService_list (da_processes S) default_ProcessQuery) w2"
    and o: "ports = result_of (PortService_inspect (da_ports S) default_SocketQuery) w3"
    and v: "services = (if servicesDue (dt_servicesRefreshedAt st) now
      then Some (result_of (ServiceService_list (da_services S)) w4) else None)"
    and s: "s = next_snapshot ?s0 ?view metrics processes ports services"
    and st: "dt_previous st' = Some s"
    and run: "result_of (DashboardService_refreshAt rnd S st now) w = (s, st')"
  have "if servicesDue (dt_servicesRefreshedAt st) now
     then fresh_or_stale (result_of (ServiceService_list (da_services S)) w4) (ds_services (shown st))
            ob_value (ds_services s) (ds_servicesStale s) (ds_warnings s)
     else ds_services s = ds_services (shown st) \<and> ds_servicesStale s = ds_servicesStale (shown st)"
    using next_snapshot_services [OF s] unfolding v by (simp split: if_splits)
  then show ?thesis
    using next_snapshot_host [OF refl s] next_snapshot_processes [OF s] next_snapshot_ports [OF s] st
    unfolding m p o run prod.case by (intro exI conjI) (rule refl | assumption | simp)+
qed

text \<open>
  Services are asked for at most every three seconds: within three seconds of the last
  successful answer a refresh does not depend on the service provider at all and keeps the time of
  that answer; a refresh that is due records its time only if the provider answered, so a failed one
  is tried again by the next refresh.
\<close>

theorem DashboardService_services_throttled:
  assumes "dt_servicesRefreshedAt st = Some t"
  shows "(now - t < 3000000000 \<longrightarrow>
      DashboardService_refreshAt rnd (S\<lparr>da_services := T\<rparr>) st now = DashboardService_refreshAt rnd S st now \<and>
      dt_servicesRefreshedAt (snd (result_of (DashboardService_refreshAt rnd S st now) w)) = Some t) \<and>
    (3000000000 \<le> now - t \<longrightarrow>
      (\<exists>w4. dt_servicesRefreshedAt (snd (result_of (DashboardService_refreshAt rnd S st now) w)) =
        (case result_of (ServiceService_list (da_services S)) w4 of Inl _ \<Rightarrow> Some t | Inr _ \<Rightarrow> Some now)))"
proof (intro conjI impI)
  assume early: "now - t < 3000000000"
  then have due: "servicesDue (dt_servicesRefreshedAt st) now = False"
    using assms by (simp add: servicesDue_def)
  show "DashboardService_refreshAt rnd (S\<lparr>da_services := T\<rparr>) st now = DashboardService_refreshAt rnd S st now"
    unfolding DashboardService_refreshAt_def due by simp
  show "dt_servicesRefreshedAt (snd (result_of (DashboardService_refreshAt rnd S st now) w)) = Some t"
    unfolding DashboardService_refreshAt_def due using assms by (simp add: Let_def)
next
  assume "3000000000 \<le> now - t"
  then have due: "servicesDue (dt_servicesRefreshedAt st) now = True"
    using assms by (simp add: servicesDue_def)
  show "\<exists>w4. dt_servicesRefreshedAt (snd (result_of (DashboardService_refreshAt rnd S st now) w)) =
      (case result_of (ServiceService_list (da_services S)) w4 of Inl _ \<Rightarrow> Some t | Inr _ \<Rightarrow> Some now)"
    unfolding DashboardService_refreshAt_def due if_True Let_def unfolding assms
    by (simp add: assms) (rule exI, rule refl)
qed

definition demo_DashboardService :: "int DashboardService" where
  "demo_DashboardService =
     \<lparr>da_metrics = \<lparr>me_system = \<lparr>sy_sample = return (success (ms_system (demo_sample 10 5 1)))\<rparr>,
        me_processes = \<lparr>pm_sample = return (success [])\<rparr>, me_waiter = (\<lambda>d. return ())\<rparr>,
      da_processes = demo_ProcessService, da_ports = demo_PortService, da_services = demo_services,
      da_clock = po_clock demo_PortService\<rparr>"

theorem DashboardService_services_throttled_witness:
  "dt_servicesRefreshedAt (snd (result_of (DashboardService_refreshAt (\<lambda>x. x) demo_DashboardService
      \<lparr>dt_previousMetrics = None, dt_previous = None, dt_servicesRefreshedAt = Some 5\<rparr> 100) 0)) = Some 5"
  using DashboardService_services_throttled [where
      st = "\<lparr>dt_previousMetrics = None, dt_previous = None, dt_servicesRefreshedAt = Some 5\<rparr>" and
      t = 5 and now = 100 and rnd = "\<lambda>x. x" and S = demo_DashboardService and T = demo_services and w = 0]
  by simp

end
