(* ===== verification/TuiRunner.thy ===== *)
theory TuiRunner
  imports TaskWorker CliText InspectService FindService DashboardService
begin

text \<open>
  \<open>src/tui/FtxuiTuiRunner.cpp\<close>: the interactive dashboard. The state the event handler captures is the
  record \<open>TuiState\<close>; one call of the handler is a function of the latest snapshot, the text of the task
  worker, the state and the event, which returns the new state, the effects (tasks submitted, the
  result cleared, the loop left) and whether the event was consumed. A task is a value; \<open>runTask\<close> is the
  code of the closures. An index that is out of range is an effect of its own, so that its absence can
  be proved.

  FTXUI is not code of the program: the tree of elements that the renderer builds is the type
  \<open>element\<close>; drawing it, the event loop and the editing of the search text are FTXUI's.
\<close>

section \<open>Text and resources\<close>

definition clipped :: "string \<Rightarrow> nat \<Rightarrow> string" where
  "clipped s width =
     (if length s \<le> width then s
      else if width > 3 then substr s 0 (width - 3) @ ''...'' else substr s 0 width)"

definition itemCount :: "DashboardSnapshot \<Rightarrow> int \<Rightarrow> int" where
  "itemCount snapshot tab =
     (if tab = 0 then int (length (ds_services snapshot))
      else if tab = 1 then int (length (ds_ports snapshot))
      else int (length (ds_processes snapshot)))"

text \<open>
  Indexing a vector: \<^term>\<open>None\<close> where the index is out of range, which is undefined behaviour in the
  code. The handler turns every such read into the effect \<open>OutOfRange\<close>.
\<close>

definition element_at :: "'a list \<Rightarrow> int \<Rightarrow> 'a option" where
  "element_at xs i = (if 0 \<le> i \<and> i < int (length xs) then Some (xs ! nat i) else None)"

definition selectedResource :: "DashboardSnapshot \<Rightarrow> int \<Rightarrow> int \<Rightarrow> string option" where
  "selectedResource snapshot tab selected =
     (if selected < 0 \<or> itemCount snapshot tab \<le> selected then Some []
      else if tab = 0
      then map_option (\<lambda>service. ''service:'' @ si_unitName service) (element_at (ds_services snapshot) selected)
      else if tab = 1
      then map_option (\<lambda>port. ''port:'' @ nat_str (unat (ep_port (so_local (po_socket port)))))
             (element_at (ds_ports snapshot) selected)
      else map_option (\<lambda>process. ''pid:'' @ int_str (pi_pid process))
             (element_at (ds_processes snapshot) selected))"

definition text_lines :: "string \<Rightarrow> string list" where
  "text_lines s = split_on CHR ''\<newline>'' s"

definition inspectText :: "ResourceGraph result \<Rightarrow> string" where
  "inspectText r =
     (case r of
        Inl e \<Rightarrow> ''Inspect failed: '' @ er_message e
      | Inr graph \<Rightarrow>
          ''Inspect result\<newline>Processes: '' @ nat_str (length (rg_processes graph)) @ ''\<newline>Ports: '' @
          nat_str (length (rg_ports graph)) @ ''\<newline>Services: '' @ nat_str (length (rg_services graph)) @
          ''\<newline>Recent logs: '' @ nat_str (length (rg_recentLogs graph)) @
          concat (map (\<lambda>process. ''\<newline>PID '' @ int_str (pi_pid process) @ ''  '' @ pi_name process)
            (rg_processes graph)) @
          concat (map (\<lambda>service. ''\<newline>'' @ si_unitName service @ ''  '' @ si_activeState service)
            (rg_services graph)))"

definition findText :: "FindResult result \<Rightarrow> string" where
  "findText r =
     (case r of
        Inl e \<Rightarrow> ''Find failed: '' @ er_message e
      | Inr found \<Rightarrow>
          ''Find results\<newline>Services: '' @ nat_str (length (fr_services found)) @ ''  Processes: '' @
          nat_str (length (fr_processes found)) @ ''  Ports: '' @ nat_str (length (fr_ports found)) @
          concat (map (\<lambda>service. ''\<newline>service  '' @ si_unitName service) (fr_services found)) @
          concat (map (\<lambda>process. ''\<newline>process  '' @ int_str (pi_pid process) @ '' '' @ pi_name process)
            (fr_processes found)) @
          concat (map (\<lambda>port. ''\<newline>port     '' @ nat_str (unat (ep_port (so_local (po_socket port)))))
            (fr_ports found)) @
          concat (map (\<lambda>executable. ''\<newline>exe      '' @ executable) (fr_executables found)))"

section \<open>The state and the tasks\<close>

datatype PendingAction = NoAction | StopService | RestartService | TerminateProcess | KillProcess

record TuiState =
  tu_tab :: int
  tu_selected :: "int list"
  tu_searching :: bool
  tu_help :: bool
  tu_pendingAction :: PendingAction
  tu_confirmationStep :: int
  tu_actionTarget :: string
  tu_actionPid :: pid
  tu_searchQuery :: string

definition TuiState_init :: TuiState where
  "TuiState_init = \<lparr>tu_tab = 0, tu_selected = [0, 0, 0], tu_searching = False, tu_help = False,
     tu_pendingAction = NoAction, tu_confirmationStep = 0, tu_actionTarget = [], tu_actionPid = -1,
     tu_searchQuery = []\<rparr>"

datatype tui_event = EvReturn | EvEscape | EvTab | EvArrowLeft | EvArrowRight | EvArrowUp | EvArrowDown
  | EvF1 | EvCharacter char | EvOther

fun is_character :: "tui_event \<Rightarrow> bool" where
  "is_character (EvCharacter c) = True"
| "is_character _ = False"

datatype tui_task = FindTask string | ActionTask PendingAction string pid | InspectTask string
  | NoteTask string | LogsTask LogQuery

datatype tui_effect = SubmitTask tui_task | ClearResult | ExitLoop | OutOfRange

record 'w TuiServices =
  ts_inspect :: "'w InspectService"
  ts_find :: "'w FindService"
  ts_logs :: "'w LogService"
  ts_processes :: "'w ProcessService"
  ts_services :: "'w ServiceService"

definition runAction :: "'w TuiServices \<Rightarrow> PendingAction \<Rightarrow> string \<Rightarrow> pid \<Rightarrow> ('w, string) io" where
  "runAction T action unit pid =
     (if action = StopService \<or> action = RestartService
      then do {
        r \<leftarrow> (if action = StopService then ServiceService_stop (ts_services T) unit
              else ServiceService_restart (ts_services T) unit);
        return (case r of
          Inr _ \<Rightarrow> ''Service action submitted for '' @ unit
        | Inl e \<Rightarrow> ''Service action failed: '' @ er_message e)
      }
      else do {
        r \<leftarrow> (if action = TerminateProcess then ProcessService_stop (ts_processes T) pid
              else ProcessService_kill (ts_processes T) pid);
        return (case r of
          Inr _ \<Rightarrow> ''Signal sent to PID '' @ int_str pid
        | Inl e \<Rightarrow> ''Signal failed: '' @ er_message e)
      })"

definition runLogs :: "'w TuiServices \<Rightarrow> LogQuery \<Rightarrow> ('w, string) io" where
  "runLogs T query = do {
     r \<leftarrow> LogService_read (ts_logs T) query;
     return (case r of
       Inl e \<Rightarrow> ''Logs failed: '' @ er_message e
     | Inr ob \<Rightarrow> ''Recent logs ('' @ nat_str (length (ob_value ob)) @ '')'' @
         concat (map (\<lambda>entry. ''\<newline>'' @ je_message entry) (ob_value ob)))
   }"

fun runTask :: "'w TuiServices \<Rightarrow> tui_task \<Rightarrow> ('w, string) io" where
  "runTask T (FindTask query) = do { r \<leftarrow> FindService_find (ts_find T) query; return (findText r) }"
| "runTask T (ActionTask action unit pid) = runAction T action unit pid"
| "runTask T (InspectTask resource) =
     do { r \<leftarrow> InspectService_inspect (ts_inspect T) resource; return (inspectText r) }"
| "runTask T (NoteTask s) = return s"
| "runTask T (LogsTask query) = runLogs T query"

section \<open>The event handler\<close>

type_synonym handled = "TuiState \<times> tui_effect list \<times> bool"

abbreviation selection :: "TuiState \<Rightarrow> int" where
  "selection s \<equiv> tu_selected s ! nat (tu_tab s)"

text \<open>The keys that ask for an action on the selected service or process.\<close>

definition handleServiceKey :: "DashboardSnapshot \<Rightarrow> char \<Rightarrow> TuiState \<Rightarrow> handled" where
  "handleServiceKey snapshot c s =
     (case element_at (ds_services snapshot) (selection s) of
        None \<Rightarrow> (s, [OutOfRange], True)
      | Some service \<Rightarrow>
          (s\<lparr>tu_pendingAction := (if c = CHR ''s'' then StopService else RestartService),
             tu_actionTarget := si_unitName service, tu_confirmationStep := 1\<rparr>, [ClearResult], True))"

definition handleProcessKey :: "Formats \<Rightarrow> DashboardSnapshot \<Rightarrow> char \<Rightarrow> TuiState \<Rightarrow> handled" where
  "handleProcessKey F snapshot c s =
     (case element_at (ds_processes snapshot) (selection s) of
        None \<Rightarrow> (s, [OutOfRange], True)
      | Some process \<Rightarrow>
          (s\<lparr>tu_pendingAction := (if c = CHR ''k'' then TerminateProcess else KillProcess),
             tu_actionPid := pi_pid process,
             tu_actionTarget := fm_format F ''PID {} ({})'' [FmtInt (pi_pid process), FmtStr (pi_name process)],
             tu_confirmationStep := 1\<rparr>, [ClearResult], True))"

definition handleLogsKey :: "DashboardSnapshot \<Rightarrow> TuiState \<Rightarrow> handled" where
  "handleLogsKey snapshot s =
     (let query = default_LogQuery\<lparr>lq_limit := 20\<rparr> in
      if tu_tab s = 0 \<and> selection s < itemCount snapshot (tu_tab s)
      then (case element_at (ds_services snapshot) (selection s) of
              None \<Rightarrow> (s, [OutOfRange], True)
            | Some service \<Rightarrow> (s, [SubmitTask (LogsTask (query\<lparr>lq_unit := Some (si_unitName service)\<rparr>))], True))
      else if tu_tab s = 2 \<and> selection s < itemCount snapshot (tu_tab s)
      then (case element_at (ds_processes snapshot) (selection s) of
              None \<Rightarrow> (s, [OutOfRange], True)
            | Some process \<Rightarrow> (s, [SubmitTask (LogsTask (query\<lparr>lq_pid := Some (pi_pid process)\<rparr>))], True))
      else (s, [SubmitTask (NoteTask ''Select a service or process to view logs'')], True))"

text \<open>The handler from the point where it reads the snapshot.\<close>

definition handleOnSnapshot :: "Formats \<Rightarrow> DashboardSnapshot option \<Rightarrow> TuiState \<Rightarrow> tui_event \<Rightarrow> handled" where
  "handleOnSnapshot F latest s event =
     (let ignored = (s, [], \<not> tu_searching s \<and> is_character event) in
      case latest of
        None \<Rightarrow> ignored
      | Some snapshot \<Rightarrow>
          (if \<not> tu_searching s \<and> tu_tab s = 0 \<and> (event = EvCharacter CHR ''s'' \<or> event = EvCharacter CHR ''r'') \<and>
              selection s < itemCount snapshot (tu_tab s)
           then handleServiceKey snapshot (if event = EvCharacter CHR ''s'' then CHR ''s'' else CHR ''r'') s
           else if \<not> tu_searching s \<and> tu_tab s = 2 \<and> (event = EvCharacter CHR ''k'' \<or> event = EvCharacter CHR ''K'') \<and>
              selection s < itemCount snapshot (tu_tab s)
           then handleProcessKey F snapshot (if event = EvCharacter CHR ''k'' then CHR ''k'' else CHR ''K'') s
           else if \<not> tu_searching s \<and> event = EvReturn
           then (case selectedResource snapshot (tu_tab s) (selection s) of
                   None \<Rightarrow> (s, [OutOfRange], True)
                 | Some resource \<Rightarrow>
                     (s, if resource \<noteq> [] then [SubmitTask (InspectTask resource)] else [], True))
           else if \<not> tu_searching s \<and> event = EvCharacter CHR ''l'' then handleLogsKey snapshot s
           else if event = EvArrowUp
           then (s\<lparr>tu_selected := (tu_selected s)[nat (tu_tab s) := max 0 (selection s - 1)]\<rparr>, [], True)
           else if event = EvArrowDown
           then (s\<lparr>tu_selected := (tu_selected s)[nat (tu_tab s) :=
                    min (max 0 (itemCount snapshot (tu_tab s) - 1)) (selection s + 1)]\<rparr>, [], True)
           else ignored))"

definition handleEvent ::
  "Formats \<Rightarrow> DashboardSnapshot option \<Rightarrow> string \<Rightarrow> TuiState \<Rightarrow> tui_event \<Rightarrow> handled" where
  "handleEvent F latest taskResult s event =
     (if tu_searching s \<and> event = EvReturn
      then (s\<lparr>tu_searching := False\<rparr>,
            if tu_searchQuery s \<noteq> [] then [SubmitTask (FindTask (tu_searchQuery s))] else [], True)
      else if tu_pendingAction s \<noteq> NoAction \<and> (event = EvCharacter CHR ''n'' \<or> event = EvEscape)
      then (s\<lparr>tu_pendingAction := NoAction, tu_confirmationStep := 0\<rparr>, [], True)
      else if tu_pendingAction s \<noteq> NoAction \<and> event = EvCharacter CHR ''y''
      then (if tu_pendingAction s = KillProcess \<and> tu_confirmationStep s = 1
            then (s\<lparr>tu_confirmationStep := 2\<rparr>, [], True)
            else (s\<lparr>tu_pendingAction := NoAction, tu_confirmationStep := 0\<rparr>,
                  [SubmitTask (ActionTask (tu_pendingAction s) (tu_actionTarget s) (tu_actionPid s))], True))
      else if tu_pendingAction s \<noteq> NoAction then (s, [], True)
      else if event = EvEscape \<and> (tu_searching s \<or> tu_help s \<or> taskResult \<noteq> [])
      then (s\<lparr>tu_searching := False, tu_help := False\<rparr>, [ClearResult], True)
      else if \<not> tu_searching s \<and> (event = EvCharacter CHR ''q'' \<or> event = EvEscape) then (s, [ExitLoop], True)
      else if \<not> tu_searching s \<and> event = EvF1 then (s\<lparr>tu_help := \<not> tu_help s\<rparr>, [ClearResult], True)
      else if \<not> tu_searching s \<and> event = EvCharacter CHR ''/''
      then (s\<lparr>tu_searching := True, tu_searchQuery := [], tu_help := False\<rparr>, [], True)
      else if event = EvTab then (s\<lparr>tu_tab := (tu_tab s + 1) mod 3\<rparr>, [], True)
      else if event = EvArrowLeft then (s\<lparr>tu_tab := (tu_tab s + 2) mod 3\<rparr>, [], True)
      else if event = EvArrowRight then (s\<lparr>tu_tab := (tu_tab s + 1) mod 3\<rparr>, [], True)
      else handleOnSnapshot F latest s event)"

text \<open>What an effect does to the task worker.\<close>

fun applyEffect :: "tui_effect \<Rightarrow> tui_task TaskWorker \<Rightarrow> tui_task TaskWorker" where
  "applyEffect (SubmitTask task) w = snd (TaskWorker_submit task w)"
| "applyEffect ClearResult w = TaskWorker_clear w"
| "applyEffect _ w = w"

section \<open>Rendering\<close>

datatype element = EText string | ESeparator | EInput | EVbox "element list" | EHbox "element list"
  | EInverted element | EBold element | EDim element | ECenter element | EFlex element | EFrame element
  | EBorder element | EYellow element

definition panelHeader :: "int \<Rightarrow> string" where
  "panelHeader tab =
     (if tab = 0 then '' SERVICE                                  ACTIVE       SUB             PID''
      else if tab = 1 then '' PROTO  ADDRESS                                  PORT   PID       PROCESS''
      else '' PID      CPU %   RSS MiB   USER             NAME                     SERVICE'')"

definition panelValues :: "Formats \<Rightarrow> DashboardSnapshot \<Rightarrow> int \<Rightarrow> string list" where
  "panelValues F snapshot tab =
     (if tab = 0
      then map (\<lambda>service. fm_format F '' {:<40} {:<12} {:<15} {}''
        [FmtStr (clipped (si_unitName service) 40), FmtStr (clipped (si_activeState service) 12),
         FmtStr (clipped (si_subState service) 15),
         FmtStr (case si_mainPid service of None \<Rightarrow> ''-'' | Some p \<Rightarrow> int_str p)]) (ds_services snapshot)
      else if tab = 1
      then map (\<lambda>port. fm_format F '' {:<6} {:<40} {:<6} {:<9} {}''
        [FmtStr (protocolText (po_socket port)), FmtStr (clipped (ep_address (so_local (po_socket port))) 40),
         FmtInt (uint (ep_port (so_local (po_socket port)))),
         FmtStr (case so_ownerPids (po_socket port) of [] \<Rightarrow> ''-'' | p # _ \<Rightarrow> int_str p),
         FmtStr (clipped (case po_owners port of [] \<Rightarrow> ''-'' | owner # _ \<Rightarrow> pi_name owner) 24)])
        (ds_ports snapshot)
      else map (\<lambda>process. fm_format F '' {:<8} {:>6} {:>9.1f} {:<16} {:<24} {}''
        [FmtInt (pi_pid process),
         FmtStr (case pi_cpuPercent process of None \<Rightarrow> ''-'' | Some c \<Rightarrow> fm_format F ''{:.1f}'' [FmtReal c]),
         FmtReal (mebibytes F (pi_rssBytes process)), FmtStr (clipped (pi_user process) 16),
         FmtStr (clipped (pi_name process) 24), FmtStr (value_or (pi_systemdUnit process) ''-'')])
        (ds_processes snapshot))"

text \<open>The window of rows around the selection.\<close>

definition windowBegin :: "int \<Rightarrow> int" where
  "windowBegin selected = max 0 (selected - 10)"

definition windowEnd :: "int \<Rightarrow> int \<Rightarrow> int" where
  "windowEnd n selected = min n (windowBegin selected + 22)"

definition panelRow :: "string list \<Rightarrow> int \<Rightarrow> int \<Rightarrow> element" where
  "panelRow rows selected index =
     (if index = selected then EInverted (EText (rows ! nat index)) else EText (rows ! nat index))"

definition resourcePanel :: "Formats \<Rightarrow> DashboardSnapshot \<Rightarrow> int \<Rightarrow> int \<Rightarrow> element" where
  "resourcePanel F snapshot tab selected =
     (let rows = panelValues F snapshot tab in
      EFlex (EFrame (EVbox
        ([EText (panelHeader tab), ESeparator] @
         map (panelRow rows selected)
           [windowBegin selected .. windowEnd (int (length rows)) selected - 1] @
         (if rows = [] then [EDim (EText '' No resources available'')] else [])))))"

definition pendingText :: "TuiState \<Rightarrow> element" where
  "pendingText s =
     EFlex (ECenter (EBorder (EVbox
       [EBold (EText (case tu_pendingAction s of
          StopService \<Rightarrow> ''Stop service''
        | RestartService \<Rightarrow> ''Restart service''
        | TerminateProcess \<Rightarrow> ''Send SIGTERM to process''
        | _ \<Rightarrow> ''Send SIGKILL to process'')),
        EText (tu_actionTarget s), ESeparator,
        EYellow (EText (if tu_pendingAction s = KillProcess \<and> tu_confirmationStep s = 2
          then ''FINAL CONFIRMATION: this cannot be undone'' else ''Confirm the selected action'')),
        EText ''Press y to continue or n/Esc to cancel''])))"

definition helpText :: element where
  "helpText = EFlex (EBorder (EVbox
     [EBold (EText ''Keyboard help''), EText ''Tab/Left/Right  switch panel'',
      EText ''Up/Down         select resource'', EText ''Enter           inspect selected resource'',
      EText ''/               find resources'', EText ''l               recent logs for selected resource'',
      EText ''Esc             close view / quit'', EText ''q               quit'']))"

definition tabLabels :: "Formats \<Rightarrow> DashboardSnapshot \<Rightarrow> int \<Rightarrow> element" where
  "tabLabels F snapshot tab =
     EHbox (map (\<lambda>index.
       let label = EText (fm_format F '' {} ({}) ''
         [FmtStr ([''Services'', ''Ports'', ''Processes''] ! nat index),
          FmtInt (if index = 0 then int (length (ds_services snapshot))
                  else if index = 1 then int (length (ds_ports snapshot))
                  else int (length (ds_processes snapshot)))]) in
       if index = tab then EBold (EInverted label) else label) [0 .. 2])"

definition dashboardRows :: "Formats \<Rightarrow> DashboardSnapshot \<Rightarrow> string \<Rightarrow> TuiState \<Rightarrow> element list" where
  "dashboardRows F snapshot taskResult s =
     [EText (fm_format F '' {}   CPU {}   Memory {:.1f}/{:.1f} MiB ''
        [FmtStr (hs_hostname (ds_host snapshot)),
         FmtStr (case hs_cpuPercent (ds_host snapshot) of
           None \<Rightarrow> ''-'' | Some c \<Rightarrow> fm_format F ''{:.1f}%'' [FmtReal c]),
         FmtReal (mebibytes F (hs_memoryUsedBytes (ds_host snapshot))),
         FmtReal (mebibytes F (hs_memoryTotalBytes (ds_host snapshot)))]),
      ESeparator, tabLabels F snapshot (tu_tab s),
      (if tu_pendingAction s \<noteq> NoAction then pendingText s
       else if tu_help s then helpText
       else if taskResult \<noteq> [] then EFlex (EBorder (EVbox (map EText (text_lines taskResult))))
       else resourcePanel F snapshot (tu_tab s) (selection s))] @
     (case ds_warnings snapshot of
        [] \<Rightarrow> []
      | warning # _ \<Rightarrow> [ESeparator, EYellow (EText (''Warning: '' @ wn_message warning))])"

definition renderContent :: "Formats \<Rightarrow> DashboardSnapshot option \<Rightarrow> string \<Rightarrow> TuiState \<Rightarrow> element" where
  "renderContent F latest taskResult s =
     EBorder (EVbox
       ([ECenter (EBold (EText '' LX resource dashboard ''))] @
        (case latest of
           None \<Rightarrow> [ESeparator, EFlex (ECenter (EText ''Loading resources...''))]
         | Some snapshot \<Rightarrow> dashboardRows F snapshot taskResult s) @
        (if tu_searching s then [EBorder (EHbox [EText '' Find: '', EInput])] else []) @
        [ESeparator,
         EDim (EText '' Tab/arrows navigate  Enter inspect  / find  l logs  s/r service  k/K process  F1 help  q quit '')]))"

section \<open>Running the dashboard\<close>

text \<open>\<open>run\<close> around the event loop: \<open>Inl\<close> is the text of an exception that the screen, the workers or the loop
  threw.\<close>

definition FtxuiTuiRunner_run :: "('w, string + unit) io \<Rightarrow> ('w, unit result) io" where
  "FtxuiTuiRunner_run loop = do {
     left \<leftarrow> loop;
     return (case left of
       Inr _ \<Rightarrow> success ()
     | Inl what \<Rightarrow> failure (mkError OperationFailed (''Unable to run terminal UI: '' @ what) 0 ''tui'' ''run''))
   }"

section \<open>Histories\<close>

text \<open>What the handler saw, call by call: the snapshot, the text of the task worker and the event.
  Between two events the search text may be edited.\<close>

type_synonym observed_event = "DashboardSnapshot option \<times> string \<times> tui_event"

inductive tui_history :: "Formats \<Rightarrow> observed_event list \<Rightarrow> TuiState \<Rightarrow> bool" for F where
  opened: "tui_history F [] TuiState_init"
| edited: "tui_history F h s \<Longrightarrow> tui_history F h (s\<lparr>tu_searchQuery := q\<rparr>)"
| handled: "tui_history F h s \<Longrightarrow>
    tui_history F (h @ [(latest, r, event)]) (fst (handleEvent F latest r s event))"

section \<open>The invariant of the state\<close>

definition tui_ok :: "TuiState \<Rightarrow> bool" where
  "tui_ok s \<longleftrightarrow> 0 \<le> tu_tab s \<and> tu_tab s < 3 \<and> length (tu_selected s) = 3 \<and>
     list_all (\<lambda>i. 0 \<le> i) (tu_selected s) \<and>
     (if tu_pendingAction s = NoAction then tu_confirmationStep s = 0
      else \<not> tu_searching s \<and> (tu_confirmationStep s = 1 \<or>
             tu_confirmationStep s = 2 \<and> tu_pendingAction s = KillProcess))"

lemma tui_ok_init: "tui_ok TuiState_init"
  by (simp add: tui_ok_def TuiState_init_def)

lemma tui_ok_selection: "tui_ok s \<Longrightarrow> 0 \<le> selection s"
  by (auto simp: tui_ok_def list_all_length)

lemma tui_ok_select: "tui_ok s \<Longrightarrow> 0 \<le> i \<Longrightarrow> tui_ok (s\<lparr>tu_selected := (tu_selected s)[n := i]\<rparr>)"
  by (auto simp: tui_ok_def list_all_iff dest!: subsetD [OF set_update_subset_insert])

lemma element_at_selection:
  "tui_ok s \<Longrightarrow> selection s < int (length xs) \<Longrightarrow> element_at xs (selection s) = Some (xs ! nat (selection s))"
  using tui_ok_selection by (simp add: element_at_def)

text \<open>The range check of the selected resource is what keeps its reads in range.\<close>

lemma selectedResource_in_range: "selectedResource d tab i \<noteq> None"
  by (simp add: selectedResource_def element_at_def itemCount_def)

lemmas key_defs = handleServiceKey_def handleProcessKey_def handleLogsKey_def

text \<open>An answer of the handler that keeps the invariant and stays in range.\<close>

definition handled_ok :: "handled \<Rightarrow> bool" where
  "handled_ok h \<longleftrightarrow> tui_ok (fst h) \<and> OutOfRange \<notin> set (fst (snd h))"

lemma handled_ok_if: "(b \<Longrightarrow> handled_ok x) \<Longrightarrow> (\<not> b \<Longrightarrow> handled_ok y) \<Longrightarrow> handled_ok (if b then x else y)"
  by simp

lemma handled_ok_case:
  "(latest = None \<Longrightarrow> handled_ok x) \<Longrightarrow> (\<And>d. latest = Some d \<Longrightarrow> handled_ok (f d)) \<Longrightarrow>
   handled_ok (case latest of None \<Rightarrow> x | Some d \<Rightarrow> f d)"
  by (cases latest) simp_all

lemma handleOnSnapshot_ok:
  assumes ok: "tui_ok s" and idle: "tu_pendingAction s = NoAction"
  shows "handled_ok (handleOnSnapshot F latest s event)"
proof -
  have service: "handled_ok (handleServiceKey d c s)"
    if "\<not> tu_searching s" "tu_tab s = 0" "selection s < itemCount d (tu_tab s)" for d c
    using that ok idle element_at_selection [OF ok, of "ds_services d"]
    by (simp add: handled_ok_def handleServiceKey_def itemCount_def) (simp add: tui_ok_def)
  have process: "handled_ok (handleProcessKey F d c s)"
    if "\<not> tu_searching s" "tu_tab s = 2" "selection s < itemCount d (tu_tab s)" for d c
    using that ok idle element_at_selection [OF ok, of "ds_processes d"]
    by (simp add: handled_ok_def handleProcessKey_def itemCount_def) (simp add: tui_ok_def)
  have logs: "handled_ok (handleLogsKey d s)" for d
    using ok element_at_selection [OF ok, of "ds_services d"] element_at_selection [OF ok, of "ds_processes d"]
    by (auto simp: handled_ok_def handleLogsKey_def itemCount_def Let_def)
  show ?thesis
    unfolding handleOnSnapshot_def Let_def
    by (intro handled_ok_if handled_ok_case service process logs)
       (use ok tui_ok_select [OF ok] tui_ok_selection [OF ok] selectedResource_in_range in
        \<open>auto simp: handled_ok_def split: option.split\<close>)
qed

lemma handleEvent_ok:
  assumes ok: "tui_ok s"
  shows "handled_ok (handleEvent F latest r s event)"
  unfolding handleEvent_def
  by (intro handled_ok_if handleOnSnapshot_ok)
     (use ok in \<open>auto simp: handled_ok_def tui_ok_def split: if_splits\<close>)

lemma tui_history_ok: "tui_history F h s \<Longrightarrow> tui_ok s"
proof (induction rule: tui_history.induct)
  case (edited h s q)
  then show ?case by (simp add: tui_ok_def)
qed (use handleEvent_ok in \<open>auto simp: tui_ok_init handled_ok_def\<close>)

section \<open>Confirmation\<close>

text \<open>The key that asks for an action, and how often it has to be confirmed.\<close>

fun action_key :: "PendingAction \<Rightarrow> char" where
  "action_key StopService = CHR ''s''"
| "action_key RestartService = CHR ''r''"
| "action_key TerminateProcess = CHR ''k''"
| "action_key _ = CHR ''K''"

fun confirmations_needed :: "PendingAction \<Rightarrow> nat" where
  "confirmations_needed KillProcess = 2"
| "confirmations_needed _ = 1"

definition event_of :: "observed_event \<Rightarrow> tui_event" where
  "event_of seen = snd (snd seen)"

definition confirmations :: "observed_event list \<Rightarrow> nat" where
  "confirmations h = length (filter (\<lambda>seen. event_of seen = EvCharacter CHR ''y'') h)"

definition cancels :: "observed_event \<Rightarrow> bool" where
  "cancels seen \<longleftrightarrow> event_of seen = EvCharacter CHR ''n'' \<or> event_of seen = EvEscape"

text \<open>The action is about the resource that was selected in the snapshot shown.\<close>

definition names_selected ::
  "PendingAction \<Rightarrow> string \<Rightarrow> pid \<Rightarrow> DashboardSnapshot \<Rightarrow> TuiState \<Rightarrow> bool" where
  "names_selected action unit p snapshot s \<longleftrightarrow>
     (if action = StopService \<or> action = RestartService
      then tu_tab s = 0 \<and> (\<exists>service. element_at (ds_services snapshot) (selection s) = Some service \<and>
             unit = si_unitName service)
      else tu_tab s = 2 \<and> (\<exists>process. element_at (ds_processes snapshot) (selection s) = Some process \<and>
             p = pi_pid process))"

text \<open>\<open>h\<close> ends with the key for the action on the selected resource, confirmed \<open>n\<close> times since and not
  cancelled.\<close>

definition asked_for ::
  "Formats \<Rightarrow> observed_event list \<Rightarrow> PendingAction \<Rightarrow> string \<Rightarrow> pid \<Rightarrow> nat \<Rightarrow> bool" where
  "asked_for F h action unit p n \<longleftrightarrow>
     (\<exists>h1 snapshot r h2 s1. h = h1 @ (Some snapshot, r, EvCharacter (action_key action)) # h2 \<and>
        tui_history F h1 s1 \<and> names_selected action unit p snapshot s1 \<and>
        confirmations h2 = n \<and> (\<forall>seen \<in> set h2. \<not> cancels seen))"

lemma asked_for_later:
  assumes "asked_for F h action unit p n" "\<not> cancels seen"
  shows "asked_for F (h @ [seen]) action unit p (n + confirmations [seen])"
proof -
  obtain h1 snapshot r h2 s1 where "h = h1 @ (Some snapshot, r, EvCharacter (action_key action)) # h2"
      "tui_history F h1 s1" "names_selected action unit p snapshot s1" "confirmations h2 = n"
      "\<forall>seen \<in> set h2. \<not> cancels seen"
    using assms(1) unfolding asked_for_def by blast
  with assms(2) show ?thesis
    unfolding asked_for_def
    by (intro exI [of _ h1] exI [of _ snapshot] exI [of _ r] exI [of _ "h2 @ [seen]"] exI [of _ s1])
       (auto simp: confirmations_def)
qed

lemma asked_for_now:
  "tui_history F h s \<Longrightarrow> names_selected action unit p d s \<Longrightarrow>
   asked_for F (h @ [(Some d, r, EvCharacter (action_key action))]) action unit p 0"
  unfolding asked_for_def
  by (intro exI [of _ h] exI [of _ d] exI [of _ r] exI [of _ "[]"] exI [of _ s]) (simp add: confirmations_def)

text \<open>While an action is pending the handler only counts confirmations or forgets it.\<close>

lemma handleEvent_pending:
  assumes "tui_ok s" "tu_pendingAction s \<noteq> NoAction"
    "tu_pendingAction (fst (handleEvent F latest r s event)) \<noteq> NoAction"
  shows "tu_pendingAction (fst (handleEvent F latest r s event)) = tu_pendingAction s"
    "tu_actionTarget (fst (handleEvent F latest r s event)) = tu_actionTarget s"
    "tu_actionPid (fst (handleEvent F latest r s event)) = tu_actionPid s"
    "tu_confirmationStep (fst (handleEvent F latest r s event)) =
       tu_confirmationStep s + int (confirmations [(latest, r, event)])"
    "\<not> cancels (latest, r, event)"
  using assms
  by (auto simp: handleEvent_def tui_ok_def confirmations_def event_of_def cancels_def split: if_splits)

text \<open>An action becomes pending only through its key, on the selected resource.\<close>

definition asks :: "DashboardSnapshot option \<Rightarrow> TuiState \<Rightarrow> tui_event \<Rightarrow> handled \<Rightarrow> bool" where
  "asks latest s event h \<longleftrightarrow> tu_pendingAction (fst h) = NoAction \<or>
     (\<exists>d. latest = Some d \<and> event = EvCharacter (action_key (tu_pendingAction (fst h))) \<and>
        names_selected (tu_pendingAction (fst h)) (tu_actionTarget (fst h)) (tu_actionPid (fst h)) d s \<and>
        tu_confirmationStep (fst h) = 1)"

lemma asks_if:
  "(b \<Longrightarrow> asks l s e x) \<Longrightarrow> (\<not> b \<Longrightarrow> asks l s e y) \<Longrightarrow> asks l s e (if b then x else y)"
  by simp

lemma handleOnSnapshot_asks:
  assumes ok: "tui_ok s" and idle: "tu_pendingAction s = NoAction"
  shows "asks latest s event (handleOnSnapshot F latest s event)"
proof -
  have quietly: "asks latest s event (s, es, b)" for es b using idle by (simp add: asks_def)
  have logs: "asks latest s event (handleLogsKey d s)" for d
    using idle by (simp add: asks_def handleLogsKey_def Let_def split: option.split)
  have service: "asks (Some d) s (EvCharacter c) (handleServiceKey d c s)"
    if "tu_tab s = 0" "selection s < itemCount d (tu_tab s)" "c = CHR ''s'' \<or> c = CHR ''r''" for d c
    using that element_at_selection [OF ok, of "ds_services d"]
    by (auto simp: asks_def handleServiceKey_def names_selected_def itemCount_def)
  have process: "asks (Some d) s (EvCharacter c) (handleProcessKey F d c s)"
    if "tu_tab s = 2" "selection s < itemCount d (tu_tab s)" "c = CHR ''k'' \<or> c = CHR ''K''" for d c
    using that element_at_selection [OF ok, of "ds_processes d"]
    by (auto simp: asks_def handleProcessKey_def names_selected_def itemCount_def)
  show ?thesis
  proof (cases latest)
    case None
    then show ?thesis using quietly by (simp add: handleOnSnapshot_def)
  next
    case (Some d)
    have moved: "asks latest s event (s\<lparr>tu_selected := xs\<rparr>, es, b)" for xs es b
      using idle by (simp add: asks_def)
    show ?thesis
      unfolding handleOnSnapshot_def Let_def Some option.case
      by (intro asks_if)
         (use quietly moved logs service process Some in \<open>auto simp: Let_def split: option.split\<close>)
  qed
qed

lemma handleEvent_asks:
  assumes "tui_ok s" "tu_pendingAction s = NoAction"
  shows "asks latest s event (handleEvent F latest r s event)"
  unfolding handleEvent_def
  by (intro asks_if handleOnSnapshot_asks assms) (use assms(2) in \<open>auto simp: asks_def\<close>)

lemma history_asked:
  assumes "tui_history F h s" "tu_pendingAction s \<noteq> NoAction"
  shows "\<exists>n. int n = tu_confirmationStep s - 1 \<and>
    asked_for F h (tu_pendingAction s) (tu_actionTarget s) (tu_actionPid s) n"
  using assms
proof (induction rule: tui_history.induct)
  case (handled h s latest r event)
  let ?s = "fst (handleEvent F latest r s event)"
  have ok: "tui_ok s" using handled.hyps by (rule tui_history_ok)
  show ?case
  proof (cases "tu_pendingAction s = NoAction")
    case True
    then obtain d where d: "latest = Some d" "event = EvCharacter (action_key (tu_pendingAction ?s))"
      and named: "names_selected (tu_pendingAction ?s) (tu_actionTarget ?s) (tu_actionPid ?s) d s"
      and step: "tu_confirmationStep ?s = 1"
      using handleEvent_asks [OF ok True, of latest event F r] handled.prems unfolding asks_def by blast
    have "asked_for F (h @ [(latest, r, event)]) (tu_pendingAction ?s) (tu_actionTarget ?s) (tu_actionPid ?s) 0"
      using asked_for_now [OF handled.hyps named, of r] unfolding d(2) [symmetric] d(1) [symmetric] .
    then show ?thesis using step by (intro exI [of _ 0]) simp
  next
    case False
    note kept = handleEvent_pending [OF ok False handled.prems]
    obtain n where n: "int n = tu_confirmationStep s - 1"
        "asked_for F h (tu_pendingAction s) (tu_actionTarget s) (tu_actionPid s) n"
      using handled.IH [OF False] by blast
    have "asked_for F (h @ [(latest, r, event)]) (tu_pendingAction s) (tu_actionTarget s) (tu_actionPid s)
        (n + confirmations [(latest, r, event)])"
      using n(2) kept(5) by (rule asked_for_later)
    with n(1) kept show ?thesis by (intro exI [of _ "n + confirmations [(latest, r, event)]"]) simp
  qed
qed (simp_all add: TuiState_init_def)

text \<open>Only a confirmation submits an action, and none is submitted on the way.\<close>

lemma handleEvent_action:
  assumes "tui_ok s" "SubmitTask (ActionTask action unit p) \<in> set (fst (snd (handleEvent F latest r s event)))"
  shows "event = EvCharacter CHR ''y'' \<and> tu_pendingAction s = action \<and> action \<noteq> NoAction \<and>
    tu_actionTarget s = unit \<and> tu_actionPid s = p \<and>
    tu_confirmationStep s = int (confirmations_needed action)"
proof -
  have "SubmitTask (ActionTask action unit p) \<notin> set (fst (snd (handleOnSnapshot F latest s event)))"
    by (auto simp: handleOnSnapshot_def key_defs Let_def split: option.split)
  with assms show ?thesis
    by (cases "tu_pendingAction s") (auto simp: handleEvent_def tui_ok_def split: if_splits)
qed

text \<open>Whenever an event makes the handler submit an action, it confirms what was asked for.\<close>

lemma history_confirmed:
  assumes "tui_history F h s"
    and "SubmitTask (ActionTask action unit p) \<in> set (fst (snd (handleEvent F latest r s event)))"
  shows "event = EvCharacter CHR ''y'' \<and> action \<noteq> NoAction \<and>
    asked_for F h action unit p (if action = KillProcess then 1 else 0)"
proof -
  note submitted = handleEvent_action [OF tui_history_ok [OF assms(1)] assms(2)]
  obtain n where "int n = tu_confirmationStep s - 1"
      "asked_for F h (tu_pendingAction s) (tu_actionTarget s) (tu_actionPid s) n"
    using history_asked [OF assms(1)] submitted by blast
  moreover from this submitted have "n = (if action = KillProcess then 1 else 0)"
    by (cases action) auto
  ultimately show ?thesis using submitted by auto
qed

section \<open>The calls of the tasks\<close>

definition recordTuiServices :: "'w recorded IJournalProvider \<Rightarrow> 'w TuiServices \<Rightarrow> 'w recorded TuiServices" where
  "recordTuiServices J T =
     \<lparr>ts_inspect = recordInspectService \<lparr>ls_journalProvider = J\<rparr> (ts_inspect T),
      ts_find = recordFindService (ts_find T), ts_logs = \<lparr>ls_journalProvider = J\<rparr>,
      ts_processes = recordProcessService (ts_processes T),
      ts_services = recordServiceService (ts_services T)\<rparr>"

lemma recordTuiServices_sel [simp]:
  "ts_inspect (recordTuiServices J T) = recordInspectService \<lparr>ls_journalProvider = J\<rparr> (ts_inspect T)"
  "ts_find (recordTuiServices J T) = recordFindService (ts_find T)"
  "ts_logs (recordTuiServices J T) = \<lparr>ls_journalProvider = J\<rparr>"
  "ts_processes (recordTuiServices J T) = recordProcessService (ts_processes T)"
  "ts_services (recordTuiServices J T) = recordServiceService (ts_services T)"
  by (simp_all add: recordTuiServices_def)

text \<open>What a task changes: a service action acts on the unit, normalised, and a signal goes to the
  process if it may be signalled; nothing else changes anything.\<close>

fun task_calls :: "'w TuiServices \<Rightarrow> tui_task \<Rightarrow> call list" where
  "task_calls T (ActionTask action unit p) =
     (case action of
        StopService \<Rightarrow> (case ServiceService_normalizeUnit unit of Inl _ \<Rightarrow> [] | Inr n \<Rightarrow> [CallStop n])
      | RestartService \<Rightarrow> (case ServiceService_normalizeUnit unit of Inl _ \<Rightarrow> [] | Inr n \<Rightarrow> [CallRestart n])
      | TerminateProcess \<Rightarrow> if may_signal (ts_processes T) p then [CallSend p Terminate] else []
      | _ \<Rightarrow> if may_signal (ts_processes T) p then [CallSend p Kill] else [])"
| "task_calls T _ = []"

lemma effects_emits:
  "emits m (\<lambda>_ es. es = cs) \<Longrightarrow> filter D cs = cs \<Longrightarrow> effects D m (\<lambda>es. es = cs)"
  unfolding effects_def by (erule emits_mono) simp

lemma effects_runAction:
  "effects destructive (runAction (recordTuiServices J T) action unit p)
     (\<lambda>es. es = task_calls T (ActionTask action unit p))"
proof -
  have stop: "emits (ServiceService_stop (recordServiceService S) u) (\<lambda>_ es. es =
      (case ServiceService_normalizeUnit u of Inl _ \<Rightarrow> [] | Inr n \<Rightarrow> [CallStop n]))" for S u
    using emits_ServiceService_stop by (simp add: stop_calls_def)
  have restart: "emits (ServiceService_restart (recordServiceService S) u) (\<lambda>_ es. es =
      (case ServiceService_normalizeUnit u of Inl _ \<Rightarrow> [] | Inr n \<Rightarrow> [CallRestart n]))" for S u
    by (auto simp: ServiceService_restart_def intro: emits_return emits_traced split: sum.split)
  have signal: "effects destructive (ProcessService_stop (recordProcessService S) p)
        (\<lambda>es. es = (if may_signal S p then [CallSend p Terminate] else []))"
      "effects destructive (ProcessService_kill (recordProcessService S) p)
        (\<lambda>es. es = (if may_signal S p then [CallSend p Kill] else []))" for S
    unfolding ProcessService_stop_def ProcessService_kill_def
    by (rule effects_emits [OF emits_ProcessService_signal]; simp)+
  note rules = effects_before_quiet [OF effects_emits [OF stop]]
    effects_before_quiet [OF effects_emits [OF restart]]
    effects_before_quiet [OF signal(1)] effects_before_quiet [OF signal(2)]
  show ?thesis
    unfolding runAction_def recordTuiServices_sel
    by (cases action; simp only: PendingAction.simps if_True if_False simp_thms task_calls.simps;
        rule rules) (auto intro: quiet_intros split: sum.split)
qed

context reading_journal
begin

lemma effects_runTask:
  "effects destructive (runTask (recordTuiServices J T) task) (\<lambda>es. es = task_calls T task)"
proof (cases task)
  case (ActionTask action unit p)
  then show ?thesis using effects_runAction by (simp only: runTask.simps)
qed (auto simp: runLogs_def intro!: effects_quiet quiet_intros journal_service_quiet quiet_read)

end

section \<open>The panel and the selection\<close>

lemma panelValues_length [simp]: "int (length (panelValues F d tab)) = itemCount d tab"
  by (simp add: panelValues_def itemCount_def)

lemma window_in_range:
  "0 \<le> selected \<Longrightarrow> i \<in> set [windowBegin selected .. windowEnd n selected - 1] \<Longrightarrow> 0 \<le> i \<and> i < n"
  by (auto simp: windowBegin_def windowEnd_def)

lemma window_shows_selection:
  "0 \<le> selected \<Longrightarrow> selected < n \<Longrightarrow> selected \<in> set [windowBegin selected .. windowEnd n selected - 1]"
  by (auto simp: windowBegin_def windowEnd_def)

text \<open>A snapshot whose resources can be named: unit names as systemd has them, ports and process ids in
  range.\<close>

definition snapshot_ok :: "DashboardSnapshot \<Rightarrow> bool" where
  "snapshot_ok d \<longleftrightarrow>
     (\<forall>service \<in> set (ds_services d).
        ServiceService_normalizeUnit (si_unitName service) = Inr (si_unitName service)) \<and>
     (\<forall>port \<in> set (ds_ports d). ep_port (so_local (po_socket port)) \<noteq> 0) \<and>
     (\<forall>process \<in> set (ds_processes d). 0 < pi_pid process \<and> pi_pid process \<le> pid_max)"

text \<open>The resource at the selection.\<close>

definition target_at :: "DashboardSnapshot \<Rightarrow> int \<Rightarrow> int \<Rightarrow> ResourceTarget option" where
  "target_at d tab i =
     (if tab = 0 then map_option (\<lambda>service. ServiceTarget (si_unitName service)) (element_at (ds_services d) i)
      else if tab = 1
      then map_option (\<lambda>port. PortTarget (ep_port (so_local (po_socket port)))) (element_at (ds_ports d) i)
      else map_option (\<lambda>process. ProcessTarget (pi_pid process)) (element_at (ds_processes d) i))"

lemma selectedResource_text:
  assumes "snapshot_ok d" "selectedResource d tab i = Some resource" "resource \<noteq> []"
  obtains t where "target_at d tab i = Some t" "nameable t" "resource = resource_text t"
proof -
  have i: "0 \<le> i" "i < itemCount d tab" using assms(2,3) by (auto simp: selectedResource_def split: if_splits)
  have nonneg: "int_str p = nat_str (nat p)" if "0 < p" for p using that by (simp add: int_str_def)
  have at: "element_at xs i = Some (xs ! nat i) \<and> xs ! nat i \<in> set xs" if "i < int (length xs)" for xs :: "'x list"
    using that i(1) by (simp add: element_at_def)
  have "\<exists>t. target_at d tab i = Some t \<and> nameable t \<and> resource = resource_text t"
    using i assms(2) at [of "ds_services d"] at [of "ds_ports d"] at [of "ds_processes d"] assms(1) nonneg
    unfolding snapshot_ok_def target_at_def selectedResource_def itemCount_def
    by (auto split: if_splits)
  with that show thesis by blast
qed

lemma handleEvent_inspects:
  assumes "SubmitTask (InspectTask resource) \<in> set (fst (snd (handleEvent F latest r s event)))"
  obtains d where "latest = Some d" "selectedResource d (tu_tab s) (selection s) = Some resource" "resource \<noteq> []"
proof -
  have "SubmitTask (InspectTask resource) \<in> set (fst (snd (handleOnSnapshot F latest s event)))"
    using assms by (auto simp: handleEvent_def split: if_splits)
  then have "\<exists>d. latest = Some d \<and> selectedResource d (tu_tab s) (selection s) = Some resource \<and> resource \<noteq> []"
    by (auto simp: handleOnSnapshot_def key_defs Let_def split: if_splits option.splits)
  with that show thesis by blast
qed

section \<open>Properties\<close>

definition demo_snapshot :: DashboardSnapshot where
  "demo_snapshot = default_DashboardSnapshot\<lparr>
     ds_services := [default_ServiceInfo\<lparr>si_unitName := ''web.service''\<rparr>],
     ds_processes := [demo_process 42 ''sh'']\<rparr>"

definition demo_keys :: "observed_event list" where
  "demo_keys = [(Some demo_snapshot, [], EvArrowLeft), (Some demo_snapshot, [], EvCharacter CHR ''K''),
     (Some demo_snapshot, [], EvCharacter CHR ''y'')]"

definition demo_pending :: TuiState where
  "demo_pending = TuiState_init\<lparr>tu_tab := 2, tu_pendingAction := KillProcess, tu_actionPid := 42,
     tu_actionTarget := ''PID {} ({})'', tu_confirmationStep := 2\<rparr>"

lemmas tui_demo_defs = TuiState_init_def demo_snapshot_def default_DashboardSnapshot_def demo_Formats_def
  demo_process_def default_ProcessInfo_def handleEvent_def handleOnSnapshot_def key_defs itemCount_def
  element_at_def

lemma demo_history: "tui_history demo_Formats demo_keys demo_pending"
proof -
  have step: "tui_history demo_Formats (h @ [(Some demo_snapshot, [], event)]) s'"
    if "tui_history demo_Formats h s" "fst (handleEvent demo_Formats (Some demo_snapshot) [] s event) = s'"
    for h s s' event
    using tui_history.handled [OF that(1)] that(2) by blast
  have "tui_history demo_Formats ([] @ [(Some demo_snapshot, [], EvArrowLeft)]) (TuiState_init\<lparr>tu_tab := 2\<rparr>)"
    by (rule step [OF tui_history.opened]) (simp add: tui_demo_defs)
  then have "tui_history demo_Formats (([] @ [(Some demo_snapshot, [], EvArrowLeft)]) @
      [(Some demo_snapshot, [], EvCharacter CHR ''K'')]) (demo_pending\<lparr>tu_confirmationStep := 1\<rparr>)"
    by (rule step) (simp add: tui_demo_defs demo_pending_def Let_def)
  then have "tui_history demo_Formats ((([] @ [(Some demo_snapshot, [], EvArrowLeft)]) @
      [(Some demo_snapshot, [], EvCharacter CHR ''K'')]) @ [(Some demo_snapshot, [], EvCharacter CHR ''y'')])
      demo_pending"
    by (rule step) (simp add: tui_demo_defs demo_pending_def)
  then show ?thesis by (simp add: demo_keys_def)
qed

text \<open>
  C23. The dashboard never reads past its lists, however they change under the selection: in every state
  a history leads to, the tab has a selection, the handler stays in range on every event and snapshot
  (Enter on a selection that no longer exists included), every row the panel draws exists, and where the
  selection is on a row of the snapshot that row is drawn.
\<close>

theorem TuiRunner_in_range:
  assumes "tui_history F h s"
  shows "0 \<le> tu_tab s \<and> tu_tab s < int (length (tu_selected s)) \<and>
    OutOfRange \<notin> set (fst (snd (handleEvent F latest r s event))) \<and>
    (\<forall>d. (\<forall>i \<in> set [windowBegin (selection s) ..
            windowEnd (int (length (panelValues F d (tu_tab s)))) (selection s) - 1].
          0 \<le> i \<and> i < int (length (panelValues F d (tu_tab s)))) \<and>
       (selection s < itemCount d (tu_tab s) \<longrightarrow>
        selection s \<in> set [windowBegin (selection s) ..
            windowEnd (int (length (panelValues F d (tu_tab s)))) (selection s) - 1]))"
proof -
  have ok: "tui_ok s" using assms by (rule tui_history_ok)
  have tab: "0 \<le> tu_tab s \<and> tu_tab s < int (length (tu_selected s))"
    using ok by (auto simp: tui_ok_def)
  show ?thesis
    using tab handleEvent_ok [OF ok, of F latest r event] tui_ok_selection [OF ok]
      window_in_range [of "selection s"] window_shows_selection [of "selection s"]
    unfolding handled_ok_def panelValues_length by blast
qed

theorem TuiRunner_in_range_witness:
  "OutOfRange \<notin> set (fst (snd (handleEvent demo_Formats (Some demo_snapshot) [] demo_pending EvReturn))) \<and>
   OutOfRange \<notin> set (fst (snd
     (handleEvent demo_Formats (Some default_DashboardSnapshot) [] TuiState_init EvReturn))) \<and>
   \<not> selection TuiState_init < itemCount default_DashboardSnapshot (tu_tab TuiState_init)"
  using TuiRunner_in_range [OF demo_history, of "Some demo_snapshot" "[]" EvReturn]
    TuiRunner_in_range [OF tui_history.opened [of demo_Formats],
      of "Some default_DashboardSnapshot" "[]" EvReturn]
  by (simp add: itemCount_def TuiState_init_def default_DashboardSnapshot_def)



text \<open>
  C27. A background task changes exactly what it is for: stopping or restarting acts once on the unit,
  normalised; a signal is sent once to the process, if it may be signalled; searching, inspecting
  and reading logs change nothing.
\<close>

theorem TuiRunner_task_calls:
  assumes "reading_journal J"
  shows "filter destructive (snd (world_after (runTask (recordTuiServices J T) task) (w, []))) =
    (case task of
       ActionTask StopService unit p \<Rightarrow>
         (case ServiceService_normalizeUnit unit of Inl _ \<Rightarrow> [] | Inr n \<Rightarrow> [CallStop n])
     | ActionTask RestartService unit p \<Rightarrow>
         (case ServiceService_normalizeUnit unit of Inl _ \<Rightarrow> [] | Inr n \<Rightarrow> [CallRestart n])
     | ActionTask TerminateProcess unit p \<Rightarrow> if may_signal (ts_processes T) p then [CallSend p Terminate] else []
     | ActionTask _ unit p \<Rightarrow> if may_signal (ts_processes T) p then [CallSend p Kill] else []
     | _ \<Rightarrow> [])"
proof -
  have "filter destructive (snd (world_after (runTask (recordTuiServices J T) task) (w, []))) = task_calls T task"
    using effects_world_after [OF reading_journal.effects_runTask [OF assms], of T task "(w, [])"] by fastforce
  then show ?thesis by (cases task) (auto split: PendingAction.split)
qed

theorem TuiRunner_task_calls_witness:
  "filter destructive (snd (world_after (runTask (recordTuiServices demo_journal
      \<lparr>ts_inspect = demo_InspectService,
       ts_find = \<lparr>fs_portService = demo_PortService, fs_processService = demo_ProcessService,
         fs_serviceService = demo_services\<rparr>,
       ts_logs = is_logService demo_InspectService, ts_processes = demo_ProcessService,
       ts_services = demo_services\<rparr>) (ActionTask KillProcess [] 42)) (0, []))) = [CallSend 42 Kill]"
  by (subst TuiRunner_task_calls [OF demo_journal_reads]) (simp add: may_signal_def demo_ProcessService_def)

end
