(* ===== verification/DashboardWorker.thy ===== *)
theory DashboardWorker
  imports DashboardService
begin

text \<open>
  \<open>src/application/DashboardWorker.cpp\<close>: the thread that refreshes the dashboard in the background.

  The presentation thread starts and stops the worker and reads the latest snapshot; the worker
  refreshes, publishes, calls back and waits. Every section under the mutex is one step, and the two
  threads interleave. What \<open>refresh\<close> returns is arbitrary here, and it, like the callback, may throw.
\<close>

section \<open>State and steps\<close>

text \<open>Where the worker thread is: in \<open>refresh\<close>, with a snapshot to publish, in the callback, waiting
  on the condition variable, or returned but not joined.\<close>

datatype 'd worker_pc = Refreshing | Publishing 'd | Notifying | Waiting | Returned

record 'd DashboardWorker =
  dw_thread :: "'d worker_pc option"
  dw_stopping :: bool
  dw_snapshot :: "'d option"

text \<open>\<open>thread_.joinable()\<close>.\<close>

definition joinable :: "'d DashboardWorker \<Rightarrow> bool" where
  "joinable w \<longleftrightarrow> dw_thread w \<noteq> None"

definition DashboardWorker_init :: "'d DashboardWorker" where
  "DashboardWorker_init = \<lparr>dw_thread = None, dw_stopping = False, dw_snapshot = None\<rparr>"

definition DashboardWorker_start :: "'d DashboardWorker \<Rightarrow> 'd DashboardWorker" where
  "DashboardWorker_start w =
     (if joinable w then w else w\<lparr>dw_stopping := False, dw_thread := Some Refreshing\<rparr>)"

text \<open>\<open>stop\<close> in its two parts: the request under the mutex, and the join, which waits for the thread
  to return and is the only step that may block.\<close>

definition DashboardWorker_requestStop :: "'d DashboardWorker \<Rightarrow> 'd DashboardWorker" where
  "DashboardWorker_requestStop w = w\<lparr>dw_stopping := True\<rparr>"

definition DashboardWorker_join :: "'d DashboardWorker \<Rightarrow> 'd DashboardWorker option" where
  "DashboardWorker_join w =
     (case dw_thread w of
        None \<Rightarrow> Some w
      | Some Returned \<Rightarrow> Some (w\<lparr>dw_thread := None\<rparr>)
      | Some _ \<Rightarrow> None)"

text \<open>One step of \<open>work\<close>.\<close>

inductive work :: "'d DashboardWorker \<Rightarrow> 'd DashboardWorker \<Rightarrow> bool" where
  refresh: "dw_thread w = Some Refreshing \<Longrightarrow> work w (w\<lparr>dw_thread := Some (Publishing s)\<rparr>)"
| refresh_throws: "dw_thread w = Some Refreshing \<Longrightarrow> work w (w\<lparr>dw_thread := Some Returned\<rparr>)"
| publish: "dw_thread w = Some (Publishing s) \<Longrightarrow>
    work w (w\<lparr>dw_thread := Some Notifying, dw_snapshot := Some s\<rparr>)"
| notify: "dw_thread w = Some Notifying \<Longrightarrow> work w (w\<lparr>dw_thread := Some Waiting\<rparr>)"
| notify_throws: "dw_thread w = Some Notifying \<Longrightarrow> work w (w\<lparr>dw_thread := Some Returned\<rparr>)"
| wake_stopping: "dw_thread w = Some Waiting \<Longrightarrow> dw_stopping w \<Longrightarrow>
    work w (w\<lparr>dw_thread := Some Returned\<rparr>)"
| wake_again: "dw_thread w = Some Waiting \<Longrightarrow> \<not> dw_stopping w \<Longrightarrow>
    work w (w\<lparr>dw_thread := Some Refreshing\<rparr>)"

inductive step :: "'d DashboardWorker \<Rightarrow> 'd DashboardWorker \<Rightarrow> bool" where
  start: "step w (DashboardWorker_start w)"
| requestStop: "step w (DashboardWorker_requestStop w)"
| join: "DashboardWorker_join w = Some w' \<Longrightarrow> step w w'"
| work: "work w w' \<Longrightarrow> step w w'"

inductive_cases workE: "work w w'"

inductive_simps work_simps: "work w w'"

abbreviation steps :: "'d DashboardWorker \<Rightarrow> 'd DashboardWorker \<Rightarrow> bool" where
  "steps \<equiv> step\<^sup>*\<^sup>*"

section \<open>Lemmas\<close>

lemmas worker_defs = DashboardWorker_start_def DashboardWorker_requestStop_def
  DashboardWorker_join_def joinable_def

lemma step_snapshot: "step w w' \<Longrightarrow> dw_snapshot w = Some s \<Longrightarrow> \<exists>s'. dw_snapshot w' = Some s'"
  by (induction rule: step.induct)
     (auto simp: worker_defs elim!: workE split: option.split_asm worker_pc.split_asm)

text \<open>While a thread exists, nothing but the join takes a stop request back.\<close>

lemma step_stopping:
  "step w w' \<Longrightarrow> dw_stopping w \<Longrightarrow> joinable w \<Longrightarrow> dw_stopping w' \<and> (joinable w' \<or> dw_thread w = Some Returned)"
  by (induction rule: step.induct)
     (auto simp: worker_defs elim!: workE split: option.split_asm worker_pc.split_asm)

text \<open>How many steps of \<open>work\<close> are left at most once stopping is requested.\<close>

fun steps_left :: "'d DashboardWorker \<Rightarrow> nat" where
  "steps_left w = (case dw_thread w of
     Some Refreshing \<Rightarrow> 4 | Some (Publishing _) \<Rightarrow> 3 | Some Notifying \<Rightarrow> 2 | Some Waiting \<Rightarrow> 1
   | Some Returned \<Rightarrow> 0 | None \<Rightarrow> 0)"

lemma work_decreases: "work w w' \<Longrightarrow> dw_stopping w \<Longrightarrow> steps_left w' < steps_left w"
  by (auto elim!: workE)

lemma work_keeps: "work w w' \<Longrightarrow> dw_stopping w' = dw_stopping w \<and> joinable w' \<and> joinable w"
  by (auto simp: joinable_def elim!: workE)

lemma work_progress: "joinable w \<Longrightarrow> dw_thread w \<noteq> Some Returned \<Longrightarrow> \<exists>w'. work w w'"
  by (cases "dw_thread w"; cases "the (dw_thread w)"; cases "dw_stopping w")
     (auto simp: joinable_def intro: work.intros)

lemma work_returns:
  assumes "joinable w" "dw_stopping w"
  shows "\<exists>n w'. (work ^^ n) w w' \<and> n \<le> steps_left w \<and> dw_thread w' = Some Returned"
  using assms
proof (induction "steps_left w" arbitrary: w rule: less_induct)
  case less
  show ?case
  proof (cases "dw_thread w = Some Returned")
    case True
    then show ?thesis by (intro exI [of _ 0] exI [of _ w]) simp
  next
    case False
    then obtain v where v: "work w v" using work_progress less.prems by blast
    have small: "steps_left v < steps_left w" using work_decreases [OF v less.prems(2)] .
    obtain n w' where n: "(work ^^ n) v w'" "n \<le> steps_left v" "dw_thread w' = Some Returned"
      using less.hyps [OF small] work_keeps [OF v] less.prems by blast
    have "(work ^^ Suc n) w w'" using v n(1) by (rule relpowp_Suc_I2)
    then show ?thesis using n small by (intro exI [of _ "Suc n"] exI [of _ w']) linarith
  qed
qed

section \<open>Properties\<close>

text \<open>
  Stopping the dashboard worker ends: once the stop is requested, no interleaving can take the
  request back before the thread is joined, the worker returns within four of its own steps, the
  join then succeeds, and it leaves no thread behind.
\<close>

theorem DashboardWorker_stop_ends:
  fixes w :: "'d DashboardWorker"
  assumes "joinable w"
  shows "(\<exists>n w' w''. (work ^^ n) (DashboardWorker_requestStop w) w' \<and> n \<le> 4 \<and>
      DashboardWorker_join w' = Some w'' \<and> \<not> joinable w'' \<and> dw_stopping w'') \<and>
    (\<forall>v v' :: 'd DashboardWorker. dw_stopping v \<and> joinable v \<and> step v v' \<longrightarrow> dw_stopping v')"
proof (intro conjI allI impI)
  let ?w = "DashboardWorker_requestStop w"
  have "joinable ?w" "dw_stopping ?w" using assms by (simp_all add: worker_defs)
  then obtain n w' where n: "(work ^^ n) ?w w'" "n \<le> steps_left ?w" "dw_thread w' = Some Returned"
    using work_returns by blast
  have "(work ^^ k) u v \<Longrightarrow> dw_stopping u \<Longrightarrow> dw_stopping v" for k u v
    by (induction k arbitrary: v) (auto dest: work_keeps)
  then have "dw_stopping w'" using n(1) \<open>dw_stopping ?w\<close> by blast
  moreover have "steps_left ?w \<le> 4" by (simp split: option.split worker_pc.split)
  ultimately show "\<exists>n w' w''. (work ^^ n) ?w w' \<and> n \<le> 4 \<and> DashboardWorker_join w' = Some w'' \<and>
      \<not> joinable w'' \<and> dw_stopping w''"
    using n by (intro exI [of _ n] exI [of _ w'] exI [of _ "w'\<lparr>dw_thread := None\<rparr>"])
       (auto simp: worker_defs simp del: steps_left.simps)
next
  fix v v' :: "'d DashboardWorker"
  assume "dw_stopping v \<and> joinable v \<and> step v v'"
  then show "dw_stopping v'" using step_stopping by blast
qed

theorem DashboardWorker_stop_ends_witness:
  "\<exists>n w' w''. (work ^^ n) (DashboardWorker_requestStop
       (DashboardWorker_start (DashboardWorker_init :: nat DashboardWorker))) w' \<and> n \<le> 4 \<and>
     DashboardWorker_join w' = Some w'' \<and> \<not> joinable w''"
  using DashboardWorker_stop_ends [of "DashboardWorker_start (DashboardWorker_init :: nat DashboardWorker)"]
  by (auto simp: DashboardWorker_init_def DashboardWorker_start_def joinable_def)

text \<open>
  The dashboard never goes blank again: once a snapshot was published, every later state, through
  failures, stops and restarts in any order, still has one.
\<close>

theorem DashboardWorker_keeps_snapshot:
  assumes "step\<^sup>*\<^sup>* w w'" and "dw_snapshot w \<noteq> None"
  shows "dw_snapshot w' \<noteq> None"
  using assms by (induction rule: rtranclp_induct) (auto dest: step_snapshot)

theorem DashboardWorker_keeps_snapshot_witness:
  "dw_snapshot (DashboardWorker_start \<lparr>dw_thread = None, dw_stopping = True, dw_snapshot = Some (7::nat)\<rparr>)
     \<noteq> None"
proof (rule DashboardWorker_keeps_snapshot)
  show "step\<^sup>*\<^sup>* \<lparr>dw_thread = None, dw_stopping = True, dw_snapshot = Some (7::nat)\<rparr>
      (DashboardWorker_start \<lparr>dw_thread = None, dw_stopping = True, dw_snapshot = Some 7\<rparr>)"
    by (intro r_into_rtranclp step.start)
qed simp

end
