(* ===== verification/ProcFsParsers.thy ===== *)
theory ProcFsParsers
  imports Domain
begin

text \<open>
  The parsers of \<open>src/linux/procfs\<close>: command lines, \<open>/proc/<pid>/stat\<close> and \<open>status\<close>, the system-wide
  \<open>stat\<close>, \<open>meminfo\<close> and \<open>uptime\<close>, and the link targets of socket descriptors. Texts come from the
  kernel but names in them are chosen by processes, so the parsers meet arbitrary bytes.
\<close>

abbreviation NUL :: char where "NUL \<equiv> CHR 0x00"
abbreviation NL :: char where "NL \<equiv> CHR 0x0A"
abbreviation TAB :: char where "TAB \<equiv> CHR 0x09"
abbreviation CR :: char where "CR \<equiv> CHR 0x0D"

section \<open>Command lines and socket links\<close>

definition parseCmdline :: "string \<Rightarrow> string list" where
  "parseCmdline contents = split_on NUL contents"

definition socket_prefix :: string where
  "socket_prefix = ''socket:[''"

definition parseSocketFdTarget :: "string \<Rightarrow> u64 option result" where
  "parseSocketFdTarget target =
     (if take (length socket_prefix) target \<noteq> socket_prefix then success None
      else if length target \<le> length socket_prefix + 1 \<or> last target \<noteq> CHR '']''
      then failure (mkError ParseError ''Malformed socket file descriptor target'' 0
                      ''socket-fd-target'' ''parse'')
      else
        (let digits = substr target (length socket_prefix) (length target - length socket_prefix - 1);
             parsed = from_chars_unsigned (2 ^ 64 - 1) digits in
         if \<not> consumed_all parsed digits
         then failure (mkError ParseError ''Invalid socket inode'' 0 ''socket-fd-target'' ''parse'')
         else success (Some (of_nat (fc_value_or 0 parsed)))))"

section \<open>The stat record of a process\<close>

record StatRecord =
  st_pid :: pid
  st_name :: string
  st_state :: char
  st_ppid :: pid

definition stat_failure :: "string \<Rightarrow> 'a result" where
  "stat_failure message = failure (mkError ParseError message 0 ''procfs-stat'' ''parse'')"

text \<open>\<open>None\<close> when the text is not a process id.\<close>

definition parsePid :: "string \<Rightarrow> pid option" where
  "parsePid text =
     (let parsed = from_chars_signed (- (2 ^ 31)) pid_max text;
          v = fc_value_or (-1) parsed in
      if consumed_all parsed text \<and> 0 \<le> v then Some v else None)"

definition parseCounter :: "string \<Rightarrow> nat option" where
  "parseCounter text =
     (let parsed = from_chars_unsigned (2 ^ 64 - 1) text in
      if consumed_all parsed text then Some (fc_value_or 0 parsed) else None)"

text \<open>The loop that removes trailing blanks from the first field.\<close>

definition dropTrailingBlanks :: "string \<Rightarrow> string" where
  "dropTrailingBlanks s = rev (dropWhile (\<lambda>c. c = CHR '' '') (rev s))"

definition ppidEndOf :: "string \<Rightarrow> nat \<Rightarrow> nat" where
  "ppidEndOf contents from =
     (case str_find CHR '' '' contents from of
        Some i \<Rightarrow> i
      | None \<Rightarrow> (case str_find NL contents from of Some i \<Rightarrow> i | None \<Rightarrow> length contents))"

definition parseStat :: "string \<Rightarrow> StatRecord result" where
  "parseStat contents =
     (case (str_find CHR ''('' contents 0, str_rfind '') '' contents) of
        (Some lpar, Some rpar) \<Rightarrow>
          (if lpar = 0 \<or> rpar \<le> lpar \<or> length contents < rpar + 4
           then stat_failure ''Malformed process stat record''
           else
             (case parsePid (dropTrailingBlanks (substr contents 0 lpar)) of
                None \<Rightarrow> stat_failure ''Invalid PID in process stat record''
              | Some p \<Rightarrow>
                  (case parsePid (substr contents (rpar + 4) (ppidEndOf contents (rpar + 4) - (rpar + 4))) of
                     None \<Rightarrow> stat_failure ''Invalid PPID in process stat record''
                   | Some pp \<Rightarrow>
                       success \<lparr>st_pid = p, st_name = substr contents (lpar + 1) (rpar - lpar - 1),
                                st_state = contents ! (rpar + 2), st_ppid = pp\<rparr>)))
      | _ \<Rightarrow> stat_failure ''Malformed process stat record'')"

text \<open>The blanks of the field loop: space, tab, carriage return, newline.\<close>

definition field_blank :: "char \<Rightarrow> bool" where
  "field_blank c \<longleftrightarrow> c = CHR '' '' \<or> c = TAB \<or> c = CR \<or> c = NL"

function stat_fields :: "string \<Rightarrow> string list" where
  "stat_fields tail =
     (let rest = dropWhile field_blank tail in
      if rest = [] then []
      else takeWhile (\<lambda>c. \<not> field_blank c) rest # stat_fields (dropWhile (\<lambda>c. \<not> field_blank c) rest))"
  by pat_completeness auto
termination
proof (relation "measure length")
  fix tail rest :: string
  assume rest: "rest = dropWhile field_blank tail" "rest \<noteq> []"
  have "\<not> field_blank (hd rest)" using rest by (metis hd_dropWhile)
  then have "length (dropWhile (\<lambda>c. \<not> field_blank c) rest) < length rest"
    using rest(2) by (cases rest) (auto simp: le_imp_less_Suc length_dropWhile_le)
  also have "\<dots> \<le> length tail" using rest(1) by (simp add: length_dropWhile_le)
  finally show "(dropWhile (\<lambda>c. \<not> field_blank c) rest, tail) \<in> measure length" by simp
qed simp

declare stat_fields.simps [simp del]

definition parseProcessCpuStat :: "string \<Rightarrow> ProcessCpuSample result" where
  "parseProcessCpuStat contents =
     (case parseStat contents of
        Inl e \<Rightarrow> failure e
      | Inr basic \<Rightarrow>
          (let rpar = (case str_rfind '') '' contents of Some i \<Rightarrow> i | None \<Rightarrow> 0);
               fields = stat_fields (drop (rpar + 4) contents) in
           if length fields \<le> 18 then stat_failure ''Incomplete process CPU stat record''
           else
             (case (parseCounter (fields ! 10), parseCounter (fields ! 11), parseCounter (fields ! 18)) of
                (Some user, Some system, Some start) \<Rightarrow>
                  (if 2 ^ 64 - 1 - user < system
                   then stat_failure ''Invalid process CPU stat counters''
                   else success \<lparr>pc_pid = st_pid basic, pc_startTimeTicks = of_nat start,
                                 pc_cpuTimeTicks = of_nat (user + system)\<rparr>)
              | _ \<Rightarrow> stat_failure ''Invalid process CPU stat counters'')))"

section \<open>The status record of a process\<close>

record StatusRecord =
  su_uid :: u32
  su_gid :: u32
  su_threads :: u32
  su_rssBytes :: u64

definition status_failure :: "string \<Rightarrow> 'a result" where
  "status_failure message = failure (mkError ParseError message 0 ''procfs-status'' ''parse'')"

definition firstToken :: "string \<Rightarrow> string" where
  "firstToken s =
     takeWhile (\<lambda>c. \<not> (c = CHR '' '' \<or> c = TAB \<or> c = CR)) (dropWhile (\<lambda>c. c = CHR '' '' \<or> c = TAB) s)"

definition parseUnsigned :: "nat \<Rightarrow> string \<Rightarrow> nat option" where
  "parseUnsigned mx text =
     (let parsed = from_chars_unsigned mx text in
      if text \<noteq> [] \<and> consumed_all parsed text then Some (fc_value_or 0 parsed) else None)"

text \<open>The variables of the loop: the record and which required fields have been read.\<close>

record StatusState =
  sx_record :: StatusRecord
  sx_hasUid :: bool
  sx_hasGid :: bool
  sx_hasThreads :: bool

definition statusLine :: "string \<Rightarrow> StatusState \<Rightarrow> StatusState result" where
  "statusLine line s =
     (case str_find CHR '':'' line 0 of
        None \<Rightarrow> success s
      | Some colon \<Rightarrow>
          (let key = substr line 0 colon;
               token = firstToken (drop (colon + 1) line) in
           if key = ''Uid''
           then (case parseUnsigned (2 ^ 32 - 1) token of
                   None \<Rightarrow> status_failure ''Invalid Uid field''
                 | Some v \<Rightarrow> success (s\<lparr>sx_record := (sx_record s)\<lparr>su_uid := of_nat v\<rparr>, sx_hasUid := True\<rparr>))
           else if key = ''Gid''
           then (case parseUnsigned (2 ^ 32 - 1) token of
                   None \<Rightarrow> status_failure ''Invalid Gid field''
                 | Some v \<Rightarrow> success (s\<lparr>sx_record := (sx_record s)\<lparr>su_gid := of_nat v\<rparr>, sx_hasGid := True\<rparr>))
           else if key = ''Threads''
           then (case parseUnsigned (2 ^ 32 - 1) token of
                   None \<Rightarrow> status_failure ''Invalid Threads field''
                 | Some v \<Rightarrow> success (s\<lparr>sx_record := (sx_record s)\<lparr>su_threads := of_nat v\<rparr>,
                                       sx_hasThreads := True\<rparr>))
           else if key = ''VmRSS''
           then (case parseUnsigned (2 ^ 64 - 1) token of
                   None \<Rightarrow> status_failure ''Invalid VmRSS field''
                 | Some kib \<Rightarrow>
                     (if (2 ^ 64 - 1) div 1024 < kib then status_failure ''Invalid VmRSS field''
                      else success (s\<lparr>sx_record := (sx_record s)\<lparr>su_rssBytes := of_nat (kib * 1024)\<rparr>\<rparr>)))
           else success s))"

fun statusLines :: "string list \<Rightarrow> StatusState \<Rightarrow> StatusState result" where
  "statusLines [] s = success s"
| "statusLines (line # rest) s =
     (case statusLine line s of Inl e \<Rightarrow> failure e | Inr s' \<Rightarrow> statusLines rest s')"

definition initial_StatusState :: StatusState where
  "initial_StatusState = \<lparr>sx_record = \<lparr>su_uid = 0, su_gid = 0, su_threads = 0, su_rssBytes = 0\<rparr>,
     sx_hasUid = False, sx_hasGid = False, sx_hasThreads = False\<rparr>"

definition parseStatus :: "string \<Rightarrow> StatusRecord result" where
  "parseStatus contents =
     (case statusLines (split_on NL contents) initial_StatusState of
        Inl e \<Rightarrow> failure e
      | Inr s \<Rightarrow>
          (if \<not> sx_hasUid s \<or> \<not> sx_hasGid s \<or> \<not> sx_hasThreads s
           then status_failure ''Required process status field is missing''
           else success (sx_record s)))"

section \<open>System-wide metrics\<close>

definition metrics_failure :: "string \<Rightarrow> 'a result" where
  "metrics_failure message = failure (mkError ParseError message 0 ''procfs-metrics'' ''parse'')"

definition checkedAdd :: "u64 \<Rightarrow> u64 \<Rightarrow> u64 option" where
  "checkedAdd acc v = (if - 1 - acc < v then None else Some (acc + v))"

fun cpuTokens :: "string list \<Rightarrow> nat \<Rightarrow> CpuTimes \<Rightarrow> (CpuTimes \<times> nat) result" where
  "cpuTokens [] index cpu = success (cpu, index)"
| "cpuTokens (token # rest) index cpu =
     (case Option.bind (map_option of_nat (parseCounter token)) (checkedAdd (ct_totalTicks cpu)) of
        None \<Rightarrow> metrics_failure ''Invalid CPU counter in /proc/stat''
      | Some ticks \<Rightarrow>
          (if index = 3 \<or> index = 4
           then (case Option.bind (map_option of_nat (parseCounter token)) (checkedAdd (ct_idleTicks cpu)) of
                   None \<Rightarrow> metrics_failure ''CPU idle counter overflow in /proc/stat''
                 | Some idle \<Rightarrow> cpuTokens rest (index + 1) \<lparr>ct_totalTicks = ticks, ct_idleTicks = idle\<rparr>)
           else cpuTokens rest (index + 1) (cpu\<lparr>ct_totalTicks := ticks\<rparr>)))"

definition parseCpuTimes :: "string \<Rightarrow> CpuTimes result" where
  "parseCpuTimes contents =
     (let line = takeWhile (\<lambda>c. c \<noteq> NL) contents in
      case tokens line of
        [] \<Rightarrow> metrics_failure ''Missing aggregate CPU row in /proc/stat''
      | label # rest \<Rightarrow>
          (if label \<noteq> ''cpu'' then metrics_failure ''Missing aggregate CPU row in /proc/stat''
           else
             (case cpuTokens rest 0 \<lparr>ct_totalTicks = 0, ct_idleTicks = 0\<rparr> of
                Inl e \<Rightarrow> failure e
              | Inr (cpu, index) \<Rightarrow>
                  (if index < 4 then metrics_failure ''Incomplete aggregate CPU row in /proc/stat''
                   else success cpu))))"

record MemoryRecord =
  mr_totalBytes :: u64
  mr_availableBytes :: u64

text \<open>The extraction loop of \<open>parseMemoryInfo\<close> over the unread text, with the two flags; \<open>getline\<close>
  drops the rest of a line.\<close>

function memoryLoop :: "string \<Rightarrow> u64 option \<Rightarrow> u64 option \<Rightarrow> (u64 option \<times> u64 option) result" where
  "memoryLoop input mtotal available =
     (case extract_token input of
        None \<Rightarrow> success (mtotal, available)
      | Some (key, input1) \<Rightarrow>
          (case extract_token input1 of
             None \<Rightarrow> success (mtotal, available)
           | Some (valueText, input2) \<Rightarrow>
               (case extract_token input2 of
                  None \<Rightarrow> success (mtotal, available)
                | Some (unit, input3) \<Rightarrow>
                    (if key \<noteq> ''MemTotal:'' \<and> key \<noteq> ''MemAvailable:''
                     then memoryLoop (drop 1 (dropWhile (\<lambda>c. c \<noteq> NL) input3)) mtotal available
                     else
                       (case parseCounter valueText of
                          None \<Rightarrow> metrics_failure ''Invalid memory value in /proc/meminfo''
                        | Some kib \<Rightarrow>
                            (if unit \<noteq> ''kB'' \<or> (2 ^ 64 - 1) div 1024 < kib
                             then metrics_failure ''Invalid memory value in /proc/meminfo''
                             else if key = ''MemTotal:''
                             then memoryLoop input3 (Some (of_nat (kib * 1024))) available
                             else memoryLoop input3 mtotal (Some (of_nat (kib * 1024)))))))))"
  by pat_completeness auto
termination
proof (relation "measure (\<lambda>(input, _, _). length input)", goal_cases)
  case 1
  then show ?case by simp
next
  case (2 input mtotal available x2 key input1 x2a valueText input2 x2b unit input3)
  then have "length input3 < length input"
    by (auto dest!: extract_token_length(1))
  moreover have "length (drop 1 (dropWhile (\<lambda>c. c \<noteq> NL) input3)) \<le> length input3"
    by (metis (no_types, lifting) diff_le_self le_trans length_drop length_dropWhile_le)
  ultimately show ?case by simp
qed (auto dest!: extract_token_length(1))

declare memoryLoop.simps [simp del]

definition parseMemoryInfo :: "string \<Rightarrow> MemoryRecord result" where
  "parseMemoryInfo contents =
     (case memoryLoop contents None None of
        Inl e \<Rightarrow> failure e
      | Inr (Some memory, Some available) \<Rightarrow>
          (if memory < available then metrics_failure ''Missing or inconsistent memory fields''
           else success \<lparr>mr_totalBytes = memory, mr_availableBytes = available\<rparr>)
      | Inr _ \<Rightarrow> metrics_failure ''Missing or inconsistent memory fields'')"

definition cpuLine :: "string \<Rightarrow> bool" where
  "cpuLine line \<longleftrightarrow> length line > 3 \<and> substr line 0 3 = ''cpu'' \<and> isdigit (line ! 3)"

definition countLogicalCpus :: "string \<Rightarrow> u32" where
  "countLogicalCpus contents =
     (let count = fold (\<lambda>line n. if cpuLine line then n + 1 else n) (split_on NL contents) 0 in
      if count = 0 then 1 else count)"

section \<open>Lemmas\<close>

lemma parsePid_nat_str: "int n \<le> pid_max \<Longrightarrow> parsePid (nat_str n) = Some (int n)"
  using from_chars_signed_digits [of "nat_str n" pid_max "- (2 ^ 31)"] nat_str_digits [of _ n]
  by (simp add: parsePid_def consumed_all_def fc_value_or_def Let_def)

lemma parseCounter_nat_str: "n < 2 ^ 64 \<Longrightarrow> parseCounter (nat_str n) = Some n"
proof -
  assume "n < 2 ^ 64"
  then have "n \<le> 2 ^ 64 - 1" by simp
  then show ?thesis
    unfolding parseCounter_def Let_def
    by (simp only: from_chars_unsigned_nat_str from_chars_unsigned_nat_str_value if_True)
qed

lemma parseUnsigned_nat_str: "n \<le> mx \<Longrightarrow> parseUnsigned mx (nat_str n) = Some n"
  by (simp add: parseUnsigned_def Let_def from_chars_unsigned_nat_str from_chars_unsigned_nat_str_value)

lemma not_in_nat_str: "\<not> isdigit c \<Longrightarrow> c \<notin> set (nat_str n)"
  using nat_str_digits by blast

lemma special_not_digit [simp]:
  "\<not> isdigit CHR ''(''" "\<not> isdigit CHR '')''" "\<not> isdigit CHR '' ''" "\<not> isdigit NL" "\<not> isdigit CHR '']''"
  "\<not> isdigit TAB" "\<not> isdigit CR"
  by (simp_all add: isdigit_def)

lemma dropTrailingBlanks_number: "dropTrailingBlanks (nat_str n @ '' '') = nat_str n"
proof -
  have "rev (nat_str n) \<noteq> []" by simp
  then obtain c r where r: "rev (nat_str n) = c # r" by (cases "rev (nat_str n)") auto
  then have "c \<in> set (nat_str n)" by (metis list.set_intros(1) set_rev)
  then have "c \<noteq> CHR '' ''" using not_in_nat_str [of "CHR '' ''" n] by auto
  then show ?thesis using r by (simp add: dropTrailingBlanks_def)
qed

text \<open>The line the kernel writes for a process: any bytes are allowed in the name.\<close>

definition stat_line :: "nat \<Rightarrow> string \<Rightarrow> char \<Rightarrow> nat \<Rightarrow> string \<Rightarrow> string" where
  "stat_line p name st pp rest =
     nat_str p @ '' ('' @ name @ '') '' @ [st] @ '' '' @ nat_str pp @ rest"

lemma stat_line_open: "str_find CHR ''('' (stat_line p name st pp rest) 0 = Some (length (nat_str p) + 1)"
proof -
  have "find_index (\<lambda>x. x = CHR ''('') ((nat_str p @ '' '') @ CHR ''('' # name @ '') '' @ [st] @ '' ''
      @ nat_str pp @ rest) = Some (length (nat_str p @ '' ''))"
    using not_in_nat_str [of "CHR ''(''" p] by (intro find_index_append) auto
  then show ?thesis by (simp add: str_find_def stat_line_def)
qed

lemma stat_line_close:
  assumes "st \<noteq> CHR '')''" "CHR '')'' \<notin> set rest"
  shows "str_rfind '') '' (stat_line p name st pp rest) = Some (length (nat_str p) + 2 + length name)"
proof -
  have "CHR '')'' \<notin> set ([st] @ '' '' @ nat_str pp @ rest)"
    using assms not_in_nat_str [of "CHR '')''" pp] by auto
  from str_rfind_last [OF refl _ this, of "'' ''" "nat_str p @ '' ('' @ name"] show ?thesis
    by (simp add: stat_line_def)
qed

lemma stat_line_tail:
  "drop (length (nat_str p) + 2 + length name + 4) (stat_line p name st pp rest) = nat_str pp @ rest"
proof -
  let ?pre = "nat_str p @ '' ('' @ name @ '') '' @ [st] @ '' ''"
  have "stat_line p name st pp rest = ?pre @ nat_str pp @ rest"
    and "length (nat_str p) + 2 + length name + 4 = length ?pre"
    by (simp_all add: stat_line_def)
  then show ?thesis by (metis append_eq_conv_conj)
qed

text \<open>What may follow the parent id: nothing, a blank and more fields, or the final newline.\<close>

definition field_end :: "string \<Rightarrow> bool" where
  "field_end rest \<longleftrightarrow> rest = [] \<or> hd rest = CHR '' '' \<or> (hd rest = NL \<and> CHR '' '' \<notin> set rest)"

lemma substr_middle: "substr (pre @ x @ rest) (length pre) (length x) = x"
  by (simp add: substr_def)

lemma str_find_after:
  "str_find c (pre @ s) (length pre) = map_option (\<lambda>i. length pre + i) (find_index (\<lambda>x. x = c) s)"
  by (simp add: str_find_def)

lemma ppidEndOf_number:
  assumes "field_end rest"
  shows "ppidEndOf (pre @ nat_str pp @ rest) (length pre) = length pre + length (nat_str pp)"
proof -
  have blank: "CHR '' '' \<notin> set (nat_str pp)" and nl: "NL \<notin> set (nat_str pp)"
    by (simp_all add: not_in_nat_str)
  consider "rest = []" | r where "rest = CHR '' '' # r" | r where "rest = NL # r" "CHR '' '' \<notin> set rest"
    using assms unfolding field_end_def by (cases rest) auto
  then show ?thesis
  proof cases
    case 1
    then have "find_index (\<lambda>x. x = CHR '' '') (nat_str pp @ rest) = None"
        "find_index (\<lambda>x. x = NL) (nat_str pp @ rest) = None"
      using blank nl by (auto simp: find_index_None)
    then show ?thesis using 1 unfolding ppidEndOf_def str_find_after by simp
  next
    case 2
    then have "find_index (\<lambda>x. x = CHR '' '') (nat_str pp @ rest) = Some (length (nat_str pp))"
      using blank by (auto intro!: find_index_append)
    then show ?thesis unfolding ppidEndOf_def str_find_after by simp
  next
    case 3
    then have "find_index (\<lambda>x. x = CHR '' '') (nat_str pp @ rest) = None"
        "find_index (\<lambda>x. x = NL) (nat_str pp @ rest) = Some (length (nat_str pp))"
      using blank nl by (auto simp: find_index_None intro!: find_index_append)
    then show ?thesis unfolding ppidEndOf_def str_find_after by simp
  qed
qed

lemma parseStat_line:
  assumes "int p \<le> pid_max" "int pp \<le> pid_max" "st \<noteq> CHR '')''" "CHR '')'' \<notin> set rest" "field_end rest"
  shows "parseStat (stat_line p name st pp rest) =
    Inr \<lparr>st_pid = int p, st_name = name, st_state = st, st_ppid = int pp\<rparr>"
proof -
  let ?s = "stat_line p name st pp rest"
  let ?lpar = "length (nat_str p) + 1"
  let ?rpar = "length (nat_str p) + 2 + length name"
  let ?pre = "nat_str p @ '' ('' @ name @ '') '' @ [st] @ '' ''"
  have s: "?s = ?pre @ nat_str pp @ rest" and pre: "length ?pre = ?rpar + 4"
    by (simp_all add: stat_line_def)
  have long: "\<not> length ?s < ?rpar + 4" unfolding s using pre by simp
  have "ppidEndOf ?s (?rpar + 4) = ?rpar + 4 + length (nat_str pp)"
    unfolding s using ppidEndOf_number [OF assms(5), of ?pre pp] unfolding pre .
  then have ppid: "substr ?s (?rpar + 4) (ppidEndOf ?s (?rpar + 4) - (?rpar + 4)) = nat_str pp"
    using substr_middle [of ?pre "nat_str pp" rest] unfolding s pre by simp
  have pid: "dropTrailingBlanks (substr ?s 0 ?lpar) = nat_str p"
    using dropTrailingBlanks_number [of p] by (simp add: stat_line_def substr_def)
  have name: "substr ?s (?lpar + 1) (?rpar - ?lpar - 1) = name"
    by (simp add: stat_line_def substr_def)
  have state: "?s ! (?rpar + 2) = st"
    by (simp add: stat_line_def nth_append)
  have "\<not> (?lpar = 0 \<or> ?rpar \<le> ?lpar \<or> length ?s < ?rpar + 4)" using long by simp
  then show ?thesis
    unfolding parseStat_def stat_line_open stat_line_close [OF assms(3,4)] prod.case option.case
    unfolding pid ppid name state parsePid_nat_str [OF assms(1)] parsePid_nat_str [OF assms(2)]
    by simp
qed

text \<open>The fields after the state, separated by single blanks.\<close>

definition field_ok :: "string \<Rightarrow> bool" where
  "field_ok f \<longleftrightarrow> f \<noteq> [] \<and> (\<forall>c \<in> set f. \<not> field_blank c)"

definition blank_joined :: "string list \<Rightarrow> string" where
  "blank_joined fs = concat (map (\<lambda>f. CHR '' '' # f) fs)"

lemma stat_fields_blank [simp]: "stat_fields (CHR '' '' # s) = stat_fields s"
  by (subst (1 2) stat_fields.simps) (simp add: field_blank_def)

lemma blank_joined_blank: "blank_joined fs = [] \<or> field_blank (hd (blank_joined fs))"
  by (cases fs) (simp_all add: blank_joined_def field_blank_def)

lemma stat_fields_step:
  assumes "field_ok x" "rest = [] \<or> field_blank (hd rest)"
  shows "stat_fields (x @ rest) = x # stat_fields rest"
proof -
  obtain c y where x: "x = c # y" "\<not> field_blank c" "\<forall>d \<in> set y. \<not> field_blank d"
    using assms(1) by (cases x) (auto simp: field_ok_def)
  have "dropWhile field_blank (x @ rest) = x @ rest" using x by simp
  moreover have "takeWhile (\<lambda>c. \<not> field_blank c) (x @ rest) = x"
    "dropWhile (\<lambda>c. \<not> field_blank c) (x @ rest) = rest"
    using x assms(2) by (cases rest; simp)+
  ultimately show ?thesis using x(1) by (subst stat_fields.simps) (simp add: Let_def)
qed

lemma stat_fields_joined: "list_all field_ok fs \<Longrightarrow> stat_fields (blank_joined fs) = fs"
proof (induction fs)
  case Nil
  then show ?case by (simp add: blank_joined_def stat_fields.simps)
next
  case (Cons f fs)
  have "blank_joined (f # fs) = CHR '' '' # f @ blank_joined fs" by (simp add: blank_joined_def)
  then show ?case
    using Cons stat_fields_step [of f "blank_joined fs"] blank_joined_blank [of fs] by simp
qed

lemma digits_not_blank: "isdigit c \<Longrightarrow> \<not> field_blank c"
  by (auto simp: field_blank_def)

lemma field_ok_nat_str [simp]: "field_ok (nat_str n)"
  using nat_str_digits digits_not_blank by (auto simp: field_ok_def)

text \<open>Status lines.\<close>

lemma firstToken_number:
  assumes "\<forall>c \<in> set pad. c = CHR '' '' \<or> c = TAB" "suf = [] \<or> hd suf = CHR '' '' \<or> hd suf = TAB \<or> hd suf = CR"
  shows "firstToken (pad @ nat_str n @ suf) = nat_str n"
proof -
  obtain c y where n: "nat_str n = c # y" by (cases "nat_str n") simp_all
  have plain: "\<not> (d = CHR '' '' \<or> d = TAB \<or> d = CR)" if "d \<in> set (nat_str n)" for d
    using nat_str_digits [OF that] by auto
  have "dropWhile (\<lambda>c. c = CHR '' '' \<or> c = TAB) (pad @ nat_str n @ suf) = nat_str n @ suf"
    using assms(1) plain [of c] n by (simp add: dropWhile_append2)
  moreover have "takeWhile (\<lambda>c. \<not> (c = CHR '' '' \<or> c = TAB \<or> c = CR)) (nat_str n @ suf) = nat_str n"
    using plain assms(2) by (cases suf) (auto simp: takeWhile_append)
  ultimately show ?thesis by (simp add: firstToken_def)
qed

text \<open>The text after a key: blanks, a number, and whatever follows a blank.\<close>

definition number_text :: "nat \<Rightarrow> string \<Rightarrow> bool" where
  "number_text n t \<longleftrightarrow> NL \<notin> set t \<and> (\<exists>pad suf. t = pad @ nat_str n @ suf \<and>
     (\<forall>c \<in> set pad. c = CHR '' '' \<or> c = TAB) \<and>
     (suf = [] \<or> hd suf = CHR '' '' \<or> hd suf = TAB \<or> hd suf = CR))"

lemma number_textD: "number_text n t \<Longrightarrow> firstToken t = nat_str n"
  using firstToken_number by (auto simp: number_text_def)

definition irrelevant_line :: "string \<Rightarrow> bool" where
  "irrelevant_line line \<longleftrightarrow> NL \<notin> set line \<and>
     (case str_find CHR '':'' line 0 of
        None \<Rightarrow> True
      | Some i \<Rightarrow> take i line \<notin> {''Uid'', ''Gid'', ''Threads'', ''VmRSS''})"

lemma statusLine_irrelevant: "irrelevant_line line \<Longrightarrow> statusLine line s = Inr s"
  by (auto simp: irrelevant_line_def statusLine_def substr_def Let_def split: option.split_asm option.split)

lemma statusLines_irrelevant: "list_all irrelevant_line ls \<Longrightarrow> statusLines (ls @ rest) s = statusLines rest s"
  by (induction ls) (simp_all add: statusLine_irrelevant)

lemma key_colon: "CHR '':'' \<notin> set key \<Longrightarrow> str_find CHR '':'' (key @ CHR '':'' # t) 0 = Some (length key)"
  unfolding str_find_def by (subst drop_0, subst find_index_append) auto

lemma statusLine_uid:
  "number_text (unat (u::u32)) t \<Longrightarrow> statusLine (''Uid:'' @ t) s =
     Inr (s\<lparr>sx_record := (sx_record s)\<lparr>su_uid := u\<rparr>, sx_hasUid := True\<rparr>)"
  using key_colon [of "''Uid''" t] parseUnsigned_nat_str [of "unat u" "2 ^ 32 - 1"]
    unsigned_less [of u, where ?'a = nat]
  by (simp add: statusLine_def substr_def number_textD Let_def)

lemma statusLine_gid:
  "number_text (unat (g::u32)) t \<Longrightarrow> statusLine (''Gid:'' @ t) s =
     Inr (s\<lparr>sx_record := (sx_record s)\<lparr>su_gid := g\<rparr>, sx_hasGid := True\<rparr>)"
  using key_colon [of "''Gid''" t] parseUnsigned_nat_str [of "unat g" "2 ^ 32 - 1"]
    unsigned_less [of g, where ?'a = nat]
  by (simp add: statusLine_def substr_def number_textD Let_def)

lemma statusLine_threads:
  "number_text (unat (n::u32)) t \<Longrightarrow> statusLine (''Threads:'' @ t) s =
     Inr (s\<lparr>sx_record := (sx_record s)\<lparr>su_threads := n\<rparr>, sx_hasThreads := True\<rparr>)"
  using key_colon [of "''Threads''" t] parseUnsigned_nat_str [of "unat n" "2 ^ 32 - 1"]
    unsigned_less [of n, where ?'a = nat]
  by (simp add: statusLine_def substr_def number_textD Let_def)

lemma statusLine_rss:
  "number_text kib t \<Longrightarrow> kib * 1024 < 2 ^ 64 \<Longrightarrow> statusLine (''VmRSS:'' @ t) s =
     Inr (s\<lparr>sx_record := (sx_record s)\<lparr>su_rssBytes := of_nat (kib * 1024)\<rparr>\<rparr>)"
  using key_colon [of "''VmRSS''" t] parseUnsigned_nat_str [of kib "2 ^ 64 - 1"]
  by (simp add: statusLine_def substr_def number_textD Let_def)

text \<open>Processor counters.\<close>

fun idle_part :: "nat \<Rightarrow> nat list \<Rightarrow> nat" where
  "idle_part i [] = 0"
| "idle_part i (v # vs) = (if i = 3 \<or> i = 4 then v else 0) + idle_part (i + 1) vs"

lemma idle_part_le: "idle_part i vs \<le> sum_list vs"
  by (induction vs arbitrary: i) (auto intro: add_mono le_SucI trans_le_add2)

lemma parseCounter_bound: "parseCounter t = Some v \<Longrightarrow> v < 2 ^ 64"
  using from_chars_unsigned_value [of "2 ^ 64 - 1" t 0] from_chars_unsigned_all [of "2 ^ 64 - 1" t]
  by (auto simp: parseCounter_def Let_def split: if_splits)

lemma checkedAdd_exact:
  assumes "checkedAdd a (of_nat v) = Some r" "v < 2 ^ 64"
  shows "unat r = unat a + v"
proof -
  let ?v = "of_nat v :: u64"
  have v: "unat ?v = v" using assms(2) by (simp add: unat_of_nat take_bit_nat_eq_self)
  have "?v \<le> - 1 - a" and r: "r = a + ?v"
    using assms(1) by (auto simp: checkedAdd_def not_less split: if_splits)
  then have le: "v \<le> unat (- 1 - a)" using v by (simp add: word_le_nat_alt)
  have "unat (- 1 :: u64) = 2 ^ 64 - 1"
    by (simp add: unsigned_minus_1_eq_mask mask_eq_exp_minus_1)
  moreover have "a \<le> - 1" by simp
  ultimately have "unat (- 1 - a) = 2 ^ 64 - 1 - unat a" by (simp add: unat_sub)
  with le have "unat a + v < 2 ^ 64"
    using unsigned_less [of a, where ?'a = nat] by simp
  then show ?thesis using v r by (simp add: unat_word_ariths(1))
qed

lemma cpuTokens_sums:
  assumes "cpuTokens ts i cpu = Inr (cpu', n)"
  shows "\<exists>vs. map parseCounter ts = map Some vs \<and> n = i + length ts \<and>
    unat (ct_totalTicks cpu') = unat (ct_totalTicks cpu) + sum_list vs \<and>
    unat (ct_idleTicks cpu') = unat (ct_idleTicks cpu) + idle_part i vs"
  using assms
proof (induction ts arbitrary: i cpu)
  case Nil
  then show ?case by (intro exI [of _ "[]"]) simp
next
  case (Cons t ts)
  obtain v where v: "parseCounter t = Some v"
    using Cons.prems by (cases "parseCounter t") (auto simp: metrics_failure_def)
  have bound: "v < 2 ^ 64" using parseCounter_bound [OF v] .
  obtain ticks where ticks: "checkedAdd (ct_totalTicks cpu) (of_nat v) = Some ticks"
    using Cons.prems v by (cases "checkedAdd (ct_totalTicks cpu) (of_nat v)") (auto simp: metrics_failure_def)
  have sum: "unat ticks = unat (ct_totalTicks cpu) + v" using checkedAdd_exact [OF ticks bound] .
  show ?case
  proof (cases "i = 3 \<or> i = 4")
    case False
    then have "cpuTokens ts (i + 1) (cpu\<lparr>ct_totalTicks := ticks\<rparr>) = Inr (cpu', n)"
      using Cons.prems v ticks by auto
    from Cons.IH [OF this] obtain vs where "map parseCounter ts = map Some vs" "n = i + 1 + length ts"
        "unat (ct_totalTicks cpu') = unat ticks + sum_list vs"
        "unat (ct_idleTicks cpu') = unat (ct_idleTicks cpu) + idle_part (i + 1) vs"
      by auto
    then show ?thesis using v sum False by (intro exI [of _ "v # vs"]) simp
  next
    case True
    obtain idle where idle: "checkedAdd (ct_idleTicks cpu) (of_nat v) = Some idle"
      using Cons.prems v ticks True
      by (cases "checkedAdd (ct_idleTicks cpu) (of_nat v)") (auto simp: metrics_failure_def)
    have "unat idle = unat (ct_idleTicks cpu) + v" using checkedAdd_exact [OF idle bound] .
    moreover have "cpuTokens ts (i + 1) \<lparr>ct_totalTicks = ticks, ct_idleTicks = idle\<rparr> = Inr (cpu', n)"
      using Cons.prems v ticks idle True by auto
    from Cons.IH [OF this] obtain vs where "map parseCounter ts = map Some vs" "n = i + 1 + length ts"
        "unat (ct_totalTicks cpu') = unat ticks + sum_list vs"
        "unat (ct_idleTicks cpu') = unat idle + idle_part (i + 1) vs"
      by auto
    ultimately show ?thesis using v sum True by (intro exI [of _ "v # vs"]) simp
  qed
qed

text \<open>Links of descriptors.\<close>

lemma socket_link_complete:
  assumes "ds \<noteq> []" "\<forall>c \<in> set ds. isdigit c" "digits_value ds = unat (i :: u64)"
  shows "parseSocketFdTarget (''socket:['' @ ds @ '']'') = Inr (Some i)"
proof -
  let ?P = socket_prefix
  let ?t = "?P @ ds @ '']''"
  have "digits_value ds \<le> 2 ^ 64 - 1" using assms(3) unsigned_less [of i, where ?'a = nat] by simp
  then have all: "consumed_all (from_chars_unsigned (2 ^ 64 - 1) ds) ds"
    unfolding from_chars_unsigned_all using assms by blast
  have number: "fc_value_or 0 (from_chars_unsigned (2 ^ 64 - 1) ds) = unat i"
    using from_chars_unsigned_value [OF all] assms(3) by simp
  have digits: "substr ?t (length ?P) (length ?t - length ?P - 1) = ds"
    using substr_middle [of ?P ds "'']''"] by simp
  have "\<not> (length ?t \<le> length ?P + 1 \<or> last ?t \<noteq> CHR '']'')" "take (length ?P) ?t = ?P"
    using assms(1) by (simp_all add: not_le)
  then have "parseSocketFdTarget ?t = Inr (Some i)"
    unfolding parseSocketFdTarget_def Let_def digits number using all by simp
  then show ?thesis by (simp add: socket_prefix_def)
qed

lemma socket_link_sound:
  assumes "parseSocketFdTarget target = Inr (Some i)"
  shows "\<exists>ds. target = ''socket:['' @ ds @ '']'' \<and> ds \<noteq> [] \<and> (\<forall>c \<in> set ds. isdigit c) \<and>
    digits_value ds = unat i"
proof -
  let ?P = socket_prefix
  let ?ds = "substr target (length ?P) (length target - length ?P - 1)"
  have prefix: "take (length ?P) target = ?P" and long: "length ?P + 1 < length target"
    and last: "last target = CHR '']''"
    and all: "consumed_all (from_chars_unsigned (2 ^ 64 - 1) ?ds) ?ds"
    and i: "i = of_nat (fc_value_or 0 (from_chars_unsigned (2 ^ 64 - 1) ?ds))"
    using assms unfolding parseSocketFdTarget_def Let_def by (auto simp: not_le split: if_split_asm)
  have "drop (length ?P) target \<noteq> []" using long by simp
  then have "target = take (length ?P) target @ butlast (drop (length ?P) target) @ [last (drop (length ?P) target)]"
    by (metis append_butlast_last_id append_take_drop_id)
  moreover have "?ds = butlast (drop (length ?P) target)" by (simp add: substr_def butlast_conv_take)
  ultimately have "target = ?P @ ?ds @ '']''" using prefix last long by simp
  then have "target = ''socket:['' @ ?ds @ '']''" by (simp add: socket_prefix_def)
  moreover have digits: "?ds \<noteq> []" "\<forall>c \<in> set ?ds. isdigit c" "digits_value ?ds \<le> 2 ^ 64 - 1"
    using all unfolding from_chars_unsigned_all by blast+
  moreover have "digits_value ?ds = unat i"
    using i from_chars_unsigned_value [OF all, of 0] digits(3)
    by (simp add: unat_of_nat take_bit_nat_eq_self)
  ultimately show ?thesis by blast
qed

section \<open>Properties\<close>

text \<open>
  C35. A process cannot forge its entry through its name: whatever bytes the name holds (blanks,
  parentheses, newlines, text that looks like further fields), the parser reads back exactly the id,
  name, state and parent id the kernel wrote, and from a full line with its counters also the start
  time and the sum of user and system time.
\<close>

theorem parseStat_roundtrip:
  assumes "int p \<le> pid_max" "int pp \<le> pid_max" "st \<noteq> CHR '')''"
    and "list_all field_ok fs" "CHR '')'' \<notin> set (blank_joined fs)" "18 \<le> length fs"
    and "fs ! 9 = nat_str user" "fs ! 10 = nat_str system" "fs ! 17 = nat_str start"
    and "user + system < 2 ^ 64" "start < 2 ^ 64"
  shows "parseStat (stat_line p name st pp (blank_joined fs)) =
      Inr \<lparr>st_pid = int p, st_name = name, st_state = st, st_ppid = int pp\<rparr> \<and>
    parseProcessCpuStat (stat_line p name st pp (blank_joined fs)) =
      Inr \<lparr>pc_pid = int p, pc_startTimeTicks = of_nat start, pc_cpuTimeTicks = of_nat (user + system)\<rparr>"
proof -
  let ?s = "stat_line p name st pp (blank_joined fs)"
  let ?rpar = "length (nat_str p) + 2 + length name"
  have "field_end (blank_joined fs)"
    by (cases fs) (simp_all add: field_end_def blank_joined_def)
  then have basic: "parseStat ?s = Inr \<lparr>st_pid = int p, st_name = name, st_state = st, st_ppid = int pp\<rparr>"
    by (rule parseStat_line [OF assms(1,2,3,5)])
  have "drop (?rpar + 4) ?s = nat_str pp @ blank_joined fs"
    by (rule stat_line_tail)
  then have fields: "stat_fields (drop (?rpar + 4) ?s) = nat_str pp # fs"
    using stat_fields_step [OF field_ok_nat_str blank_joined_blank, of pp fs] stat_fields_joined [OF assms(4)]
    by simp
  have nth: "(nat_str pp # fs) ! 10 = nat_str user" "(nat_str pp # fs) ! 11 = nat_str system"
    "(nat_str pp # fs) ! 18 = nat_str start"
    using assms(7-9) by (simp_all add: nth_Cons')
  have counters: "parseCounter (nat_str user) = Some user" "parseCounter (nat_str system) = Some system"
    "parseCounter (nat_str start) = Some start"
    using assms(10,11) by (simp_all add: parseCounter_nat_str)
  have sum: "\<not> 2 ^ 64 - 1 - user < system" using assms(10) by simp
  have long: "\<not> length (nat_str pp # fs) \<le> 18" using assms(6) by simp
  have "parseProcessCpuStat ?s =
      Inr \<lparr>pc_pid = int p, pc_startTimeTicks = of_nat start, pc_cpuTimeTicks = of_nat (user + system)\<rparr>"
    unfolding parseProcessCpuStat_def basic stat_line_close [OF assms(3,5)] sum.case option.case Let_def
      fields nth counters prod.case
    using sum long by simp
  with basic show ?thesis by blast
qed

theorem parseStat_roundtrip_witness:
  "parseStat (stat_line 42 ''a) R 1 (b'' CHR ''S'' 7 (blank_joined (replicate 18 (nat_str 3)))) =
     Inr \<lparr>st_pid = 42, st_name = ''a) R 1 (b'', st_state = CHR ''S'', st_ppid = 7\<rparr>"
proof -
  have "CHR '')'' \<notin> set (blank_joined (replicate 18 (nat_str 3)))"
    by (auto simp: blank_joined_def not_in_nat_str)
  moreover have "list_all field_ok (replicate 18 (nat_str 3))"
    by (simp add: list_all_iff)
  ultimately show ?thesis
    using parseStat_roundtrip [of 42 7 "CHR ''S''" "replicate 18 (nat_str 3)" 3 3 3 "''a) R 1 (b''"]
    by (simp add: pid_max_def)
qed

text \<open>
  The status of a process is read from its four lines, in any padding, whatever other lines the
  kernel puts before, between and after them; the resident size is the kilobytes times 1024, without
  wrap-around.
\<close>

theorem parseStatus_roundtrip:
  assumes "list_all irrelevant_line a" "list_all irrelevant_line b" "list_all irrelevant_line c"
    "list_all irrelevant_line d" "list_all irrelevant_line e"
    and "number_text (unat (uid :: u32)) t1" "number_text (unat (gid :: u32)) t2"
    "number_text kib t3" "number_text (unat (threads :: u32)) t4" "kib * 1024 < 2 ^ 64"
  shows "parseStatus (concat (map (\<lambda>l. l @ [NL])
      (a @ (''Uid:'' @ t1) # b @ (''Gid:'' @ t2) # c @ (''VmRSS:'' @ t3) # d @ (''Threads:'' @ t4) # e))) =
    Inr \<lparr>su_uid = uid, su_gid = gid, su_threads = threads, su_rssBytes = of_nat (kib * 1024)\<rparr>"
proof -
  let ?ls = "a @ (''Uid:'' @ t1) # b @ (''Gid:'' @ t2) # c @ (''VmRSS:'' @ t3) # d @ (''Threads:'' @ t4) # e"
  have plain: "list_all (\<lambda>l. NL \<notin> set l) ls" if "list_all irrelevant_line ls" for ls
    using that by (auto simp: list_all_iff irrelevant_line_def)
  have number: "NL \<notin> set t" if "number_text n t" for n t
    using that by (simp add: number_text_def)
  have "list_all (\<lambda>l. NL \<notin> set l) ?ls"
    using plain [OF assms(1)] plain [OF assms(2)] plain [OF assms(3)] plain [OF assms(4)]
      plain [OF assms(5)] number [OF assms(6)] number [OF assms(7)] number [OF assms(8)] number [OF assms(9)]
    by simp
  then have "split_on NL (concat (map (\<lambda>l. l @ [NL]) ?ls)) = ?ls"
    unfolding list_all_iff by (intro split_on_concat) blast
  moreover have "statusLines e s = Inr s" for s
    using statusLines_irrelevant [OF assms(5), of "[]" s] by simp
  ultimately show ?thesis
    using assms(6-10)
    by (simp add: parseStatus_def statusLines_irrelevant [OF assms(1)] statusLines_irrelevant [OF assms(2)]
        statusLines_irrelevant [OF assms(3)] statusLines_irrelevant [OF assms(4)] initial_StatusState_def
        statusLine_uid [simplified] statusLine_gid [simplified] statusLine_threads [simplified]
        statusLine_rss [simplified])
qed

lemma number_text_plain: "number_text n (TAB # nat_str n)"
  using not_in_nat_str [of NL n] unfolding number_text_def
  by (intro conjI exI [of _ "[TAB]"] exI [of _ "[]"]) auto

theorem parseStatus_roundtrip_witness:
  "parseStatus (concat (map (\<lambda>l. l @ [NL])
      ([''Name: Uid 7''] @ (''Uid:'' @ TAB # nat_str (unat (7 :: u32))) # [] @
       (''Gid:'' @ TAB # nat_str (unat (9 :: u32))) # [] @ (''VmRSS:'' @ TAB # nat_str 5) # [] @
       (''Threads:'' @ TAB # nat_str (unat (2 :: u32))) # []))) =
     Inr \<lparr>su_uid = 7, su_gid = 9, su_threads = 2, su_rssBytes = of_nat (5 * 1024)\<rparr>"
proof -
  have name: "irrelevant_line ''Name: Uid 7''"
    by (simp add: irrelevant_line_def str_find_def)
  show ?thesis
    by (rule parseStatus_roundtrip)
       (use name in \<open>simp_all add: number_text_plain del: unat_numeral\<close>)
qed

text \<open>
  Processor times are exact sums: on success every counter of the row was a number, the total is
  the sum of all of them and the idle time the sum of the fourth and fifth, neither wraps around, and
  so the idle time never exceeds the total.
\<close>

theorem parseCpuTimes_exact:
  assumes "parseCpuTimes contents = Inr cpu"
  shows "\<exists>vs. tokens (takeWhile (\<lambda>c. c \<noteq> NL) contents) \<noteq> [] \<and>
    map parseCounter (tl (tokens (takeWhile (\<lambda>c. c \<noteq> NL) contents))) = map Some vs \<and> 4 \<le> length vs \<and>
    unat (ct_totalTicks cpu) = sum_list vs \<and> unat (ct_idleTicks cpu) = idle_part 0 vs \<and>
    ct_idleTicks cpu \<le> ct_totalTicks cpu"
proof -
  obtain rest where line: "tokens (takeWhile (\<lambda>c. c \<noteq> NL) contents) = ''cpu'' # rest"
    using assms
    by (auto simp: parseCpuTimes_def Let_def metrics_failure_def split: list.split_asm if_split_asm)
  then obtain n where run: "cpuTokens rest 0 \<lparr>ct_totalTicks = 0, ct_idleTicks = 0\<rparr> = Inr (cpu, n)"
    and n: "4 \<le> n"
    using assms
    by (auto simp: parseCpuTimes_def Let_def metrics_failure_def split: sum.split_asm prod.split_asm if_split_asm)
  from cpuTokens_sums [OF run] obtain vs where vs: "map parseCounter rest = map Some vs"
      "n = length rest" "unat (ct_totalTicks cpu) = sum_list vs" "unat (ct_idleTicks cpu) = idle_part 0 vs"
    by auto
  have "length vs = length rest" using vs(1) by (metis length_map)
  then show ?thesis
    using line vs n idle_part_le [of 0 vs] by (intro exI [of _ vs]) (simp add: word_le_nat_alt)
qed

theorem parseCpuTimes_exact_witness:
  "\<exists>vs. 4 \<le> length vs \<and> unat (10 :: u64) = sum_list vs \<and> unat (4 :: u64) = idle_part 0 vs"
proof -
  have c: "parseCounter ''1'' = Some 1" "parseCounter ''2'' = Some 2" "parseCounter ''3'' = Some 3"
      "parseCounter ''4'' = Some 4"
    by (simp_all add: parseCounter_def Let_def consumed_all_def from_chars_unsigned_def isdigit_def
        digits_value_def fc_value_or_def)
  have t: "tokens ''cpu 1 2 3 4'' = [''cpu'', ''1'', ''2'', ''3'', ''4'']"
    by (simp add: tokens.simps extract_token_def isspace_def)
  have "parseCpuTimes ''cpu 1 2 3 4'' = Inr \<lparr>ct_totalTicks = 10, ct_idleTicks = 4\<rparr>"
    by (simp add: parseCpuTimes_def Let_def t c checkedAdd_def)
  from parseCpuTimes_exact [OF this] show ?thesis by auto
qed

text \<open>
  Arguments and socket links are read back exactly: the argument vector of a process survives
  the NUL-terminated encoding, empty arguments included, and a descriptor link names a socket exactly
  when it is the kernel's text for some inode, which is then the inode returned.
\<close>

theorem cmdline_and_socket_link_roundtrip:
  assumes "\<forall>a \<in> set args. NUL \<notin> set a"
  shows "parseCmdline (concat (map (\<lambda>a. a @ [NUL]) args)) = args \<and>
    (parseSocketFdTarget target = Inr (Some i) \<longleftrightarrow>
      (\<exists>ds. target = ''socket:['' @ ds @ '']'' \<and> ds \<noteq> [] \<and> (\<forall>c \<in> set ds. isdigit c) \<and>
        digits_value ds = unat i))"
proof (intro conjI iffI)
  show "parseCmdline (concat (map (\<lambda>a. a @ [NUL]) args)) = args"
    unfolding parseCmdline_def using assms by (intro split_on_concat) blast
  assume "parseSocketFdTarget target = Inr (Some i)"
  then show "\<exists>ds. target = ''socket:['' @ ds @ '']'' \<and> ds \<noteq> [] \<and> (\<forall>c \<in> set ds. isdigit c) \<and>
      digits_value ds = unat i"
    by (rule socket_link_sound)
next
  assume "\<exists>ds. target = ''socket:['' @ ds @ '']'' \<and> ds \<noteq> [] \<and> (\<forall>c \<in> set ds. isdigit c) \<and>
      digits_value ds = unat i"
  then show "parseSocketFdTarget target = Inr (Some i)"
    using socket_link_complete by blast
qed

theorem cmdline_and_socket_link_roundtrip_witness:
  "parseCmdline (concat (map (\<lambda>a. a @ [NUL]) [''ls'', [], ''-l''])) = [''ls'', [], ''-l'']"
  using cmdline_and_socket_link_roundtrip [of "[''ls'', [], ''-l'']"] by simp

end
