(* ===== verification/ProcFs.thy ===== *)
theory ProcFs
  imports Contracts ProcFsParsers
begin

text \<open>
  The adapters of \<open>src/linux/procfs\<close> over the operating system: reading \<open>/proc\<close>, the process
  provider, the resolver from socket inodes to the processes that hold them, the user name lookup and
  the system metrics provider.

  The operating system is a record of its calls over a world. A directory is listed as the names its
  iterator yields and the error, if any, that its last increment reports. The range-based loop of
  \<open>processIds\<close> throws on such an error; that run is not modelled, so there a listing is complete.
\<close>

section \<open>The operating system\<close>

type_synonym errno = int

abbreviation EPERM :: errno where "EPERM \<equiv> 1"
abbreviation ENOENT :: errno where "ENOENT \<equiv> 2"
abbreviation ESRCH :: errno where "ESRCH \<equiv> 3"
abbreviation EINTR :: errno where "EINTR \<equiv> 4"
abbreviation EIO :: errno where "EIO \<equiv> 5"
abbreviation EACCES :: errno where "EACCES \<equiv> 13"
abbreviation ERANGE :: errno where "ERANGE \<equiv> 34"
abbreviation ETIMEDOUT :: errno where "ETIMEDOUT \<equiv> 110"

text \<open>What opening and reading a whole file through a stream can end in; a read that fails leaves what
  was read before, and the errno may be 0.\<close>

datatype file_read = OpenFailed errno | ReadFailed errno string | ReadOk string

record 'w OS =
  os_read :: "string \<Rightarrow> ('w, file_read) io"
  os_readlink :: "string \<Rightarrow> ('w, errno + string) io"
  os_directory :: "string \<Rightarrow> ('w, errno + (string list \<times> errno option)) io"
  os_getpwuid :: "u32 \<Rightarrow> nat \<Rightarrow> ('w, errno \<times> string option) io"
  os_getpwSize :: int
  os_gethostname :: "('w, errno + string) io"
  os_strerror :: "errno \<Rightarrow> string"

definition path_join :: "string \<Rightarrow> string \<Rightarrow> string" where
  "path_join a b = (if a = [] \<or> last a = CHR ''/'' then a @ b else a @ ''/'' @ b)"

section \<open>Reading /proc\<close>

definition procfs_makeError :: "'w OS \<Rightarrow> errno \<Rightarrow> string \<Rightarrow> Error" where
  "procfs_makeError OS number operation =
     mkError (if number = ENOENT \<or> number = ESRCH then NotFound
              else if number = EACCES \<or> number = EPERM then PermissionDenied else IoError)
       (''Unable to '' @ operation @ '': '' @ os_strerror OS number) number ''procfs'' operation"

record ProcFsReader =
  rd_root :: string

definition pathFor :: "ProcFsReader \<Rightarrow> pid \<Rightarrow> string \<Rightarrow> string" where
  "pathFor R pid name = path_join (path_join (rd_root R) (int_str pid)) name"

definition errnoOrEIO :: "errno \<Rightarrow> errno" where
  "errnoOrEIO n = (if n = 0 then EIO else n)"

definition ProcFsReader_readFile :: "'w OS \<Rightarrow> ProcFsReader \<Rightarrow> pid \<Rightarrow> string \<Rightarrow> ('w, string result) io" where
  "ProcFsReader_readFile OS R pid name = do {
     r \<leftarrow> os_read OS (pathFor R pid name);
     return (case r of
       OpenFailed n \<Rightarrow> failure (procfs_makeError OS (errnoOrEIO n) (''read '' @ name))
     | ReadFailed n _ \<Rightarrow> failure (procfs_makeError OS (errnoOrEIO n) (''read '' @ name))
     | ReadOk contents \<Rightarrow> success contents)
   }"

definition ProcFsReader_readLink :: "'w OS \<Rightarrow> ProcFsReader \<Rightarrow> pid \<Rightarrow> string \<Rightarrow> ('w, string result) io" where
  "ProcFsReader_readLink OS R pid name = do {
     r \<leftarrow> os_readlink OS (pathFor R pid name);
     return (case r of
       Inl n \<Rightarrow> failure (procfs_makeError OS n (''readlink '' @ name))
     | Inr target \<Rightarrow> success target)
   }"

text \<open>A directory name that is a process id.\<close>

definition pidOfName :: "string \<Rightarrow> pid option" where
  "pidOfName name =
     (let parsed = from_chars_unsigned (2 ^ 64 - 1) name;
          v = fc_value_or 0 parsed in
      if \<not> consumed_all parsed name \<or> v = 0 \<or> pid_max < int v then None else Some (int v))"

definition ProcFsReader_processIds :: "'w OS \<Rightarrow> ProcFsReader \<Rightarrow> ('w, pid list result) io" where
  "ProcFsReader_processIds OS R = do {
     r \<leftarrow> os_directory OS (rd_root R);
     return (case r of
       Inl n \<Rightarrow> failure (procfs_makeError OS n ''enumerate processes'')
     | Inr (names, _) \<Rightarrow> success (sort (List.map_filter pidOfName names)))
   }"

section \<open>User names\<close>

text \<open>The buffer doubles, from a positive size, until the entry fits or the limit is passed.\<close>

function passwdLoop :: "'w OS \<Rightarrow> u32 \<Rightarrow> nat \<Rightarrow> ('w, string result) io" where
  "passwdLoop OS uid bytes =
     (if 0 < bytes \<and> bytes \<le> 1024 * 1024
      then do {
        (status, found) \<leftarrow> os_getpwuid OS uid bytes;
        if status = 0
        then return (case found of
               Some name \<Rightarrow> success name
             | None \<Rightarrow> failure (mkError NotFound ''No passwd entry for UID'' 0
                                ''passwd-user-resolver'' ''resolve uid''))
        else if status \<noteq> ERANGE
        then return (failure (mkError IoError ''Unable to resolve UID'' status
                       ''passwd-user-resolver'' ''resolve uid''))
        else passwdLoop OS uid (bytes * 2)
      }
      else return (failure (mkError OperationFailed ''Passwd entry exceeds safety limit'' ERANGE
                     ''passwd-user-resolver'' ''resolve uid'')))"
  by pat_completeness auto
termination
  by (relation "measure (\<lambda>(_, _, bytes). 2 * 1024 * 1024 - bytes)") auto

declare passwdLoop.simps [simp del]

definition PasswdUserResolver_nameForUid :: "'w OS \<Rightarrow> u32 \<Rightarrow> ('w, string result) io" where
  "PasswdUserResolver_nameForUid OS uid =
     passwdLoop OS uid (if 0 < os_getpwSize OS then nat (os_getpwSize OS) else 1024)"

section \<open>The process provider\<close>

definition stateName :: "char \<Rightarrow> string" where
  "stateName c =
     (if c = CHR ''R'' then ''running''
      else if c = CHR ''S'' then ''sleeping''
      else if c = CHR ''D'' then ''disk sleep''
      else if c = CHR ''Z'' then ''zombie''
      else if c = CHR ''T'' then ''stopped''
      else if c = CHR ''t'' then ''tracing stop''
      else if c = CHR ''X'' \<or> c = CHR ''x'' then ''dead''
      else if c = CHR ''I'' then ''idle''
      else [c])"

text \<open>The optional details: each is filled in or becomes a warning.\<close>

definition withUser :: "string result \<Rightarrow> ProcessInfo Observation \<Rightarrow> ProcessInfo Observation" where
  "withUser user ob =
     (case user of
        Inr name \<Rightarrow> ob\<lparr>ob_value := (ob_value ob)\<lparr>pi_user := name\<rparr>\<rparr>
      | Inl e \<Rightarrow> \<lparr>ob_value = (ob_value ob)\<lparr>pi_user := nat_str (unat (pi_uid (ob_value ob)))\<rparr>,
                  ob_warnings = ob_warnings ob @ [warningFrom e]\<rparr>)"

definition withDetail ::
  "(string \<Rightarrow> ProcessInfo \<Rightarrow> ProcessInfo) \<Rightarrow> string result \<Rightarrow> ProcessInfo Observation \<Rightarrow>
   ProcessInfo Observation" where
  "withDetail set_detail detail ob =
     (case detail of
        Inr text \<Rightarrow> ob\<lparr>ob_value := set_detail text (ob_value ob)\<rparr>
      | Inl e \<Rightarrow> ob\<lparr>ob_warnings := ob_warnings ob @ [warningFrom e]\<rparr>)"

definition processInfoOf :: "pid \<Rightarrow> StatRecord \<Rightarrow> StatusRecord \<Rightarrow> ProcessInfo" where
  "processInfoOf pid stat status =
     default_ProcessInfo\<lparr>pi_pid := pid, pi_ppid := st_ppid stat, pi_name := st_name stat,
       pi_state := stateName (st_state stat), pi_uid := su_uid status, pi_gid := su_gid status,
       pi_threads := su_threads status, pi_rssBytes := su_rssBytes status\<rparr>"

definition ProcFsProcessProvider_get ::
  "'w OS \<Rightarrow> ProcFsReader \<Rightarrow> pid \<Rightarrow> ('w, ProcessInfo Observation result) io" where
  "ProcFsProcessProvider_get OS R pid = do {
     statText \<leftarrow> ProcFsReader_readFile OS R pid ''stat'';
     case statText of
       Inl e \<Rightarrow> return (failure e)
     | Inr text1 \<Rightarrow>
          (case parseStat text1 of
             Inl e \<Rightarrow> return (failure e)
           | Inr stat \<Rightarrow>
               (if st_pid stat \<noteq> pid
                then return (failure (mkError ParseError ''Process stat PID does not match request'' 0
                               ''procfs-process-provider'' ''get''))
                else do {
                  statusText \<leftarrow> ProcFsReader_readFile OS R pid ''status'';
                  case statusText of
                    Inl e \<Rightarrow> return (failure e)
                  | Inr text2 \<Rightarrow>
                      (case parseStatus text2 of
                         Inl e \<Rightarrow> return (failure e)
                       | Inr status \<Rightarrow> do {
                           let info = processInfoOf pid stat status;
                           user \<leftarrow> PasswdUserResolver_nameForUid OS (pi_uid info);
                           cmdline \<leftarrow> ProcFsReader_readFile OS R pid ''cmdline'';
                           executable \<leftarrow> ProcFsReader_readLink OS R pid ''exe'';
                           cwd \<leftarrow> ProcFsReader_readLink OS R pid ''cwd'';
                           return (success
                             (withDetail (\<lambda>t i. i\<lparr>pi_cwd := Some t\<rparr>) cwd
                               (withDetail (\<lambda>t i. i\<lparr>pi_executable := Some t\<rparr>) executable
                                 (withDetail (\<lambda>t i. i\<lparr>pi_argv := parseCmdline t\<rparr>) cmdline
                                   (withUser user \<lparr>ob_value = info, ob_warnings = []\<rparr>)))))
                         })
                }))
   }"

text \<open>The counters of \<open>list\<close>: permission, disappeared, other details.\<close>

definition countWarning :: "ErrorCode \<Rightarrow> nat \<times> nat \<times> nat \<Rightarrow> nat \<times> nat \<times> nat" where
  "countWarning code counts =
     (case counts of (p, d, x) \<Rightarrow>
        if code = PermissionDenied then (p + 1, d, x)
        else if code = NotFound then (p, d + 1, x)
        else (p, d, x + 1))"

fun listProcesses :: "'w OS \<Rightarrow> ProcFsReader \<Rightarrow> pid list \<Rightarrow> ProcessInfo list \<Rightarrow> nat \<times> nat \<times> nat \<Rightarrow>
    ('w, ProcessInfo list \<times> (nat \<times> nat \<times> nat)) io" where
  "listProcesses OS R [] found counts = return (found, counts)"
| "listProcesses OS R (pid # rest) found counts = do {
     process \<leftarrow> ProcFsProcessProvider_get OS R pid;
     case process of
       Inl e \<Rightarrow> listProcesses OS R rest found (countWarning (er_code e) counts)
     | Inr ob \<Rightarrow> listProcesses OS R rest (found @ [ob_value ob])
         (fold (\<lambda>w. countWarning (wn_code w)) (ob_warnings ob) counts)
   }"

definition countedWarnings :: "nat \<times> nat \<times> nat \<Rightarrow> Warning list" where
  "countedWarnings counts =
     (case counts of (p, d, x) \<Rightarrow>
        (if p \<noteq> 0 then [mkWarning PermissionDenied
             (nat_str p @ '' process details could not be read because of permissions'') 0
             ''procfs-process-provider'' ''list''] else []) @
        (if d \<noteq> 0 then [mkWarning NotFound
             (nat_str d @ '' process details disappeared during enumeration'') 0
             ''procfs-process-provider'' ''list''] else []) @
        (if x \<noteq> 0 then [mkWarning IoError
             (nat_str x @ '' optional process details were unavailable'') 0
             ''procfs-process-provider'' ''list''] else []))"

definition ProcFsProcessProvider_list ::
  "'w OS \<Rightarrow> ProcFsReader \<Rightarrow> ('w, ProcessInfo list Observation result) io" where
  "ProcFsProcessProvider_list OS R = do {
     ids \<leftarrow> ProcFsReader_processIds OS R;
     case ids of
       Inl e \<Rightarrow> return (failure e)
     | Inr pids \<Rightarrow> do {
         (found, counts) \<leftarrow> listProcesses OS R pids [] (0, 0, 0);
         return (success \<lparr>ob_value = found, ob_warnings = countedWarnings counts\<rparr>)
       }
   }"

fun sampleProcesses :: "'w OS \<Rightarrow> ProcFsReader \<Rightarrow> pid list \<Rightarrow> ProcessCpuSample list \<Rightarrow>
    ('w, ProcessCpuSample list) io" where
  "sampleProcesses OS R [] samples = return samples"
| "sampleProcesses OS R (pid # rest) samples = do {
     text0 \<leftarrow> ProcFsReader_readFile OS R pid ''stat'';
     case text0 of
       Inl _ \<Rightarrow> sampleProcesses OS R rest samples
     | Inr contents \<Rightarrow>
         (case parseProcessCpuStat contents of
            Inl _ \<Rightarrow> sampleProcesses OS R rest samples
          | Inr sample \<Rightarrow>
              (if pc_pid sample = pid then sampleProcesses OS R rest (samples @ [sample])
               else sampleProcesses OS R rest samples))
   }"

definition ProcFsProcessProvider_sample ::
  "'w OS \<Rightarrow> ProcFsReader \<Rightarrow> ('w, ProcessCpuSample list result) io" where
  "ProcFsProcessProvider_sample OS R = do {
     ids \<leftarrow> ProcFsReader_processIds OS R;
     case ids of
       Inl e \<Rightarrow> return (failure e)
     | Inr pids \<Rightarrow> do {
         samples \<leftarrow> sampleProcesses OS R pids [];
         return (success samples)
       }
   }"

definition ProcFsProcessProvider :: "'w OS \<Rightarrow> ProcFsReader \<Rightarrow> 'w IProcessProvider" where
  "ProcFsProcessProvider OS R =
     \<lparr>pp_get = ProcFsProcessProvider_get OS R, pp_list = ProcFsProcessProvider_list OS R\<rparr>"

section \<open>System metrics\<close>

text \<open>\<open>std::from_chars\<close> on \<open>double\<close>, with the value read or \<open>None\<close> where it is infinite or not a number;
  its grammar and rounding are the library's, so it is a parameter, as is the rounding of products.\<close>

record double_parse =
  dp_ec :: errc
  dp_ptr :: nat
  dp_value :: "real option"

definition parseUptime :: "(string \<Rightarrow> double_parse) \<Rightarrow> (real \<Rightarrow> real) \<Rightarrow> string \<Rightarrow> int result" where
  "parseUptime fromChars rnd contents =
     (let token = takeWhile (\<lambda>c. \<not> field_blank c) contents;
          parsed = fromChars token in
      if token = [] \<or> dp_ec parsed \<noteq> ErrcOk \<or> dp_ptr parsed \<noteq> length token
      then metrics_failure ''Invalid uptime in /proc/uptime''
      else
        (case dp_value parsed of
           None \<Rightarrow> metrics_failure ''Invalid uptime in /proc/uptime''
         | Some seconds \<Rightarrow>
             (if seconds < 0 \<or> rnd (rnd (2 ^ 63 - 1) / 1000) < seconds
              then metrics_failure ''Invalid uptime in /proc/uptime''
              else success (\<lfloor>rnd (seconds * 1000)\<rfloor>))))"

definition metrics_readFile :: "'w OS \<Rightarrow> string \<Rightarrow> ('w, string result) io" where
  "metrics_readFile OS path = do {
     r \<leftarrow> os_read OS path;
     return (case r of
       OpenFailed n \<Rightarrow> failure (mkError IoError
         (''Unable to read '' @ path @ '': '' @ os_strerror OS (errnoOrEIO n)) (errnoOrEIO n)
         ''procfs-metrics'' ''sample'')
     | ReadFailed _ partial \<Rightarrow> success partial
     | ReadOk contents \<Rightarrow> success contents)
   }"

text \<open>The results are looked at in the order stat, meminfo, uptime, after all three were read.\<close>

definition sampleFrom :: "(string \<Rightarrow> double_parse) \<Rightarrow> (real \<Rightarrow> real) \<Rightarrow> string \<Rightarrow> string \<Rightarrow> string \<Rightarrow>
    SystemMetricsSample result" where
  "sampleFrom fromChars rnd stat memory uptime =
     (case parseCpuTimes stat of
        Inl e \<Rightarrow> failure e
      | Inr cpu \<Rightarrow>
          (case parseMemoryInfo memory of
             Inl e \<Rightarrow> failure e
           | Inr mem \<Rightarrow>
               (case parseUptime fromChars rnd uptime of
                  Inl e \<Rightarrow> failure e
                | Inr up \<Rightarrow> success
                    \<lparr>sm_cpu = cpu, sm_memoryTotalBytes = mr_totalBytes mem,
                     sm_memoryAvailableBytes = mr_availableBytes mem, sm_uptime = up,
                     sm_logicalCpuCount = countLogicalCpus stat, sm_hostname = []\<rparr>)))"

definition ProcFsSystemMetricsProvider_sample ::
  "(string \<Rightarrow> double_parse) \<Rightarrow> (real \<Rightarrow> real) \<Rightarrow> 'w OS \<Rightarrow> string \<Rightarrow> ('w, SystemMetricsSample result) io" where
  "ProcFsSystemMetricsProvider_sample fromChars rnd OS proot = do {
     stat \<leftarrow> metrics_readFile OS (path_join proot ''stat'');
     memory \<leftarrow> metrics_readFile OS (path_join proot ''meminfo'');
     uptime \<leftarrow> metrics_readFile OS (path_join proot ''uptime'');
     case (stat, memory, uptime) of
       (Inl e, _, _) \<Rightarrow> return (failure e)
     | (Inr _, Inl e, _) \<Rightarrow> return (failure e)
     | (Inr _, Inr _, Inl e) \<Rightarrow> return (failure e)
     | (Inr s, Inr m, Inr u) \<Rightarrow>
         (case sampleFrom fromChars rnd s m u of
            Inl e \<Rightarrow> return (failure e)
          | Inr sample \<Rightarrow> do {
              hostname \<leftarrow> os_gethostname OS;
              return (case hostname of
                Inl n \<Rightarrow> failure (mkError IoError (''Unable to read hostname: '' @ os_strerror OS n) n
                            ''procfs-metrics'' ''sample'')
              | Inr name \<Rightarrow> success (sample\<lparr>sm_hostname := name\<rparr>))
            })
   }"

section \<open>Socket owners\<close>

definition resolver_errorCode :: "errno \<Rightarrow> ErrorCode" where
  "resolver_errorCode n =
     (if n = EACCES \<or> n = EPERM then PermissionDenied
      else if n = ENOENT \<or> n = ESRCH then NotFound else IoError)"

definition resolver_makeError :: "'w OS \<Rightarrow> errno \<Rightarrow> string \<Rightarrow> Error" where
  "resolver_makeError OS n operation =
     mkError (resolver_errorCode n) (''Unable to '' @ operation @ '': '' @ os_strerror OS n) n
       ''socket-inode-resolver'' operation"

definition disappeared :: "errno \<Rightarrow> bool" where
  "disappeared n \<longleftrightarrow> n = ENOENT \<or> n = ESRCH"

definition denied :: "errno \<Rightarrow> bool" where
  "denied n \<longleftrightarrow> n = EACCES \<or> n = EPERM"

text \<open>The variables of the scan: the owners found so far, in the order found, and the two counters.\<close>

record OwnerScan =
  ow_ownership :: SocketOwnership
  ow_denied :: nat
  ow_unreadable :: nat

definition noteError :: "errno \<Rightarrow> OwnerScan \<Rightarrow> OwnerScan" where
  "noteError n s =
     (if denied n then s\<lparr>ow_denied := ow_denied s + 1\<rparr>
      else if \<not> disappeared n then s\<lparr>ow_unreadable := ow_unreadable s + 1\<rparr>
      else s)"

text \<open>The iterator is advanced past an entry before the entry is looked at; only the advance past the
  last entry can fail.\<close>

definition noteAdvance :: "string list \<Rightarrow> errno option \<Rightarrow> OwnerScan \<Rightarrow> OwnerScan" where
  "noteAdvance rest trailing s =
     (case (rest, trailing) of ([], Some n) \<Rightarrow> noteError n s | _ \<Rightarrow> s)"

definition addOwner :: "u64 \<Rightarrow> pid \<Rightarrow> OwnerScan \<Rightarrow> OwnerScan" where
  "addOwner inode pid s =
     s\<lparr>ow_ownership := (ow_ownership s)(inode \<mapsto>
        (case ow_ownership s inode of None \<Rightarrow> [pid] | Some owners \<Rightarrow> owners @ [pid]))\<rparr>"

fun scanDescriptors :: "'w OS \<Rightarrow> u64 list \<Rightarrow> pid \<Rightarrow> string \<Rightarrow> errno option \<Rightarrow> string list \<Rightarrow>
    OwnerScan \<Rightarrow> ('w, OwnerScan) io" where
  "scanDescriptors OS targets pid dir trailing [] s = return s"
| "scanDescriptors OS targets pid dir trailing (descriptor # rest) s0 = do {
     let s = noteAdvance rest trailing s0;
     target \<leftarrow> os_readlink OS (path_join dir descriptor);
     scanDescriptors OS targets pid dir trailing rest
       (case target of
          Inl n \<Rightarrow> noteError n s
        | Inr link \<Rightarrow>
            (case parseSocketFdTarget link of
               Inr (Some inode) \<Rightarrow> if inode \<in> set targets then addOwner inode pid s else s
             | _ \<Rightarrow> s))
   }"

fun scanProcesses :: "'w OS \<Rightarrow> u64 list \<Rightarrow> string \<Rightarrow> errno option \<Rightarrow> string list \<Rightarrow> OwnerScan \<Rightarrow>
    ('w, OwnerScan) io" where
  "scanProcesses OS targets proot trailing [] s = return s"
| "scanProcesses OS targets proot trailing (process # rest) s0 = do {
     let s = noteAdvance rest trailing s0;
     case pidOfName process of
       None \<Rightarrow> scanProcesses OS targets proot trailing rest s
     | Some pid \<Rightarrow> do {
         let dir = path_join (path_join proot process) ''fd'';
         descriptors \<leftarrow> os_directory OS dir;
         case descriptors of
           Inl n \<Rightarrow> scanProcesses OS targets proot trailing rest (noteError n s)
         | Inr (names, trailing') \<Rightarrow> do {
             s' \<leftarrow> scanDescriptors OS targets pid dir trailing' names s;
             scanProcesses OS targets proot trailing rest s'
           }
       }
   }"

definition scanWarnings :: "OwnerScan \<Rightarrow> Warning list" where
  "scanWarnings s =
     (if ow_denied s \<noteq> 0 then [mkWarning PermissionDenied
        (nat_str (ow_denied s) @ '' procfs entries could not be inspected because of permissions'') 0
        ''socket-inode-resolver'' ''resolve''] else []) @
     (if ow_unreadable s \<noteq> 0 then [mkWarning IoError
        (nat_str (ow_unreadable s) @ '' procfs entries could not be inspected'') 0
        ''socket-inode-resolver'' ''resolve''] else [])"

definition SocketInodeResolver_resolve ::
  "'w OS \<Rightarrow> string \<Rightarrow> u64 list \<Rightarrow> ('w, SocketOwnership Observation result) io" where
  "SocketInodeResolver_resolve OS proot inodes =
     (let targets = filter (\<lambda>i. i \<noteq> 0) inodes in
      if targets = [] then return (success \<lparr>ob_value = Map.empty, ob_warnings = []\<rparr>)
      else do {
        processes \<leftarrow> os_directory OS proot;
        case processes of
          Inl n \<Rightarrow> return (failure (resolver_makeError OS n ''enumerate procfs root''))
        | Inr (names, trailing) \<Rightarrow> do {
            s \<leftarrow> scanProcesses OS targets proot trailing names
              \<lparr>ow_ownership = Map.empty, ow_denied = 0, ow_unreadable = 0\<rparr>;
            return (success
              \<lparr>ob_value = (\<lambda>inode. map_option (\<lambda>owners. std_unique (sort owners)) (ow_ownership s inode)),
               ob_warnings = scanWarnings s\<rparr>)
          }
      })"

definition SocketInodeResolver :: "'w OS \<Rightarrow> string \<Rightarrow> 'w ISocketOwnerResolver" where
  "SocketInodeResolver OS proot = \<lparr>or_resolve = SocketInodeResolver_resolve OS proot\<rparr>"

section \<open>The contracts of the providers\<close>

lemma withDetails_pid [simp]:
  "pi_pid (ob_value (withUser u ob)) = pi_pid (ob_value ob)"
  "pi_pid (ob_value (withDetail (\<lambda>t i. i\<lparr>pi_cwd := Some t\<rparr>) d ob)) = pi_pid (ob_value ob)"
  "pi_pid (ob_value (withDetail (\<lambda>t i. i\<lparr>pi_executable := Some t\<rparr>) d ob)) = pi_pid (ob_value ob)"
  "pi_pid (ob_value (withDetail (\<lambda>t i. i\<lparr>pi_argv := parseCmdline t\<rparr>) d ob)) = pi_pid (ob_value ob)"
  by (simp_all add: withUser_def withDetail_def split: sum.split)

lemma ProcFsProcessProvider_get_pid:
  "result_of (ProcFsProcessProvider_get OS R p) w = Inr ob \<Longrightarrow> pi_pid (ob_value ob) = p"
  by (auto simp: ProcFsProcessProvider_get_def processInfoOf_def Let_def
      split: sum.split_asm if_split_asm)

interpretation procfs: process_provider "ProcFsProcessProvider OS R" for OS :: "'w OS" and R
  by unfold_locales (simp add: ProcFsProcessProvider_def ProcFsProcessProvider_get_pid)

text \<open>The scan adds owners only to inodes that are looked for, and an inode in the map has one.\<close>

definition scan_ok :: "u64 list \<Rightarrow> OwnerScan \<Rightarrow> bool" where
  "scan_ok targets s \<longleftrightarrow> (\<forall>i owners. ow_ownership s i = Some owners \<longrightarrow> i \<in> set targets \<and> owners \<noteq> [])"

lemma ow_ownership_note [simp]:
  "ow_ownership (noteError n s) = ow_ownership s"
  "ow_ownership (noteAdvance r t s) = ow_ownership s"
  by (simp_all add: noteError_def noteAdvance_def split: list.split option.split)

lemma scan_ok_note [simp]:
  "scan_ok ts (noteError n s) = scan_ok ts s" "scan_ok ts (noteAdvance r t s) = scan_ok ts s"
  by (simp_all add: scan_ok_def)

lemma scan_ok_addOwner: "scan_ok ts s \<Longrightarrow> i \<in> set ts \<Longrightarrow> scan_ok ts (addOwner i p s)"
  by (auto simp: scan_ok_def addOwner_def split: option.split)

lemma scan_ok_descriptors:
  "scan_ok ts s \<Longrightarrow> scan_ok ts (result_of (scanDescriptors OS ts p dir tr ds s) w)"
proof (induction ds arbitrary: s w)
  case (Cons d ds)
  then show ?case
    by (auto simp: Let_def intro!: Cons.IH scan_ok_addOwner split: sum.split option.split)
qed simp

lemma scan_ok_processes:
  "scan_ok ts s \<Longrightarrow> scan_ok ts (result_of (scanProcesses OS ts proot tr ps s) w)"
proof (induction ps arbitrary: s w)
  case (Cons p ps)
  then show ?case
    by (auto simp: Let_def intro!: Cons.IH scan_ok_descriptors split: sum.split option.split)
qed simp

lemma resolve_result:
  assumes "result_of (SocketInodeResolver_resolve OS proot ns) w = Inr ob"
  obtains s where "scan_ok (filter (\<lambda>i. i \<noteq> 0) ns) s"
    "ob_value ob = (\<lambda>i. map_option (\<lambda>owners. std_unique (sort owners)) (ow_ownership s i))"
proof (cases "filter (\<lambda>i. i \<noteq> 0) ns = []")
  case True
  with assms that [of "\<lparr>ow_ownership = Map.empty, ow_denied = 0, ow_unreadable = 0\<rparr>"] show thesis
    by (auto simp: SocketInodeResolver_resolve_def scan_ok_def)
next
  case False
  obtain names tr where dir: "result_of (os_directory OS proot) w = Inr (names, tr)"
    using assms False
    by (cases "result_of (os_directory OS proot) w") (auto simp: SocketInodeResolver_resolve_def Let_def)
  let ?s = "result_of (scanProcesses OS (filter (\<lambda>i. i \<noteq> 0) ns) proot tr names
      \<lparr>ow_ownership = Map.empty, ow_denied = 0, ow_unreadable = 0\<rparr>) (world_after (os_directory OS proot) w)"
  show thesis
  proof (rule that [of ?s])
    show "scan_ok (filter (\<lambda>i. i \<noteq> 0) ns) ?s" by (rule scan_ok_processes) (simp add: scan_ok_def)
    show "ob_value ob = (\<lambda>i. map_option (\<lambda>owners. std_unique (sort owners)) (ow_ownership ?s i))"
      using assms dir False by (auto simp: SocketInodeResolver_resolve_def Let_def)
  qed
qed

interpretation inodes: owner_resolver "SocketInodeResolver OS proot" for OS :: "'w OS" and proot
proof
  fix ns w ob i ps
  assume run: "result_of (or_resolve (SocketInodeResolver OS proot) ns) w = Inr ob"
  then obtain s where s: "scan_ok (filter (\<lambda>i. i \<noteq> 0) ns) s"
      "ob_value ob = (\<lambda>i. map_option (\<lambda>owners. std_unique (sort owners)) (ow_ownership s i))"
    by (auto simp: SocketInodeResolver_def elim: resolve_result)
  show "dom (ob_value ob) \<subseteq> set ns"
    using s by (auto simp: scan_ok_def)
  assume "ob_value ob i = Some ps"
  then obtain owners where o: "ow_ownership s i = Some owners" "ps = std_unique (sort owners)"
    using s(2) by auto
  then have "owners \<noteq> []" using s(1) by (auto simp: scan_ok_def)
  then show "ps \<noteq> [] \<and> sorted ps \<and> distinct ps" using o(2) by auto
qed

section \<open>What the scan finds\<close>

text \<open>An operating system whose links and directories do not change while they are read.\<close>

definition frozen :: "'w OS \<Rightarrow> bool" where
  "frozen OS \<longleftrightarrow> (\<forall>path w. world_after (os_readlink OS path) w = w \<and> world_after (os_directory OS path) w = w)"

lemma frozenD [simp]:
  assumes "frozen OS"
  shows "world_after (os_readlink OS path) w = w" "world_after (os_directory OS path) w = w"
  using assms by (auto simp: frozen_def)

text \<open>The processes with a descriptor that links to a socket, read off the directories.\<close>

definition links_to :: "'w OS \<Rightarrow> 'w \<Rightarrow> string \<Rightarrow> u64 \<Rightarrow> bool" where
  "links_to OS w path i \<longleftrightarrow>
     (\<exists>link. result_of (os_readlink OS path) w = Inr link \<and> parseSocketFdTarget link = Inr (Some i))"

definition process_holds :: "'w OS \<Rightarrow> 'w \<Rightarrow> string \<Rightarrow> string \<Rightarrow> pid \<Rightarrow> u64 \<Rightarrow> bool" where
  "process_holds OS w proot name p i \<longleftrightarrow> pidOfName name = Some p \<and>
     (\<exists>ds tr. result_of (os_directory OS (path_join (path_join proot name) ''fd'')) w = Inr (ds, tr) \<and>
        (\<exists>d \<in> set ds. links_to OS w (path_join (path_join (path_join proot name) ''fd'') d) i))"

definition holds_socket :: "'w OS \<Rightarrow> 'w \<Rightarrow> string \<Rightarrow> pid \<Rightarrow> u64 \<Rightarrow> bool" where
  "holds_socket OS w proot p i \<longleftrightarrow>
     (\<exists>names tr. result_of (os_directory OS proot) w = Inr (names, tr) \<and>
        (\<exists>name \<in> set names. process_holds OS w proot name p i))"

definition owners_in :: "OwnerScan \<Rightarrow> u64 \<Rightarrow> pid set" where
  "owners_in s i = (case ow_ownership s i of None \<Rightarrow> {} | Some ps \<Rightarrow> set ps)"

lemma owners_in_note [simp]:
  "owners_in (noteError n s) i = owners_in s i" "owners_in (noteAdvance r t s) i = owners_in s i"
  by (simp_all add: owners_in_def)

lemma owners_in_add [simp]:
  "owners_in (addOwner j p s) i = (if i = j then insert p (owners_in s i) else owners_in s i)"
  by (auto simp: owners_in_def addOwner_def split: option.split)

lemma scanDescriptors_world:
  "frozen OS \<Longrightarrow> world_after (scanDescriptors OS ts p dir tr ds s) w = w"
  by (induction ds arbitrary: s) (simp_all add: Let_def)

lemma scanDescriptors_owners:
  assumes "frozen OS"
  shows "owners_in (result_of (scanDescriptors OS ts p dir tr ds s) w) i =
    owners_in s i \<union> (if i \<in> set ts \<and> (\<exists>d \<in> set ds. links_to OS w (path_join dir d) i) then {p} else {})"
proof (induction ds arbitrary: s)
  case (Cons d ds)
  let ?s0 = "noteAdvance ds tr s"
  let ?s1 = "case result_of (os_readlink OS (path_join dir d)) w of
      Inl n \<Rightarrow> noteError n ?s0
    | Inr link \<Rightarrow> (case parseSocketFdTarget link of
        Inr (Some inode) \<Rightarrow> if inode \<in> set ts then addOwner inode p ?s0 else ?s0 | _ \<Rightarrow> ?s0)"
  have "owners_in ?s1 i = owners_in s i \<union> (if i \<in> set ts \<and> links_to OS w (path_join dir d) i then {p} else {})"
    by (auto simp: links_to_def split: sum.split option.split)
  then show ?case using Cons.IH [of ?s1] assms by (auto simp: Let_def)
qed simp

lemma scanProcesses_owners:
  assumes "frozen OS"
  shows "owners_in (result_of (scanProcesses OS ts proot tr names s) w) i =
    owners_in s i \<union> {p. i \<in> set ts \<and> (\<exists>name \<in> set names. process_holds OS w proot name p i)}"
proof (induction names arbitrary: s)
  case (Cons name names)
  let ?dir = "path_join (path_join proot name) ''fd''"
  show ?case
  proof (cases "pidOfName name")
    case None
    then show ?thesis using Cons.IH by (simp add: Let_def process_holds_def)
  next
    case (Some p)
    show ?thesis
    proof (cases "result_of (os_directory OS ?dir) w")
      case (Inl n)
      then show ?thesis using Some assms Cons.IH by (simp add: Let_def process_holds_def)
    next
      case (Inr found)
      obtain ds tr' where found: "found = (ds, tr')" by (cases found)
      have "process_holds OS w proot name q i \<longleftrightarrow>
          q = p \<and> (\<exists>d \<in> set ds. links_to OS w (path_join ?dir d) i)" for q
        using Some Inr found by (auto simp: process_holds_def)
      then show ?thesis
        using Some Inr found assms Cons.IH
        by (auto simp: Let_def scanDescriptors_world scanDescriptors_owners)
    qed
  qed
qed simp

text \<open>What the listing loop collects.\<close>

lemma listProcesses_found:
  assumes "result_of (listProcesses OS R ids found counts) w = (found', counts')"
  shows "\<exists>new. found' = found @ new \<and> subseq (map pi_pid new) ids \<and>
    (\<forall>info \<in> set new. \<exists>w' got.
       result_of (ProcFsProcessProvider_get OS R (pi_pid info)) w' = Inr got \<and> ob_value got = info)"
  using assms
proof (induction ids arbitrary: found counts w)
  case Nil
  then show ?case by simp
next
  case (Cons p ids)
  show ?case
  proof (cases "result_of (ProcFsProcessProvider_get OS R p) w")
    case (Inl e)
    then show ?thesis using Cons.prems Cons.IH by fastforce
  next
    case (Inr got)
    have pid: "pi_pid (ob_value got) = p" using ProcFsProcessProvider_get_pid [OF Inr] .
    obtain new where new: "found' = (found @ [ob_value got]) @ new" "subseq (map pi_pid new) ids"
        "\<forall>info \<in> set new. \<exists>w' got.
           result_of (ProcFsProcessProvider_get OS R (pi_pid info)) w' = Inr got \<and> ob_value got = info"
      using Cons.prems Cons.IH Inr by fastforce
    then show ?thesis
      using Inr pid by (intro exI [of _ "ob_value got # new"]) auto
  qed
qed

lemma sorted_subseq: "subseq xs ys \<Longrightarrow> sorted ys \<Longrightarrow> sorted (xs :: int list)"
  by (induction rule: list_emb.induct) (auto dest: list_emb_set)

section \<open>Properties\<close>

text \<open>
  C19. Socket owners are exactly the holders: while \<open>/proc\<close> does not change, a process is reported as an
  owner of an inode precisely if the inode was asked for, is not zero, and one of the process's
  descriptors links to that socket; each inode in the answer lists its owners once, in order.
\<close>

theorem SocketInodeResolver_exact:
  assumes "frozen OS" and "result_of (SocketInodeResolver_resolve OS proot inodes) w = Inr ob"
  shows "((\<exists>owners. ob_value ob i = Some owners \<and> p \<in> set owners) \<longleftrightarrow>
      i \<in> set inodes \<and> i \<noteq> 0 \<and> holds_socket OS w proot p i) \<and>
    (\<forall>owners. ob_value ob i = Some owners \<longrightarrow> owners \<noteq> [] \<and> sorted owners \<and> distinct owners)"
proof (intro conjI allI impI)
  fix owners
  assume "ob_value ob i = Some owners"
  then have "owners \<noteq> [] \<and> sorted owners \<and> distinct owners"
    using inodes.owners_sorted [of OS proot inodes w ob i owners] assms(2)
    by (simp add: SocketInodeResolver_def)
  then show "owners \<noteq> []" "sorted owners" "distinct owners" by blast+
next
  show "(\<exists>owners. ob_value ob i = Some owners \<and> p \<in> set owners) \<longleftrightarrow>
      i \<in> set inodes \<and> i \<noteq> 0 \<and> holds_socket OS w proot p i"
  proof (cases "filter (\<lambda>i. i \<noteq> 0) inodes = []")
    case True
    then show ?thesis
      using assms(2) by (auto simp: SocketInodeResolver_resolve_def filter_empty_conv)
  next
    case False
    let ?ts = "filter (\<lambda>i. i \<noteq> 0) inodes"
    let ?s0 = "\<lparr>ow_ownership = Map.empty, ow_denied = 0, ow_unreadable = 0\<rparr>"
    obtain names tr where dir: "result_of (os_directory OS proot) w = Inr (names, tr)"
      using assms(2) False
      by (cases "result_of (os_directory OS proot) w") (auto simp: SocketInodeResolver_resolve_def Let_def)
    have "ob_value ob = (\<lambda>i. map_option (\<lambda>owners. std_unique (sort owners))
        (ow_ownership (result_of (scanProcesses OS ?ts proot tr names ?s0) w) i))"
      using assms dir False by (auto simp: SocketInodeResolver_resolve_def Let_def)
    then have "(\<exists>owners. ob_value ob i = Some owners \<and> p \<in> set owners) \<longleftrightarrow>
        p \<in> owners_in (result_of (scanProcesses OS ?ts proot tr names ?s0) w) i"
      by (auto simp: owners_in_def split: option.split)
    moreover have "owners_in ?s0 i = {}" by (simp add: owners_in_def)
    ultimately show ?thesis
      using dir unfolding scanProcesses_owners [OF assms(1)] by (auto simp: holds_socket_def)
  qed
qed

text \<open>A machine with one process, whose only descriptor is a socket.\<close>

definition demo_OS :: "unit OS" where
  "demo_OS =
     \<lparr>os_read = (\<lambda>path. return (OpenFailed 2)),
      os_readlink = (\<lambda>path. return (if path = ''/proc/7/fd/3'' then Inr ''socket:[5]'' else Inl 2)),
      os_directory = (\<lambda>path. return (if path = ''/proc'' then Inr ([''7'', ''self''], None)
                                     else if path = ''/proc/7/fd'' then Inr ([''3''], None) else Inl 2)),
      os_getpwuid = (\<lambda>uid bytes. return (0, None)), os_getpwSize = 0,
      os_gethostname = return (Inr ''h''), os_strerror = (\<lambda>n. ''error'')\<rparr>"

theorem SocketInodeResolver_exact_witness:
  "holds_socket demo_OS () ''/proc'' 7 5"
proof -
  have frozen: "frozen demo_OS" by (simp add: frozen_def demo_OS_def)
  have "pidOfName ''7'' = Some 7" "pidOfName ''self'' = None"
    by (simp_all add: pidOfName_def consumed_all_def from_chars_unsigned_def isdigit_def Let_def
        digits_value_def fc_value_or_def pid_max_def)
  moreover have "parseSocketFdTarget ''socket:[5]'' = Inr (Some 5)"
    using socket_link_complete [of "''5''" 5] by (simp add: isdigit_def digits_value_def)
  ultimately have "result_of (SocketInodeResolver_resolve demo_OS ''/proc'' [5]) () =
      Inr \<lparr>ob_value = (\<lambda>i. if i = 5 then Some [7] else None), ob_warnings = []\<rparr>"
    by (auto simp: SocketInodeResolver_resolve_def demo_OS_def Let_def path_join_def noteAdvance_def
        addOwner_def scanWarnings_def fun_eq_iff)
  from SocketInodeResolver_exact [OF frozen this, of 5 7] show ?thesis by simp
qed

text \<open>
  A process listing is in increasing order of process ids, every process in it was read from
  its own directory (the id in its stat record is the id of the directory), and a process that cannot
  be read is left out and counted, never an error of the whole listing.
\<close>

theorem ProcFsProcessProvider_list_sorted:
  assumes "result_of (ProcFsReader_processIds OS R) w = Inr ids"
  shows "\<exists>ob. result_of (ProcFsProcessProvider_list OS R) w = Inr ob \<and>
    subseq (map pi_pid (ob_value ob)) ids \<and> sorted (map pi_pid (ob_value ob)) \<and>
    (\<forall>info \<in> set (ob_value ob). \<exists>w'. \<exists>got.
       result_of (ProcFsProcessProvider_get OS R (pi_pid info)) w' = Inr got \<and> ob_value got = info)"
proof -
  have sorted: "sorted ids"
    using assms by (auto simp: ProcFsReader_processIds_def split: sum.split_asm)
  let ?r = "result_of (listProcesses OS R ids [] (0, 0, 0)) (world_after (ProcFsReader_processIds OS R) w)"
  obtain found counts where r: "?r = (found, counts)" by (cases ?r)
  have "subseq (map pi_pid found) ids" and "\<forall>info \<in> set found. \<exists>w' got.
      result_of (ProcFsProcessProvider_get OS R (pi_pid info)) w' = Inr got \<and> ob_value got = info"
    using listProcesses_found [OF r] by auto
  moreover have "sorted (map pi_pid found)" using calculation(1) sorted by (rule sorted_subseq)
  ultimately show ?thesis
    using assms r by (auto simp: ProcFsProcessProvider_list_def)
qed

theorem ProcFsProcessProvider_list_sorted_witness:
  "\<exists>ob. result_of (ProcFsProcessProvider_list demo_OS \<lparr>rd_root = ''/proc''\<rparr>) () = Inr ob \<and>
     subseq (map pi_pid (ob_value ob)) [7]"
proof -
  have "pidOfName ''7'' = Some 7" "pidOfName ''self'' = None"
    by (simp_all add: pidOfName_def consumed_all_def from_chars_unsigned_def isdigit_def Let_def
        digits_value_def fc_value_or_def pid_max_def)
  then have "result_of (ProcFsReader_processIds demo_OS \<lparr>rd_root = ''/proc''\<rparr>) () = Inr [7]"
    by (simp add: ProcFsReader_processIds_def demo_OS_def List.map_filter_def)
  from ProcFsProcessProvider_list_sorted [OF this] show ?thesis by blast
qed

end
