(* ===== verification/LinuxSignal.thy ===== *)
theory LinuxSignal
  imports ProcFs
begin

text \<open>
  \<open>src/linux/process\<close>: signals through process handles (pidfd) with \<open>kill(2)\<close> as the fallback, and waiting
  for a process to exit. A handle is closed when it goes out of scope; the close is part of the
  model.

  Both waiting loops (the retry of an interrupted \<open>poll\<close>, and polling with signal 0) take fuel;
  \<open>None\<close> means still waiting when it ran out.
\<close>

section \<open>System calls\<close>

abbreviation EINVAL :: errno where "EINVAL \<equiv> 22"
abbreviation ENOSYS :: errno where "ENOSYS \<equiv> 38"

text \<open>The calls return an errno on failure. \<open>sg_waitid\<close> tells whether the process is a child that has
  exited; \<open>sg_poll\<close> returns the number of ready descriptors.\<close>

record 'w SignalOS =
  sg_pidfdOpen :: "pid \<Rightarrow> ('w, errno + int) io"
  sg_pidfdSend :: "int \<Rightarrow> int \<Rightarrow> ('w, errno + unit) io"
  sg_poll :: "int \<Rightarrow> int \<Rightarrow> ('w, errno + nat) io"
  sg_close :: "int \<Rightarrow> ('w, unit) io"
  sg_kill :: "pid \<Rightarrow> int \<Rightarrow> ('w, errno + unit) io"
  sg_waitid :: "pid \<Rightarrow> ('w, bool) io"
  sg_clock :: "'w Clock"
  sg_getpid :: pid
  sg_havePidFdOpen :: bool
  sg_havePidFdSend :: bool
  sg_strerror :: "errno \<Rightarrow> string"

definition nativeSignal :: "ProcessSignal \<Rightarrow> int" where
  "nativeSignal sig = (case sig of Terminate \<Rightarrow> 15 | Kill \<Rightarrow> 9)"

section \<open>Process handles\<close>

definition pidfd_makeError :: "'w SignalOS \<Rightarrow> errno \<Rightarrow> string \<Rightarrow> Error" where
  "pidfd_makeError G n operation =
     mkError (if n = ENOSYS \<or> n = EINVAL then Unsupported
              else if n = ESRCH \<or> n = ENOENT then NotFound
              else if n = EPERM \<or> n = EACCES then PermissionDenied else IoError)
       (''Unable to '' @ operation @ '': '' @ sg_strerror G n) n ''pidfd'' operation"

definition PidFd_open :: "'w SignalOS \<Rightarrow> pid \<Rightarrow> ('w, int result) io" where
  "PidFd_open G pid =
     (if sg_havePidFdOpen G
      then do {
        fd \<leftarrow> sg_pidfdOpen G pid;
        return (case fd of
          Inr n \<Rightarrow> success n
        | Inl e \<Rightarrow> failure (pidfd_makeError G e ''open process handle''))
      }
      else return (failure (mkError Unsupported ''pidfd_open is unavailable at build time'' ENOSYS
                              ''pidfd'' ''open process handle'')))"

definition PidFd_send :: "'w SignalOS \<Rightarrow> int \<Rightarrow> ProcessSignal \<Rightarrow> ('w, unit result) io" where
  "PidFd_send G fd sig =
     (if sg_havePidFdSend G
      then do {
        r \<leftarrow> sg_pidfdSend G fd (nativeSignal sig);
        return (case r of
          Inr _ \<Rightarrow> success ()
        | Inl e \<Rightarrow> failure (pidfd_makeError G e ''send process signal''))
      }
      else return (failure (mkError Unsupported ''pidfd_send_signal is unavailable at build time'' ENOSYS
                              ''pidfd'' ''send process signal'')))"

definition boundedTimeout :: "int \<Rightarrow> int" where
  "boundedTimeout timeout = (if timeout > 2147483647 then 2147483647 else max timeout 0)"

fun pollRetry :: "nat \<Rightarrow> 'w SignalOS \<Rightarrow> int \<Rightarrow> int \<Rightarrow> ('w, (errno + nat) option) io" where
  "pollRetry 0 G fd timeout = return None"
| "pollRetry (Suc fuel) G fd timeout = do {
     status \<leftarrow> sg_poll G fd timeout;
     if status = Inl EINTR then pollRetry fuel G fd timeout else return (Some status)
   }"

definition PidFd_waitForExit :: "nat \<Rightarrow> 'w SignalOS \<Rightarrow> int \<Rightarrow> int \<Rightarrow> ('w, bool result option) io" where
  "PidFd_waitForExit fuel G fd timeout = do {
     status \<leftarrow> pollRetry fuel G fd (boundedTimeout timeout);
     return (map_option (\<lambda>s. case s of
         Inr n \<Rightarrow> success (0 < n)
       | Inl e \<Rightarrow> failure (pidfd_makeError G e ''wait for process exit'')) status)
   }"

section \<open>The provider\<close>

datatype PidFdPolicy = Auto | Disabled

definition signal_makeError :: "'w SignalOS \<Rightarrow> errno \<Rightarrow> string \<Rightarrow> Error" where
  "signal_makeError G n operation =
     mkError (if n = ESRCH then NotFound
              else if n = EPERM \<or> n = EACCES then PermissionDenied else IoError)
       (''Unable to '' @ operation @ '': '' @ sg_strerror G n) n ''linux-signal-provider'' operation"

definition sendWithKill :: "'w SignalOS \<Rightarrow> pid \<Rightarrow> ProcessSignal \<Rightarrow> ('w, SignalDelivery result) io" where
  "sendWithKill G pid sig = do {
     r \<leftarrow> sg_kill G pid (nativeSignal sig);
     return (case r of
       Inr _ \<Rightarrow> success \<lparr>sd_pid = pid, sd_signal = sig, sd_mechanism = ViaKill\<rparr>
     | Inl e \<Rightarrow> failure (signal_makeError G e ''send signal''))
   }"

definition exitedWithKill :: "'w SignalOS \<Rightarrow> pid \<Rightarrow> ('w, bool result) io" where
  "exitedWithKill G pid = do {
     exited \<leftarrow> sg_waitid G pid;
     if exited then return (success True)
     else do {
       r \<leftarrow> sg_kill G pid 0;
       return (case r of
         Inr _ \<Rightarrow> success False
       | Inl e \<Rightarrow>
           (if e = EPERM then success False
            else if e = ESRCH then success True
            else failure (signal_makeError G e ''check process lifecycle'')))
     }
   }"

definition LinuxSignalProvider_send ::
  "'w SignalOS \<Rightarrow> PidFdPolicy \<Rightarrow> pid \<Rightarrow> ProcessSignal \<Rightarrow> ('w, SignalDelivery result) io" where
  "LinuxSignalProvider_send G policy pid sig =
     (if policy = Auto
      then do {
        handle \<leftarrow> PidFd_open G pid;
        case handle of
          Inr fd \<Rightarrow> do {
            sent \<leftarrow> PidFd_send G fd sig;
            _ \<leftarrow> sg_close G fd;
            case sent of
              Inr _ \<Rightarrow> return (success \<lparr>sd_pid = pid, sd_signal = sig, sd_mechanism = ViaPidFd\<rparr>)
            | Inl e \<Rightarrow> (if er_code e \<noteq> Unsupported then return (failure e) else sendWithKill G pid sig)
          }
        | Inl e \<Rightarrow> (if er_code e \<noteq> Unsupported then return (failure e) else sendWithKill G pid sig)
      }
      else sendWithKill G pid sig)"

text \<open>The loop of \<open>waitForExit\<close>; what is left of the time is cut to whole milliseconds.\<close>

fun waitLoop :: "nat \<Rightarrow> 'w SignalOS \<Rightarrow> pid \<Rightarrow> int \<Rightarrow> ('w, bool result option) io" where
  "waitLoop 0 G pid deadline = return None"
| "waitLoop (Suc fuel) G pid deadline = do {
     exited \<leftarrow> exitedWithKill G pid;
     case exited of
       Inl e \<Rightarrow> return (Some (failure e))
     | Inr True \<Rightarrow> return (Some (success True))
     | Inr False \<Rightarrow> do {
         now \<leftarrow> ck_steadyNow (sg_clock G);
         if deadline \<le> now then return (Some (success False))
         else do {
           _ \<leftarrow> ck_sleep (sg_clock G) (min 10 ((deadline - now) div 1000000));
           waitLoop fuel G pid deadline
         }
       }
   }"

definition LinuxSignalProvider_waitForExit ::
  "nat \<Rightarrow> 'w SignalOS \<Rightarrow> PidFdPolicy \<Rightarrow> pid \<Rightarrow> int \<Rightarrow> ('w, bool result option) io" where
  "LinuxSignalProvider_waitForExit fuel G policy pid timeout =
     (let viaKill = do {
            start \<leftarrow> ck_steadyNow (sg_clock G);
            waitLoop fuel G pid (start + max timeout 0 * 1000000)
          } in
      if policy = Auto
      then do {
        handle \<leftarrow> PidFd_open G pid;
        case handle of
          Inr fd \<Rightarrow> do {
            r \<leftarrow> PidFd_waitForExit fuel G fd timeout;
            _ \<leftarrow> sg_close G fd;
            return r
          }
        | Inl e \<Rightarrow>
            (if er_code e = NotFound then return (Some (success True))
             else if er_code e \<noteq> Unsupported then return (Some (failure e))
             else viaKill)
      }
      else viaKill)"

definition LinuxSignalProvider_capabilities ::
  "'w SignalOS \<Rightarrow> PidFdPolicy \<Rightarrow> ('w, SignalCapabilities) io" where
  "LinuxSignalProvider_capabilities G policy =
     (if policy = Disabled then return \<lparr>sc_signalingAvailable = True, sc_pidFdAvailable = False\<rparr>
      else do {
        handle \<leftarrow> PidFd_open G (sg_getpid G);
        case handle of
          Inr fd \<Rightarrow> do {
            _ \<leftarrow> sg_close G fd;
            return \<lparr>sc_signalingAvailable = True, sc_pidFdAvailable = True\<rparr>
          }
        | Inl _ \<Rightarrow> return \<lparr>sc_signalingAvailable = True, sc_pidFdAvailable = False\<rparr>
      })"

text \<open>How many rounds are enough for a timeout, as the lemmas below show: one for each interruption by a
  signal and for each nanosecond of the timeout. The steady clock and the deadline are unbounded here; the
  code keeps them in 64 bits, which hold 292 years of nanoseconds.\<close>

definition wait_rounds :: "nat \<Rightarrow> int \<Rightarrow> nat" where
  "wait_rounds K timeout = K + nat (max timeout 0 * 1000000) + 1"

text \<open>As the interface has it, for \<open>fuel\<close> interruptions.\<close>

definition LinuxSignalProvider :: "nat \<Rightarrow> 'w SignalOS \<Rightarrow> PidFdPolicy \<Rightarrow> 'w ISignalProvider" where
  "LinuxSignalProvider fuel G policy =
     \<lparr>sp_send = LinuxSignalProvider_send G policy,
      sp_waitForExit = (\<lambda>pid timeout. do {
        r \<leftarrow> LinuxSignalProvider_waitForExit (wait_rounds fuel timeout) G policy pid timeout;
        return (settled r)
      }),
      sp_capabilities = LinuxSignalProvider_capabilities G policy\<rparr>"

section \<open>The contract of the provider\<close>

lemma LinuxSignalProvider_send_echo:
  "result_of (LinuxSignalProvider_send G policy p sig) w = Inr d \<Longrightarrow> sd_pid d = p \<and> sd_signal d = sig"
  by (auto simp: LinuxSignalProvider_send_def sendWithKill_def split: if_split_asm sum.split_asm)

interpretation linux_signals: signal_provider "LinuxSignalProvider fuel G policy"
  for fuel and G :: "'w SignalOS" and policy
  by unfold_locales (simp add: LinuxSignalProvider_def LinuxSignalProvider_send_echo)

section \<open>What the kernel promises\<close>

text \<open>
  The documented effect of the system calls, for the open process handles of a world (each with the
  process it was opened for) and the signals delivered so far. A call that fails delivers nothing;
  \<open>kill\<close> with signal 0 only asks.
\<close>

definition unchanged :: "('w \<Rightarrow> 'h) \<Rightarrow> ('w \<Rightarrow> 'd) \<Rightarrow> ('w, 'a) io \<Rightarrow> bool" where
  "unchanged handles delivered m \<longleftrightarrow>
     (\<forall>w. handles (world_after m w) = handles w \<and> delivered (world_after m w) = delivered w)"

definition signal_kernel ::
  "('w \<Rightarrow> int \<Rightarrow> pid option) \<Rightarrow> ('w \<Rightarrow> (pid \<times> int) list) \<Rightarrow> 'w SignalOS \<Rightarrow> bool" where
  "signal_kernel handles delivered G \<longleftrightarrow>
     (\<forall>p w. delivered (world_after (sg_pidfdOpen G p) w) = delivered w \<and>
        (case result_of (sg_pidfdOpen G p) w of
           Inr fd \<Rightarrow> handles w fd = None \<and> handles (world_after (sg_pidfdOpen G p) w) = (handles w)(fd \<mapsto> p)
         | Inl _ \<Rightarrow> handles (world_after (sg_pidfdOpen G p) w) = handles w)) \<and>
     (\<forall>fd n w. handles (world_after (sg_pidfdSend G fd n) w) = handles w \<and>
        (case result_of (sg_pidfdSend G fd n) w of
           Inr _ \<Rightarrow> \<exists>p. handles w fd = Some p \<and>
             delivered (world_after (sg_pidfdSend G fd n) w) = delivered w @ [(p, n)]
         | Inl _ \<Rightarrow> delivered (world_after (sg_pidfdSend G fd n) w) = delivered w)) \<and>
     (\<forall>fd w. handles (world_after (sg_close G fd) w) = (handles w)(fd := None) \<and>
        delivered (world_after (sg_close G fd) w) = delivered w) \<and>
     (\<forall>p n w. handles (world_after (sg_kill G p n) w) = handles w \<and>
        delivered (world_after (sg_kill G p n) w) =
          (if n \<noteq> 0 \<and> result_of (sg_kill G p n) w = Inr () then delivered w @ [(p, n)] else delivered w)) \<and>
     (\<forall>fd t. unchanged handles delivered (sg_poll G fd t)) \<and>
     (\<forall>p. unchanged handles delivered (sg_waitid G p)) \<and>
     unchanged handles delivered (ck_steadyNow (sg_clock G)) \<and>
     (\<forall>d. unchanged handles delivered (ck_sleep (sg_clock G) d))"

lemma unchangedD:
  "unchanged handles delivered m \<Longrightarrow> handles (world_after m w) = handles w"
  "unchanged handles delivered m \<Longrightarrow> delivered (world_after m w) = delivered w"
  by (simp_all add: unchanged_def)

lemma unchanged_return: "unchanged handles delivered (return x)"
  by (simp add: unchanged_def)

lemma unchanged_bind:
  "unchanged handles delivered m \<Longrightarrow> (\<And>x. unchanged handles delivered (f x)) \<Longrightarrow>
   unchanged handles delivered (State_Monad.bind m f)"
  by (simp add: unchanged_def)

lemmas unchanged_intros = unchanged_return unchanged_bind

lemma signal_kernelD:
  assumes "signal_kernel handles delivered G"
  shows "delivered (world_after (sg_pidfdOpen G p) w) = delivered w"
    and "result_of (sg_pidfdOpen G p) w = Inr fd \<Longrightarrow>
      handles w fd = None \<and> handles (world_after (sg_pidfdOpen G p) w) = (handles w)(fd \<mapsto> p)"
    and "result_of (sg_pidfdOpen G p) w = Inl e \<Longrightarrow> handles (world_after (sg_pidfdOpen G p) w) = handles w"
    and "handles (world_after (sg_pidfdSend G fd n) w) = handles w"
    and "result_of (sg_pidfdSend G fd n) w = Inr u \<Longrightarrow> handles w fd = Some q \<Longrightarrow>
      delivered (world_after (sg_pidfdSend G fd n) w) = delivered w @ [(q, n)]"
    and "result_of (sg_pidfdSend G fd n) w = Inl e \<Longrightarrow>
      delivered (world_after (sg_pidfdSend G fd n) w) = delivered w"
    and "handles (world_after (sg_close G fd) w) = (handles w)(fd := None)"
    and "delivered (world_after (sg_close G fd) w) = delivered w"
    and "handles (world_after (sg_kill G p n) w) = handles w"
    and "delivered (world_after (sg_kill G p n) w) =
      (if n \<noteq> 0 \<and> result_of (sg_kill G p n) w = Inr () then delivered w @ [(p, n)] else delivered w)"
    and "unchanged handles delivered (sg_poll G fd t)"
    and "unchanged handles delivered (sg_waitid G p)"
    and "unchanged handles delivered (ck_steadyNow (sg_clock G))"
    and "unchanged handles delivered (ck_sleep (sg_clock G) d)"
proof -
  note parts = assms [unfolded signal_kernel_def, THEN conjunct1]
    assms [unfolded signal_kernel_def, THEN conjunct2, THEN conjunct1]
    assms [unfolded signal_kernel_def, THEN conjunct2, THEN conjunct2]
  show "delivered (world_after (sg_pidfdOpen G p) w) = delivered w"
    using parts(1) by blast
  show "result_of (sg_pidfdOpen G p) w = Inr fd \<Longrightarrow>
      handles w fd = None \<and> handles (world_after (sg_pidfdOpen G p) w) = (handles w)(fd \<mapsto> p)"
    using parts(1) [rule_format, of p w] by simp
  show "result_of (sg_pidfdOpen G p) w = Inl e \<Longrightarrow> handles (world_after (sg_pidfdOpen G p) w) = handles w"
    using parts(1) [rule_format, of p w] by simp
  show "handles (world_after (sg_pidfdSend G fd n) w) = handles w"
    using parts(2) by blast
  show "result_of (sg_pidfdSend G fd n) w = Inr u \<Longrightarrow> handles w fd = Some q \<Longrightarrow>
      delivered (world_after (sg_pidfdSend G fd n) w) = delivered w @ [(q, n)]"
    using parts(2) [rule_format, of fd n w] by auto
  show "result_of (sg_pidfdSend G fd n) w = Inl e \<Longrightarrow>
      delivered (world_after (sg_pidfdSend G fd n) w) = delivered w"
    using parts(2) [rule_format, of fd n w] by simp
qed (use assms [unfolded signal_kernel_def] in blast)+

section \<open>A delivery signals once\<close>

lemma pidfd_makeError_code:
  "er_code (pidfd_makeError G e operation) = Unsupported \<longleftrightarrow> e = ENOSYS \<or> e = EINVAL"
  by (simp add: pidfd_makeError_def)

lemma nativeSignal_nonzero [simp]: "nativeSignal sig \<noteq> 0"
  by (cases sig) (simp_all add: nativeSignal_def)

definition delivered_exactly :: "(pid \<times> int) list \<Rightarrow> pid \<Rightarrow> ProcessSignal \<Rightarrow> SignalDelivery result \<Rightarrow> (pid \<times> int) list \<Rightarrow> bool" where
  "delivered_exactly before p sig r after \<longleftrightarrow>
     after = (case r of Inr _ \<Rightarrow> before @ [(p, nativeSignal sig)] | Inl _ \<Rightarrow> before)"

lemma sendWithKill_delivers:
  assumes "signal_kernel handles delivered G"
  shows "handles (world_after (sendWithKill G p sig) w) = handles w"
    and "delivered_exactly (delivered w) p sig (result_of (sendWithKill G p sig) w)
           (delivered (world_after (sendWithKill G p sig) w))"
  using signal_kernelD(9,10) [OF assms, of p "nativeSignal sig" w]
  by (auto simp: sendWithKill_def delivered_exactly_def split: sum.split)

lemma send_delivers:
  assumes kernel: "signal_kernel handles delivered G"
  shows "handles (world_after (LinuxSignalProvider_send G policy p sig) w) = handles w \<and>
    delivered_exactly (delivered w) p sig (result_of (LinuxSignalProvider_send G policy p sig) w)
      (delivered (world_after (LinuxSignalProvider_send G policy p sig) w))"
proof -
  let ?m = "LinuxSignalProvider_send G policy p sig"
  note laws = signal_kernelD [OF kernel] and kill = sendWithKill_delivers [OF kernel]
  show ?thesis
  proof (cases "policy = Auto \<and> sg_havePidFdOpen G")
    case False
    then show ?thesis
      using kill by (auto simp: LinuxSignalProvider_send_def PidFd_open_def)
  next
    case auto: True
    show ?thesis
    proof (cases "result_of (sg_pidfdOpen G p) w")
      case (Inl e)
      then show ?thesis
        using auto kill laws(1,3) [of p w]
        by (auto simp: LinuxSignalProvider_send_def PidFd_open_def delivered_exactly_def split: sum.split)
    next
      case (Inr fd)
      let ?w1 = "world_after (sg_pidfdOpen G p) w"
      have opened: "handles ?w1 = (handles w)(fd \<mapsto> p)" "(handles w)(fd := None) = handles w"
          "delivered ?w1 = delivered w"
        using laws(1,2) Inr by (auto simp: fun_upd_idem)
      show ?thesis
      proof (cases "sg_havePidFdSend G")
        case False
        then show ?thesis
          using auto Inr opened kill laws(7,8)
          by (auto simp: LinuxSignalProvider_send_def PidFd_open_def PidFd_send_def delivered_exactly_def
              split: sum.split)
      next
        case True
        then show ?thesis
          using auto Inr opened kill laws(4,5,6,7,8)
          by (cases "result_of (sg_pidfdSend G fd (nativeSignal sig)) ?w1")
             (auto simp: LinuxSignalProvider_send_def PidFd_open_def PidFd_send_def delivered_exactly_def
               split: sum.split)
      qed
    qed
  qed
qed

text \<open>
  C5. A delivery signals at most once and never leaks a process handle. For a kernel that behaves as
  documented, after \<open>send(pid, signal)\<close> the open handles are the ones before; if it reports
  success, exactly one signal was delivered, to the process with that id and with the number of that
  signal, whichever mechanism was used; if it reports an error, none was. In particular the fallback
  to \<open>kill\<close> after a refused \<open>pidfd_send_signal\<close> cannot signal twice.\<close>

theorem LinuxSignalProvider_send_once:
  assumes kernel: "signal_kernel handles delivered G"
  shows "handles (world_after (LinuxSignalProvider_send G policy p sig) w) = handles w
    \<and> delivered (world_after (LinuxSignalProvider_send G policy p sig) w)
      = (case result_of (LinuxSignalProvider_send G policy p sig) w of
           Inr d \<Rightarrow> delivered w @ [(sd_pid d, nativeSignal (sd_signal d))]
         | Inl _ \<Rightarrow> delivered w)
    \<and> (\<forall>d. result_of (LinuxSignalProvider_send G policy p sig) w = Inr d \<longrightarrow> sd_pid d = p \<and> sd_signal d = sig)"
  using send_delivers [OF kernel, of policy p sig w] LinuxSignalProvider_send_echo [of G policy p sig w]
  by (auto simp: delivered_exactly_def split: sum.split)

text \<open>A kernel with one process, number 42, and one handle slot, on worlds of the open handle, the
  delivered signals and the time.\<close>

type_synonym demo_kernel = "pid option \<times> (pid \<times> int) list \<times> int"

definition demo_handles :: "demo_kernel \<Rightarrow> int \<Rightarrow> pid option" where
  "demo_handles w fd = (if fd = 3 then fst w else None)"

definition demo_SignalOS :: "bool \<Rightarrow> demo_kernel SignalOS" where
  "demo_SignalOS haveSend =
     \<lparr>sg_pidfdOpen = (\<lambda>p. State (\<lambda>(h, ds, t).
        if p = 42 \<and> h = None then (Inr 3, (Some p, ds, t)) else (Inl ESRCH, (h, ds, t)))),
      sg_pidfdSend = (\<lambda>fd n. State (\<lambda>(h, ds, t).
        case h of Some p \<Rightarrow> if fd = 3 then (Inr (), (h, ds @ [(p, n)], t)) else (Inl 9, (h, ds, t))
        | None \<Rightarrow> (Inl 9, (h, ds, t)))),
      sg_poll = (\<lambda>fd timeout. return (Inr 1)),
      sg_close = (\<lambda>fd. State (\<lambda>(h, ds, t). ((), (if fd = 3 then None else h, ds, t)))),
      sg_kill = (\<lambda>p n. State (\<lambda>(h, ds, t).
        if p = 42 then (Inr (), (h, if n = 0 then ds else ds @ [(p, n)], t)) else (Inl ESRCH, (h, ds, t)))),
      sg_waitid = (\<lambda>p. return False),
      sg_clock = \<lparr>ck_steadyNow = State (\<lambda>(h, ds, t). (t, (h, ds, t + 1))),
                  ck_systemNow = return 0,
                  ck_sleep = (\<lambda>d. State (\<lambda>(h, ds, t). ((), (h, ds, t + max d 0 * 1000000))))\<rparr>,
      sg_getpid = 1, sg_havePidFdOpen = True, sg_havePidFdSend = haveSend,
      sg_strerror = (\<lambda>_. ''error'')\<rparr>"

lemma demo_signal_kernel: "signal_kernel demo_handles (\<lambda>w. fst (snd w)) (demo_SignalOS haveSend)"
  unfolding signal_kernel_def demo_SignalOS_def unchanged_def
  by (auto simp: demo_handles_def fun_eq_iff split: sum.split option.split prod.split)

theorem LinuxSignalProvider_send_once_witness:
  "world_after (LinuxSignalProvider_send (demo_SignalOS True) Auto 42 Terminate) (None, [], 0)
     = (None, [(42, 15)], 0)
   \<and> fst (snd (world_after (LinuxSignalProvider_send (demo_SignalOS False) Auto 42 Kill) (None, [], 0)))
     = [(42, 9)]"
proof -
  have "result_of (LinuxSignalProvider_send (demo_SignalOS False) Auto 42 Kill) (None, [], 0)
      = Inr \<lparr>sd_pid = 42, sd_signal = Kill, sd_mechanism = ViaKill\<rparr>"
    by (simp add: LinuxSignalProvider_send_def PidFd_open_def PidFd_send_def sendWithKill_def
        demo_SignalOS_def)
  then have "fst (snd (world_after (LinuxSignalProvider_send (demo_SignalOS False) Auto 42 Kill) (None, [], 0)))
      = [(42, 9)]"
    using LinuxSignalProvider_send_once [OF demo_signal_kernel, of False Auto 42 Kill "(None, [], 0)"]
    by (simp add: nativeSignal_def)
  then show ?thesis
    by (simp add: LinuxSignalProvider_send_def PidFd_open_def PidFd_send_def demo_SignalOS_def
        nativeSignal_def)
qed

section \<open>Waiting for an exit ends\<close>

text \<open>
  \<open>interruptions pending K G\<close>: the process is interrupted by a signal at most \<open>K\<close> times while it
  waits, \<open>pending w\<close> counting the ones left. \<open>clock_ticks time G\<close>: besides running, the clock advances
  by at least a nanosecond between two readings. The loop needs that: with less than a millisecond
  left it sleeps for zero milliseconds and spins.
\<close>

definition interruptions :: "('w \<Rightarrow> nat) \<Rightarrow> nat \<Rightarrow> 'w SignalOS \<Rightarrow> bool" where
  "interruptions pending K G \<longleftrightarrow>
     (\<forall>w. pending w \<le> K) \<and>
     (\<forall>fd t w. result_of (sg_poll G fd t) w = Inl EINTR \<longrightarrow> pending (world_after (sg_poll G fd t) w) < pending w)"

definition clock_ticks :: "('w \<Rightarrow> int) \<Rightarrow> 'w SignalOS \<Rightarrow> bool" where
  "clock_ticks time G \<longleftrightarrow>
     clock_runs time (sg_clock G) \<and>
     (\<forall>w. time w < time (world_after (ck_steadyNow (sg_clock G)) w)) \<and>
     (\<forall>p n. advances time (sg_kill G p n)) \<and> (\<forall>p. advances time (sg_waitid G p))"

lemma pollRetry_returns:
  assumes "interruptions pending K G"
  shows "pending w < fuel \<Longrightarrow> result_of (pollRetry fuel G fd t) w \<noteq> None"
proof (induction fuel arbitrary: w)
  case (Suc fuel)
  let ?m = "sg_poll G fd t"
  have "result_of ?m w = Inl EINTR \<Longrightarrow> pending (world_after ?m w) < pending w"
    using assms by (simp add: interruptions_def)
  with Suc show ?case by fastforce
qed simp

lemma advances_exitedWithKill: "clock_ticks time G \<Longrightarrow> advances time (exitedWithKill G p)"
  unfolding exitedWithKill_def clock_ticks_def by (intro advance_intros) auto

lemma waitLoop_returns:
  assumes ticks: "clock_ticks time G"
  shows "deadline \<le> time w + int fuel \<Longrightarrow> result_of (waitLoop (Suc fuel) G p deadline) w \<noteq> None"
proof (induction fuel arbitrary: w)
  let ?x = "exitedWithKill G p"
  have step: "time w \<le> time (world_after ?x w)" for w
    using advances_exitedWithKill [OF ticks] by (rule advancesD)
  have clock: "result_of (ck_steadyNow (sg_clock G)) w = time w"
      "time w < time (world_after (ck_steadyNow (sg_clock G)) w)" for w
    using ticks by (simp_all add: clock_ticks_def clock_runs_def)
  {
    case 0
    have "deadline \<le> time (world_after ?x w)" using 0 step [of w] by simp
    then show ?case
      using clock by (auto split: sum.split bool.split)
  next
    case (Suc fuel)
    let ?w1 = "world_after ?x w"
    let ?w2 = "world_after (ck_steadyNow (sg_clock G)) ?w1"
    let ?d = "min 10 ((deadline - time ?w1) div 1000000)"
    let ?w3 = "world_after (ck_sleep (sg_clock G) ?d) ?w2"
    have "deadline \<le> time ?w3 + int fuel" if late: "\<not> deadline \<le> time ?w1"
    proof -
      have "0 \<le> ?d" using late by (simp add: pos_imp_zdiv_nonneg_iff)
      then have "time ?w2 + ?d * 1000000 \<le> time ?w3"
        using ticks by (simp add: clock_ticks_def clock_runs_def)
      with \<open>0 \<le> ?d\<close> have "time ?w2 \<le> time ?w3" by linarith
      then show ?thesis using Suc.prems step [of w] clock(2) [of ?w1] by simp
    qed
    then show ?case
      using Suc.IH [of ?w3] clock by (subst waitLoop.simps) (auto split: sum.split bool.split)
  }
qed

lemma unchanged_exitedWithKill:
  assumes "signal_kernel handles delivered G"
  shows "unchanged handles delivered (exitedWithKill G p)"
proof -
  note laws = signal_kernelD [OF assms]
  have "unchanged handles delivered (sg_kill G p 0)"
    using laws(9,10) [of p 0] by (simp add: unchanged_def)
  then show ?thesis
    unfolding exitedWithKill_def using laws(12) [of p]
    by (simp add: unchanged_def)
qed

lemma unchanged_waitLoop:
  assumes "signal_kernel handles delivered G"
  shows "unchanged handles delivered (waitLoop fuel G p deadline)"
proof (induction fuel)
  case (Suc fuel)
  note laws = signal_kernelD [OF assms]
  show ?case
    unfolding waitLoop.simps
    by (intro unchanged_bind unchanged_exitedWithKill [OF assms])
       (auto intro!: unchanged_intros laws Suc.IH split: sum.split bool.split)
qed (simp add: unchanged_return)

lemma unchanged_PidFd_waitForExit:
  assumes "signal_kernel handles delivered G"
  shows "unchanged handles delivered (PidFd_waitForExit fuel G fd timeout)"
proof -
  have "unchanged handles delivered (pollRetry fuel G fd t)" for t
    by (induction fuel) (auto intro!: unchanged_intros signal_kernelD(11) [OF assms])
  then show ?thesis
    unfolding PidFd_waitForExit_def by (intro unchanged_intros)
qed

text \<open>The loop around \<open>kill\<close>, from reading the clock on, and the poll of a handle.\<close>

lemma waitLoop_started:
  assumes kernel: "signal_kernel handles delivered G" and ticks: "clock_ticks time G"
    and fuel: "wait_rounds K timeout \<le> fuel"
    and via: "via = (do {
      start \<leftarrow> ck_steadyNow (sg_clock G); waitLoop fuel G p (start + max timeout 0 * 1000000) })"
  shows "(\<exists>r. result_of via w = Some r) \<and> handles (world_after via w) = handles w \<and>
    delivered (world_after via w) = delivered w"
proof -
  note wait = unchangedD [OF unchanged_waitLoop [OF kernel]] and clock = unchangedD [OF signal_kernelD(13) [OF kernel]]
  let ?w1 = "world_after (ck_steadyNow (sg_clock G)) w"
  have start: "result_of (ck_steadyNow (sg_clock G)) w = time w" "time w \<le> time ?w1"
    using ticks by (simp_all add: clock_ticks_def clock_runs_def)
  have "time w + max timeout 0 * 1000000 \<le> time ?w1 + int (fuel - 1)"
    using start(2) fuel by (simp add: wait_rounds_def)
  then have "result_of (waitLoop (Suc (fuel - 1)) G p (time w + max timeout 0 * 1000000)) ?w1 \<noteq> None"
    by (rule waitLoop_returns [OF ticks])
  moreover have "Suc (fuel - 1) = fuel" using fuel by (simp add: wait_rounds_def)
  ultimately show ?thesis
    unfolding via using start wait clock by auto
qed

lemma PidFd_waitForExit_returns:
  assumes intr: "interruptions pending K G" and fuel: "wait_rounds K timeout \<le> fuel"
  shows "\<exists>r. result_of (PidFd_waitForExit fuel G fd timeout) w = Some r"
proof -
  have "pending w < fuel"
    using intr fuel by (auto simp: interruptions_def wait_rounds_def intro: le_less_trans)
  then show ?thesis
    using pollRetry_returns [OF intr] by (auto simp: PidFd_waitForExit_def)
qed

text \<open>Over the two mechanisms.\<close>

lemma waitForExit_ends:
  assumes kernel: "signal_kernel handles delivered G" and ticks: "clock_ticks time G"
    and intr: "interruptions pending K G" and fuel: "wait_rounds K timeout \<le> fuel"
  shows "(\<exists>r. result_of (LinuxSignalProvider_waitForExit fuel G policy p timeout) w = Some r)
    \<and> handles (world_after (LinuxSignalProvider_waitForExit fuel G policy p timeout) w) = handles w
    \<and> delivered (world_after (LinuxSignalProvider_waitForExit fuel G policy p timeout) w) = delivered w"
proof -
  note laws = signal_kernelD [OF kernel] and polled = unchangedD [OF unchanged_PidFd_waitForExit [OF kernel]]
  define via where "via = (do {
    start \<leftarrow> ck_steadyNow (sg_clock G); waitLoop fuel G p (start + max timeout 0 * 1000000) })"
  note via = waitLoop_started [OF kernel ticks fuel via_def] and poll = PidFd_waitForExit_returns [OF intr fuel]
  show ?thesis
  proof (cases "policy = Auto \<and> sg_havePidFdOpen G")
    case False
    then show ?thesis
      using via by (auto simp: LinuxSignalProvider_waitForExit_def PidFd_open_def Let_def
          simp flip: via_def)
  next
    case auto: True
    show ?thesis
    proof (cases "result_of (sg_pidfdOpen G p) w")
      case (Inl e)
      with auto show ?thesis
        using via laws(1,3) [of p w]
        by (auto simp: LinuxSignalProvider_waitForExit_def PidFd_open_def Let_def simp flip: via_def)
    next
      case (Inr fd)
      then have "(handles w)(fd := None) = handles w" using laws(2) by (auto simp: fun_upd_idem)
      with auto Inr show ?thesis
        using poll laws(1,2,7,8) polled
        by (auto simp: LinuxSignalProvider_waitForExit_def PidFd_open_def Let_def)
    qed
  qed
qed

text \<open>
  C40. Waiting for an exit ends and changes nothing. When the waiting process is interrupted at most
  \<open>K\<close> times and the steady clock advances, \<open>waitForExit\<close> returns for every process, timeout (also a
  negative one) and mechanism within the stated number of rounds, no signal is delivered by the polls
  with signal 0, and the handle it opens is closed again.\<close>

theorem LinuxSignalProvider_waitForExit_returns:
  assumes kernel: "signal_kernel handles delivered G" and ticks: "clock_ticks time G"
    and intr: "interruptions pending K G" and fuel: "wait_rounds K timeout \<le> fuel"
  shows "(\<exists>r. result_of (LinuxSignalProvider_waitForExit fuel G policy p timeout) w = Some r)
    \<and> handles (world_after (LinuxSignalProvider_waitForExit fuel G policy p timeout) w) = handles w
    \<and> delivered (world_after (LinuxSignalProvider_waitForExit fuel G policy p timeout) w) = delivered w"
  by (rule waitForExit_ends [OF kernel ticks intr fuel])

lemma demo_clock_ticks: "clock_ticks (\<lambda>w. snd (snd w)) (demo_SignalOS haveSend)"
  by (auto simp: clock_ticks_def clock_runs_def demo_SignalOS_def advances_def)

lemma demo_interruptions: "interruptions (\<lambda>_. 0) 0 (demo_SignalOS haveSend)"
  by (simp add: interruptions_def demo_SignalOS_def)

theorem LinuxSignalProvider_waitForExit_returns_witness:
  "\<exists>r. result_of (LinuxSignalProvider_waitForExit 2000001 (demo_SignalOS True) Disabled 42 2) (None, [], 0)
     = Some r"
  using LinuxSignalProvider_waitForExit_returns [OF demo_signal_kernel demo_clock_ticks demo_interruptions,
    of 2 2000001 True Disabled 42 "(None, [], 0)"]
  by (simp add: wait_rounds_def)

end
