(* ===== verification/Netlink.thy ===== *)
theory Netlink
  imports ProcFs
begin

text \<open>
  \<open>src/linux/netlink\<close>: the request and response format of the kernel's socket dump (INET_DIAG over
  Netlink), the socket they travel on, and the socket provider built on both.

  Structures are copied byte by byte between memory and records, in the layout of a little-endian
  machine. A copy that would leave the buffer is \<open>OutOfBounds\<close>, so that reading only inside the
  buffer is a statement about the model. \<open>inet_ntop\<close> is a parameter, and so is the order in which
  \<open>std::sort\<close> leaves sockets with equal keys. The loops that wait for the kernel take fuel.
\<close>

unbundle bit_operations_syntax

section \<open>Bytes\<close>

type_synonym bytes = "u8 list"

fun le_nat :: "bytes \<Rightarrow> nat" where
  "le_nat [] = 0"
| "le_nat (b # bs) = unat b + 256 * le_nat bs"

fun le_bytes :: "nat \<Rightarrow> nat \<Rightarrow> bytes" where
  "le_bytes 0 n = []"
| "le_bytes (Suc k) n = word_of_nat n # le_bytes k (n div 256)"

definition le16 :: "bytes \<Rightarrow> u16" where
  "le16 bs = word_of_nat (le_nat (take 2 bs))"

definition le32 :: "bytes \<Rightarrow> u32" where
  "le32 bs = word_of_nat (le_nat (take 4 bs))"

text \<open>\<open>ntohs\<close> of a 16-bit field: the two bytes, most significant first.\<close>

definition ntohs :: "bytes \<Rightarrow> u16" where
  "ntohs bs = word_of_nat (le_nat (rev (take 2 bs)))"

definition memcpy_from :: "bytes \<Rightarrow> nat \<Rightarrow> nat \<Rightarrow> bytes option" where
  "memcpy_from data offset n = (if offset + n \<le> length data then Some (take n (drop offset data)) else None)"

section \<open>Requests\<close>

abbreviation (input) AF_INET :: nat where "AF_INET \<equiv> 2"
abbreviation (input) AF_INET6 :: nat where "AF_INET6 \<equiv> 10"
abbreviation (input) IPPROTO_TCP :: nat where "IPPROTO_TCP \<equiv> 6"
abbreviation (input) IPPROTO_UDP :: nat where "IPPROTO_UDP \<equiv> 17"
abbreviation (input) SOCK_DIAG_BY_FAMILY :: nat where "SOCK_DIAG_BY_FAMILY \<equiv> 20"
abbreviation (input) NLM_F_REQUEST :: nat where "NLM_F_REQUEST \<equiv> 1"
abbreviation (input) NLM_F_DUMP :: nat where "NLM_F_DUMP \<equiv> 768"
abbreviation (input) NLM_F_DUMP_INTR :: u16 where "NLM_F_DUMP_INTR \<equiv> 16"
abbreviation (input) NLMSG_ERROR :: u16 where "NLMSG_ERROR \<equiv> 2"
abbreviation (input) NLMSG_DONE :: u16 where "NLMSG_DONE \<equiv> 3"
abbreviation (input) NLMSG_OVERRUN :: u16 where "NLMSG_OVERRUN \<equiv> 4"
abbreviation (input) NLMSG_HDRLEN :: nat where "NLMSG_HDRLEN \<equiv> 16"
abbreviation (input) sizeof_nlmsgerr :: nat where "sizeof_nlmsgerr \<equiv> 20"
abbreviation (input) sizeof_inet_diag_msg :: nat where "sizeof_inet_diag_msg \<equiv> 72"

text \<open>The header (16 bytes) and \<open>inet_diag_req_v2\<close> (56 bytes): family, protocol, extensions, padding,
  the state mask, and a socket id of ports, addresses, interface and cookie.\<close>

definition buildInetDiagRequest :: "AddressFamily \<Rightarrow> TransportProtocol \<Rightarrow> u32 \<Rightarrow> u32 \<Rightarrow> bytes" where
  "buildInetDiagRequest family protocol sequence states =
     le_bytes 4 72 @ le_bytes 2 SOCK_DIAG_BY_FAMILY @ le_bytes 2 (NLM_F_REQUEST + NLM_F_DUMP) @
     le_bytes 4 (unat sequence) @ le_bytes 4 0 @
     [word_of_nat (if family = IPv4 then AF_INET else AF_INET6),
      word_of_nat (if protocol = Tcp then IPPROTO_TCP else IPPROTO_UDP), 0, 0] @
     le_bytes 4 (unat states) @
     replicate 40 0 @ replicate 8 255"

section \<open>Responses\<close>

record nlmsghdr =
  nh_len :: u32
  nh_type :: u16
  nh_flags :: u16
  nh_seq :: u32

definition nlmsghdr_of :: "bytes \<Rightarrow> nlmsghdr" where
  "nlmsghdr_of bs = \<lparr>nh_len = le32 bs, nh_type = le16 (drop 4 bs), nh_flags = le16 (drop 6 bs),
     nh_seq = le32 (drop 8 bs)\<rparr>"

record inet_diag_msg =
  dm_family :: u8
  dm_state :: u8
  dm_sport :: u16
  dm_dport :: u16
  dm_src :: bytes
  dm_dst :: bytes
  dm_uid :: u32
  dm_inode :: u32

definition inet_diag_msg_of :: "bytes \<Rightarrow> inet_diag_msg" where
  "inet_diag_msg_of bs =
     \<lparr>dm_family = bs ! 0, dm_state = bs ! 1, dm_sport = ntohs (drop 4 bs), dm_dport = ntohs (drop 6 bs),
      dm_src = take 16 (drop 8 bs), dm_dst = take 16 (drop 24 bs),
      dm_uid = le32 (drop 64 bs), dm_inode = le32 (drop 68 bs)\<rparr>"

record InetDiagBatch =
  db_sockets :: "SocketInfo list"
  db_done :: bool

text \<open>The libc functions the codec calls: \<open>inet_ntop\<close> on the 4 or 16 bytes of an address, and the text
  of an errno.\<close>

record NetlinkLibc =
  nl_inet_ntop :: "AddressFamily \<Rightarrow> bytes \<Rightarrow> string option"
  nl_strerror :: "errno \<Rightarrow> string"

definition parseError :: "string \<Rightarrow> 'a result" where
  "parseError message = failure (mkError ProtocolError message 0 ''inet-diag-codec'' ''parse'')"

definition tcpState :: "u8 \<Rightarrow> string" where
  "tcpState s =
     (let names = [''unknown'', ''established'', ''syn-sent'', ''syn-recv'', ''fin-wait-1'', ''fin-wait-2'',
        ''time-wait'', ''close'', ''close-wait'', ''last-ack'', ''listen'', ''closing'', ''new-syn-recv''] in
      if unat s < 13 then names ! unat s else ''unknown'')"

definition nonzero :: "bytes \<Rightarrow> bool" where
  "nonzero bs \<longleftrightarrow> list_ex (\<lambda>b. b \<noteq> 0) bs"

text \<open>The bytes of an address that \<open>inet_ntop\<close> reads.\<close>

definition addressBytes :: "AddressFamily \<Rightarrow> bytes \<Rightarrow> bytes" where
  "addressBytes family bs = (if family = IPv4 then take 4 bs else bs)"

definition parseDiagMessage :: "NetlinkLibc \<Rightarrow> TransportProtocol \<Rightarrow> inet_diag_msg \<Rightarrow> SocketInfo result" where
  "parseDiagMessage L protocol m =
     (if unat (dm_family m) \<noteq> AF_INET \<and> unat (dm_family m) \<noteq> AF_INET6
      then parseError ''Unsupported INET_DIAG address family''
      else
        let family = (if unat (dm_family m) = AF_INET then IPv4 else IPv6) in
        case nl_inet_ntop L family (addressBytes family (dm_src m)) of
          None \<Rightarrow> parseError ''Unable to format local address''
        | Some address \<Rightarrow>
            let finish = (\<lambda>remote. success
                  \<lparr>so_protocol = protocol, so_family = family,
                   so_local = \<lparr>ep_address = address, ep_port = dm_sport m\<rparr>, so_remote = remote,
                   so_state = (if protocol = Tcp then tcpState (dm_state m)
                               else if remote \<noteq> None then ''connected'' else ''unconnected''),
                   so_uid = dm_uid m, so_inode = ucast (dm_inode m), so_ownerPids = []\<rparr>) in
            if dm_dport m \<noteq> 0 \<or> nonzero (dm_dst m)
            then (case nl_inet_ntop L family (addressBytes family (dm_dst m)) of
                    None \<Rightarrow> parseError ''Unable to format remote address''
                  | Some raddress \<Rightarrow> finish (Some \<lparr>ep_address = raddress, ep_port = dm_dport m\<rparr>))
            else finish None)"

text \<open>One message: its header and where its payload starts and how long it is; \<open>None\<close> is a read outside
  the buffer.\<close>

definition parseNetlinkMessage ::
  "NetlinkLibc \<Rightarrow> TransportProtocol \<Rightarrow> bytes \<Rightarrow> nat \<Rightarrow> nat \<Rightarrow> nlmsghdr \<Rightarrow> InetDiagBatch \<Rightarrow>
   InetDiagBatch result option" where
  "parseNetlinkMessage L protocol data payload payloadSize h batch =
     (if nh_type h = NLMSG_DONE
      then Some (if nh_flags h AND NLM_F_DUMP_INTR \<noteq> 0 then parseError ''Netlink dump was interrupted''
                 else success (batch\<lparr>db_done := True\<rparr>))
      else if nh_type h = NLMSG_ERROR
      then (if payloadSize < sizeof_nlmsgerr then Some (parseError ''Truncated Netlink error'')
            else map_option (\<lambda>bs.
              let number = sint (le32 bs) in
              if number \<noteq> 0
              then failure (mkError ProtocolError (nl_strerror L (- number)) (- number)
                     ''inet-diag-codec'' ''kernel response'')
              else success batch) (memcpy_from data payload sizeof_nlmsgerr))
      else if nh_type h = NLMSG_OVERRUN then Some (parseError ''Netlink response overrun'')
      else if payloadSize < sizeof_inet_diag_msg then Some (parseError ''Truncated INET_DIAG message'')
      else map_option (\<lambda>bs.
        case parseDiagMessage L protocol (inet_diag_msg_of bs) of
          Inl e \<Rightarrow> failure e
        | Inr so \<Rightarrow> success (batch\<lparr>db_sockets := db_sockets batch @ [so]\<rparr>))
        (memcpy_from data payload sizeof_inet_diag_msg))"

text \<open>\<open>NLMSG_ALIGN\<close> computes in 32 bits.\<close>

definition NLMSG_ALIGN :: "u32 \<Rightarrow> u32" where
  "NLMSG_ALIGN len = (len + 3) AND NOT 3"

datatype 'a parse_run = OutOfBounds | Unfinished | Returned 'a

fun parseMessages ::
  "nat \<Rightarrow> NetlinkLibc \<Rightarrow> bytes \<Rightarrow> u32 \<Rightarrow> TransportProtocol \<Rightarrow> nat \<Rightarrow> InetDiagBatch \<Rightarrow>
   InetDiagBatch result parse_run" where
  "parseMessages 0 L data sequence protocol offset batch = Unfinished"
| "parseMessages (Suc fuel) L data sequence protocol offset batch =
     (let left = length data - offset in
      if \<not> offset < length data then Returned (success batch)
      else if left < NLMSG_HDRLEN then Returned (parseError ''Truncated Netlink header'')
      else case memcpy_from data offset NLMSG_HDRLEN of
        None \<Rightarrow> OutOfBounds
      | Some hb \<Rightarrow>
          (let h = nlmsghdr_of hb; len = unat (nh_len h); aligned = unat (NLMSG_ALIGN (nh_len h)) in
           if len < NLMSG_HDRLEN \<or> left < len then Returned (parseError ''Invalid Netlink message length'')
           else if nh_seq h \<noteq> sequence then Returned (parseError ''Unexpected Netlink sequence'')
           else case parseNetlinkMessage L protocol data (offset + NLMSG_HDRLEN) (len - NLMSG_HDRLEN) h batch of
             None \<Rightarrow> OutOfBounds
           | Some (Inl e) \<Rightarrow> Returned (failure e)
           | Some (Inr batch') \<Rightarrow>
               (if left < aligned
                then (if len \<noteq> left then Returned (parseError ''Truncated aligned Netlink message'')
                      else parseMessages fuel L data sequence protocol (length data) batch')
                else parseMessages fuel L data sequence protocol (offset + aligned) batch')))"

definition parseInetDiagDatagram ::
  "nat \<Rightarrow> NetlinkLibc \<Rightarrow> bytes \<Rightarrow> u32 \<Rightarrow> TransportProtocol \<Rightarrow> InetDiagBatch result parse_run" where
  "parseInetDiagDatagram fuel L data sequence protocol =
     parseMessages fuel L data sequence protocol 0 \<lparr>db_sockets = [], db_done = False\<rparr>"

section \<open>The Netlink socket\<close>

text \<open>The system calls return an errno on failure; \<open>nk_sendto\<close> returns the number of bytes sent and
  \<open>nk_errno\<close> is what errno holds after a short send, which fails without setting it.\<close>

record 'w NetlinkOS =
  nk_socket :: "('w, errno + int) io"
  nk_sendto :: "int \<Rightarrow> bytes \<Rightarrow> ('w, errno + nat) io"
  nk_recv :: "int \<Rightarrow> nat \<Rightarrow> ('w, errno + bytes) io"
  nk_close :: "int \<Rightarrow> ('w, unit) io"
  nk_errno :: "('w, errno) io"
  nk_libc :: NetlinkLibc
  nk_arrange :: "SocketInfo list \<Rightarrow> SocketInfo list"

definition netlink_error :: "'w NetlinkOS \<Rightarrow> errno \<Rightarrow> string \<Rightarrow> Error" where
  "netlink_error N number operation =
     mkError (if number = EACCES \<or> number = EPERM then PermissionDenied else IoError)
       (''Unable to '' @ operation @ '': '' @ nl_strerror (nk_libc N) number) number
       ''netlink-socket'' operation"

definition NetlinkSocket_open :: "'w NetlinkOS \<Rightarrow> ('w, int result) io" where
  "NetlinkSocket_open N = do {
     fd \<leftarrow> nk_socket N;
     return (case fd of
       Inl e \<Rightarrow> failure (netlink_error N e ''open sock-diag socket'')
     | Inr n \<Rightarrow> success n)
   }"

text \<open>The \<open>do ... while\<close> loops around interrupted calls; \<open>None\<close> when the fuel ran out.\<close>

fun retryInterrupted :: "nat \<Rightarrow> ('w, errno + 'a) io \<Rightarrow> ('w, (errno + 'a) option) io" where
  "retryInterrupted 0 m = return None"
| "retryInterrupted (Suc fuel) m = do {
     r \<leftarrow> m;
     if r = Inl EINTR then retryInterrupted fuel m else return (Some r)
   }"

definition NetlinkSocket_send :: "nat \<Rightarrow> 'w NetlinkOS \<Rightarrow> int \<Rightarrow> bytes \<Rightarrow> ('w, unit result option) io" where
  "NetlinkSocket_send fuel N fd request = do {
     sent \<leftarrow> retryInterrupted fuel (nk_sendto N fd request);
     case sent of
       None \<Rightarrow> return None
     | Some (Inl e) \<Rightarrow> return (Some (failure (netlink_error N e ''send sock-diag request'')))
     | Some (Inr n) \<Rightarrow>
         if n \<noteq> length request
         then do {
           e \<leftarrow> nk_errno N;
           return (Some (failure (netlink_error N e ''send sock-diag request'')))
         }
         else return (Some (success ()))
   }"

definition NetlinkSocket_receive :: "nat \<Rightarrow> 'w NetlinkOS \<Rightarrow> int \<Rightarrow> ('w, bytes result option) io" where
  "NetlinkSocket_receive fuel N fd = do {
     received \<leftarrow> retryInterrupted fuel (nk_recv N fd 65536);
     return (map_option (\<lambda>r. case r of
         Inl e \<Rightarrow> failure (netlink_error N e ''receive sock-diag response'')
       | Inr data \<Rightarrow> success (take 65536 data)) received)
   }"

section \<open>The provider\<close>

text \<open>The loop over the datagrams of one dump.\<close>

fun receiveDump ::
  "nat \<Rightarrow> 'w NetlinkOS \<Rightarrow> int \<Rightarrow> u32 \<Rightarrow> TransportProtocol \<Rightarrow> SocketInfo list \<Rightarrow>
   ('w, SocketInfo list result option) io" where
  "receiveDump 0 N fd sequence protocol values = return None"
| "receiveDump (Suc fuel) N fd sequence protocol values = do {
     data \<leftarrow> NetlinkSocket_receive (Suc fuel) N fd;
     case data of
       None \<Rightarrow> return None
     | Some (Inl e) \<Rightarrow> return (Some (failure e))
     | Some (Inr datagram) \<Rightarrow>
         (case parseInetDiagDatagram (Suc (length datagram)) (nk_libc N) datagram sequence protocol of
            Returned (Inl e) \<Rightarrow> return (Some (failure e))
          | Returned (Inr batch) \<Rightarrow>
              (if db_done batch then return (Some (success (values @ db_sockets batch)))
               else receiveDump fuel N fd sequence protocol (values @ db_sockets batch))
          | _ \<Rightarrow> return None)
   }"

definition one_dump ::
  "nat \<Rightarrow> 'w NetlinkOS \<Rightarrow> int \<Rightarrow> AddressFamily \<Rightarrow> TransportProtocol \<Rightarrow> u32 \<Rightarrow>
   ('w, SocketInfo list result option) io" where
  "one_dump fuel N fd family protocol sequence =
     (let request = buildInetDiagRequest family protocol sequence
            (if protocol = Tcp then push_bit 10 1 else - 1) in
      do {
        sent \<leftarrow> NetlinkSocket_send fuel N fd request;
        case sent of
          None \<Rightarrow> return None
        | Some (Inl e) \<Rightarrow> return (Some (failure e))
        | Some (Inr _) \<Rightarrow> receiveDump fuel N fd sequence protocol []
      })"

record SocketScan =
  sn_observed :: "SocketInfo list Observation"
  sn_last :: "Error option"
  sn_attempts :: nat
  sn_failures :: nat

definition wanted :: "SocketQuery \<Rightarrow> TransportProtocol \<Rightarrow> SocketInfo \<Rightarrow> bool" where
  "wanted query protocol item \<longleftrightarrow>
     \<not> (protocol = Udp \<and> sq_listeningOnly query \<and> so_remote item \<noteq> None) \<and>
     (case sq_localPort query of None \<Rightarrow> True | Some n \<Rightarrow> ep_port (so_local item) = n)"

definition noteDump ::
  "SocketQuery \<Rightarrow> TransportProtocol \<Rightarrow> SocketInfo list result \<Rightarrow> SocketScan \<Rightarrow> SocketScan" where
  "noteDump query protocol r scan =
     (let ob = sn_observed scan; scan' = scan\<lparr>sn_attempts := sn_attempts scan + 1\<rparr> in
      case r of
        Inl e \<Rightarrow> scan'\<lparr>sn_failures := sn_failures scan + 1, sn_last := Some e,
          sn_observed := ob\<lparr>ob_warnings := ob_warnings ob @ [warningFrom e]\<rparr>\<rparr>
      | Inr items \<Rightarrow> scan'\<lparr>sn_observed := ob\<lparr>ob_value := ob_value ob @ filter (wanted query protocol) items\<rparr>\<rparr>)"

text \<open>The two nested loops, over the pairs in their order; the sequence number grows with every
  dump.\<close>

definition dumpOrder :: "SocketQuery \<Rightarrow> (TransportProtocol \<times> AddressFamily) list" where
  "dumpOrder query =
     concat (map (\<lambda>protocol. case sq_protocol query of
         Some p \<Rightarrow> if p \<noteq> protocol then [] else [(protocol, IPv4), (protocol, IPv6)]
       | None \<Rightarrow> [(protocol, IPv4), (protocol, IPv6)]) [Tcp, Udp])"

fun dumpAll ::
  "nat \<Rightarrow> 'w NetlinkOS \<Rightarrow> int \<Rightarrow> SocketQuery \<Rightarrow> (TransportProtocol \<times> AddressFamily) list \<Rightarrow> u32 \<Rightarrow>
   SocketScan \<Rightarrow> ('w, SocketScan option) io" where
  "dumpAll fuel N fd query [] sequence scan = return (Some scan)"
| "dumpAll fuel N fd query ((protocol, family) # rest) sequence scan = do {
     r \<leftarrow> one_dump fuel N fd family protocol sequence;
     case r of
       None \<Rightarrow> return None
     | Some r' \<Rightarrow> dumpAll fuel N fd query rest (sequence + 1) (noteDump query protocol r' scan)
   }"

definition socketKey :: "SocketInfo \<Rightarrow> u16 \<times> TransportProtocol \<times> AddressFamily \<times> string" where
  "socketKey so = (ep_port (so_local so), so_protocol so, so_family so, ep_address (so_local so))"

definition finishScan :: "'w NetlinkOS \<Rightarrow> SocketScan \<Rightarrow> SocketInfo list Observation result" where
  "finishScan N scan =
     (case sn_last scan of
        Some e \<Rightarrow>
          if sn_failures scan = sn_attempts scan then failure e
          else success ((sn_observed scan)\<lparr>ob_value := std_sort (nk_arrange N) socketKey (ob_value (sn_observed scan))\<rparr>)
      | None \<Rightarrow>
          success ((sn_observed scan)\<lparr>ob_value := std_sort (nk_arrange N) socketKey (ob_value (sn_observed scan))\<rparr>))"

definition NetlinkSocketProvider_query ::
  "nat \<Rightarrow> 'w NetlinkOS \<Rightarrow> SocketQuery \<Rightarrow> ('w, SocketInfo list Observation result option) io" where
  "NetlinkSocketProvider_query fuel N query = do {
     opened \<leftarrow> NetlinkSocket_open N;
     case opened of
       Inl e \<Rightarrow> return (Some (failure e))
     | Inr fd \<Rightarrow> do {
         scan \<leftarrow> dumpAll fuel N fd query (dumpOrder query) 1
           \<lparr>sn_observed = \<lparr>ob_value = [], ob_warnings = []\<rparr>, sn_last = None, sn_attempts = 0, sn_failures = 0\<rparr>;
         _ \<leftarrow> nk_close N fd;
         return (map_option (finishScan N) scan)
       }
   }"

text \<open>As the interface has it. Where the kernel never ends a dump the call does not return; the lemmas
  below show how much fuel is enough where it does.\<close>

definition NetlinkSocketProvider :: "nat \<Rightarrow> 'w NetlinkOS \<Rightarrow> 'w ISocketProvider" where
  "NetlinkSocketProvider fuel N = \<lparr>kp_query = (\<lambda>query. do {
     r \<leftarrow> NetlinkSocketProvider_query fuel N query;
     return (settled r)
   })\<rparr>"

section \<open>Reading bytes\<close>

declare parseMessages.simps [simp del]

lemma length_le_bytes [simp]: "length (le_bytes k n) = k"
  by (induction k arbitrary: n) auto

lemma le_nat_le_bytes [simp]: "le_nat (le_bytes k n) = n mod 256 ^ k"
proof (induction k arbitrary: n)
  case (Suc k)
  have "unat (word_of_nat n :: u8) = n mod 256"
    by (simp add: unat_of_nat)
  with Suc show ?case
    by (simp add: mod_mult2_eq)
qed simp

lemma le_nat_bound: "le_nat bs < 256 ^ length bs"
proof (induction bs)
  case (Cons b bs)
  have "unat b < 256" using unsigned_less [of b, where ?'a = nat] by simp
  with Cons show ?case by simp
qed simp

lemma NLMSG_ALIGN_unat:
  assumes "unat x + 3 < 2 ^ 32"
  shows "unat (NLMSG_ALIGN x) = 4 * ((unat x + 3) div 4)"
proof -
  have three: "(3 :: u32) = mask 2" by (simp add: mask_eq_exp_minus_1)
  have "(y AND NOT (mask 2)) = push_bit 2 (drop_bit 2 y)" for y :: u32
  proof (rule bit_word_eqI)
    fix n assume "n < LENGTH(32)"
    show "bit (y AND NOT (mask 2)) n = bit (push_bit 2 (drop_bit 2 y)) n"
      using \<open>n < LENGTH(32)\<close> le_add_diff_inverse [of 2 n]
      by (auto simp: bit_simps not_less simp del: One_nat_def)
  qed
  then have "unat (NLMSG_ALIGN x) = unat (push_bit 2 (drop_bit 2 (x + 3)))"
    unfolding NLMSG_ALIGN_def three by simp
  also have "\<dots> = take_bit 32 (push_bit 2 (drop_bit 2 (unat (x + 3))))"
    using unsigned_less [of "x + 3", where ?'a = nat]
    by (simp add: unsigned_push_bit_eq unsigned_drop_bit_eq take_bit_nat_eq_self)
  also have "unat (x + 3) = unat x + 3"
    using assms by (simp add: unat_word_ariths)
  also have "push_bit 2 (drop_bit 2 (unat x + 3)) = 4 * ((unat x + 3) div 4)"
    by (simp add: push_bit_eq_mult drop_bit_eq_div)
  also have "take_bit 32 (4 * ((unat x + 3) div 4)) = 4 * ((unat x + 3) div 4)"
    by (rule take_bit_nat_eq_self) (use assms in linarith)
  finally show ?thesis .
qed

lemma memcpy_from_inside:
  "offset + n \<le> length data \<Longrightarrow> memcpy_from data offset n = Some (take n (drop offset data))"
  by (simp add: memcpy_from_def)

section \<open>The parser stays in the buffer and ends\<close>

lemma parseNetlinkMessage_inside:
  "payload + payloadSize \<le> length data \<Longrightarrow>
   parseNetlinkMessage L protocol data payload payloadSize h batch \<noteq> None"
  by (auto simp: parseNetlinkMessage_def memcpy_from_def)

lemma parseMessages_returns:
  assumes small: "length data + 3 < 2 ^ 32"
  shows "length data - offset < fuel \<Longrightarrow>
    \<exists>r. parseMessages fuel L data sequence protocol offset batch = Returned r"
proof (induction fuel arbitrary: offset batch)
  case (Suc fuel)
  let ?left = "length data - offset"
  let ?h = "nlmsghdr_of (take NLMSG_HDRLEN (drop offset data))"
  let ?len = "unat (nh_len ?h)"
  let ?msg = "parseNetlinkMessage L protocol data (offset + NLMSG_HDRLEN) (?len - NLMSG_HDRLEN) ?h batch"
  show ?case
  proof (cases "NLMSG_HDRLEN \<le> ?left \<and> NLMSG_HDRLEN \<le> ?len \<and> ?len \<le> ?left")
    case False
    then show ?thesis
      by (auto simp: parseMessages.simps Let_def memcpy_from_inside)
  next
    case True
    then have room: "offset + NLMSG_HDRLEN \<le> length data" by linarith
    have "?msg \<noteq> None"
      by (rule parseNetlinkMessage_inside) (use True in linarith)
    then obtain m where m: "?msg = Some m" by blast
    have aligned: "?len \<le> unat (NLMSG_ALIGN (nh_len ?h))"
      using True small by (subst NLMSG_ALIGN_unat) auto
    have "\<exists>r. parseMessages fuel L data sequence protocol (length data) b = Returned r" for b
      using Suc.prems True by (intro Suc.IH) simp
    moreover have "\<exists>r. parseMessages fuel L data sequence protocol
        (offset + unat (NLMSG_ALIGN (nh_len ?h))) b = Returned r" for b
      using Suc.prems True aligned by (intro Suc.IH) linarith
    ultimately show ?thesis
      using True m by (auto simp: parseMessages.simps Let_def memcpy_from_inside room split: sum.split)
  qed
qed simp

text \<open>
  C16. Parsing a datagram is memory safe and ends. For every content of a received buffer (any data up
  to 4 GiB, far more than the 64 KiB the socket receives), every sequence number and protocol, the
  parser returns a result: no copy of a header, error or socket structure leaves the buffer, and the
  loop over the messages runs at most once per byte.\<close>

theorem parseInetDiagDatagram_safe:
  assumes "length data + 3 < 2 ^ 32" and "length data < fuel"
  shows "\<exists>r. parseInetDiagDatagram fuel L data sequence protocol = Returned r"
  unfolding parseInetDiagDatagram_def using assms by (intro parseMessages_returns) simp_all

definition demo_libc :: NetlinkLibc where
  "demo_libc = \<lparr>nl_inet_ntop = (\<lambda>family bs. Some (if family = IPv4 then ''127.0.0.1'' else ''::1'')),
     nl_strerror = (\<lambda>_. ''error'')\<rparr>"

theorem parseInetDiagDatagram_safe_witness:
  "\<exists>r. parseInetDiagDatagram 21 demo_libc (le_bytes 4 4000000000 @ replicate 16 0) 1 Tcp = Returned r"
  by (rule parseInetDiagDatagram_safe) simp_all

section \<open>The parser reads what the kernel writes\<close>

text \<open>
  The messages of a dump as the kernel lays them out: a header, the payload and padding to a multiple
  of four bytes. A socket entry carries fields the program does not read, and attributes after the
  fixed structure.
\<close>

definition nlmsg :: "nat \<Rightarrow> nat \<Rightarrow> u32 \<Rightarrow> u32 \<Rightarrow> bytes \<Rightarrow> bytes" where
  "nlmsg type flags sequence portid payload =
     (let len = 16 + length payload in
      le_bytes 4 len @ le_bytes 2 type @ le_bytes 2 flags @ le_bytes 4 (unat sequence) @
      le_bytes 4 (unat portid) @ payload @ replicate (4 * ((len + 3) div 4) - len) 0)"

record diag_entry =
  de_family :: AddressFamily
  de_state :: u8
  de_timer :: bytes
  de_sport :: u16
  de_dport :: u16
  de_src :: bytes
  de_dst :: bytes
  de_rest :: bytes
  de_uid :: u32
  de_inode :: u32
  de_attributes :: bytes

definition diag_payload :: "diag_entry \<Rightarrow> bytes" where
  "diag_payload e =
     [if de_family e = IPv4 then 2 else 10, de_state e] @ de_timer e @
     rev (le_bytes 2 (unat (de_sport e))) @ rev (le_bytes 2 (unat (de_dport e))) @
     de_src e @ de_dst e @ de_rest e @ le_bytes 4 (unat (de_uid e)) @ le_bytes 4 (unat (de_inode e)) @
     de_attributes e"

definition diag_entry_ok :: "diag_entry \<Rightarrow> bool" where
  "diag_entry_ok e \<longleftrightarrow> length (de_timer e) = 2 \<and> length (de_src e) = 16 \<and> length (de_dst e) = 16 \<and>
     length (de_rest e) = 24"

definition diag_dump :: "u32 \<Rightarrow> u32 \<Rightarrow> diag_entry list \<Rightarrow> bytes" where
  "diag_dump sequence portid es =
     concat (map (\<lambda>e. nlmsg SOCK_DIAG_BY_FAMILY 2 sequence portid (diag_payload e)) es)"

definition dump_end :: "u32 \<Rightarrow> u32 \<Rightarrow> bytes" where
  "dump_end sequence portid = nlmsg 3 2 sequence portid (le_bytes 4 0)"

text \<open>The socket an entry describes.\<close>

definition entry_socket ::
  "(AddressFamily \<Rightarrow> bytes \<Rightarrow> string) \<Rightarrow> TransportProtocol \<Rightarrow> diag_entry \<Rightarrow> SocketInfo" where
  "entry_socket fmt protocol e =
     (let endpoint = (\<lambda>bs port. \<lparr>ep_address = fmt (de_family e) (addressBytes (de_family e) bs), ep_port = port\<rparr>);
          connected = de_dport e \<noteq> 0 \<or> nonzero (de_dst e) in
      \<lparr>so_protocol = protocol, so_family = de_family e, so_local = endpoint (de_src e) (de_sport e),
       so_remote = (if connected then Some (endpoint (de_dst e) (de_dport e)) else None),
       so_state = (case protocol of Tcp \<Rightarrow> tcpState (de_state e)
                   | Udp \<Rightarrow> if connected then ''connected'' else ''unconnected''),
       so_uid = de_uid e, so_inode = ucast (de_inode e), so_ownerPids = []\<rparr>)"

lemma le32_le_bytes [simp]: "le32 (le_bytes 4 n @ bs) = word_of_nat n"
  by (simp add: le32_def word_of_nat_eq_iff take_bit_eq_mod)

lemmas le32_le_bytes_Nil [simp] = le32_le_bytes [where bs = "[]", simplified append_Nil2]

lemma le16_le_bytes [simp]: "le16 (le_bytes 2 n @ bs) = word_of_nat n"
  by (simp add: le16_def word_of_nat_eq_iff take_bit_eq_mod)

lemma ntohs_be_bytes [simp]: "ntohs (rev (le_bytes 2 n) @ bs) = word_of_nat n"
  by (simp add: ntohs_def word_of_nat_eq_iff take_bit_eq_mod)

lemma length_nlmsg: "length (nlmsg type flags sequence portid payload) = 4 * ((length payload + 19) div 4)"
proof -
  have "16 + length payload \<le> 4 * ((length payload + 19) div 4)" by linarith
  then show ?thesis by (simp add: nlmsg_def Let_def add.commute)
qed

lemma nlmsg_header:
  "nlmsghdr_of (take 16 (nlmsg type flags sequence portid payload @ bs)) =
     \<lparr>nh_len = word_of_nat (16 + length payload), nh_type = word_of_nat type,
      nh_flags = word_of_nat flags, nh_seq = sequence\<rparr>"
  by (simp add: nlmsghdr_of_def nlmsg_def Let_def)

lemma nlmsg_payload:
  "drop 16 (nlmsg type flags sequence portid payload @ bs)
     = payload @ replicate (4 * ((length payload + 19) div 4) - (16 + length payload)) 0 @ bs"
  by (simp add: nlmsg_def Let_def add.commute)

text \<open>One well-formed message takes one round of the loop.\<close>

lemma parseMessages_step:
  fixes payload :: bytes
  assumes data: "data = pre @ nlmsg type flags sequence portid payload @ rest"
    and small: "length data + 3 < 2 ^ 32"
    and msg: "parseNetlinkMessage L protocol data (length pre + 16) (length payload)
      \<lparr>nh_len = word_of_nat (16 + length payload), nh_type = word_of_nat type,
       nh_flags = word_of_nat flags, nh_seq = sequence\<rparr> batch = Some (Inr batch')"
  shows "parseMessages (Suc fuel) L data sequence protocol (length pre) batch
    = parseMessages fuel L data sequence protocol (length pre + 4 * ((length payload + 19) div 4)) batch'"
proof -
  let ?h = "\<lparr>nh_len = word_of_nat (16 + length payload), nh_type = word_of_nat type,
       nh_flags = word_of_nat flags, nh_seq = sequence\<rparr> :: nlmsghdr"
  have len: "length data = length pre + 4 * ((length payload + 19) div 4) + length rest"
    using data by (simp add: length_nlmsg)
  have copied: "memcpy_from data (length pre) 16 = Some (take 16 (nlmsg type flags sequence portid payload @ rest))"
    unfolding memcpy_from_def using len by (simp add: data)
  have "length payload + 19 < 2 ^ 32" using len small by linarith
  then have u: "unat (word_of_nat (16 + length payload) :: u32) = 16 + length payload"
    by (simp add: unat_of_nat del: of_nat_add)
  then have aligned: "unat (NLMSG_ALIGN (word_of_nat (16 + length payload))) = 4 * ((length payload + 19) div 4)"
    using \<open>length payload + 19 < 2 ^ 32\<close> by (subst NLMSG_ALIGN_unat) (simp_all add: add.commute)
  have "16 + length payload \<le> 4 * ((length payload + 19) div 4)" "(length payload + 19) div 4 \<noteq> 0"
    by linarith+
  then show ?thesis
    using len msg unfolding parseMessages.simps copied option.case nlmsg_header
    by (simp add: Let_def u aligned del: of_nat_add)
qed

lemma diag_payload_msg:
  assumes "diag_entry_ok e"
  shows "inet_diag_msg_of (take 72 (diag_payload e @ bs)) =
    \<lparr>dm_family = (if de_family e = IPv4 then 2 else 10), dm_state = de_state e, dm_sport = de_sport e,
     dm_dport = de_dport e, dm_src = de_src e, dm_dst = de_dst e, dm_uid = de_uid e, dm_inode = de_inode e\<rparr>"
  using assms by (simp add: inet_diag_msg_of_def diag_payload_def diag_entry_ok_def)

lemma parseDiagMessage_entry:
  assumes "diag_entry_ok e" and "nl_inet_ntop L = (\<lambda>family bs. Some (fmt family bs))"
  shows "parseDiagMessage L protocol (inet_diag_msg_of (take 72 (diag_payload e @ bs)))
    = success (entry_socket fmt protocol e)"
  unfolding diag_payload_msg [OF assms(1)] parseDiagMessage_def
  using assms(2) by (cases "de_family e"; cases protocol) (auto simp: Let_def entry_socket_def)

lemma length_diag_payload: "diag_entry_ok e \<Longrightarrow> 72 \<le> length (diag_payload e)"
  by (simp add: diag_payload_def diag_entry_ok_def)

lemma parseMessages_dump:
  assumes fmt: "nl_inet_ntop L = (\<lambda>family bs. Some (fmt family bs))"
    and small: "length data + 3 < 2 ^ 32"
  shows "data = pre @ diag_dump sequence portid es @ rest \<Longrightarrow> list_all diag_entry_ok es \<Longrightarrow>
    parseMessages (length es + fuel) L data sequence protocol (length pre) batch
    = parseMessages fuel L data sequence protocol (length (pre @ diag_dump sequence portid es))
        (batch\<lparr>db_sockets := db_sockets batch @ map (entry_socket fmt protocol) es\<rparr>)"
proof (induction es arbitrary: pre batch)
  case Nil
  then show ?case by (simp add: diag_dump_def)
next
  case (Cons e es)
  let ?msg = "nlmsg SOCK_DIAG_BY_FAMILY 2 sequence portid (diag_payload e)"
  let ?batch = "batch\<lparr>db_sockets := db_sockets batch @ [entry_socket fmt protocol e]\<rparr>"
  have data: "data = pre @ ?msg @ diag_dump sequence portid es @ rest"
    using Cons.prems(1) by (simp add: diag_dump_def)
  have big: "72 \<le> length (diag_payload e)"
    using Cons.prems(2) by (simp add: length_diag_payload)
  let ?pad = "replicate (4 * ((length (diag_payload e) + 19) div 4) - (16 + length (diag_payload e))) 0"
  have "drop (length pre + 16) data = diag_payload e @ ?pad @ diag_dump sequence portid es @ rest"
  proof -
    have "drop (length pre + 16) (pre @ X) = drop 16 X" for X :: bytes by simp
    then show ?thesis unfolding data by (simp only: nlmsg_payload append_assoc)
  qed
  moreover have "length pre + 16 + 72 \<le> length data"
    using big unfolding data by (simp add: length_nlmsg)
  ultimately have "memcpy_from data (length pre + 16) 72
      = Some (take 72 (diag_payload e @ ?pad @ diag_dump sequence portid es @ rest))"
    by (simp add: memcpy_from_def)
  then have "parseNetlinkMessage L protocol data (length pre + 16) (length (diag_payload e))
      \<lparr>nh_len = word_of_nat (16 + length (diag_payload e)), nh_type = word_of_nat SOCK_DIAG_BY_FAMILY,
       nh_flags = word_of_nat 2, nh_seq = sequence\<rparr> batch = Some (Inr ?batch)"
    using Cons.prems(2) big by (simp add: parseNetlinkMessage_def parseDiagMessage_entry [OF _ fmt, where bs = "[]", simplified append_Nil2])
  note step = parseMessages_step [OF data small this]
  have "parseMessages (length es + fuel) L data sequence protocol (length (pre @ ?msg)) ?batch
      = parseMessages fuel L data sequence protocol (length ((pre @ ?msg) @ diag_dump sequence portid es))
          (?batch\<lparr>db_sockets := db_sockets ?batch @ map (entry_socket fmt protocol) es\<rparr>)"
    using data Cons.prems(2) by (intro Cons.IH) simp_all
  with step show ?case
    by (simp add: length_nlmsg diag_dump_def)
qed

lemma parse_dump:
  assumes fmt: "nl_inet_ntop L = (\<lambda>family bs. Some (fmt family bs))"
    and entries: "list_all diag_entry_ok es"
    and data: "data = diag_dump sequence portid es @ (if finished then dump_end sequence portid else [])"
    and small: "length data + 3 < 2 ^ 32"
  shows "parseInetDiagDatagram (length es + Suc (Suc k)) L data sequence protocol
    = Returned (success \<lparr>db_sockets = map (entry_socket fmt protocol) es, db_done = finished\<rparr>)"
proof -
  let ?batch = "\<lparr>db_sockets = map (entry_socket fmt protocol) es, db_done = False\<rparr>"
  have dump: "parseInetDiagDatagram (length es + Suc (Suc k)) L data sequence protocol
      = parseMessages (Suc (Suc k)) L data sequence protocol (length (diag_dump sequence portid es)) ?batch"
    unfolding parseInetDiagDatagram_def
    by (subst parseMessages_dump [OF fmt small, where pre = "[]" and es = es, simplified, OF data entries,
          simplified list.size add_0]) simp
  show ?thesis
  proof (cases finished)
    case False
    then show ?thesis using dump data by (simp add: parseMessages.simps)
  next
    case True
    then have split: "data = diag_dump sequence portid es @ nlmsg 3 2 sequence portid (le_bytes 4 0) @ []"
      using data by (simp add: dump_end_def)
    then have "length data = length (diag_dump sequence portid es) + 20"
      by (simp add: length_nlmsg)
    moreover have "parseMessages (Suc (Suc k)) L data sequence protocol (length (diag_dump sequence portid es)) ?batch
        = parseMessages (Suc k) L data sequence protocol
            (length (diag_dump sequence portid es) + 4 * ((length (le_bytes 4 0) + 19) div 4)) (?batch\<lparr>db_done := True\<rparr>)"
      by (rule parseMessages_step [OF split small]) (simp add: parseNetlinkMessage_def)
    ultimately show ?thesis
      using dump True by (simp add: parseMessages.simps)
  qed
qed

text \<open>
  C17. The parser decodes a socket dump exactly. For every list of socket entries laid out as the kernel
  lays them out (little-endian headers, ports in network byte order, attributes after the structure,
  padding between messages), with or without the message that ends the dump, the parser returns one
  socket per entry, in order, with the entry's family, addresses, ports, user and inode, the state name
  of its protocol, a remote end exactly when a remote port or address is set and no owner yet, and it
  reports the end exactly when the final message was there.\<close>

theorem parseInetDiagDatagram_roundtrip:
  assumes fmt: "nl_inet_ntop L = (\<lambda>family bs. Some (fmt family bs))"
    and entries: "list_all diag_entry_ok es"
    and data: "data = diag_dump sequence portid es @ (if finished then dump_end sequence portid else [])"
    and small: "length data + 3 < 2 ^ 32"
    and fuel: "length es + 1 < fuel"
  shows "parseInetDiagDatagram fuel L data sequence protocol
    = Returned (success \<lparr>db_sockets = map (entry_socket fmt protocol) es, db_done = finished\<rparr>)"
proof -
  obtain k where "fuel = length es + Suc (Suc k)"
    using fuel by (metis add_Suc_right less_imp_Suc_add add.assoc plus_1_eq_Suc add.commute)
  then show ?thesis using parse_dump [OF fmt entries data small] by simp
qed

definition demo_entry :: diag_entry where
  "demo_entry = \<lparr>de_family = IPv4, de_state = 10, de_timer = [0, 0], de_sport = 8080, de_dport = 0,
     de_src = replicate 16 0, de_dst = replicate 16 0, de_rest = replicate 24 0, de_uid = 1000,
     de_inode = 4242, de_attributes = [5, 0, 8, 0, 0]\<rparr>"

theorem parseInetDiagDatagram_roundtrip_witness:
  "parseInetDiagDatagram 3 demo_libc (diag_dump 1 7 [demo_entry] @ dump_end 1 7) 1 Tcp
   = Returned (Inr \<lparr>db_sockets = [\<lparr>so_protocol = Tcp, so_family = IPv4,
       so_local = \<lparr>ep_address = ''127.0.0.1'', ep_port = 8080\<rparr>, so_remote = None, so_state = ''listen'',
       so_uid = 1000, so_inode = 4242, so_ownerPids = []\<rparr>], db_done = True\<rparr>)"
proof -
  have "parseInetDiagDatagram 3 demo_libc (diag_dump 1 7 [demo_entry] @ (if True then dump_end 1 7 else [])) 1 Tcp
      = Returned (Inr \<lparr>db_sockets = map (entry_socket (\<lambda>family bs. if family = IPv4 then ''127.0.0.1'' else ''::1'') Tcp)
          [demo_entry], db_done = True\<rparr>)"
    by (rule parseInetDiagDatagram_roundtrip [OF _ _ refl])
       (simp_all add: demo_libc_def diag_entry_ok_def demo_entry_def diag_dump_def dump_end_def length_nlmsg
         diag_payload_def)
  then show ?thesis
    by (simp add: entry_socket_def demo_entry_def Let_def nonzero_def tcpState_def list_ex_iff)
qed

section \<open>The contract of the provider\<close>

definition unowned :: "SocketInfo list \<Rightarrow> bool" where
  "unowned sos \<longleftrightarrow> (\<forall>so \<in> set sos. so_ownerPids so = [])"

lemma unowned_append [simp]: "unowned (xs @ ys) \<longleftrightarrow> unowned xs \<and> unowned ys"
  by (auto simp: unowned_def)

lemma unowned_filter: "unowned xs \<Longrightarrow> unowned (filter P xs)"
  by (simp add: unowned_def)

lemma parseDiagMessage_unowned: "parseDiagMessage L protocol m = Inr so \<Longrightarrow> unowned [so]"
  by (auto simp: parseDiagMessage_def parseError_def Let_def unowned_def split: if_splits option.splits)

lemma parseNetlinkMessage_unowned:
  assumes "parseNetlinkMessage L protocol data p n h batch = Some (Inr batch')" "unowned (db_sockets batch)"
  shows "unowned (db_sockets batch')"
  using assms
  by (cases "memcpy_from data p 72"; cases "parseDiagMessage L protocol (inet_diag_msg_of (the (memcpy_from data p 72)))")
     (auto simp: parseNetlinkMessage_def parseError_def Let_def parseDiagMessage_unowned split: if_split_asm)

lemma parseMessages_unowned:
  "parseMessages fuel L data sequence protocol offset batch = Returned (Inr batch') \<Longrightarrow>
   unowned (db_sockets batch) \<Longrightarrow> unowned (db_sockets batch')"
proof (induction fuel arbitrary: offset batch)
  case (Suc fuel)
  then show ?case
    unfolding parseMessages.simps Let_def
    by (auto simp: parseError_def split: if_splits option.splits sum.splits
        dest: parseNetlinkMessage_unowned)
qed (simp add: parseMessages.simps)

lemma receiveDump_unowned:
  "result_of (receiveDump fuel N fd sequence protocol vs) w = Some (Inr vs') \<Longrightarrow>
   unowned vs \<Longrightarrow> unowned vs'"
proof (induction fuel arbitrary: vs w)
  case (Suc fuel)
  have "unowned (db_sockets batch)"
    if "parseInetDiagDatagram n L data sequence protocol = Returned (Inr batch)" for n L data batch
    using that parseMessages_unowned unfolding parseInetDiagDatagram_def by (fastforce simp: unowned_def)
  with Suc show ?case
    by (auto split: option.splits sum.splits parse_run.splits if_splits)
qed simp

definition dump_ok :: "SocketQuery \<Rightarrow> SocketScan \<Rightarrow> bool" where
  "dump_ok query scan \<longleftrightarrow> unowned (ob_value (sn_observed scan)) \<and>
     (\<forall>n. sq_localPort query = Some n \<longrightarrow>
        (\<forall>so \<in> set (ob_value (sn_observed scan)). ep_port (so_local so) = n))"

lemma noteDump_ok:
  "dump_ok query scan \<Longrightarrow> (\<And>vs. r = Inr vs \<Longrightarrow> unowned vs) \<Longrightarrow> dump_ok query (noteDump query protocol r scan)"
  by (cases r) (auto simp: dump_ok_def noteDump_def Let_def unowned_filter wanted_def)

lemma dumpAll_ok:
  "result_of (dumpAll fuel N fd query ps sequence scan) w = Some scan' \<Longrightarrow> dump_ok query scan \<Longrightarrow>
   dump_ok query scan'"
proof (induction ps arbitrary: sequence scan w)
  case (Cons pf ps)
  obtain protocol family where pf: "pf = (protocol, family)" by fastforce
  have "unowned vs"
    if "result_of (one_dump fuel N fd family protocol sequence) w = Some (Inr vs)" for vs
    using that receiveDump_unowned
    by (fastforce simp: one_dump_def Let_def unowned_def split: option.splits sum.splits)
  then have "dump_ok query (noteDump query protocol r scan)"
    if "result_of (one_dump fuel N fd family protocol sequence) w = Some r" for r
    using that Cons.prems(2) by (intro noteDump_ok) auto
  with Cons pf show ?case
    by (auto split: option.splits)
qed simp

lemma finishScan_value:
  "finishScan N scan = Inr ob \<Longrightarrow> set (ob_value ob) = set (ob_value (sn_observed scan))"
  by (auto simp: finishScan_def split: option.splits if_splits)

lemma NetlinkSocketProvider_query_ok:
  assumes "result_of (NetlinkSocketProvider_query fuel N query) w = Some (Inr ob)" "so \<in> set (ob_value ob)"
  shows "so_ownerPids so = [] \<and> (\<forall>n. sq_localPort query = Some n \<longrightarrow> ep_port (so_local so) = n)"
proof -
  obtain fd w' scan where scan: "result_of (dumpAll fuel N fd query (dumpOrder query) 1
      \<lparr>sn_observed = \<lparr>ob_value = [], ob_warnings = []\<rparr>, sn_last = None, sn_attempts = 0, sn_failures = 0\<rparr>) w' = Some scan"
      and ob: "finishScan N scan = Inr ob"
    using assms(1) by (auto simp: NetlinkSocketProvider_query_def split: sum.splits)
  have "dump_ok query scan"
    using scan by (rule dumpAll_ok) (simp add: dump_ok_def unowned_def)
  then show ?thesis
    using finishScan_value [OF ob] assms(2) by (auto simp: dump_ok_def unowned_def)
qed

interpretation netlink: socket_provider "NetlinkSocketProvider fuel N"
  for fuel and N :: "'w NetlinkOS"
proof unfold_locales
  fix q w ob so
  assume "result_of (kp_query (NetlinkSocketProvider fuel N) q) w = Inr ob" and so: "so \<in> set (ob_value ob)"
  then have "result_of (NetlinkSocketProvider_query fuel N q) w = Some (Inr ob)"
    by (auto simp: NetlinkSocketProvider_def split: option.splits)
  note ok = NetlinkSocketProvider_query_ok [OF this so]
  show "so_ownerPids so = []" using ok by blast
  show "sq_localPort q = Some n \<Longrightarrow> ep_port (so_local so) = n" for n using ok by blast
qed

section \<open>A query returns what the dumps returned\<close>

text \<open>
  \<open>answers N fuel D\<close>: whatever the state of the machine, the dump for a protocol and a family ends with
  \<open>D protocol family\<close>, sockets or an error, and a socket can be opened.
\<close>

definition answers ::
  "'w NetlinkOS \<Rightarrow> nat \<Rightarrow> (TransportProtocol \<Rightarrow> AddressFamily \<Rightarrow> SocketInfo list result) \<Rightarrow> bool" where
  "answers N fuel D \<longleftrightarrow>
     (\<forall>w. \<exists>fd. result_of (nk_socket N) w = Inr fd) \<and>
     (\<forall>w fd family protocol sequence.
        result_of (one_dump fuel N fd family protocol sequence) w = Some (D protocol family))"

lemma noteDump_sel:
  "sn_attempts (noteDump q p r s) = sn_attempts s + 1"
  "sn_failures (noteDump q p r s) = sn_failures s + (case r of Inl _ \<Rightarrow> 1 | Inr _ \<Rightarrow> 0)"
  "sn_last (noteDump q p r s) = (case r of Inl e \<Rightarrow> Some e | Inr _ \<Rightarrow> sn_last s)"
  "ob_value (sn_observed (noteDump q p r s)) =
     ob_value (sn_observed s) @ (case r of Inl _ \<Rightarrow> [] | Inr items \<Rightarrow> filter (wanted q p) items)"
  "ob_warnings (sn_observed (noteDump q p r s)) =
     ob_warnings (sn_observed s) @ (case r of Inl e \<Rightarrow> [warningFrom e] | Inr _ \<Rightarrow> [])"
  by (cases r; simp add: noteDump_def Let_def)+

definition dumpErrors :: "Error list \<Rightarrow> SocketInfo list result list \<Rightarrow> Error list" where
  "dumpErrors es rs = es @ List.map_filter (\<lambda>r. case r of Inl e \<Rightarrow> Some e | Inr _ \<Rightarrow> None) rs"

lemma dumpErrors_Cons [simp]:
  "dumpErrors es (r # rs) = dumpErrors (es @ (case r of Inl e \<Rightarrow> [e] | Inr _ \<Rightarrow> [])) rs"
  "dumpErrors es [] = es"
  by (cases r) (simp_all add: dumpErrors_def List.map_filter_def)

lemma dumpAll_answers:
  assumes "answers N fuel D"
  shows "sn_last scan = (if es = [] then None else Some (last es)) \<Longrightarrow>
    sn_failures scan = length es \<Longrightarrow> ob_warnings (sn_observed scan) = map warningFrom es \<Longrightarrow>
    \<exists>scan'. result_of (dumpAll fuel N fd query ps sequence scan) w = Some scan' \<and>
      sn_attempts scan' = sn_attempts scan + length ps \<and>
      (let es' = dumpErrors es (map (\<lambda>(p, f). D p f) ps) in
        sn_last scan' = (if es' = [] then None else Some (last es')) \<and> sn_failures scan' = length es' \<and>
        ob_warnings (sn_observed scan') = map warningFrom es') \<and>
      ob_value (sn_observed scan') = ob_value (sn_observed scan) @
        concat (map (\<lambda>(p, f). case D p f of Inl _ \<Rightarrow> [] | Inr items \<Rightarrow> filter (wanted query p) items) ps)"
proof (induction ps arbitrary: sequence scan w es)
  case (Cons pf ps)
  obtain p f where pf: "pf = (p, f)" by fastforce
  let ?m = "one_dump fuel N fd f p sequence"
  let ?scan = "noteDump query p (D p f) scan"
  have run: "result_of ?m w = Some (D p f)"
    using assms by (simp add: answers_def)
  show ?case
    using Cons.IH [of ?scan "es @ (case D p f of Inl e \<Rightarrow> [e] | Inr _ \<Rightarrow> [])" "sequence + 1" "world_after ?m w"]
      Cons.prems run unfolding pf
    by (cases "D p f") (auto simp: noteDump_sel)
qed (auto simp: Let_def)


text \<open>A machine whose world is the last request: it has one listening TCP socket on IPv4, no other
  IPv4 socket, and refuses requests for IPv6.\<close>

definition demo_NetlinkOS :: "bytes NetlinkOS" where
  "demo_NetlinkOS =
     \<lparr>nk_socket = return (Inr 3),
      nk_sendto = (\<lambda>fd request.
        if request ! 16 = 10 then return (Inl EACCES) else State (\<lambda>_. (Inr (length request), request))),
      nk_recv = (\<lambda>fd n. State (\<lambda>request.
        (Inr (if request ! 17 = 6
              then diag_dump (le32 (drop 8 request)) 7 [demo_entry] @ dump_end (le32 (drop 8 request)) 7
              else dump_end (le32 (drop 8 request)) 7), request))),
      nk_close = (\<lambda>fd. return ()), nk_errno = return 0, nk_libc = demo_libc, nk_arrange = (\<lambda>x. x)\<rparr>"

definition demo_answer :: "TransportProtocol \<Rightarrow> AddressFamily \<Rightarrow> SocketInfo list result" where
  "demo_answer protocol family =
     (case family of
        IPv6 \<Rightarrow> failure (netlink_error demo_NetlinkOS EACCES ''send sock-diag request'')
      | IPv4 \<Rightarrow> success (case protocol of
          Tcp \<Rightarrow> [entry_socket (\<lambda>family bs. if family = IPv4 then ''127.0.0.1'' else ''::1'') Tcp demo_entry]
        | Udp \<Rightarrow> []))"

lemma request_fields:
  "buildInetDiagRequest family protocol sequence states ! 16 = (if family = IPv4 then 2 else 10)"
  "buildInetDiagRequest family protocol sequence states ! 17 = (if protocol = Tcp then 6 else 17)"
  "le32 (drop 8 (buildInetDiagRequest family protocol sequence states)) = sequence"
  "length (buildInetDiagRequest family protocol sequence states) = 72"
  by (simp_all add: buildInetDiagRequest_def nth_append)

lemma demo_dump_length [simp]:
  "length (diag_dump sequence portid [demo_entry]) = 96" "length (dump_end sequence portid) = 20"
  by (simp_all add: diag_dump_def dump_end_def length_nlmsg diag_payload_def demo_entry_def)

lemma demo_entry_ok [simp]: "diag_entry_ok demo_entry"
  by (simp add: diag_entry_ok_def demo_entry_def)

lemma demo_parse:
  "parseInetDiagDatagram 117 demo_libc (diag_dump sequence 7 [demo_entry] @ dump_end sequence 7) sequence protocol
   = Returned (success \<lparr>db_sockets = [entry_socket (\<lambda>family bs. if family = IPv4 then ''127.0.0.1'' else ''::1'')
       protocol demo_entry], db_done = True\<rparr>)"
  "parseInetDiagDatagram 21 demo_libc (dump_end sequence 7) sequence protocol
   = Returned (success \<lparr>db_sockets = [], db_done = True\<rparr>)"
  using parse_dump [of demo_libc "\<lambda>family bs. if family = IPv4 then ''127.0.0.1'' else ''::1''" "[demo_entry]"
      "diag_dump sequence 7 [demo_entry] @ dump_end sequence 7" sequence 7 True 114 protocol]
    parse_dump [of demo_libc "\<lambda>family bs. if family = IPv4 then ''127.0.0.1'' else ''::1''" "[]"
      "dump_end sequence 7" sequence 7 True 19 protocol]
  by (simp_all add: demo_libc_def diag_dump_def [of _ _ "[]"])

lemma demo_answers: "answers demo_NetlinkOS (Suc 0) demo_answer"
proof -
  have "result_of (one_dump (Suc 0) demo_NetlinkOS fd family protocol sequence) w = Some (demo_answer protocol family)"
    for fd family protocol sequence w
    by (cases family; cases protocol)
       (simp_all add: one_dump_def Let_def NetlinkSocket_send_def NetlinkSocket_receive_def demo_NetlinkOS_def
         request_fields demo_answer_def netlink_error_def demo_parse)
  then show ?thesis by (simp add: answers_def demo_NetlinkOS_def)
qed


section \<open>A query ends\<close>

text \<open>
  \<open>dump_ends left K N\<close>: the kernel is at most \<open>K\<close> interrupted calls and unfinished datagrams away from
  the end of a dump; \<open>left\<close> counts them.
\<close>

definition dump_ends :: "('w \<Rightarrow> nat) \<Rightarrow> nat \<Rightarrow> 'w NetlinkOS \<Rightarrow> bool" where
  "dump_ends left K N \<longleftrightarrow>
     (\<forall>w. left w \<le> K) \<and>
     (\<forall>fd request w. result_of (nk_sendto N fd request) w = Inl EINTR \<longrightarrow>
        left (world_after (nk_sendto N fd request) w) < left w) \<and>
     (\<forall>fd w. case result_of (nk_recv N fd 65536) w of
        Inl e \<Rightarrow> e = EINTR \<longrightarrow> left (world_after (nk_recv N fd 65536) w) < left w
      | Inr data \<Rightarrow>
          (\<forall>sequence protocol batch.
             parseInetDiagDatagram (Suc (length (take 65536 data))) (nk_libc N) (take 65536 data) sequence protocol
               = Returned (Inr batch) \<and> \<not> db_done batch \<longrightarrow>
             left (world_after (nk_recv N fd 65536) w) < left w))"

lemma dump_endsD:
  assumes "dump_ends left K N"
  shows "left w \<le> K"
    and "result_of (nk_sendto N fd request) w = Inl EINTR \<Longrightarrow>
      left (world_after (nk_sendto N fd request) w) < left w"
    and "result_of (nk_recv N fd 65536) w = Inl EINTR \<Longrightarrow> left (world_after (nk_recv N fd 65536) w) < left w"
    and "result_of (nk_recv N fd 65536) w = Inr data \<Longrightarrow>
      parseInetDiagDatagram (Suc (length (take 65536 data))) (nk_libc N) (take 65536 data) sequence protocol
        = Returned (Inr batch) \<Longrightarrow> \<not> db_done batch \<Longrightarrow> left (world_after (nk_recv N fd 65536) w) < left w"
proof -
  note parts = assms [unfolded dump_ends_def]
  show "left w \<le> K" using parts by blast
  show "result_of (nk_sendto N fd request) w = Inl EINTR \<Longrightarrow>
      left (world_after (nk_sendto N fd request) w) < left w" using parts by blast
  note recv = parts [THEN conjunct2, THEN conjunct2, rule_format, of fd w]
  show "result_of (nk_recv N fd 65536) w = Inl EINTR \<Longrightarrow> left (world_after (nk_recv N fd 65536) w) < left w"
    using recv by simp
  show "result_of (nk_recv N fd 65536) w = Inr data \<Longrightarrow>
      parseInetDiagDatagram (Suc (length (take 65536 data))) (nk_libc N) (take 65536 data) sequence protocol
        = Returned (Inr batch) \<Longrightarrow> \<not> db_done batch \<Longrightarrow> left (world_after (nk_recv N fd 65536) w) < left w"
    using recv by (simp del: length_take take_all_iff) blast
qed

lemma retryInterrupted_returns:
  assumes "\<And>w. result_of m w = Inl EINTR \<Longrightarrow> left (world_after m w) < (left w :: nat)"
  shows "left w < fuel \<Longrightarrow> \<exists>r w'. result_of (retryInterrupted fuel m) w = Some r \<and> r = result_of m w' \<and>
     world_after (retryInterrupted fuel m) w = world_after m w' \<and> r \<noteq> Inl EINTR \<and> left w' \<le> left w"
proof (induction fuel arbitrary: w)
  case (Suc fuel)
  show ?case
  proof (cases "result_of m w = Inl EINTR")
    case True
    have "left (world_after m w) < left w" using assms True .
    then obtain w' where "result_of (retryInterrupted fuel m) (world_after m w) = Some (result_of m w')"
        "world_after (retryInterrupted fuel m) (world_after m w) = world_after m w'"
        "result_of m w' \<noteq> Inl EINTR" "left w' \<le> left w"
      using Suc.IH [of "world_after m w"] Suc.prems by fastforce
    then show ?thesis using True by (auto intro!: exI [of _ w'])
  next
    case False
    then show ?thesis by auto
  qed
qed simp

lemma receiveDump_returns:
  assumes "dump_ends left K N"
  shows "left w < fuel \<Longrightarrow> result_of (receiveDump fuel N fd sequence protocol vs) w \<noteq> None"
proof (induction fuel arbitrary: w vs)
  case (Suc fuel)
  let ?m = "nk_recv N fd 65536"
  note ends = dump_endsD [OF assms]
  obtain r w' where r: "result_of (retryInterrupted (Suc fuel) ?m) w = Some r" "r = result_of ?m w'"
      "world_after (retryInterrupted (Suc fuel) ?m) w = world_after ?m w'" "left w' \<le> left w"
    using retryInterrupted_returns [where left = left and m = ?m, OF ends(3) Suc.prems] by blast
  show ?case
  proof (cases r)
    case (Inl e)
    then show ?thesis using r(1,3) by (simp add: NetlinkSocket_receive_def del: retryInterrupted.simps)
  next
    case (Inr data)
    let ?d = "take 65536 data"
    let ?parse = "parseInetDiagDatagram (Suc (length ?d)) (nk_libc N) ?d sequence protocol"
    obtain b where b: "?parse = Returned b"
      using parseMessages_returns [of ?d 0 "Suc (length ?d)"] unfolding parseInetDiagDatagram_def by fastforce
    have "left (world_after ?m w') < left w'" if "b = Inr batch" "\<not> db_done batch" for batch
      using ends(4) [of fd w' data sequence protocol batch] b r(2) Inr that by simp
    then have "left (world_after ?m w') < fuel" if "b = Inr batch" "\<not> db_done batch" for batch
      using that r(4) Suc.prems by fastforce
    then show ?thesis
      using r(1,3) Inr b Suc.IH [of "world_after ?m w'"]
      by (cases b) (simp_all add: NetlinkSocket_receive_def del: retryInterrupted.simps)
  qed
qed simp

lemma one_dump_returns:
  assumes ends: "dump_ends left K N" and fuel: "K < fuel"
  shows "result_of (one_dump fuel N fd family protocol sequence) w \<noteq> None"
proof -
  have bound: "left w < fuel" for w
    using dump_endsD(1) [OF ends, of w] fuel by simp
  define request where "request = buildInetDiagRequest family protocol sequence
    (if protocol = Tcp then push_bit 10 1 else - 1)"
  have "result_of (NetlinkSocket_send fuel N fd request) w \<noteq> None"
    using retryInterrupted_returns [where left = left and m = "nk_sendto N fd request",
        OF dump_endsD(2) [OF ends] bound [of w]]
    by (auto simp: NetlinkSocket_send_def split: sum.split)
  then show ?thesis
    using receiveDump_returns [OF ends bound]
    unfolding one_dump_def Let_def request_def [symmetric] by (auto split: sum.split)
qed

text \<open>
  A socket query ends. When every dump of the kernel ends after at most \<open>K\<close> interrupted calls and
  unfinished datagrams, the query returns for every filter and in every state of the machine: neither
  the retry loops around the system calls nor the loop over the datagrams of a dump runs more than
  \<open>K + 1\<close> times.\<close>

theorem NetlinkSocketProvider_query_returns:
  assumes ends: "dump_ends left K N" and fuel: "K < fuel"
  shows "\<exists>r. result_of (NetlinkSocketProvider_query fuel N query) w = Some r"
proof -
  have "result_of (dumpAll fuel N fd query ps sequence scan) w \<noteq> None" for fd ps sequence scan w
  proof (induction ps arbitrary: sequence scan w)
    case (Cons pf ps)
    obtain p f where "pf = (p, f)" by fastforce
    moreover obtain r where "result_of (one_dump fuel N fd f p sequence) w = Some r"
      using one_dump_returns [OF ends fuel] by blast
    ultimately show ?case using Cons by simp
  qed simp
  then show ?thesis
    by (auto simp: NetlinkSocketProvider_query_def split: sum.split)
qed

text \<open>The machine above, with a socket that cannot be read.\<close>

lemma demo_dump_ends: "dump_ends (\<lambda>_. 0) 0 (demo_NetlinkOS\<lparr>nk_recv := \<lambda>fd n. return (Inl EACCES)\<rparr>)"
  by (auto simp: dump_ends_def demo_NetlinkOS_def)

theorem NetlinkSocketProvider_query_returns_witness:
  "\<exists>r. result_of (NetlinkSocketProvider_query 1 (demo_NetlinkOS\<lparr>nk_recv := \<lambda>fd n. return (Inl EACCES)\<rparr>)
     default_SocketQuery) [] = Some r"
  by (rule NetlinkSocketProvider_query_returns [OF demo_dump_ends]) simp

end
