(* ===== verification/SystemdService.thy ===== *)
theory SystemdService
  imports ProcFs
begin

text \<open>
  \<open>src/linux/systemd\<close>, the services: opening the system bus, the calls to the systemd manager over it,
  decoding the list of units, the service provider, and the provider that stands in for it where the
  program was built without systemd.

  The sd-bus library is a parameter: the record of the functions the code calls, over the world. A
  negative status is an errno in \<open>Inl\<close>, with the bus error where the call fills one in; a string a
  call leaves null is \<open>None\<close>. Reference counts of buses, messages and errors are not modelled.
\<close>

section \<open>The bus library\<close>

abbreviation ECONNREFUSED :: errno where "ECONNREFUSED \<equiv> 111"
abbreviation ENOTCONN :: errno where "ENOTCONN \<equiv> 107"

record bus_error =
  be_name :: "string option"
  be_message :: "string option"

type_synonym 'a bus_result = "(errno \<times> bus_error) + 'a"

datatype bus_arg = StringArg string | UInt32Arg u32

text \<open>The columns of a row of \<open>ListUnits\<close> that the code uses.\<close>

record unit_row =
  ur_name :: "string option"
  ur_description :: "string option"
  ur_loadState :: "string option"
  ur_activeState :: "string option"
  ur_subState :: "string option"

record ('w, 'bus, 'msg) SdBusLib =
  sb_openSystem :: "('w, errno + 'bus) io"
  sb_callMethod :: "'bus \<Rightarrow> string \<Rightarrow> string \<Rightarrow> string \<Rightarrow> string \<Rightarrow> bus_arg list \<Rightarrow> ('w, 'msg option bus_result) io"
  sb_getProperty :: "'bus \<Rightarrow> string \<Rightarrow> string \<Rightarrow> string \<Rightarrow> string \<Rightarrow> string \<Rightarrow> ('w, 'msg option bus_result) io"
  sb_getPropertyString :: "'bus \<Rightarrow> string \<Rightarrow> string \<Rightarrow> string \<Rightarrow> string \<Rightarrow> ('w, string option bus_result) io"
  sb_getPropertyU32 :: "'bus \<Rightarrow> string \<Rightarrow> string \<Rightarrow> string \<Rightarrow> string \<Rightarrow> ('w, u32 bus_result) io"
  sb_getPropertyU64 :: "'bus \<Rightarrow> string \<Rightarrow> string \<Rightarrow> string \<Rightarrow> string \<Rightarrow> ('w, u64 bus_result) io"
  sb_enterContainer :: "'msg \<Rightarrow> char \<Rightarrow> string \<Rightarrow> ('w, errno + bool) io"
  sb_exitContainer :: "'msg \<Rightarrow> ('w, errno + unit) io"
  sb_readUnit :: "'msg \<Rightarrow> ('w, errno + unit_row) io"
  sb_readOne :: "'msg option \<Rightarrow> char \<Rightarrow> ('w, errno + string option) io"
  sb_strerror :: "errno \<Rightarrow> string"

definition bus_openError :: "('w, 'bus, 'msg) SdBusLib \<Rightarrow> errno \<Rightarrow> Error" where
  "bus_openError B number =
     mkError (if number = EACCES \<or> number = EPERM then PermissionDenied else Unavailable)
       (''Unable to open the system bus: '' @ sb_strerror B number) number ''sd-bus'' ''open system bus''"

definition openSystem :: "('w, 'bus, 'msg) SdBusLib \<Rightarrow> ('w, 'bus result) io" where
  "openSystem B = do {
     r \<leftarrow> sb_openSystem B;
     return (case r of
       Inl number \<Rightarrow> failure (bus_openError B number)
     | Inr bus \<Rightarrow> success bus)
   }"

section \<open>Calls to the manager\<close>

definition destination :: string where "destination = ''org.freedesktop.systemd1''"
definition managerPath :: string where "managerPath = ''/org/freedesktop/systemd1''"
definition managerInterface :: string where "managerInterface = ''org.freedesktop.systemd1.Manager''"
definition unitInterface :: string where "unitInterface = ''org.freedesktop.systemd1.Unit''"
definition serviceInterface :: string where "serviceInterface = ''org.freedesktop.systemd1.Service''"

definition busError :: "('w, 'bus, 'msg) SdBusLib \<Rightarrow> errno \<times> bus_error \<Rightarrow> string \<Rightarrow> Error" where
  "busError B failed operation =
     (let number = fst failed; be = snd failed; named = (\<lambda>n. be_name be = Some n) in
      mkError
        (if number = EACCES \<or> number = EPERM \<or> named ''org.freedesktop.DBus.Error.AccessDenied''
         then PermissionDenied
         else if number = ETIMEDOUT \<or> named ''org.freedesktop.DBus.Error.NoReply'' then Timeout
         else if number = ENOENT \<or> named ''org.freedesktop.systemd1.NoSuchUnit''
           \<or> named ''org.freedesktop.systemd1.NoUnitForPID'' then NotFound
         else if number = ECONNREFUSED \<or> number = ENOTCONN
           \<or> named ''org.freedesktop.DBus.Error.ServiceUnknown''
           \<or> named ''org.freedesktop.DBus.Error.NameHasNoOwner'' then Unavailable
         else OperationFailed)
        (case be_message be of
           Some m \<Rightarrow> m
         | None \<Rightarrow> if number \<noteq> 0 then sb_strerror B number else ''systemd D-Bus operation failed'')
        number ''systemd'' operation)"

definition protocolError :: "string \<Rightarrow> string \<Rightarrow> Error" where
  "protocolError message operation = mkError ProtocolError message 0 ''systemd'' operation"

text \<open>A manager method whose reply is one object path or string.\<close>

definition managerCall ::
  "('w, 'bus, 'msg) SdBusLib \<Rightarrow> 'bus \<Rightarrow> string \<Rightarrow> bus_arg list \<Rightarrow> ('w, 'msg option bus_result) io" where
  "managerCall B bus method args = sb_callMethod B bus destination managerPath managerInterface method args"

definition getUnitPath :: "('w, 'bus, 'msg) SdBusLib \<Rightarrow> 'bus \<Rightarrow> string \<Rightarrow> ('w, string result) io" where
  "getUnitPath B bus unit = do {
     reply \<leftarrow> managerCall B bus ''GetUnit'' [StringArg unit];
     case reply of
       Inl e \<Rightarrow> return (failure (busError B e ''get unit''))
     | Inr message \<Rightarrow> do {
         path \<leftarrow> sb_readOne B message (CHR ''o'');
         return (case path of
           Inr (Some p) \<Rightarrow> success p
         | _ \<Rightarrow> failure (protocolError ''GetUnit returned no object path'' ''get unit''))
       }
   }"

definition stringProperty ::
  "('w, 'bus, 'msg) SdBusLib \<Rightarrow> 'bus \<Rightarrow> string \<Rightarrow> string \<Rightarrow> string \<Rightarrow> ('w, string result) io" where
  "stringProperty B bus path interface property = do {
     r \<leftarrow> sb_getPropertyString B bus destination path interface property;
     return (case r of
       Inl e \<Rightarrow> failure (busError B e ''read service property'')
     | Inr None \<Rightarrow> success []
     | Inr (Some v) \<Rightarrow> success v)
   }"

definition trivialPropertyU32 ::
  "('w, 'bus, 'msg) SdBusLib \<Rightarrow> 'bus \<Rightarrow> string \<Rightarrow> string \<Rightarrow> string \<Rightarrow> ('w, u32 result) io" where
  "trivialPropertyU32 B bus path interface property = do {
     r \<leftarrow> sb_getPropertyU32 B bus destination path interface property;
     return (case r of Inl e \<Rightarrow> failure (busError B e ''read service property'') | Inr v \<Rightarrow> success v)
   }"

definition trivialPropertyU64 ::
  "('w, 'bus, 'msg) SdBusLib \<Rightarrow> 'bus \<Rightarrow> string \<Rightarrow> string \<Rightarrow> string \<Rightarrow> ('w, u64 result) io" where
  "trivialPropertyU64 B bus path interface property = do {
     r \<leftarrow> sb_getPropertyU64 B bus destination path interface property;
     return (case r of Inl e \<Rightarrow> failure (busError B e ''read service property'') | Inr v \<Rightarrow> success v)
   }"

definition unitFileState :: "('w, 'bus, 'msg) SdBusLib \<Rightarrow> 'bus \<Rightarrow> string \<Rightarrow> ('w, string result) io" where
  "unitFileState B bus unit = do {
     reply \<leftarrow> managerCall B bus ''GetUnitFileState'' [StringArg unit];
     case reply of
       Inl e \<Rightarrow> return (failure (busError B e ''get unit file state''))
     | Inr message \<Rightarrow> do {
         st \<leftarrow> sb_readOne B message (CHR ''s'');
         return (case st of
           Inr (Some v) \<Rightarrow> success v
         | _ \<Rightarrow> failure (protocolError ''GetUnitFileState returned no state'' ''get unit file state''))
       }
   }"

definition controlUnit ::
  "('w, 'bus, 'msg) SdBusLib \<Rightarrow> string \<Rightarrow> string \<Rightarrow> string \<Rightarrow> ('w, unit result) io" where
  "controlUnit B unit method operation = do {
     connection \<leftarrow> openSystem B;
     case connection of
       Inl e \<Rightarrow> return (failure e)
     | Inr bus \<Rightarrow> do {
         reply \<leftarrow> managerCall B bus method [StringArg unit, StringArg ''replace''];
         case reply of
           Inl e \<Rightarrow> return (failure (busError B e operation))
         | Inr message \<Rightarrow> do {
             path \<leftarrow> sb_readOne B message (CHR ''o'');
             return (case path of
               Inr (Some _) \<Rightarrow> success ()
             | _ \<Rightarrow> failure (protocolError ''systemd returned no job object path'' operation))
           }
       }
   }"

section \<open>The list of units\<close>

definition parseFailure :: "string \<Rightarrow> 'a result" where
  "parseFailure message = failure (mkError ProtocolError message 0 ''systemd'' ''parse ListUnits'')"

definition isService :: "string \<Rightarrow> bool" where
  "isService s \<longleftrightarrow> length ''.service'' < length s \<and> drop (length s - length ''.service'') s = ''.service''"

record SystemdUnitRecord =
  su_name :: string
  su_description :: string
  su_loadState :: string
  su_activeState :: string
  su_subState :: string

definition serviceFromUnitRecord :: "SystemdUnitRecord \<Rightarrow> ServiceInfo option" where
  "serviceFromUnitRecord r =
     (if \<not> isService (su_name r) then None
      else Some (default_ServiceInfo\<lparr>si_unitName := su_name r, si_description := su_description r,
        si_loadState := su_loadState r, si_activeState := su_activeState r, si_subState := su_subState r\<rparr>))"

definition orEmpty :: "string option \<Rightarrow> string" where
  "orEmpty s = (case s of None \<Rightarrow> [] | Some x \<Rightarrow> x)"

definition unitRecordOf :: "unit_row \<Rightarrow> SystemdUnitRecord" where
  "unitRecordOf row = \<lparr>su_name = orEmpty (ur_name row), su_description = orEmpty (ur_description row),
     su_loadState = orEmpty (ur_loadState row), su_activeState = orEmpty (ur_activeState row),
     su_subState = orEmpty (ur_subState row)\<rparr>"

text \<open>The loop over the rows; \<open>None\<close> when the fuel ran out.\<close>

fun parseRows ::
  "nat \<Rightarrow> ('w, 'bus, 'msg) SdBusLib \<Rightarrow> 'msg \<Rightarrow> ServiceInfo list \<Rightarrow> ('w, ServiceInfo list result option) io" where
  "parseRows 0 B message services = return None"
| "parseRows (Suc fuel) B message services = do {
     entered \<leftarrow> sb_enterContainer B message (CHR ''r'') ''ssssssouso'';
     case entered of
       Inl _ \<Rightarrow> return (Some (parseFailure ''Malformed ListUnits response''))
     | Inr False \<Rightarrow> do {
         left \<leftarrow> sb_exitContainer B message;
         return (Some (case left of
           Inl _ \<Rightarrow> parseFailure ''Malformed ListUnits response''
         | Inr _ \<Rightarrow> success services))
       }
     | Inr True \<Rightarrow> do {
         row \<leftarrow> sb_readUnit B message;
         case row of
           Inl _ \<Rightarrow> return (Some (parseFailure ''Unable to decode a ListUnits record''))
         | Inr r \<Rightarrow> do {
             left \<leftarrow> sb_exitContainer B message;
             case left of
               Inl _ \<Rightarrow> return (Some (parseFailure ''Malformed ListUnits unit record''))
             | Inr _ \<Rightarrow> parseRows fuel B message
                 (case serviceFromUnitRecord (unitRecordOf r) of
                    None \<Rightarrow> services
                  | Some service \<Rightarrow> services @ [service])
           }
       }
   }"

definition parseListUnitsMessage ::
  "nat \<Rightarrow> ('w, 'bus, 'msg) SdBusLib \<Rightarrow> 'msg option \<Rightarrow> ('w, ServiceInfo list result option) io" where
  "parseListUnitsMessage fuel B message =
     (case message of
        None \<Rightarrow> return (Some (parseFailure ''ListUnits returned no message''))
      | Some m \<Rightarrow> do {
          entered \<leftarrow> sb_enterContainer B m (CHR ''a'') ''(ssssssouso)'';
          case entered of
            Inl _ \<Rightarrow> return (Some (parseFailure ''ListUnits response is not an array of units''))
          | Inr _ \<Rightarrow> parseRows fuel B m []
        })"

section \<open>The provider\<close>

definition SystemdServiceProvider_probe :: "('w, 'bus, 'msg) SdBusLib \<Rightarrow> ('w, unit result) io" where
  "SystemdServiceProvider_probe B = do {
     connection \<leftarrow> openSystem B;
     case connection of
       Inl e \<Rightarrow> return (failure e)
     | Inr bus \<Rightarrow> do {
         r \<leftarrow> sb_getProperty B bus destination managerPath managerInterface ''Version'' ''s'';
         return (case r of Inl e \<Rightarrow> failure (busError B e ''probe'') | Inr _ \<Rightarrow> success ())
       }
   }"

text \<open>\<open>static_cast<pid_t>\<close> of a 32-bit unsigned number.\<close>

definition pidOf32 :: "u32 \<Rightarrow> pid" where
  "pidOf32 n = sint n"

text \<open>The body of the loop of \<open>list\<close> that completes one service.\<close>

definition completeService ::
  "('w, 'bus, 'msg) SdBusLib \<Rightarrow> 'bus \<Rightarrow> ServiceInfo \<Rightarrow> Warning list \<Rightarrow> ('w, ServiceInfo \<times> Warning list) io" where
  "completeService B bus service warnings = do {
     fileState \<leftarrow> unitFileState B bus (si_unitName service);
     let (service1, warnings1) = (case fileState of
         Inr v \<Rightarrow> (service\<lparr>si_unitFileState := v\<rparr>, warnings)
       | Inl e \<Rightarrow> (service, if er_code e \<noteq> NotFound then warnings @ [warningFrom e] else warnings));
     path \<leftarrow> getUnitPath B bus (si_unitName service);
     case path of
       Inl e \<Rightarrow> return (service1, warnings1 @ [warningFrom e])
     | Inr p \<Rightarrow> do {
         mainPid \<leftarrow> trivialPropertyU32 B bus p serviceInterface ''MainPID'';
         return (case mainPid of
           Inr n \<Rightarrow> (if n \<noteq> 0 then service1\<lparr>si_mainPid := Some (pidOf32 n)\<rparr> else service1, warnings1)
         | Inl e \<Rightarrow> (service1, warnings1 @ [warningFrom e]))
       }
   }"

fun completeServices ::
  "('w, 'bus, 'msg) SdBusLib \<Rightarrow> 'bus \<Rightarrow> ServiceInfo list \<Rightarrow> Warning list \<Rightarrow>
   ('w, ServiceInfo list \<times> Warning list) io" where
  "completeServices B bus [] warnings = return ([], warnings)"
| "completeServices B bus (s # ss) warnings = do {
     (s', warnings1) \<leftarrow> completeService B bus s warnings;
     (ss', warnings2) \<leftarrow> completeServices B bus ss warnings1;
     return (s' # ss', warnings2)
   }"

definition SystemdServiceProvider_list ::
  "nat \<Rightarrow> ('w, 'bus, 'msg) SdBusLib \<Rightarrow> ('w, ServiceInfo list Observation result option) io" where
  "SystemdServiceProvider_list fuel B = do {
     connection \<leftarrow> openSystem B;
     case connection of
       Inl e \<Rightarrow> return (Some (failure e))
     | Inr bus \<Rightarrow> do {
         reply \<leftarrow> managerCall B bus ''ListUnits'' [];
         case reply of
           Inl e \<Rightarrow> return (Some (failure (busError B e ''list services'')))
         | Inr message \<Rightarrow> do {
             parsed \<leftarrow> parseListUnitsMessage fuel B message;
             case parsed of
               None \<Rightarrow> return None
             | Some (Inl e) \<Rightarrow> return (Some (failure e))
             | Some (Inr services) \<Rightarrow> do {
                 (completed, warnings) \<leftarrow> completeServices B bus services [];
                 return (Some (success \<lparr>ob_value = completed, ob_warnings = warnings\<rparr>))
               }
           }
       }
   }"

text \<open>The four properties are all read before the first error is looked at.\<close>

definition readUnitStates ::
  "('w, 'bus, 'msg) SdBusLib \<Rightarrow> 'bus \<Rightarrow> string \<Rightarrow> string \<Rightarrow> ('w, ServiceInfo result) io" where
  "readUnitStates B bus unit path = do {
     description \<leftarrow> stringProperty B bus path unitInterface ''Description'';
     loadState \<leftarrow> stringProperty B bus path unitInterface ''LoadState'';
     activeState \<leftarrow> stringProperty B bus path unitInterface ''ActiveState'';
     subState \<leftarrow> stringProperty B bus path unitInterface ''SubState'';
     return (case description of
       Inl e \<Rightarrow> failure e
     | Inr d \<Rightarrow> case loadState of
         Inl e \<Rightarrow> failure e
       | Inr l \<Rightarrow> case activeState of
           Inl e \<Rightarrow> failure e
         | Inr a \<Rightarrow> case subState of
             Inl e \<Rightarrow> failure e
           | Inr s \<Rightarrow> success (default_ServiceInfo\<lparr>si_unitName := unit, si_description := d,
               si_loadState := l, si_activeState := a, si_subState := s\<rparr>))
   }"

definition SystemdServiceProvider_get ::
  "('w, 'bus, 'msg) SdBusLib \<Rightarrow> string \<Rightarrow> ('w, ServiceInfo Observation result) io" where
  "SystemdServiceProvider_get B unit = do {
     connection \<leftarrow> openSystem B;
     case connection of
       Inl e \<Rightarrow> return (failure e)
     | Inr bus \<Rightarrow> do {
         path \<leftarrow> getUnitPath B bus unit;
         case path of
           Inl e \<Rightarrow> return (failure e)
         | Inr p \<Rightarrow> do {
             states \<leftarrow> readUnitStates B bus unit p;
             case states of
               Inl e \<Rightarrow> return (failure e)
             | Inr service \<Rightarrow> do {
                 fileState \<leftarrow> unitFileState B bus unit;
                 let (service1, warnings1) = (case fileState of
                     Inr v \<Rightarrow> (service\<lparr>si_unitFileState := v\<rparr>, [])
                   | Inl e \<Rightarrow> (service, [warningFrom e]));
                 mainPid \<leftarrow> trivialPropertyU32 B bus p serviceInterface ''MainPID'';
                 let (service2, warnings2) = (case mainPid of
                     Inr n \<Rightarrow> (if n \<noteq> 0 then service1\<lparr>si_mainPid := Some (pidOf32 n)\<rparr> else service1, warnings1)
                   | Inl e \<Rightarrow> (service1, warnings1 @ [warningFrom e]));
                 timestamp \<leftarrow> trivialPropertyU64 B bus p unitInterface ''ActiveEnterTimestamp'';
                 let (service3, warnings3) = (case timestamp of
                     Inr t \<Rightarrow> (service2\<lparr>si_activeEnterTimestampUsec := t\<rparr>, warnings2)
                   | Inl e \<Rightarrow> (service2, warnings2 @ [warningFrom e]));
                 return (success \<lparr>ob_value = service3, ob_warnings = warnings3\<rparr>)
               }
           }
       }
   }"

definition SystemdServiceProvider_unitByPid ::
  "('w, 'bus, 'msg) SdBusLib \<Rightarrow> pid \<Rightarrow> ('w, string option result) io" where
  "SystemdServiceProvider_unitByPid B pid =
     (if pid \<le> 0
      then return (failure (mkError InvalidArgument ''PID must be greater than zero'' 0 ''systemd'' ''resolve PID''))
      else do {
        connection \<leftarrow> openSystem B;
        case connection of
          Inl e \<Rightarrow> return (failure e)
        | Inr bus \<Rightarrow> do {
            reply \<leftarrow> managerCall B bus ''GetUnitByPID'' [UInt32Arg (word_of_int pid)];
            case reply of
              Inl e \<Rightarrow>
                (let mapped = busError B e ''resolve PID'' in
                 return (if er_code mapped = NotFound then success None else failure mapped))
            | Inr message \<Rightarrow> do {
                rawPath \<leftarrow> sb_readOne B message (CHR ''o'');
                case rawPath of
                  Inr (Some path) \<Rightarrow> do {
                    ident \<leftarrow> stringProperty B bus path unitInterface ''Id'';
                    return (case ident of
                      Inl e \<Rightarrow> if er_code e = NotFound then success None else failure e
                    | Inr s \<Rightarrow> success (if isService s then Some s else None))
                  }
                | _ \<Rightarrow> return (failure (protocolError ''GetUnitByPID returned no object path'' ''resolve PID''))
              }
          }
      })"

definition SystemdServiceProvider_start :: "('w, 'bus, 'msg) SdBusLib \<Rightarrow> string \<Rightarrow> ('w, unit result) io" where
  "SystemdServiceProvider_start B unit = controlUnit B unit ''StartUnit'' ''start service''"

definition SystemdServiceProvider_stop :: "('w, 'bus, 'msg) SdBusLib \<Rightarrow> string \<Rightarrow> ('w, unit result) io" where
  "SystemdServiceProvider_stop B unit = controlUnit B unit ''StopUnit'' ''stop service''"

definition SystemdServiceProvider_restart :: "('w, 'bus, 'msg) SdBusLib \<Rightarrow> string \<Rightarrow> ('w, unit result) io" where
  "SystemdServiceProvider_restart B unit = controlUnit B unit ''RestartUnit'' ''restart service''"

text \<open>As the interface has it; the lemmas below show how much fuel is enough for a reply.\<close>

definition SystemdServiceProvider :: "nat \<Rightarrow> ('w, 'bus, 'msg) SdBusLib \<Rightarrow> 'w IServiceProvider" where
  "SystemdServiceProvider fuel B =
     \<lparr>vp_probe = SystemdServiceProvider_probe B,
      vp_list = do {
        r \<leftarrow> SystemdServiceProvider_list fuel B;
        return (settled r)
      },
      vp_get = SystemdServiceProvider_get B, vp_unitByPid = SystemdServiceProvider_unitByPid B,
      vp_start = SystemdServiceProvider_start B, vp_stop = SystemdServiceProvider_stop B,
      vp_restart = SystemdServiceProvider_restart B\<rparr>"

section \<open>Without systemd\<close>

definition unavailable :: "string \<Rightarrow> string \<Rightarrow> 'a result" where
  "unavailable reason operation = failure (mkError Unavailable reason 0 ''systemd'' operation)"

definition UnavailableServiceProvider :: "string \<Rightarrow> 'w IServiceProvider" where
  "UnavailableServiceProvider reason =
     \<lparr>vp_probe = return (unavailable reason ''probe''),
      vp_list = return (unavailable reason ''list services''),
      vp_get = (\<lambda>_. return (unavailable reason ''get service'')),
      vp_unitByPid = (\<lambda>_. return (unavailable reason ''resolve PID'')),
      vp_start = (\<lambda>_. return (unavailable reason ''start service'')),
      vp_stop = (\<lambda>_. return (unavailable reason ''stop service'')),
      vp_restart = (\<lambda>_. return (unavailable reason ''restart service''))\<rparr>"

section \<open>Only lifecycle operations change a unit\<close>

datatype bus_event =
    BusOpen
  | BusCall string string string string "bus_arg list"
  | BusProperty string string string
  | BusRead

definition recordSdBus ::
  "('w, 'bus, 'msg) SdBusLib \<Rightarrow> ('w \<times> bus_event list, 'bus, 'msg) SdBusLib" where
  "recordSdBus B =
     \<lparr>sb_openSystem = traced BusOpen (sb_openSystem B),
      sb_callMethod = (\<lambda>bus d p i m args. traced (BusCall d p i m args) (sb_callMethod B bus d p i m args)),
      sb_getProperty = (\<lambda>bus d p i n t. traced (BusProperty p i n) (sb_getProperty B bus d p i n t)),
      sb_getPropertyString = (\<lambda>bus d p i n. traced (BusProperty p i n) (sb_getPropertyString B bus d p i n)),
      sb_getPropertyU32 = (\<lambda>bus d p i n. traced (BusProperty p i n) (sb_getPropertyU32 B bus d p i n)),
      sb_getPropertyU64 = (\<lambda>bus d p i n. traced (BusProperty p i n) (sb_getPropertyU64 B bus d p i n)),
      sb_enterContainer = (\<lambda>m t c. traced BusRead (sb_enterContainer B m t c)),
      sb_exitContainer = (\<lambda>m. traced BusRead (sb_exitContainer B m)),
      sb_readUnit = (\<lambda>m. traced BusRead (sb_readUnit B m)),
      sb_readOne = (\<lambda>m t. traced BusRead (sb_readOne B m t)),
      sb_strerror = sb_strerror B\<rparr>"

text \<open>The manager methods the program reads with; every other method call changes a unit.\<close>

definition reading_methods :: "string list" where
  "reading_methods = [''GetUnit'', ''GetUnitFileState'', ''ListUnits'', ''GetUnitByPID'']"

fun changes_unit :: "bus_event \<Rightarrow> bool" where
  "changes_unit (BusCall d p i m args) = (m \<notin> set reading_methods)"
| "changes_unit _ = False"

lemma recordSdBus_sel [simp]:
  "sb_openSystem (recordSdBus B) = traced BusOpen (sb_openSystem B)"
  "sb_callMethod (recordSdBus B) bus d p i m args = traced (BusCall d p i m args) (sb_callMethod B bus d p i m args)"
  "sb_getProperty (recordSdBus B) bus d p i n c = traced (BusProperty p i n) (sb_getProperty B bus d p i n c)"
  "sb_getPropertyString (recordSdBus B) bus d p i n = traced (BusProperty p i n) (sb_getPropertyString B bus d p i n)"
  "sb_getPropertyU32 (recordSdBus B) bus d p i n = traced (BusProperty p i n) (sb_getPropertyU32 B bus d p i n)"
  "sb_getPropertyU64 (recordSdBus B) bus d p i n = traced (BusProperty p i n) (sb_getPropertyU64 B bus d p i n)"
  "sb_enterContainer (recordSdBus B) x t c = traced BusRead (sb_enterContainer B x t c)"
  "sb_exitContainer (recordSdBus B) x = traced BusRead (sb_exitContainer B x)"
  "sb_readUnit (recordSdBus B) x = traced BusRead (sb_readUnit B x)"
  "sb_readOne (recordSdBus B) y t = traced BusRead (sb_readOne B y t)"
  by (simp_all add: recordSdBus_def)

lemma quiet_managerCall [quiet_intros]:
  "method \<in> set reading_methods \<Longrightarrow> quiet changes_unit (managerCall (recordSdBus B) bus method args)"
  unfolding managerCall_def by (simp add: quiet_traced)

lemma quiet_readOne [quiet_intros]: "quiet changes_unit (sb_readOne (recordSdBus B) m t)"
  by (simp add: quiet_traced)

lemma quiet_openSystem [quiet_intros]: "quiet changes_unit (openSystem (recordSdBus B))"
  unfolding openSystem_def by (intro quiet_intros) (simp add: quiet_traced)

lemma quiet_properties [quiet_intros]:
  "quiet changes_unit (stringProperty (recordSdBus B) bus p i n)"
  "quiet changes_unit (trivialPropertyU32 (recordSdBus B) bus p i n)"
  "quiet changes_unit (trivialPropertyU64 (recordSdBus B) bus p i n)"
  unfolding stringProperty_def trivialPropertyU32_def trivialPropertyU64_def
  by (intro quiet_intros; simp add: quiet_traced)+

lemma quiet_unitCalls [quiet_intros]:
  "quiet changes_unit (getUnitPath (recordSdBus B) bus unit)"
  "quiet changes_unit (unitFileState (recordSdBus B) bus unit)"
  unfolding getUnitPath_def unitFileState_def
  by (intro quiet_intros; simp add: reading_methods_def)+

lemma quiet_parseRows [quiet_intros]: "quiet changes_unit (parseRows fuel (recordSdBus B) m services)"
proof (induction fuel arbitrary: services)
  case (Suc fuel)
  have [quiet_intros]: "quiet changes_unit (sb_enterContainer (recordSdBus B) m t c)"
    "quiet changes_unit (sb_exitContainer (recordSdBus B) m)" "quiet changes_unit (sb_readUnit (recordSdBus B) m)" for t c
    by (simp_all add: quiet_traced)
  have bool: "quiet changes_unit p \<Longrightarrow> quiet changes_unit q \<Longrightarrow> quiet changes_unit (case b of True \<Rightarrow> p | False \<Rightarrow> q)"
    for b and p q :: "('a \<times> bus_event list, ServiceInfo list result option) io"
    by (cases b) simp_all
  show ?case
    unfolding parseRows.simps by (intro quiet_intros bool Suc.IH)
qed (simp add: quiet_return)

lemma quiet_parseListUnits [quiet_intros]:
  "quiet changes_unit (parseListUnitsMessage fuel (recordSdBus B) message)"
  unfolding parseListUnitsMessage_def by (intro quiet_intros) (simp add: quiet_traced)

lemma quiet_completeServices [quiet_intros]:
  "quiet changes_unit (completeServices (recordSdBus B) bus ss ws)"
proof (induction ss arbitrary: ws)
  case (Cons s ss)
  have [quiet_intros]: "quiet changes_unit (completeService (recordSdBus B) bus s ws)" for ws
    unfolding completeService_def by (intro quiet_intros)
  show ?case unfolding completeServices.simps by (intro quiet_intros Cons.IH)
qed (simp add: quiet_return)

lemma quiet_readUnitStates [quiet_intros]:
  "quiet changes_unit (readUnitStates (recordSdBus B) bus unit p)"
  unfolding readUnitStates_def by (intro quiet_intros)

lemma quiet_probe: "quiet changes_unit (SystemdServiceProvider_probe (recordSdBus B))"
  unfolding SystemdServiceProvider_probe_def by (intro quiet_intros) (simp add: quiet_traced)

lemma quiet_list: "quiet changes_unit (SystemdServiceProvider_list fuel (recordSdBus B))"
  unfolding SystemdServiceProvider_list_def by (intro quiet_intros) (simp add: reading_methods_def)

lemma quiet_get: "quiet changes_unit (SystemdServiceProvider_get (recordSdBus B) unit)"
  unfolding SystemdServiceProvider_get_def by (intro quiet_intros)

lemma quiet_unitByPid: "quiet changes_unit (SystemdServiceProvider_unitByPid (recordSdBus B) p)"
  unfolding SystemdServiceProvider_unitByPid_def by (intro quiet_intros) (simp add: reading_methods_def)

definition control_event :: "string \<Rightarrow> string \<Rightarrow> bus_event" where
  "control_event method unit =
     BusCall destination managerPath managerInterface method [StringArg unit, StringArg ''replace'']"

lemma controlUnit_calls:
  assumes "method \<notin> set reading_methods"
  shows "filter changes_unit (snd (world_after (controlUnit (recordSdBus B) unit method operation) s))
    = filter changes_unit (snd s) @
        (case result_of (sb_openSystem B) (fst s) of Inl _ \<Rightarrow> [] | Inr _ \<Rightarrow> [control_event method unit])"
proof -
  have "filter changes_unit (snd (world_after (case r of
      Inl e \<Rightarrow> return (failure (busError (recordSdBus B) e operation))
    | Inr message \<Rightarrow> do {
        path \<leftarrow> sb_readOne (recordSdBus B) message (CHR ''o'');
        return (case path of
          Inr (Some _) \<Rightarrow> success ()
        | _ \<Rightarrow> failure (protocolError ''systemd returned no job object path'' operation)) }) w))
    = filter changes_unit (snd w)" for r w
    by (rule quiet_world_after) (intro quiet_intros)
  then show ?thesis
    using assms
    by (cases "result_of (sb_openSystem B) (fst s)")
       (simp_all add: controlUnit_def openSystem_def managerCall_def control_event_def del: recordSdBus_sel(10))
qed

text \<open>
  C11. The provider changes a unit only when asked to, and then exactly once. \<open>start\<close>, \<open>stop\<close> and
  \<open>restart\<close> each make one manager call, \<open>StartUnit\<close>, \<open>StopUnit\<close> or \<open>RestartUnit\<close> on the given unit in
  mode \<open>replace\<close>, and none where the bus cannot be opened; probing, listing, reading a service and
  resolving a process make no call but the reading ones, whatever the bus answers.\<close>

theorem SystemdServiceProvider_changes_on_request:
  "(let changed = (\<lambda>m. \<lambda>s. filter changes_unit (snd (world_after m s)));
        once = (\<lambda>method. \<lambda>s. filter changes_unit (snd s) @
          (case result_of (sb_openSystem B) (fst s) of Inl _ \<Rightarrow> [] | Inr _ \<Rightarrow> [control_event method unit])) in
    changed (SystemdServiceProvider_start (recordSdBus B) unit) s = once ''StartUnit'' s
    \<and> changed (SystemdServiceProvider_stop (recordSdBus B) unit) s = once ''StopUnit'' s
    \<and> changed (SystemdServiceProvider_restart (recordSdBus B) unit) s = once ''RestartUnit'' s)
   \<and> filter changes_unit (snd (world_after (SystemdServiceProvider_probe (recordSdBus B)) s)) = filter changes_unit (snd s)
   \<and> filter changes_unit (snd (world_after (SystemdServiceProvider_list fuel (recordSdBus B)) s)) = filter changes_unit (snd s)
   \<and> filter changes_unit (snd (world_after (SystemdServiceProvider_get (recordSdBus B) unit) s)) = filter changes_unit (snd s)
   \<and> filter changes_unit (snd (world_after (SystemdServiceProvider_unitByPid (recordSdBus B) p) s)) = filter changes_unit (snd s)"
  unfolding Let_def SystemdServiceProvider_start_def SystemdServiceProvider_stop_def SystemdServiceProvider_restart_def
  by (intro conjI quiet_world_after quiet_probe quiet_list quiet_get quiet_unitByPid controlUnit_calls;
      simp add: reading_methods_def)

section \<open>Listing reports every service\<close>

text \<open>
  How the library reads an array of rows: \<open>rows\<close> are the rows of a message still to come. Entering the
  array positions before the first of the rows \<open>all\<close>, entering a row says whether there is one, reading
  takes it.
\<close>

definition reads_rows ::
  "('w, 'bus, 'msg) SdBusLib \<Rightarrow> 'msg \<Rightarrow> unit_row list \<Rightarrow> ('w \<Rightarrow> unit_row list) \<Rightarrow> bool" where
  "reads_rows B m all rows \<longleftrightarrow>
     (\<forall>w c. (\<exists>b. result_of (sb_enterContainer B m (CHR ''a'') c) w = Inr b) \<and>
        rows (world_after (sb_enterContainer B m (CHR ''a'') c) w) = all) \<and>
     (\<forall>w c. result_of (sb_enterContainer B m (CHR ''r'') c) w = Inr (rows w \<noteq> []) \<and>
        rows (world_after (sb_enterContainer B m (CHR ''r'') c) w) = rows w) \<and>
     (\<forall>w. rows w \<noteq> [] \<longrightarrow> result_of (sb_readUnit B m) w = Inr (hd (rows w)) \<and>
        rows (world_after (sb_readUnit B m) w) = tl (rows w)) \<and>
     (\<forall>w. (\<exists>u. result_of (sb_exitContainer B m) w = Inr u) \<and>
        rows (world_after (sb_exitContainer B m) w) = rows w)"

definition row_services :: "unit_row list \<Rightarrow> ServiceInfo list" where
  "row_services rows = List.map_filter (serviceFromUnitRecord \<circ> unitRecordOf) rows"

lemma parseRows_exact:
  assumes "reads_rows B m all rows"
  shows "length (rows w) < fuel \<Longrightarrow>
    result_of (parseRows fuel B m services) w = Some (success (services @ row_services (rows w)))"
proof (induction fuel arbitrary: w services)
  case (Suc fuel)
  note laws = assms [unfolded reads_rows_def]
  let ?e = "sb_enterContainer B m (CHR ''r'') ''ssssssouso''"
  let ?w1 = "world_after ?e w"
  have e: "result_of ?e w = Inr (rows w \<noteq> [])" "rows ?w1 = rows w"
    using laws by blast+
  obtain u where exit: "result_of (sb_exitContainer B m) w' = Inr u"
      "rows (world_after (sb_exitContainer B m) w') = rows w'" for w'
    using laws by auto
  show ?case
  proof (cases "rows w")
    case Nil
    then show ?thesis using e exit by (simp add: row_services_def List.map_filter_def)
  next
    case (Cons r rs)
    have "result_of (sb_readUnit B m) ?w1 = Inr r" "rows (world_after (sb_readUnit B m) ?w1) = rs"
      using laws e(2) Cons by auto
    moreover have "length rs < fuel" using Suc.prems Cons by simp
    ultimately show ?thesis
      using e(1) exit Cons Suc.IH
      by (simp add: row_services_def List.map_filter_def split: option.split)
  qed
qed simp

lemma completeService_keeps:
  "si_unitName (fst (result_of (completeService B bus s ws) w)) = si_unitName s"
  "si_activeState (fst (result_of (completeService B bus s ws) w)) = si_activeState s"
  by (auto simp: completeService_def split: sum.split prod.split)

lemma completeServices_keeps:
  "map si_unitName (fst (result_of (completeServices B bus ss ws) w)) = map si_unitName ss
   \<and> map si_activeState (fst (result_of (completeServices B bus ss ws) w)) = map si_activeState ss"
  by (induction ss arbitrary: ws w) (simp_all add: case_prod_beta completeService_keeps)

lemma row_services_names:
  "map si_unitName (row_services rows) = filter isService (map (orEmpty \<circ> ur_name) rows)"
  "map si_activeState (row_services rows) =
     map (orEmpty \<circ> ur_activeState) (filter (isService \<circ> orEmpty \<circ> ur_name) rows)"
  by (induction rows)
     (auto simp: row_services_def List.map_filter_def serviceFromUnitRecord_def unitRecordOf_def)

text \<open>
  Listing reports every service, in order. When the manager answers and the library reads the reply
  row by row, the list returns, for any number of rows and whatever the further questions about each
  service answer: exactly the units of the reply whose name ends in \<open>.service\<close> and is longer than that,
  in the order of the reply, each with the state the reply gives for it.\<close>

theorem SystemdServiceProvider_list_exact:
  assumes rows: "reads_rows B m all rows"
    and bus: "\<And>w. result_of (sb_openSystem B) w = Inr bus"
    and reply: "\<And>w. result_of (managerCall B bus ''ListUnits'' []) w = Inr (Some m)"
    and fuel: "length all < fuel"
  shows "\<exists>ob. result_of (SystemdServiceProvider_list fuel B) w = Some (Inr ob)
    \<and> map si_unitName (ob_value ob) = filter isService (map (orEmpty \<circ> ur_name) all)
    \<and> map si_activeState (ob_value ob) =
        map (orEmpty \<circ> ur_activeState) (filter (isService \<circ> orEmpty \<circ> ur_name) all)"
proof -
  let ?e = "\<lambda>w. world_after (sb_enterContainer B m (CHR ''a'') ''(ssssssouso)'') w"
  have array: "\<exists>b. result_of (sb_enterContainer B m (CHR ''a'') ''(ssssssouso)'') w = Inr b" "rows (?e w) = all" for w
    using rows unfolding reads_rows_def by blast+
  have "result_of (parseListUnitsMessage fuel B (Some m)) w = Some (success (row_services all))" for w
    using array [of w] parseRows_exact [OF rows, of "?e w" fuel "[]"] fuel
    by (auto simp: parseListUnitsMessage_def)
  then show ?thesis
    using completeServices_keeps [of B bus "row_services all" "[]"]
    by (simp add: SystemdServiceProvider_list_def openSystem_def bus reply row_services_names case_prod_beta)
qed

definition demo_rows :: "unit_row list" where
  "demo_rows = map (\<lambda>n. \<lparr>ur_name = Some n, ur_description = None, ur_loadState = Some ''loaded'',
     ur_activeState = Some ''active'', ur_subState = Some ''running''\<rparr>)
     [''nginx.service'', ''dev-sda.device'', ''.service'', ''cron.service'']"

text \<open>A bus whose world is the rows still to be read.\<close>

definition demo_SdBus :: "(unit_row list, unit, unit) SdBusLib" where
  "demo_SdBus =
     \<lparr>sb_openSystem = return (Inr ()),
      sb_callMethod = (\<lambda>bus d p i m args. return (Inr (Some ()))),
      sb_getProperty = (\<lambda>bus d p i n t. return (Inr (Some ()))),
      sb_getPropertyString = (\<lambda>bus d p i n. return (Inr None)),
      sb_getPropertyU32 = (\<lambda>bus d p i n. return (Inr 7)),
      sb_getPropertyU64 = (\<lambda>bus d p i n. return (Inr 0)),
      sb_enterContainer = (\<lambda>m t c. State (\<lambda>rows. if t = CHR ''a'' then (Inr True, demo_rows) else (Inr (rows \<noteq> []), rows))),
      sb_exitContainer = (\<lambda>m. return (Inr ())),
      sb_readUnit = (\<lambda>m. State (\<lambda>rows. (case rows of [] \<Rightarrow> Inl 6 | r # _ \<Rightarrow> Inr r, tl rows))),
      sb_readOne = (\<lambda>m t. return (Inr (Some ''/unit''))),
      sb_strerror = (\<lambda>_. ''error'')\<rparr>"

lemma demo_reads_rows: "reads_rows demo_SdBus () demo_rows (\<lambda>w. w)"
  by (auto simp: reads_rows_def demo_SdBus_def neq_Nil_conv)

theorem SystemdServiceProvider_list_exact_witness:
  "\<exists>ob. result_of (SystemdServiceProvider_list 5 demo_SdBus) [] = Some (Inr ob)
     \<and> map si_unitName (ob_value ob) = [''nginx.service'', ''cron.service'']"
proof -
  have "\<exists>ob. result_of (SystemdServiceProvider_list 5 demo_SdBus) [] = Some (Inr ob)
    \<and> map si_unitName (ob_value ob) = filter isService (map (orEmpty \<circ> ur_name) demo_rows)
    \<and> map si_activeState (ob_value ob) =
        map (orEmpty \<circ> ur_activeState) (filter (isService \<circ> orEmpty \<circ> ur_name) demo_rows)"
    by (rule SystemdServiceProvider_list_exact [OF demo_reads_rows])
       (simp_all add: demo_SdBus_def managerCall_def demo_rows_def)
  then show ?thesis
    by (auto simp: demo_rows_def isService_def orEmpty_def)
qed

section \<open>The unit of a process\<close>

text \<open>
  A process is attributed only to a service. \<open>unitByPid\<close> rejects a process id that is not positive
  without touching the bus; otherwise every unit it names ends in \<open>.service\<close>, and that a process has no
  unit, or that its unit is a scope, a slice or already gone, is an answer (none) and not an error.\<close>

theorem SystemdServiceProvider_unitByPid_services:
  "(if p \<le> 0
    then world_after (SystemdServiceProvider_unitByPid B p) w = w \<and>
      (\<exists>e. result_of (SystemdServiceProvider_unitByPid B p) w = Inl e \<and> er_code e = InvalidArgument)
    else case result_of (SystemdServiceProvider_unitByPid B p) w of
        Inl e \<Rightarrow> er_code e \<noteq> NotFound
      | Inr None \<Rightarrow> True
      | Inr (Some unit) \<Rightarrow> isService unit)"
proof (cases "p \<le> 0")
  case True
  then show ?thesis by (simp add: SystemdServiceProvider_unitByPid_def)
next
  case False
  show ?thesis
  proof (cases "result_of (sb_openSystem B) w")
    case (Inl e)
    then show ?thesis
      using False by (simp add: SystemdServiceProvider_unitByPid_def openSystem_def bus_openError_def)
  next
    case (Inr bus)
    define w1 where "w1 = world_after (sb_openSystem B) w"
    let ?call = "managerCall B bus ''GetUnitByPID'' [UInt32Arg (word_of_int p)]"
    define w2 where "w2 = world_after ?call w1"
    show ?thesis
    proof (cases "result_of ?call w1")
      case call: (Inl e)
      then show ?thesis
        using False Inr by (simp add: SystemdServiceProvider_unitByPid_def openSystem_def w1_def Let_def)
    next
      case call: (Inr message)
      define r where "r = result_of (sb_readOne B message (CHR ''o'')) w2"
      have run: "result_of (SystemdServiceProvider_unitByPid B p) w =
          result_of (case r of
              Inr (Some path) \<Rightarrow> do {
                ident \<leftarrow> stringProperty B bus path unitInterface ''Id'';
                return (case ident of
                  Inl e \<Rightarrow> if er_code e = NotFound then success None else failure e
                | Inr s \<Rightarrow> success (if isService s then Some s else None))
              }
            | _ \<Rightarrow> return (failure (protocolError ''GetUnitByPID returned no object path'' ''resolve PID'')))
            (world_after (sb_readOne B message (CHR ''o'')) w2)"
        using False Inr call by (simp add: SystemdServiceProvider_unitByPid_def openSystem_def w1_def w2_def r_def)
      show ?thesis
        unfolding run using False
        by (auto simp: protocolError_def split: sum.split option.split)
    qed
  qed
qed

end
