(* ===== verification/SystemdJournal.thy ===== *)
theory SystemdJournal
  imports ProcFs
begin

text \<open>
  \<open>src/linux/systemd\<close>, the journal: decoding the fields of an entry, the journal provider (the newest
  entries, the entries since a time, following), and the provider that stands in for it where the
  program was built without systemd.

  The sd-journal library is a parameter: the record of the functions the code calls. A negative status
  is an errno in \<open>Inl\<close>; the functions that step tell whether there was an entry. Time points are in
  nanoseconds.
\<close>

section \<open>Fields\<close>

definition journal_parseWarning :: "string \<Rightarrow> string \<Rightarrow> Warning" where
  "journal_parseWarning message operation = mkWarning ParseError message 0 ''sd-journal'' operation"

text \<open>The bytes the library returns for a field, or \<open>None\<close> for a null pointer.\<close>

definition journalFieldValue :: "string \<Rightarrow> string option \<Rightarrow> string result" where
  "journalFieldValue field data =
     (case data of
        None \<Rightarrow> failure (mkError ProtocolError ''Journal field has no data'' 0 ''sd-journal'' ''read field'')
      | Some bytes \<Rightarrow>
          if length bytes \<le> length field \<or> take (length field) bytes \<noteq> field \<or> bytes ! length field \<noteq> CHR ''=''
          then failure (mkError ProtocolError ''Journal field does not match the requested name'' 0
                 ''sd-journal'' ''read field'')
          else success (drop (length field + 1) bytes))"

record JournalFields =
  jf_timestampUsec :: u64
  jf_cursor :: string
  jf_systemdUnit :: "string option"
  jf_pid :: "string option"
  jf_command :: "string option"
  jf_message :: "string option"
  jf_priority :: "string option"

definition entryPid :: "string \<Rightarrow> pid option" where
  "entryPid s =
     (let parsed = from_chars_unsigned (2 ^ 64 - 1) s; v = fc_value_or 0 parsed in
      if consumed_all parsed s \<and> 0 < v \<and> int v \<le> pid_max then Some (int v) else None)"

definition entryPriority :: "string \<Rightarrow> u8 option" where
  "entryPriority s =
     (let parsed = from_chars_unsigned (2 ^ 32 - 1) s; v = fc_value_or 0 parsed in
      if consumed_all parsed s \<and> v \<le> 7 then Some (word_of_nat v) else None)"

text \<open>
  The time point of an entry: microseconds as a signed 64-bit count of nanoseconds. The code multiplies in
  \<open>std::int64_t\<close>; above 2^63 / 1000 microseconds that overflows, which C++ leaves undefined. The product is
  taken at its width here and read in two's complement, and what is proved of times is proved below that
  bound only.
\<close>

definition entryTime :: "u64 \<Rightarrow> int" where
  "entryTime usec = sint (usec * 1000)"

lemma entryTime_exact:
  assumes "uint usec * 1000 < 2 ^ 63"
  shows "entryTime usec = uint usec * 1000"
proof -
  have nonneg: "0 \<le> uint usec" by simp
  with assms have "uint (usec * 1000) = uint usec * 1000" by (simp add: uint_word_ariths)
  moreover have "signed_take_bit 63 (uint usec * 1000) = uint usec * 1000"
    by (rule signed_take_bit_int_eq_self) (use assms nonneg in linarith)+
  ultimately show ?thesis by (simp add: entryTime_def sint_uint)
qed

definition journalEntryFromFields :: "JournalFields \<Rightarrow> JournalEntry Observation" where
  "journalEntryFromFields f =
     (let pid = Option.bind (jf_pid f) entryPid; priority = Option.bind (jf_priority f) entryPriority in
      \<lparr>ob_value = \<lparr>je_timestamp = entryTime (jf_timestampUsec f), je_cursor = jf_cursor f,
         je_systemdUnit = jf_systemdUnit f, je_pid = pid, je_command = jf_command f,
         je_message = (case jf_message f of None \<Rightarrow> [] | Some m \<Rightarrow> m), je_priority = priority\<rparr>,
       ob_warnings =
         (if jf_pid f \<noteq> None \<and> pid = None
          then [journal_parseWarning ''Journal entry contains an invalid _PID'' ''parse PID''] else []) @
         (if jf_priority f \<noteq> None \<and> priority = None
          then [journal_parseWarning ''Journal entry contains an invalid PRIORITY'' ''parse priority''] else [])\<rparr>)"

section \<open>The journal library\<close>

record ('w, 'j) SdJournalLib =
  sj_open :: "('w, errno + 'j) io"
  sj_close :: "'j \<Rightarrow> ('w, unit) io"
  sj_setDataThreshold :: "'j \<Rightarrow> nat \<Rightarrow> ('w, errno + unit) io"
  sj_addMatch :: "'j \<Rightarrow> string \<Rightarrow> ('w, errno + unit) io"
  sj_getData :: "'j \<Rightarrow> string \<Rightarrow> ('w, errno + string option) io"
  sj_getRealtimeUsec :: "'j \<Rightarrow> ('w, errno + u64) io"
  sj_getCursor :: "'j \<Rightarrow> ('w, errno + string option) io"
  sj_seekTail :: "'j \<Rightarrow> ('w, errno + unit) io"
  sj_seekRealtimeUsec :: "'j \<Rightarrow> u64 \<Rightarrow> ('w, errno + unit) io"
  sj_seekCursor :: "'j \<Rightarrow> string \<Rightarrow> ('w, errno + unit) io"
  sj_previous :: "'j \<Rightarrow> ('w, errno + bool) io"
  sj_next :: "'j \<Rightarrow> ('w, errno + bool) io"
  sj_wait :: "'j \<Rightarrow> nat \<Rightarrow> ('w, errno + unit) io"
  sj_strerror :: "errno \<Rightarrow> string"

definition journal_openError :: "('w, 'j) SdJournalLib \<Rightarrow> errno \<Rightarrow> Error" where
  "journal_openError J number =
     mkError (if number = EACCES \<or> number = EPERM then PermissionDenied else Unavailable)
       (''Unable to open the local journal: '' @ sj_strerror J number) number ''sd-journal'' ''open local journal''"

text \<open>The handle of a failed open, which may be null, is closed; that has no effect.\<close>

definition openLocal :: "('w, 'j) SdJournalLib \<Rightarrow> ('w, 'j result) io" where
  "openLocal J = do {
     r \<leftarrow> sj_open J;
     return (case r of
       Inl number \<Rightarrow> failure (journal_openError J number)
     | Inr j \<Rightarrow> success j)
   }"

definition journalError :: "('w, 'j) SdJournalLib \<Rightarrow> errno \<Rightarrow> string \<Rightarrow> Error" where
  "journalError J number operation =
     mkError (if number = EACCES \<or> number = EPERM then PermissionDenied
              else if number = ENOENT then Unavailable
              else if number = EINTR then Interrupted
              else if number = ETIMEDOUT then Timeout else IoError)
       (''Journal operation failed: '' @ sj_strerror J number) number ''sd-journal'' operation"

definition journalDataThreshold :: nat where
  "journalDataThreshold = 1024 * 1024"

definition addMatch :: "('w, 'j) SdJournalLib \<Rightarrow> 'j \<Rightarrow> string \<Rightarrow> ('w, unit result) io" where
  "addMatch J j m = do {
     r \<leftarrow> sj_addMatch J j m;
     return (case r of Inl e \<Rightarrow> failure (journalError J e ''add match'') | Inr _ \<Rightarrow> success ())
   }"

text \<open>An optional step that does nothing where there is nothing to match.\<close>

definition addOptionalMatch :: "('w, 'j) SdJournalLib \<Rightarrow> 'j \<Rightarrow> string option \<Rightarrow> ('w, unit result) io" where
  "addOptionalMatch J j m = (case m of None \<Rightarrow> return (success ()) | Some x \<Rightarrow> addMatch J j x)"

definition configureJournal :: "('w, 'j) SdJournalLib \<Rightarrow> 'j \<Rightarrow> LogQuery \<Rightarrow> ('w, unit result) io" where
  "configureJournal J j query =
     (if lq_limit query = 0
      then return (failure (mkError InvalidArgument ''Journal limit must be greater than zero'' 0
             ''sd-journal'' ''configure query''))
      else do {
        threshold \<leftarrow> sj_setDataThreshold J j journalDataThreshold;
        case threshold of
          Inl e \<Rightarrow> return (failure (journalError J e ''set data threshold''))
        | Inr _ \<Rightarrow> do {
            matched \<leftarrow> addOptionalMatch J j (map_option (\<lambda>u. ''_SYSTEMD_UNIT='' @ u) (lq_unit query));
            case matched of
              Inl e \<Rightarrow> return (failure e)
            | Inr _ \<Rightarrow> addOptionalMatch J j (map_option (\<lambda>p. ''_PID='' @ int_str p) (lq_pid query))
          }
      })"

section \<open>Reading entries\<close>

definition readField :: "('w, 'j) SdJournalLib \<Rightarrow> 'j \<Rightarrow> string \<Rightarrow> ('w, string option result) io" where
  "readField J j field = do {
     r \<leftarrow> sj_getData J j field;
     return (case r of
       Inl e \<Rightarrow> if e = ENOENT then success None else failure (journalError J e ''read field'')
     | Inr data \<Rightarrow> (case journalFieldValue field data of Inl e \<Rightarrow> failure e | Inr v \<Rightarrow> success (Some v)))
   }"

text \<open>The five fields are all read before the first error is looked at.\<close>

definition readFields ::
  "('w, 'j) SdJournalLib \<Rightarrow> 'j \<Rightarrow> u64 \<Rightarrow> string \<Rightarrow> ('w, JournalFields result) io" where
  "readFields J j timestamp cursor = do {
     unit \<leftarrow> readField J j ''_SYSTEMD_UNIT'';
     pid \<leftarrow> readField J j ''_PID'';
     command \<leftarrow> readField J j ''_COMM'';
     message \<leftarrow> readField J j ''MESSAGE'';
     priority \<leftarrow> readField J j ''PRIORITY'';
     return (case unit of
       Inl e \<Rightarrow> failure e
     | Inr u \<Rightarrow> case pid of
         Inl e \<Rightarrow> failure e
       | Inr p \<Rightarrow> case command of
           Inl e \<Rightarrow> failure e
         | Inr c \<Rightarrow> case message of
             Inl e \<Rightarrow> failure e
           | Inr m \<Rightarrow> case priority of
               Inl e \<Rightarrow> failure e
             | Inr q \<Rightarrow> success \<lparr>jf_timestampUsec = timestamp, jf_cursor = cursor, jf_systemdUnit = u,
                 jf_pid = p, jf_command = c, jf_message = m, jf_priority = q\<rparr>)
   }"

definition noteEmptyMessage :: "JournalEntry Observation \<Rightarrow> JournalEntry Observation" where
  "noteEmptyMessage ob =
     (if je_message (ob_value ob) = []
      then ob\<lparr>ob_warnings := ob_warnings ob @
             [mkWarning NotFound ''Journal entry has no MESSAGE field'' 0 ''sd-journal'' ''read entry'']\<rparr>
      else ob)"

definition readCurrentEntry :: "('w, 'j) SdJournalLib \<Rightarrow> 'j \<Rightarrow> ('w, JournalEntry Observation result) io" where
  "readCurrentEntry J j = do {
     timestamp \<leftarrow> sj_getRealtimeUsec J j;
     case timestamp of
       Inl e \<Rightarrow> return (failure (journalError J e ''read timestamp''))
     | Inr usec \<Rightarrow>
         if 2 ^ 63 - 1 < uint usec
         then return (failure (mkError ParseError ''Journal timestamp is out of range'' 0
                ''sd-journal'' ''read timestamp''))
         else do {
           cursor \<leftarrow> sj_getCursor J j;
           case cursor of
             Inl e \<Rightarrow> return (failure (journalError J e ''read cursor''))
           | Inr c \<Rightarrow> do {
               fields \<leftarrow> readFields J j usec (case c of None \<Rightarrow> [] | Some x \<Rightarrow> x);
               return (case fields of
                 Inl e \<Rightarrow> failure e
               | Inr f \<Rightarrow> success (noteEmptyMessage (journalEntryFromFields f)))
             }
         }
   }"

text \<open>Both queries end by collecting the window of entries.\<close>

fun appendEntries ::
  "JournalEntry Observation list \<Rightarrow> JournalEntry list Observation \<Rightarrow> JournalEntry list Observation" where
  "appendEntries [] target = target"
| "appendEntries (ob # obs) target = appendEntries obs
     \<lparr>ob_value = ob_value target @ [ob_value ob], ob_warnings = ob_warnings target @ ob_warnings ob\<rparr>"

abbreviation noEntries :: "JournalEntry list Observation" where
  "noEntries \<equiv> \<lparr>ob_value = [], ob_warnings = []\<rparr>"

text \<open>The loop of \<open>queryTail\<close>, with the number of entries still wanted.\<close>

fun readBackwards ::
  "('w, 'j) SdJournalLib \<Rightarrow> 'j \<Rightarrow> nat \<Rightarrow> JournalEntry Observation list \<Rightarrow>
   ('w, JournalEntry Observation list result) io" where
  "readBackwards J j 0 reversed = return (success reversed)"
| "readBackwards J j (Suc n) reversed = do {
     status \<leftarrow> sj_previous J j;
     case status of
       Inl e \<Rightarrow> return (failure (journalError J e ''read previous entry''))
     | Inr False \<Rightarrow> return (success reversed)
     | Inr True \<Rightarrow> do {
         entry \<leftarrow> readCurrentEntry J j;
         case entry of
           Inl e \<Rightarrow> return (failure e)
         | Inr ob \<Rightarrow> readBackwards J j n (reversed @ [ob])
       }
   }"

definition queryTail :: "('w, 'j) SdJournalLib \<Rightarrow> 'j \<Rightarrow> nat \<Rightarrow> ('w, JournalEntry list Observation result) io" where
  "queryTail J j limit = do {
     seek \<leftarrow> sj_seekTail J j;
     case seek of
       Inl e \<Rightarrow> return (failure (journalError J e ''seek tail''))
     | Inr _ \<Rightarrow> do {
         reversed \<leftarrow> readBackwards J j limit [];
         return (case reversed of
           Inl e \<Rightarrow> failure e
         | Inr obs \<Rightarrow> success (appendEntries (rev obs) noEntries))
       }
   }"

text \<open>The loop of \<open>querySince\<close> over a window of at most \<open>limit\<close> entries; \<open>None\<close> when the fuel ran out.\<close>

definition pushWindow :: "nat \<Rightarrow> 'a list \<Rightarrow> 'a \<Rightarrow> 'a list" where
  "pushWindow limit window x =
     (let pushed = window @ [x] in if limit < length pushed then tl pushed else pushed)"

fun readForwards ::
  "nat \<Rightarrow> ('w, 'j) SdJournalLib \<Rightarrow> 'j \<Rightarrow> nat \<Rightarrow> JournalEntry Observation list \<Rightarrow>
   ('w, JournalEntry Observation list result option) io" where
  "readForwards 0 J j limit window = return None"
| "readForwards (Suc fuel) J j limit window = do {
     status \<leftarrow> sj_next J j;
     case status of
       Inl e \<Rightarrow> return (Some (failure (journalError J e ''read next entry'')))
     | Inr False \<Rightarrow> return (Some (success window))
     | Inr True \<Rightarrow> do {
         entry \<leftarrow> readCurrentEntry J j;
         case entry of
           Inl e \<Rightarrow> return (Some (failure e))
         | Inr ob \<Rightarrow> readForwards fuel J j limit (pushWindow limit window ob)
       }
   }"

definition querySince ::
  "nat \<Rightarrow> ('w, 'j) SdJournalLib \<Rightarrow> 'j \<Rightarrow> int \<Rightarrow> nat \<Rightarrow> ('w, JournalEntry list Observation result option) io" where
  "querySince fuel J j since limit =
     (if toMicroseconds since < 0
      then return (Some (failure (mkError InvalidArgument ''Journal since time must not precede the Unix epoch'' 0
             ''sd-journal'' ''seek time'')))
      else do {
        seek \<leftarrow> sj_seekRealtimeUsec J j (word_of_int (toMicroseconds since));
        case seek of
          Inl e \<Rightarrow> return (Some (failure (journalError J e ''seek time'')))
        | Inr _ \<Rightarrow> do {
            window \<leftarrow> readForwards fuel J j limit [];
            return (map_option (\<lambda>r. case r of
                Inl e \<Rightarrow> failure e
              | Inr obs \<Rightarrow> success (appendEntries obs noEntries)) window)
          }
      })"

section \<open>The provider\<close>

definition SystemdJournalProvider_probe :: "('w, 'j) SdJournalLib \<Rightarrow> ('w, unit result) io" where
  "SystemdJournalProvider_probe J = do {
     journal \<leftarrow> openLocal J;
     case journal of
       Inl e \<Rightarrow> return (failure e)
     | Inr j \<Rightarrow> do {
         _ \<leftarrow> sj_close J j;
         return (success ())
       }
   }"

definition queryJournal ::
  "nat \<Rightarrow> ('w, 'j) SdJournalLib \<Rightarrow> 'j \<Rightarrow> LogQuery \<Rightarrow> ('w, JournalEntry list Observation result option) io" where
  "queryJournal fuel J j query =
     (case lq_since query of
        Some since \<Rightarrow> querySince fuel J j since (lq_limit query)
      | None \<Rightarrow> do {
          r \<leftarrow> queryTail J j (lq_limit query);
          return (Some r)
        })"

definition SystemdJournalProvider_query ::
  "nat \<Rightarrow> ('w, 'j) SdJournalLib \<Rightarrow> LogQuery \<Rightarrow> ('w, JournalEntry list Observation result option) io" where
  "SystemdJournalProvider_query fuel J query = do {
     journal \<leftarrow> openLocal J;
     case journal of
       Inl e \<Rightarrow> return (Some (failure e))
     | Inr j \<Rightarrow> do {
         configured \<leftarrow> configureJournal J j query;
         r \<leftarrow> (case configured of
           Inl e \<Rightarrow> return (Some (failure e))
         | Inr _ \<Rightarrow> queryJournal fuel J j query);
         _ \<leftarrow> sj_close J j;
         return r
       }
   }"

section \<open>Following\<close>

definition follow_interrupted :: "unit result" where
  "follow_interrupted = failure (mkError Interrupted ''Journal follow was interrupted'' EINTR ''sd-journal'' ''follow'')"

definition positionAfterInitial ::
  "('w, 'j) SdJournalLib \<Rightarrow> 'j \<Rightarrow> JournalEntry list \<Rightarrow> ('w, unit result) io" where
  "positionAfterInitial J j entries =
     (if entries = []
      then do {
        r \<leftarrow> sj_seekTail J j;
        return (case r of Inl e \<Rightarrow> failure (journalError J e ''seek tail'') | Inr _ \<Rightarrow> success ())
      }
      else do {
        seek \<leftarrow> sj_seekCursor J j (je_cursor (last entries));
        case seek of
          Inl e \<Rightarrow> return (failure (journalError J e ''seek initial cursor''))
        | Inr _ \<Rightarrow> do {
            step \<leftarrow> sj_next J j;
            return (case step of
              Inl e \<Rightarrow> failure (journalError J e ''position after initial cursor'')
            | Inr False \<Rightarrow> failure (mkError Conflict ''Initial journal cursor disappeared before follow'' 0
                ''sd-journal'' ''follow'')
            | Inr True \<Rightarrow> success ())
          }
      })"

text \<open>The entries found so far go to the sink first, the warnings with the first of them. \<open>Inr ()\<close> when
  all were accepted.\<close>

fun emitInitial ::
  "JournalEntry list \<Rightarrow> Warning list \<Rightarrow> 'w JournalEntrySink \<Rightarrow> 'w JournalStopRequested \<Rightarrow> ('w, unit result) io" where
  "emitInitial [] warnings sink stop = return (success ())"
| "emitInitial (e # es) warnings sink stop = do {
     stopped \<leftarrow> stop;
     if stopped then return follow_interrupted
     else do {
       accepted \<leftarrow> sink \<lparr>ob_value = e, ob_warnings = warnings\<rparr>;
       case accepted of
         Inl err \<Rightarrow> return (failure err)
       | Inr _ \<Rightarrow> emitInitial es [] sink stop
     }
   }"

text \<open>The inner loop over the entries that are there, then the wait, then again; \<open>None\<close> when the fuel ran
  out. \<open>checked\<close> says that the outer loop has asked the stop predicate.\<close>

fun followLoop ::
  "nat \<Rightarrow> ('w, 'j) SdJournalLib \<Rightarrow> 'j \<Rightarrow> 'w JournalEntrySink \<Rightarrow> 'w JournalStopRequested \<Rightarrow> bool \<Rightarrow>
   ('w, unit result option) io" where
  "followLoop 0 J j sink stop checked = return None"
| "followLoop (Suc fuel) J j sink stop False = do {
     stopped \<leftarrow> stop;
     if stopped then return (Some follow_interrupted) else followLoop fuel J j sink stop True
   }"
| "followLoop (Suc fuel) J j sink stop True = do {
     status \<leftarrow> sj_next J j;
     case status of
       Inl e \<Rightarrow>
         if e = EINTR
         then do {
           stopped \<leftarrow> stop;
           return (Some (if stopped then follow_interrupted else failure (journalError J e ''read followed entry'')))
         }
         else return (Some (failure (journalError J e ''read followed entry'')))
     | Inr True \<Rightarrow> do {
         entry \<leftarrow> readCurrentEntry J j;
         case entry of
           Inl e \<Rightarrow> return (Some (failure e))
         | Inr ob \<Rightarrow> do {
             accepted \<leftarrow> sink ob;
             case accepted of
               Inl e \<Rightarrow> return (Some (failure e))
             | Inr _ \<Rightarrow> do {
                 stopped \<leftarrow> stop;
                 if stopped then return (Some follow_interrupted) else followLoop fuel J j sink stop True
               }
           }
       }
     | Inr False \<Rightarrow> do {
         waited \<leftarrow> sj_wait J j 1000000;
         case waited of
           Inl e \<Rightarrow>
             if e = EINTR
             then do {
               stopped \<leftarrow> stop;
               return (Some (if stopped then follow_interrupted
                             else failure (journalError J e ''wait for journal entries'')))
             }
             else return (Some (failure (journalError J e ''wait for journal entries'')))
         | Inr _ \<Rightarrow> followLoop fuel J j sink stop False
       }
   }"

text \<open>The check that both functions are given is made by the caller of the model: a sink and a stop
  predicate are always there.\<close>

definition followJournal ::
  "nat \<Rightarrow> ('w, 'j) SdJournalLib \<Rightarrow> 'j \<Rightarrow> LogQuery \<Rightarrow> 'w JournalEntrySink \<Rightarrow> 'w JournalStopRequested \<Rightarrow>
   ('w, unit result option) io" where
  "followJournal fuel J j query sink stop = do {
     configured \<leftarrow> configureJournal J j query;
     case configured of
       Inl e \<Rightarrow> return (Some (failure e))
     | Inr _ \<Rightarrow> do {
         initial \<leftarrow> queryJournal fuel J j query;
         case initial of
           None \<Rightarrow> return None
         | Some (Inl e) \<Rightarrow> return (Some (failure e))
         | Some (Inr ob) \<Rightarrow> do {
             positioned \<leftarrow> positionAfterInitial J j (ob_value ob);
             case positioned of
               Inl e \<Rightarrow> return (Some (failure e))
             | Inr _ \<Rightarrow> do {
                 emitted \<leftarrow> emitInitial (ob_value ob) (ob_warnings ob) sink stop;
                 case emitted of
                   Inl e \<Rightarrow> return (Some (failure e))
                 | Inr _ \<Rightarrow> followLoop fuel J j sink stop False
               }
           }
       }
   }"

definition SystemdJournalProvider_follow ::
  "nat \<Rightarrow> ('w, 'j) SdJournalLib \<Rightarrow> LogQuery \<Rightarrow> 'w JournalEntrySink \<Rightarrow> 'w JournalStopRequested \<Rightarrow>
   ('w, unit result option) io" where
  "SystemdJournalProvider_follow fuel J query sink stop = do {
     journal \<leftarrow> openLocal J;
     case journal of
       Inl e \<Rightarrow> return (Some (failure e))
     | Inr j \<Rightarrow> do {
         r \<leftarrow> followJournal fuel J j query sink stop;
         _ \<leftarrow> sj_close J j;
         return r
       }
   }"

text \<open>As the interface has it, with the fuel of a query and the rounds of following, which has no end of its
  own.\<close>

definition SystemdJournalProvider :: "nat \<Rightarrow> nat \<Rightarrow> ('w, 'j) SdJournalLib \<Rightarrow> 'w IJournalProvider" where
  "SystemdJournalProvider fuel rounds J =
     \<lparr>jp_probe = SystemdJournalProvider_probe J,
      jp_query = (\<lambda>query. do {
        r \<leftarrow> SystemdJournalProvider_query fuel J query;
        return (settled r)
      }),
      jp_follow = (\<lambda>query sink stop. do {
        r \<leftarrow> SystemdJournalProvider_follow rounds J query sink stop;
        return (settled r)
      })\<rparr>"

section \<open>Without systemd\<close>

definition journal_unavailable :: "string \<Rightarrow> string \<Rightarrow> 'a result" where
  "journal_unavailable reason operation = failure (mkError Unavailable reason 0 ''journal'' operation)"

definition UnavailableJournalProvider :: "string \<Rightarrow> 'w IJournalProvider" where
  "UnavailableJournalProvider reason =
     \<lparr>jp_probe = return (journal_unavailable reason ''probe''),
      jp_query = (\<lambda>_. return (journal_unavailable reason ''query'')),
      jp_follow = (\<lambda>_ _ _. return (journal_unavailable reason ''follow''))\<rparr>"

section \<open>The contract of the providers\<close>

text \<open>The journal library next to recorded providers: its calls are no calls of a provider.\<close>

definition silentSdJournal :: "('w, 'j) SdJournalLib \<Rightarrow> ('w recorded, 'j) SdJournalLib" where
  "silentSdJournal J =
     \<lparr>sj_open = silently (sj_open J), sj_close = (\<lambda>j. silently (sj_close J j)),
      sj_setDataThreshold = (\<lambda>j n. silently (sj_setDataThreshold J j n)),
      sj_addMatch = (\<lambda>j m. silently (sj_addMatch J j m)), sj_getData = (\<lambda>j f. silently (sj_getData J j f)),
      sj_getRealtimeUsec = (\<lambda>j. silently (sj_getRealtimeUsec J j)),
      sj_getCursor = (\<lambda>j. silently (sj_getCursor J j)), sj_seekTail = (\<lambda>j. silently (sj_seekTail J j)),
      sj_seekRealtimeUsec = (\<lambda>j u. silently (sj_seekRealtimeUsec J j u)),
      sj_seekCursor = (\<lambda>j c. silently (sj_seekCursor J j c)), sj_previous = (\<lambda>j. silently (sj_previous J j)),
      sj_next = (\<lambda>j. silently (sj_next J j)), sj_wait = (\<lambda>j n. silently (sj_wait J j n)),
      sj_strerror = sj_strerror J\<rparr>"

lemma quiet_library [quiet_intros]:
  "quiet D (sj_open (silentSdJournal J))" "quiet D (sj_close (silentSdJournal J) j)"
  "quiet D (sj_setDataThreshold (silentSdJournal J) j n)" "quiet D (sj_addMatch (silentSdJournal J) j m)"
  "quiet D (sj_getData (silentSdJournal J) j m)" "quiet D (sj_getRealtimeUsec (silentSdJournal J) j)"
  "quiet D (sj_getCursor (silentSdJournal J) j)" "quiet D (sj_seekTail (silentSdJournal J) j)"
  "quiet D (sj_seekRealtimeUsec (silentSdJournal J) j u)" "quiet D (sj_seekCursor (silentSdJournal J) j m)"
  "quiet D (sj_previous (silentSdJournal J) j)" "quiet D (sj_next (silentSdJournal J) j)"
  "quiet D (sj_wait (silentSdJournal J) j n)"
  by (simp_all add: silentSdJournal_def quiet_silently)

lemma quiet_case_bool [quiet_intros]:
  "(b \<Longrightarrow> quiet D m) \<Longrightarrow> (\<not> b \<Longrightarrow> quiet D n) \<Longrightarrow> quiet D (case b of True \<Rightarrow> m | False \<Rightarrow> n)"
  by (cases b) simp_all

lemma quiet_configure [quiet_intros]:
  "quiet D (openLocal (silentSdJournal J))" "quiet D (configureJournal (silentSdJournal J) j q)"
  unfolding openLocal_def configureJournal_def addOptionalMatch_def addMatch_def by (intro quiet_intros)+

lemma quiet_readCurrentEntry [quiet_intros]: "quiet D (readCurrentEntry (silentSdJournal J) j)"
  unfolding readCurrentEntry_def readFields_def readField_def by (intro quiet_intros)

lemma quiet_readBackwards [quiet_intros]: "quiet D (readBackwards (silentSdJournal J) j n obs)"
proof (induction n arbitrary: obs)
  case (Suc n)
  show ?case unfolding readBackwards.simps by (intro quiet_intros Suc.IH)
qed (simp add: quiet_intros)

lemma quiet_readForwards [quiet_intros]: "quiet D (readForwards fuel (silentSdJournal J) j n window)"
proof (induction fuel arbitrary: window)
  case (Suc fuel)
  show ?case unfolding readForwards.simps by (intro quiet_intros Suc.IH)
qed (simp add: quiet_intros)

lemma quiet_queryJournal [quiet_intros]: "quiet D (queryJournal fuel (silentSdJournal J) j q)"
  unfolding queryJournal_def queryTail_def querySince_def by (intro quiet_intros)

lemma quiet_emitInitial:
  "(\<And>e. quiet D (sink e)) \<Longrightarrow> quiet D stop \<Longrightarrow> quiet D (emitInitial es ws sink stop)"
proof (induction es arbitrary: ws)
  case (Cons e es)
  show ?case unfolding emitInitial.simps by (intro quiet_intros Cons)
qed (simp add: quiet_intros)

lemma quiet_followLoop:
  assumes "\<And>e. quiet D (sink e)" "quiet D stop"
  shows "quiet D (followLoop fuel (silentSdJournal J) j sink stop checked)"
proof (induction fuel arbitrary: checked)
  case (Suc fuel)
  show ?case
    by (cases checked; simp only: followLoop.simps; intro quiet_intros assms Suc.IH)
qed (simp add: quiet_intros)

lemma quiet_SystemdJournalProvider_follow:
  assumes "\<And>e. quiet D (sink e)" "quiet D stop"
  shows "quiet D (SystemdJournalProvider_follow fuel (silentSdJournal J) q sink stop)"
  unfolding SystemdJournalProvider_follow_def followJournal_def positionAfterInitial_def
  by (intro quiet_intros quiet_emitInitial quiet_followLoop assms)

interpretation systemd_journal: reading_journal "SystemdJournalProvider fuel rounds (silentSdJournal J)"
  for fuel rounds and J :: "('w, 'j) SdJournalLib"
  by unfold_locales
     (simp_all add: SystemdJournalProvider_def SystemdJournalProvider_probe_def
        SystemdJournalProvider_query_def quiet_intros quiet_SystemdJournalProvider_follow)

interpretation no_journal: reading_journal "UnavailableJournalProvider reason" for reason
  by unfold_locales (simp_all add: UnavailableJournalProvider_def quiet_return)

section \<open>What the library promises\<close>

text \<open>
  The documented behaviour of the library on a store of entries that does not change: a handle has a
  place, at an entry or before one, among the entries that satisfy every match added to it.
\<close>

record raw_entry =
  re_usec :: u64
  re_cursor :: string
  re_fields :: "string \<Rightarrow> string option"

datatype place = Before nat | At nat

fun satisfies :: "raw_entry \<Rightarrow> string \<Rightarrow> bool" where
  "satisfies raw m = (let f = takeWhile (\<lambda>c. c \<noteq> CHR ''='') m in re_fields raw f = Some (drop (length f + 1) m))"

definition visible :: "raw_entry list \<Rightarrow> string list \<Rightarrow> raw_entry list" where
  "visible E ms = filter (\<lambda>raw. list_all (satisfies raw) ms) E"

fun entries_before :: "place \<Rightarrow> nat" where
  "entries_before (Before i) = i"
| "entries_before (At i) = i"

fun next_index :: "place \<Rightarrow> nat" where
  "next_index (Before i) = i"
| "next_index (At i) = i + 1"

definition stays :: "('w \<Rightarrow> string list) \<Rightarrow> ('w \<Rightarrow> place) \<Rightarrow> ('w, 'a) io \<Rightarrow> bool" where
  "stays matches here m \<longleftrightarrow> (\<forall>w. matches (world_after m w) = matches w \<and> here (world_after m w) = here w)"

definition journal_configures ::
  "('w, 'j) SdJournalLib \<Rightarrow> 'j \<Rightarrow> ('w \<Rightarrow> string list) \<Rightarrow> ('w \<Rightarrow> place) \<Rightarrow> bool" where
  "journal_configures J j matches here \<longleftrightarrow>
     (\<forall>w. result_of (sj_open J) w = Inr j \<and> matches (world_after (sj_open J) w) = []) \<and>
     (\<forall>w n. result_of (sj_setDataThreshold J j n) w = Inr () \<and>
        matches (world_after (sj_setDataThreshold J j n) w) = matches w) \<and>
     (\<forall>w m. result_of (sj_addMatch J j m) w = Inr () \<and>
        matches (world_after (sj_addMatch J j m) w) = matches w @ [m])"

definition journal_moves ::
  "('w, 'j) SdJournalLib \<Rightarrow> 'j \<Rightarrow> raw_entry list \<Rightarrow> ('w \<Rightarrow> string list) \<Rightarrow> ('w \<Rightarrow> place) \<Rightarrow> bool" where
  "journal_moves J j E matches here \<longleftrightarrow>
     (\<forall>w. result_of (sj_seekTail J j) w = Inr () \<and>
        matches (world_after (sj_seekTail J j) w) = matches w \<and>
        here (world_after (sj_seekTail J j) w) = Before (length (visible E (matches w)))) \<and>
     (\<forall>w t. result_of (sj_seekRealtimeUsec J j t) w = Inr () \<and>
        matches (world_after (sj_seekRealtimeUsec J j t) w) = matches w \<and>
        here (world_after (sj_seekRealtimeUsec J j t) w) =
          Before (length (takeWhile (\<lambda>raw. re_usec raw < t) (visible E (matches w))))) \<and>
     (\<forall>w. result_of (sj_previous J j) w = Inr (0 < entries_before (here w)) \<and>
        matches (world_after (sj_previous J j) w) = matches w \<and>
        here (world_after (sj_previous J j) w) =
          (if 0 < entries_before (here w) then At (entries_before (here w) - 1) else here w)) \<and>
     (\<forall>w. result_of (sj_next J j) w = Inr (next_index (here w) < length (visible E (matches w))) \<and>
        matches (world_after (sj_next J j) w) = matches w \<and>
        here (world_after (sj_next J j) w) =
          (if next_index (here w) < length (visible E (matches w)) then At (next_index (here w)) else here w))"

definition journal_reads ::
  "('w, 'j) SdJournalLib \<Rightarrow> 'j \<Rightarrow> raw_entry list \<Rightarrow> ('w \<Rightarrow> string list) \<Rightarrow> ('w \<Rightarrow> place) \<Rightarrow> bool" where
  "journal_reads J j E matches here \<longleftrightarrow>
     stays matches here (sj_getRealtimeUsec J j) \<and> stays matches here (sj_getCursor J j) \<and>
     (\<forall>f. stays matches here (sj_getData J j f)) \<and>
     (\<forall>w i. here w = At i \<and> i < length (visible E (matches w)) \<longrightarrow>
        (let raw = visible E (matches w) ! i in
         result_of (sj_getRealtimeUsec J j) w = Inr (re_usec raw) \<and>
         result_of (sj_getCursor J j) w = Inr (Some (re_cursor raw)) \<and>
         (\<forall>f. result_of (sj_getData J j f) w =
           (case re_fields raw f of None \<Rightarrow> Inl ENOENT | Some v \<Rightarrow> Inr (Some (f @ ''='' @ v))))))"

definition journal_library ::
  "('w, 'j) SdJournalLib \<Rightarrow> 'j \<Rightarrow> raw_entry list \<Rightarrow> ('w \<Rightarrow> string list) \<Rightarrow> ('w \<Rightarrow> place) \<Rightarrow> bool" where
  "journal_library J j E matches here \<longleftrightarrow>
     journal_configures J j matches here \<and> journal_moves J j E matches here \<and> journal_reads J j E matches here"

section \<open>Reading one entry\<close>

text \<open>
  What an entry of the journal says, with its time in nanoseconds; and that the code decodes it so where the
  time fits.
\<close>

definition stored_entry :: "raw_entry \<Rightarrow> JournalEntry Observation" where
  "stored_entry raw =
     (let pid = Option.bind (re_fields raw ''_PID'') entryPid;
          priority = Option.bind (re_fields raw ''PRIORITY'') entryPriority;
          message = (case re_fields raw ''MESSAGE'' of None \<Rightarrow> [] | Some m \<Rightarrow> m) in
      \<lparr>ob_value = \<lparr>je_timestamp = uint (re_usec raw) * 1000, je_cursor = re_cursor raw,
         je_systemdUnit = re_fields raw ''_SYSTEMD_UNIT'', je_pid = pid, je_command = re_fields raw ''_COMM'',
         je_message = message, je_priority = priority\<rparr>,
       ob_warnings =
         (if re_fields raw ''_PID'' \<noteq> None \<and> pid = None
          then [journal_parseWarning ''Journal entry contains an invalid _PID'' ''parse PID''] else []) @
         (if re_fields raw ''PRIORITY'' \<noteq> None \<and> priority = None
          then [journal_parseWarning ''Journal entry contains an invalid PRIORITY'' ''parse priority''] else []) @
         (if message = []
          then [mkWarning NotFound ''Journal entry has no MESSAGE field'' 0 ''sd-journal'' ''read entry'']
          else [])\<rparr>)"

lemma stored_entry_fields: "uint (re_usec raw) * 1000 < 2 ^ 63 \<Longrightarrow>
  noteEmptyMessage (journalEntryFromFields
     \<lparr>jf_timestampUsec = re_usec raw, jf_cursor = re_cursor raw, jf_systemdUnit = re_fields raw ''_SYSTEMD_UNIT'',
      jf_pid = re_fields raw ''_PID'', jf_command = re_fields raw ''_COMM'',
      jf_message = re_fields raw ''MESSAGE'', jf_priority = re_fields raw ''PRIORITY''\<rparr>) = stored_entry raw"
  by (simp add: stored_entry_def journalEntryFromFields_def noteEmptyMessage_def entryTime_exact Let_def)

lemma journalFieldValue_roundtrip: "journalFieldValue f (Some (f @ ''='' @ v)) = success v"
  by (simp add: journalFieldValue_def)

lemma readField_stored:
  assumes "journal_reads J j E matches here" "here w = At i" "i < length (visible E (matches w))"
  shows "result_of (readField J j f) w = success (re_fields (visible E (matches w) ! i) f)"
    and "matches (world_after (readField J j f) w) = matches w" "here (world_after (readField J j f) w) = here w"
proof -
  have "result_of (sj_getData J j f) w =
      (case re_fields (visible E (matches w) ! i) f of None \<Rightarrow> Inl ENOENT | Some v \<Rightarrow> Inr (Some (f @ ''='' @ v)))"
    using assms unfolding journal_reads_def Let_def by blast
  then show "result_of (readField J j f) w = success (re_fields (visible E (matches w) ! i) f)"
    by (cases "re_fields (visible E (matches w) ! i) f")
       (simp_all add: readField_def journalFieldValue_roundtrip [simplified])
  have "stays matches here (sj_getData J j f)"
    using assms(1) by (simp add: journal_reads_def)
  then show "matches (world_after (readField J j f) w) = matches w" "here (world_after (readField J j f) w) = here w"
    by (simp_all add: readField_def stays_def)
qed

lemma readCurrentEntry_stored:
  assumes reads: "journal_reads J j E matches here" and at: "here w = At i" "i < length (visible E (matches w))"
    and range: "\<forall>raw \<in> set E. uint (re_usec raw) * 1000 < 2 ^ 63"
  shows "result_of (readCurrentEntry J j) w = success (stored_entry (visible E (matches w) ! i))"
    and "matches (world_after (readCurrentEntry J j) w) = matches w"
    and "here (world_after (readCurrentEntry J j) w) = here w"
proof -
  let ?raw = "visible E (matches w) ! i"
  define w1 where "w1 = world_after (sj_getRealtimeUsec J j) w"
  define w2 where "w2 = world_after (sj_getCursor J j) w1"
  have w1: "matches w1 = matches w" "here w1 = At i"
    using reads at(1) by (simp_all add: journal_reads_def stays_def w1_def)
  then have w2: "matches w2 = matches w" "here w2 = At i"
    using reads by (simp_all add: journal_reads_def stays_def w2_def)
  have usec: "result_of (sj_getRealtimeUsec J j) w = Inr (re_usec ?raw)"
    using reads at unfolding journal_reads_def Let_def by blast
  have cursor: "result_of (sj_getCursor J j) w1 = Inr (Some (re_cursor ?raw))"
    using reads at(2) w1 unfolding journal_reads_def Let_def by metis
  have "?raw \<in> set E"
    using at(2) nth_mem [of i "visible E (matches w)"] by (simp add: visible_def)
  then have fits: "uint (re_usec ?raw) * 1000 < 2 ^ 63" using range by blast
  then have small: "\<not> 2 ^ 63 - 1 < uint (re_usec ?raw)" by simp
  have fields: "result_of (readFields J j u c) w2 = success
      \<lparr>jf_timestampUsec = u, jf_cursor = c, jf_systemdUnit = re_fields ?raw ''_SYSTEMD_UNIT'',
       jf_pid = re_fields ?raw ''_PID'', jf_command = re_fields ?raw ''_COMM'',
       jf_message = re_fields ?raw ''MESSAGE'', jf_priority = re_fields ?raw ''PRIORITY''\<rparr>"
    "matches (world_after (readFields J j u c) w2) = matches w"
    "here (world_after (readFields J j u c) w2) = At i" for u c
    using w2 at(2) by (simp_all add: readFields_def readField_stored [OF reads, where i = i])
  show "result_of (readCurrentEntry J j) w = success (stored_entry ?raw)"
      "matches (world_after (readCurrentEntry J j) w) = matches w"
      "here (world_after (readCurrentEntry J j) w) = here w"
    using usec cursor small fields at(1) stored_entry_fields [OF fits]
    by (simp_all add: readCurrentEntry_def w1_def w2_def del: not_less)
qed

section \<open>A query returns the newest matching entries\<close>

definition newest :: "nat \<Rightarrow> 'a list \<Rightarrow> 'a list" where
  "newest n xs = drop (length xs - n) xs"

lemma rev_take_rev: "rev (take n (rev xs)) = newest n xs"
  by (simp add: newest_def take_rev)

lemma pushWindow_newest:
  assumes "0 < limit" "length window \<le> limit"
  shows "pushWindow limit window x = newest limit (window @ [x])" "length (pushWindow limit window x) \<le> limit"
proof -
  show "pushWindow limit window x = newest limit (window @ [x])"
  proof (cases "length window < limit")
    case False
    then have "length window = limit" "window \<noteq> []" using assms by auto
    then show ?thesis by (cases window) (auto simp: pushWindow_def newest_def Let_def)
  qed (simp add: pushWindow_def newest_def)
  show "length (pushWindow limit window x) \<le> limit"
    using assms by (simp add: pushWindow_def Let_def)
qed

lemma newest_append: "newest n (newest n xs @ ys) = newest n (xs @ ys)"
  by (cases "n \<le> length xs") (simp_all add: newest_def add.commute)

lemma appendEntries_eq:
  "appendEntries obs target =
     \<lparr>ob_value = ob_value target @ map ob_value obs, ob_warnings = ob_warnings target @ concat (map ob_warnings obs)\<rparr>"
  by (induction obs arbitrary: target) simp_all

lemma readBackwards_stored:
  assumes lib: "journal_library J j E matches here" and range: "\<forall>raw \<in> set E. uint (re_usec raw) * 1000 < 2 ^ 63"
  shows "matches w = ms \<Longrightarrow> entries_before (here w) \<le> length (visible E ms) \<Longrightarrow>
    result_of (readBackwards J j n reversed) w =
      success (reversed @ map stored_entry (take n (rev (take (entries_before (here w)) (visible E ms)))))"
proof (induction n arbitrary: w reversed)
  case (Suc n)
  let ?i = "entries_before (here w)" and ?V = "visible E ms"
  let ?w1 = "world_after (sj_previous J j) w"
  have moves: "journal_moves J j E matches here" and reads: "journal_reads J j E matches here"
    using lib by (simp_all add: journal_library_def)
  have step: "result_of (sj_previous J j) w = Inr (0 < ?i)" "matches ?w1 = ms"
      "here ?w1 = (if 0 < ?i then At (?i - 1) else here w)"
    using moves Suc.prems(1) by (simp_all add: journal_moves_def)
  show ?case
  proof (cases "0 < ?i")
    case False
    then show ?thesis using step by simp
  next
    case True
    let ?w2 = "world_after (readCurrentEntry J j) ?w1"
    have at: "here ?w1 = At (?i - 1)" "?i - 1 < length (visible E (matches ?w1))"
      using True step Suc.prems by auto
    note entry = readCurrentEntry_stored [OF reads at range, unfolded step(2)]
    have "take ?i ?V = take (?i - 1) ?V @ [?V ! (?i - 1)]"
      using True Suc.prems(2) take_Suc_conv_app_nth [of "?i - 1" ?V] by simp
    moreover have "result_of (readBackwards J j n (reversed @ [stored_entry (?V ! (?i - 1))])) ?w2 =
        success ((reversed @ [stored_entry (?V ! (?i - 1))]) @
          map stored_entry (take n (rev (take (?i - 1) ?V))))"
      using Suc.IH [of ?w2 "reversed @ [stored_entry (?V ! (?i - 1))]"] entry at Suc.prems(2) step(2) by auto
    ultimately show ?thesis
      using True step(1) entry(1) by simp
  qed
qed simp

lemma readForwards_stored:
  assumes lib: "journal_library J j E matches here" and range: "\<forall>raw \<in> set E. uint (re_usec raw) * 1000 < 2 ^ 63"
    and limit: "0 < limit"
  shows "matches w = ms \<Longrightarrow> length window \<le> limit \<Longrightarrow> length (visible E ms) - next_index (here w) < fuel \<Longrightarrow>
    result_of (readForwards fuel J j limit window) w =
      Some (success (newest limit (window @ map stored_entry (drop (next_index (here w)) (visible E ms)))))"
proof (induction fuel arbitrary: w window)
  case (Suc fuel)
  let ?i = "next_index (here w)" and ?V = "visible E ms"
  let ?w1 = "world_after (sj_next J j) w"
  have moves: "journal_moves J j E matches here" and reads: "journal_reads J j E matches here"
    using lib by (simp_all add: journal_library_def)
  have step: "result_of (sj_next J j) w = Inr (?i < length ?V)" "matches ?w1 = ms"
      "here ?w1 = (if ?i < length ?V then At ?i else here w)"
    using moves Suc.prems(1) by (simp_all add: journal_moves_def)
  show ?case
  proof (cases "?i < length ?V")
    case False
    then show ?thesis using step Suc.prems(2) by (simp add: newest_def)
  next
    case True
    let ?w2 = "world_after (readCurrentEntry J j) ?w1"
    let ?window = "pushWindow limit window (stored_entry (?V ! ?i))"
    have at: "here ?w1 = At ?i" "?i < length (visible E (matches ?w1))"
      using True step Suc.prems by auto
    note entry = readCurrentEntry_stored [OF reads at range, unfolded step(2)]
    note push = pushWindow_newest [OF limit Suc.prems(2), of "stored_entry (?V ! ?i)"]
    have "result_of (readForwards fuel J j limit ?window) ?w2 =
        Some (success (newest limit (?window @ map stored_entry (drop (next_index (here ?w2)) ?V))))"
      using entry at push(2) step(2) Suc.prems(3) True by (intro Suc.IH) auto
    also have "newest limit (?window @ map stored_entry (drop (next_index (here ?w2)) ?V))
        = newest limit (window @ map stored_entry (drop ?i ?V))"
      unfolding push(1) newest_append using entry(3) at(1) Cons_nth_drop_Suc [OF True, symmetric] by simp
    finally show ?thesis
      using True step(1) entry(1) by simp
  qed
qed simp

text \<open>The entries a query asks for.\<close>

definition asked :: "LogQuery \<Rightarrow> raw_entry \<Rightarrow> bool" where
  "asked query raw \<longleftrightarrow>
     (case lq_unit query of None \<Rightarrow> True | Some u \<Rightarrow> re_fields raw ''_SYSTEMD_UNIT'' = Some u) \<and>
     (case lq_pid query of None \<Rightarrow> True | Some p \<Rightarrow> re_fields raw ''_PID'' = Some (int_str p)) \<and>
     (case lq_since query of None \<Rightarrow> True | Some t \<Rightarrow> toMicroseconds t \<le> uint (re_usec raw))"

definition query_matches :: "LogQuery \<Rightarrow> string list" where
  "query_matches query =
     (case lq_unit query of None \<Rightarrow> [] | Some u \<Rightarrow> [''_SYSTEMD_UNIT='' @ u]) @
     (case lq_pid query of None \<Rightarrow> [] | Some p \<Rightarrow> [''_PID='' @ int_str p])"

lemma satisfies_query:
  "list_all (satisfies raw) (query_matches query) \<longleftrightarrow>
     (case lq_unit query of None \<Rightarrow> True | Some u \<Rightarrow> re_fields raw ''_SYSTEMD_UNIT'' = Some u) \<and>
     (case lq_pid query of None \<Rightarrow> True | Some p \<Rightarrow> re_fields raw ''_PID'' = Some (int_str p))"
  by (simp add: query_matches_def Let_def split: option.split)

lemma configureJournal_matches:
  assumes "journal_configures J j matches here" and "0 < lq_limit query"
  shows "result_of (configureJournal J j query) w = success ()"
    and "matches (world_after (configureJournal J j query) w) = matches w @ query_matches query"
proof -
  have optional: "result_of (addOptionalMatch J j m) w = success ()"
      "matches (world_after (addOptionalMatch J j m) w) = matches w @ (case m of None \<Rightarrow> [] | Some x \<Rightarrow> [x])" for m w
    using assms(1) by (auto simp: addOptionalMatch_def addMatch_def journal_configures_def split: option.split)
  have "result_of (sj_setDataThreshold J j n) w = Inr ()"
      "matches (world_after (sj_setDataThreshold J j n) w) = matches w" for n w
    using assms(1) by (simp_all add: journal_configures_def)
  then show "result_of (configureJournal J j query) w = success ()"
      "matches (world_after (configureJournal J j query) w) = matches w @ query_matches query"
    using assms(2) optional
    by (simp_all add: configureJournal_def query_matches_def option.case_distrib [where h = "\<lambda>x. _ @ x"]
        split: option.split)
qed

lemma since_filter:
  assumes "sorted (map re_usec V)"
  shows "drop (length (takeWhile (\<lambda>raw. re_usec raw < t) V)) V = filter (\<lambda>raw. t \<le> re_usec raw) V"
proof -
  have "dropWhile (\<lambda>raw. re_usec raw < t) V = filter (\<lambda>raw. t \<le> re_usec raw) V"
    using assms
  proof (induction V)
    case (Cons raw V)
    then show ?case by (cases "re_usec raw < t") (auto simp: not_less intro!: filter_True [symmetric])
  qed simp
  then show ?thesis by (simp add: dropWhile_eq_drop)
qed

lemma visible_asked:
  "filter (asked query) E = filter (\<lambda>raw. case lq_since query of None \<Rightarrow> True
     | Some t \<Rightarrow> toMicroseconds t \<le> uint (re_usec raw)) (visible E (query_matches query))"
  by (simp add: visible_def asked_def [abs_def] satisfies_query conj_ac)

lemma queryTail_newest:
  assumes lib: "journal_library J j E matches here" and range: "\<forall>raw \<in> set E. uint (re_usec raw) * 1000 < 2 ^ 63"
    and w: "matches w = ms"
  shows "result_of (queryTail J j limit) w
    = success (appendEntries (map stored_entry (newest limit (visible E ms))) noEntries)"
proof -
  let ?V = "visible E ms" and ?w2 = "world_after (sj_seekTail J j) w"
  have moves: "journal_moves J j E matches here" using lib by (simp add: journal_library_def)
  have seek: "result_of (sj_seekTail J j) w = Inr ()" "matches ?w2 = ms" "here ?w2 = Before (length ?V)"
    using moves w by (simp_all add: journal_moves_def)
  have "result_of (readBackwards J j limit []) ?w2 = success (map stored_entry (take limit (rev ?V)))"
    using readBackwards_stored [OF lib range seek(2), of limit "[]"] seek(3) by simp
  then show ?thesis
    using seek(1) by (simp add: queryTail_def rev_map rev_take_rev)
qed

lemma querySince_newest:
  assumes lib: "journal_library J j E matches here" and range: "\<forall>raw \<in> set E. uint (re_usec raw) * 1000 < 2 ^ 63"
    and ordered: "sorted (map re_usec E)" and limit: "0 < limit" and fuel: "length E < fuel"
    and since: "0 \<le> t" "t < 2 ^ 63" and w: "matches w = ms"
  shows "result_of (querySince fuel J j t limit) w
    = Some (success (appendEntries (map stored_entry
        (newest limit (filter (\<lambda>raw. toMicroseconds t \<le> uint (re_usec raw)) (visible E ms)))) noEntries))"
proof -
  let ?V = "visible E ms"
  define u where "u = toMicroseconds t"
  have u: "0 \<le> u" "u < 2 ^ 64"
    using since by (simp_all add: u_def toMicroseconds_def)
  then have cast: "uint (word_of_int u :: u64) = u" by (simp add: uint_word_of_int)
  let ?w2 = "world_after (sj_seekRealtimeUsec J j (word_of_int u)) w"
  have moves: "journal_moves J j E matches here" using lib by (simp add: journal_library_def)
  have seek: "result_of (sj_seekRealtimeUsec J j (word_of_int u)) w = Inr ()" "matches ?w2 = ms"
      "here ?w2 = Before (length (takeWhile (\<lambda>raw. re_usec raw < word_of_int u) ?V))"
    using moves w by (simp_all add: journal_moves_def)
  have "sorted (map re_usec ?V)"
    using ordered by (simp add: visible_def sorted_filter)
  moreover have "word_of_int u \<le> r \<longleftrightarrow> u \<le> uint r" for r :: u64
    by (simp only: word_le_def cast)
  ultimately have "drop (next_index (here ?w2)) ?V = filter (\<lambda>raw. u \<le> uint (re_usec raw)) ?V"
    using seek(3) since_filter [of ?V "word_of_int u"] by simp
  moreover have "length ?V \<le> length E" by (simp add: visible_def)
  ultimately have "result_of (readForwards fuel J j limit []) ?w2
      = Some (success (map stored_entry (newest limit (filter (\<lambda>raw. u \<le> uint (re_usec raw)) ?V))))"
    using readForwards_stored [OF lib range limit seek(2), of "[]" fuel] fuel
    by (simp add: newest_def drop_map)
  then show ?thesis
    using seek(1) u(1) by (simp add: querySince_def u_def [symmetric])
qed

text \<open>
  C20. A log query returns the newest matching entries, oldest first. On a journal the library presents as
  documented, with entries in time order and times below 2^63 nanoseconds (where the code's
  conversion does not overflow), a query with a positive limit
  returns exactly the last \<open>limit\<close> of the entries that carry the asked unit and process id and are not
  older than the asked time, in journal order, each with its time in nanoseconds and its decoded fields,
  together with the decoding warnings of these entries only. This holds both for reading backwards from the end and for the sliding
  window over the entries since a time.\<close>

theorem SystemdJournalProvider_query_newest:
  assumes lib: "journal_library J j E matches here"
    and range: "\<forall>raw \<in> set E. uint (re_usec raw) * 1000 < 2 ^ 63" and ordered: "sorted (map re_usec E)"
    and limit: "0 < lq_limit query" and fuel: "length E < fuel"
    and since: "\<forall>t. lq_since query = Some t \<longrightarrow> 0 \<le> t \<and> t < 2 ^ 63"
  shows "\<exists>ob. result_of (SystemdJournalProvider_query fuel J query) w = Some (success ob)
    \<and> ob_value ob = map (ob_value \<circ> stored_entry) (newest (lq_limit query) (filter (asked query) E))
    \<and> ob_warnings ob = concat (map (ob_warnings \<circ> stored_entry) (newest (lq_limit query) (filter (asked query) E)))"
proof -
  have conf: "journal_configures J j matches here"
    using lib by (simp add: journal_library_def)
  define w1 where "w1 = world_after (configureJournal J j query) (world_after (sj_open J) w)"
  have "result_of (sj_open J) w = Inr j" "matches (world_after (sj_open J) w) = []"
    using conf by (simp_all add: journal_configures_def)
  then have opened: "result_of (SystemdJournalProvider_query fuel J query) w
      = result_of (queryJournal fuel J j query) w1" and w1: "matches w1 = query_matches query"
    using configureJournal_matches [OF conf limit]
    by (simp_all add: SystemdJournalProvider_query_def openLocal_def w1_def)
  have "result_of (queryJournal fuel J j query) w1
      = Some (success (appendEntries (map stored_entry (newest (lq_limit query) (filter (asked query) E))) noEntries))"
    using queryTail_newest [OF lib range w1] querySince_newest [OF lib range ordered limit fuel _ _ w1] since
    by (cases "lq_since query") (simp_all add: queryJournal_def visible_asked)
  then show ?thesis
    unfolding opened by (simp add: appendEntries_eq comp_def)
qed

section \<open>A journal in memory\<close>

text \<open>A library over a store of entries; its world is the matches of the one open handle and its place.\<close>

type_synonym memory_journal = "string list \<times> place"

definition current :: "raw_entry list \<Rightarrow> memory_journal \<Rightarrow> raw_entry option" where
  "current E w = (case snd w of
     At i \<Rightarrow> if i < length (visible E (fst w)) then Some (visible E (fst w) ! i) else None
   | Before _ \<Rightarrow> None)"

definition memory_SdJournal :: "raw_entry list \<Rightarrow> (memory_journal, unit) SdJournalLib" where
  "memory_SdJournal E =
     \<lparr>sj_open = State (\<lambda>w. (Inr (), ([], Before 0))),
      sj_close = (\<lambda>_. return ()),
      sj_setDataThreshold = (\<lambda>_ _. return (Inr ())),
      sj_addMatch = (\<lambda>_ m. State (\<lambda>(ms, p). (Inr (), (ms @ [m], p)))),
      sj_getData = (\<lambda>_ f. State (\<lambda>w. (case current E w of
          None \<Rightarrow> Inl ENOENT
        | Some raw \<Rightarrow> (case re_fields raw f of None \<Rightarrow> Inl ENOENT | Some v \<Rightarrow> Inr (Some (f @ ''='' @ v))), w))),
      sj_getRealtimeUsec = (\<lambda>_. State (\<lambda>w. (case current E w of None \<Rightarrow> Inl EIO | Some raw \<Rightarrow> Inr (re_usec raw), w))),
      sj_getCursor = (\<lambda>_. State (\<lambda>w. (case current E w of None \<Rightarrow> Inl EIO | Some raw \<Rightarrow> Inr (Some (re_cursor raw)), w))),
      sj_seekTail = (\<lambda>_. State (\<lambda>(ms, p). (Inr (), (ms, Before (length (visible E ms)))))),
      sj_seekRealtimeUsec = (\<lambda>_ t. State (\<lambda>(ms, p).
        (Inr (), (ms, Before (length (takeWhile (\<lambda>raw. re_usec raw < t) (visible E ms))))))),
      sj_seekCursor = (\<lambda>_ c. State (\<lambda>(ms, p).
        (Inr (), (ms, Before (length (takeWhile (\<lambda>raw. re_cursor raw \<noteq> c) (visible E ms))))))),
      sj_previous = (\<lambda>_. State (\<lambda>(ms, p).
        (Inr (0 < entries_before p), (ms, if 0 < entries_before p then At (entries_before p - 1) else p)))),
      sj_next = (\<lambda>_. State (\<lambda>(ms, p).
        (Inr (next_index p < length (visible E ms)),
         (ms, if next_index p < length (visible E ms) then At (next_index p) else p)))),
      sj_wait = (\<lambda>_ _. return (Inr ())),
      sj_strerror = (\<lambda>_. ''error'')\<rparr>"

lemma memory_journal_library: "journal_library (memory_SdJournal E) () E fst snd"
  unfolding journal_library_def
proof (intro conjI)
  show "journal_configures (memory_SdJournal E) () fst snd"
    by (auto simp: journal_configures_def memory_SdJournal_def)
  show "journal_moves (memory_SdJournal E) () E fst snd"
    by (auto simp: journal_moves_def memory_SdJournal_def)
  show "journal_reads (memory_SdJournal E) () E fst snd"
    by (auto simp: journal_reads_def memory_SdJournal_def stays_def current_def Let_def split: option.split)
qed

definition demo_entries :: "raw_entry list" where
  "demo_entries = map (\<lambda>(t, u). \<lparr>re_usec = t, re_cursor = ''c'', re_fields =
     [''_SYSTEMD_UNIT'' \<mapsto> u, ''_PID'' \<mapsto> ''42'', ''MESSAGE'' \<mapsto> ''hello'', ''PRIORITY'' \<mapsto> ''9'']\<rparr>)
     [(1000, ''a.service''), (2000, ''b.service''), (3000, ''a.service''), (4000, ''a.service'')]"

theorem SystemdJournalProvider_query_newest_witness:
  "\<exists>ob. result_of (SystemdJournalProvider_query 5 (memory_SdJournal demo_entries)
       (default_LogQuery\<lparr>lq_unit := Some ''a.service'', lq_limit := 2\<rparr>)) ([], Before 0) = Some (success ob)
     \<and> map je_timestamp (ob_value ob) = [3000000, 4000000]"
proof -
  let ?q = "default_LogQuery\<lparr>lq_unit := Some ''a.service'', lq_limit := 2\<rparr>"
  have "\<exists>ob. result_of (SystemdJournalProvider_query 5 (memory_SdJournal demo_entries) ?q) ([], Before 0) = Some (success ob)
    \<and> ob_value ob = map (ob_value \<circ> stored_entry) (newest (lq_limit ?q) (filter (asked ?q) demo_entries))
    \<and> ob_warnings ob = concat (map (ob_warnings \<circ> stored_entry) (newest (lq_limit ?q) (filter (asked ?q) demo_entries)))"
    by (rule SystemdJournalProvider_query_newest [OF memory_journal_library])
       (simp_all add: demo_entries_def default_LogQuery_def)
  then show ?thesis
    by (auto simp: demo_entries_def default_LogQuery_def asked_def newest_def stored_entry_def
        Let_def)
qed

end
