(* ===== verification/LxMain.thy ===== *)
theory LxMain
  imports CliApp TuiRunner DashboardWorker LinuxSignal Netlink SystemdService SystemdJournal
begin

text \<open>
  \<open>src/main.cpp\<close>: the composition of the program. The libraries and system calls the adapters use are
  the record \<open>Machine\<close>; from it \<open>lxApp\<close> builds the providers, the services and the command line
  application as \<open>main\<close> does, and \<open>lx_main\<close> is the choice between the dashboard and the command line.

  \<open>mc_fuel\<close> bounds the loops of the adapters, \<open>mc_followRounds\<close> the rounds of following a log. The terminal UI
  is built in or not (\<open>mc_hasTui\<close>), and so is systemd (\<open>mc_hasSystemd\<close>). The event loop of
  the dashboard is FTXUI's: its run, with the handler, the tasks and the worker threads, is a parameter that
  ends or throws.
\<close>

record ('w, 'bus, 'msg, 'j) Machine =
  mc_os :: "'w OS"
  mc_signals :: "'w SignalOS"
  mc_netlink :: "'w NetlinkOS"
  mc_bus :: "('w, 'bus, 'msg) SdBusLib"
  mc_journal :: "('w, 'j) SdJournalLib"
  mc_clock :: "'w Clock"
  mc_fromChars :: "string \<Rightarrow> double_parse"
  mc_round :: "real \<Rightarrow> real"
  mc_hashOrder :: "pid list \<Rightarrow> pid list"
  mc_getpid :: pid
  mc_fuel :: nat
  mc_followRounds :: nat
  mc_hasSystemd :: bool
  mc_hasTui :: bool
  mc_tuiLoop :: "'w DashboardService \<Rightarrow> 'w TuiServices \<Rightarrow> ('w, string + unit) io"

definition without_systemd :: string where
  "without_systemd = ''LX was built without libsystemd support''"

definition lxProcessProvider :: "('w, 'bus, 'msg, 'j) Machine \<Rightarrow> 'w IProcessProvider" where
  "lxProcessProvider M = ProcFsProcessProvider (mc_os M) \<lparr>rd_root = ''/proc''\<rparr>"

definition lxMetricsService :: "('w, 'bus, 'msg, 'j) Machine \<Rightarrow> 'w MetricsService" where
  "lxMetricsService M =
     \<lparr>me_system = \<lparr>sy_sample = ProcFsSystemMetricsProvider_sample (mc_fromChars M) (mc_round M) (mc_os M) ''/proc''\<rparr>,
      me_processes = \<lparr>pm_sample = ProcFsProcessProvider_sample (mc_os M) \<lparr>rd_root = ''/proc''\<rparr>\<rparr>,
      me_waiter = ck_sleep (mc_clock M)\<rparr>"

definition lxSignalProvider :: "('w, 'bus, 'msg, 'j) Machine \<Rightarrow> 'w ISignalProvider" where
  "lxSignalProvider M = LinuxSignalProvider (mc_fuel M) (mc_signals M) Auto"

definition lxServiceProvider :: "('w, 'bus, 'msg, 'j) Machine \<Rightarrow> 'w IServiceProvider" where
  "lxServiceProvider M =
     (if mc_hasSystemd M then SystemdServiceProvider (mc_fuel M) (mc_bus M)
      else UnavailableServiceProvider without_systemd)"

definition lxJournalProvider :: "('w, 'bus, 'msg, 'j) Machine \<Rightarrow> 'w IJournalProvider" where
  "lxJournalProvider M =
     (if mc_hasSystemd M then SystemdJournalProvider (mc_fuel M) (mc_followRounds M) (mc_journal M)
      else UnavailableJournalProvider without_systemd)"

definition lxServiceService :: "('w, 'bus, 'msg, 'j) Machine \<Rightarrow> 'w ServiceService" where
  "lxServiceService M = \<lparr>ss_serviceProvider = lxServiceProvider M\<rparr>"

definition lxLogService :: "('w, 'bus, 'msg, 'j) Machine \<Rightarrow> 'w LogService" where
  "lxLogService M = \<lparr>ls_journalProvider = lxJournalProvider M\<rparr>"

definition lxProcessService :: "('w, 'bus, 'msg, 'j) Machine \<Rightarrow> 'w ProcessService" where
  "lxProcessService M =
     \<lparr>ps_processProvider = lxProcessProvider M, ps_signalProvider = lxSignalProvider M,
      ps_selfPid = mc_getpid M, ps_serviceService = Some (lxServiceService M)\<rparr>"

definition lxPortService :: "('w, 'bus, 'msg, 'j) Machine \<Rightarrow> 'w PortService" where
  "lxPortService M =
     \<lparr>po_socketProvider = NetlinkSocketProvider (mc_fuel M) (mc_netlink M),
      po_ownerResolver = SocketInodeResolver (mc_os M) ''/proc'',
      po_processService = lxProcessService M, po_serviceService = Some (lxServiceService M),
      po_gracePeriod = 3000, po_clock = mc_clock M, po_hashOrder = mc_hashOrder M\<rparr>"

definition lxDoctorService :: "('w, 'bus, 'msg, 'j) Machine \<Rightarrow> 'w DoctorService" where
  "lxDoctorService M =
     \<lparr>do_processProvider = lxProcessProvider M,
      do_socketProvider = NetlinkSocketProvider (mc_fuel M) (mc_netlink M),
      do_signalProvider = lxSignalProvider M, do_serviceProvider = lxServiceProvider M,
      do_journalProvider = lxJournalProvider M, do_getpid = mc_getpid M\<rparr>"

definition lxInspectService :: "('w, 'bus, 'msg, 'j) Machine \<Rightarrow> 'w InspectService" where
  "lxInspectService M =
     \<lparr>is_resolver = \<lparr>rs_portService = lxPortService M, rs_processService = lxProcessService M,
        rs_serviceService = lxServiceService M\<rparr>,
      is_portService = lxPortService M, is_processService = lxProcessService M,
      is_serviceService = lxServiceService M, is_logService = lxLogService M\<rparr>"

definition lxFindService :: "('w, 'bus, 'msg, 'j) Machine \<Rightarrow> 'w FindService" where
  "lxFindService M =
     \<lparr>fs_portService = lxPortService M, fs_processService = lxProcessService M,
      fs_serviceService = lxServiceService M\<rparr>"

definition lxTuiRunner :: "('w, 'bus, 'msg, 'j) Machine \<Rightarrow> ('w, unit result) io" where
  "lxTuiRunner M = FtxuiTuiRunner_run (mc_tuiLoop M
     \<lparr>da_metrics = lxMetricsService M, da_processes = lxProcessService M, da_ports = lxPortService M,
      da_services = lxServiceService M, da_clock = mc_clock M\<rparr>
     \<lparr>ts_inspect = lxInspectService M, ts_find = lxFindService M, ts_logs = lxLogService M,
      ts_processes = lxProcessService M, ts_services = lxServiceService M\<rparr>)"

definition lxApp :: "('w, 'bus, 'msg, 'j) Machine \<Rightarrow> 'w CliApp" where
  "lxApp M =
     \<lparr>ca_doctorService = lxDoctorService M, ca_processService = lxProcessService M,
      ca_portService = lxPortService M, ca_serviceService = lxServiceService M,
      ca_logService = lxLogService M, ca_inspectService = lxInspectService M,
      ca_findService = lxFindService M, ca_statusService = Some (lxMetricsService M),
      ca_tuiRunner = (if mc_hasTui M then Some (lxTuiRunner M) else None)\<rparr>"

text \<open>\<open>args\<close> is the command line without the program's name; \<open>terminals\<close> says whether the standard input
  and output are terminals.\<close>

definition lx_main ::
  "('w, 'bus, 'msg, 'j) Machine \<Rightarrow> 'w CliEnv \<Rightarrow> bool \<Rightarrow> string list \<Rightarrow> ('w, cli_outcome) io" where
  "lx_main M E terminals args =
     (if mc_hasTui M \<and> args = [] \<and> terminals
      then do {
        ran \<leftarrow> lxTuiRunner M;
        case ran of
          Inl e \<Rightarrow> do { _ \<leftarrow> cn_error (en_console E) (er_message e @ ''\<newline>''); return (Exits 5) }
        | Inr _ \<Rightarrow> return (Exits 0)
      }
      else CliApp_run E (lxApp M) args)"

lemma lxApp_sel [simp]:
  "ca_processService (lxApp M) = lxProcessService M" "ca_portService (lxApp M) = lxPortService M"
  "ca_serviceService (lxApp M) = lxServiceService M" "ca_logService (lxApp M) = lxLogService M"
  by (simp_all add: lxApp_def)

lemma lxServices_sel [simp]:
  "ps_processProvider (lxProcessService M) = lxProcessProvider M"
  "ps_signalProvider (lxProcessService M) = lxSignalProvider M" "ps_selfPid (lxProcessService M) = mc_getpid M"
  "po_socketProvider (lxPortService M) = NetlinkSocketProvider (mc_fuel M) (mc_netlink M)"
  "po_ownerResolver (lxPortService M) = SocketInodeResolver (mc_os M) ''/proc''"
  "po_processService (lxPortService M) = lxProcessService M"
  by (simp_all add: lxProcessService_def lxPortService_def)

text \<open>A command that failed does not exit with 0.\<close>

lemma cli_fail_nonzero: "result_of (cli_fail R c oper e) w \<noteq> Exits 0"
  by (auto simp: cli_fail_def writeJson_def split: option.split)

section \<open>Programs that only move the world along\<close>

text \<open>
  \<open>preserves R m\<close>: every run of \<open>m\<close> leads to a world that is related to the first by \<open>R\<close>. The relations
  of interest are that no signal was delivered in between, and that no time was turned back. For such
  a relation it is enough to know the system calls; what the adapters do with them follows.
\<close>

definition preserves :: "('w \<Rightarrow> 'w \<Rightarrow> bool) \<Rightarrow> ('w, 'a) io \<Rightarrow> bool" where
  "preserves R m \<longleftrightarrow> (\<forall>w. R w (world_after m w))"

locale world_order =
  fixes R :: "'w \<Rightarrow> 'w \<Rightarrow> bool"
  assumes stays: "R w w" and continues: "R u v \<Longrightarrow> R v w \<Longrightarrow> R u w"

text \<open>The system calls and bus calls with which processes, sockets and units are looked up.\<close>

definition files_preserve :: "('w \<Rightarrow> 'w \<Rightarrow> bool) \<Rightarrow> 'w OS \<Rightarrow> bool" where
  "files_preserve R OS \<longleftrightarrow>
     (\<forall>path. preserves R (os_read OS path)) \<and> (\<forall>path. preserves R (os_readlink OS path)) \<and>
     (\<forall>path. preserves R (os_directory OS path)) \<and> (\<forall>uid n. preserves R (os_getpwuid OS uid n))"

definition netlink_preserves :: "('w \<Rightarrow> 'w \<Rightarrow> bool) \<Rightarrow> 'w NetlinkOS \<Rightarrow> bool" where
  "netlink_preserves R N \<longleftrightarrow>
     preserves R (nk_socket N) \<and> (\<forall>fd b. preserves R (nk_sendto N fd b)) \<and>
     (\<forall>fd n. preserves R (nk_recv N fd n)) \<and> (\<forall>fd. preserves R (nk_close N fd)) \<and> preserves R (nk_errno N)"

definition bus_preserves :: "('w \<Rightarrow> 'w \<Rightarrow> bool) \<Rightarrow> ('w, 'bus, 'msg) SdBusLib \<Rightarrow> bool" where
  "bus_preserves R B \<longleftrightarrow>
     preserves R (sb_openSystem B) \<and>
     (\<forall>bus d p i args. preserves R (sb_callMethod B bus d p i ''GetUnitByPID'' args)) \<and>
     (\<forall>message t. preserves R (sb_readOne B message t)) \<and>
     (\<forall>bus d p i n. preserves R (sb_getPropertyString B bus d p i n))"

definition lookups_preserve :: "('w \<Rightarrow> 'w \<Rightarrow> bool) \<Rightarrow> ('w, 'bus, 'msg, 'j) Machine \<Rightarrow> bool" where
  "lookups_preserve R M \<longleftrightarrow>
     files_preserve R (mc_os M) \<and> netlink_preserves R (mc_netlink M) \<and> bus_preserves R (mc_bus M)"

context world_order
begin

lemma preserves_return: "preserves R (return x)"
  by (simp add: preserves_def stays)

lemma preserves_bind: "preserves R m \<Longrightarrow> (\<And>x. preserves R (f x)) \<Longrightarrow> preserves R (State_Monad.bind m f)"
  unfolding preserves_def world_after_bind using continues by blast

lemma preserves_cases:
  "(b \<Longrightarrow> preserves R m) \<Longrightarrow> (\<not> b \<Longrightarrow> preserves R n) \<Longrightarrow> preserves R (if b then m else n)"
  "(\<And>x. preserves R (f x)) \<Longrightarrow> (\<And>y. preserves R (g y)) \<Longrightarrow>
   preserves R (case r of Inl x \<Rightarrow> f x | Inr y \<Rightarrow> g y)"
  "preserves R k \<Longrightarrow> (\<And>z. preserves R (h z)) \<Longrightarrow> preserves R (case q of None \<Rightarrow> k | Some z \<Rightarrow> h z)"
  "(\<And>x y. preserves R (l x y)) \<Longrightarrow> preserves R (case c of (x, y) \<Rightarrow> l x y)"
  "preserves R (e v) \<Longrightarrow> preserves R (Let v e)"
  by (auto split: sum.split option.split prod.split)

lemmas preserves_intros = preserves_return preserves_bind preserves_cases

lemma preserves_reading:
  assumes "files_preserve R OS"
  shows "preserves R (ProcFsReader_readFile OS F p name)" "preserves R (ProcFsReader_readLink OS F p name)"
  unfolding ProcFsReader_readFile_def ProcFsReader_readLink_def
  by (intro preserves_intros; use assms in \<open>simp add: files_preserve_def\<close>)+

lemma preserves_passwd:
  assumes "files_preserve R OS"
  shows "preserves R (passwdLoop OS uid bytes)"
  using assms
proof (induction OS uid bytes rule: passwdLoop.induct)
  case (1 OS uid bytes)
  show ?case
    by (subst passwdLoop.simps)
       (intro preserves_intros 1; use 1(2) in \<open>simp add: files_preserve_def\<close>)
qed

lemma preserves_get:
  assumes "files_preserve R OS"
  shows "preserves R (ProcFsProcessProvider_get OS F p)"
  unfolding ProcFsProcessProvider_get_def PasswdUserResolver_nameForUid_def
  by (intro preserves_intros preserves_reading [OF assms] preserves_passwd [OF assms])

lemma preserves_scanDescriptors:
  assumes "files_preserve R OS"
  shows "preserves R (scanDescriptors OS targets p dir trailing names s)"
proof (induction names arbitrary: s)
  case (Cons d rest)
  then show ?case
    unfolding scanDescriptors.simps
    by (intro preserves_intros; use assms in \<open>simp add: files_preserve_def\<close>)
qed (simp add: preserves_return)

lemma preserves_scanProcesses:
  assumes "files_preserve R OS"
  shows "preserves R (scanProcesses OS targets proot trailing names s)"
proof (induction names arbitrary: s)
  case (Cons d rest)
  then show ?case
    unfolding scanProcesses.simps
    by (intro preserves_intros preserves_scanDescriptors [OF assms];
        use assms in \<open>simp add: files_preserve_def\<close>)
qed (simp add: preserves_return)

lemma preserves_resolve:
  assumes "files_preserve R OS"
  shows "preserves R (SocketInodeResolver_resolve OS proot inodes)"
  unfolding SocketInodeResolver_resolve_def
  by (intro preserves_intros preserves_scanProcesses [OF assms]; use assms in \<open>simp add: files_preserve_def\<close>)

lemma preserves_unitByPid:
  assumes "bus_preserves R B"
  shows "preserves R (SystemdServiceProvider_unitByPid B p)"
  unfolding SystemdServiceProvider_unitByPid_def openSystem_def managerCall_def stringProperty_def
  by (intro preserves_intros; use assms in \<open>simp add: bus_preserves_def\<close>)

lemma preserves_retry: "preserves R m \<Longrightarrow> preserves R (retryInterrupted fuel m)"
  by (induction fuel) (auto intro!: preserves_intros)

lemma preserves_netlink_calls:
  assumes "netlink_preserves R N"
  shows "preserves R (NetlinkSocket_send fuel N fd b)" "preserves R (NetlinkSocket_receive fuel N fd)"
    "preserves R (NetlinkSocket_open N)"
  unfolding NetlinkSocket_send_def NetlinkSocket_receive_def NetlinkSocket_open_def
  by (intro preserves_intros preserves_retry; use assms in \<open>simp add: netlink_preserves_def\<close>)+

lemma preserves_receiveDump:
  assumes "netlink_preserves R N"
  shows "preserves R (receiveDump fuel N fd sequence protocol acc)"
proof (induction fuel arbitrary: acc)
  case (Suc fuel)
  then show ?case
    unfolding receiveDump.simps
    by (intro preserves_intros preserves_netlink_calls [OF assms])
       (auto intro!: preserves_intros split: parse_run.split)
qed (simp add: preserves_return)

lemma preserves_dumpAll:
  assumes "netlink_preserves R N"
  shows "preserves R (dumpAll fuel N fd query ps sequence scan)"
proof (induction ps arbitrary: sequence scan)
  case (Cons pf rest)
  obtain protocol family where "pf = (protocol, family)" by fastforce
  moreover have "preserves R (one_dump fuel N fd family protocol sequence)"
    unfolding one_dump_def
    by (intro preserves_intros preserves_netlink_calls [OF assms] preserves_receiveDump [OF assms])
  ultimately show ?case
    by (simp only: dumpAll.simps) (intro preserves_intros Cons)
qed (simp add: preserves_return)

lemma preserves_query:
  assumes "netlink_preserves R N"
  shows "preserves R (NetlinkSocketProvider_query fuel N query)"
  unfolding NetlinkSocketProvider_query_def
  by (intro preserves_intros preserves_netlink_calls [OF assms] preserves_dumpAll [OF assms];
      use assms in \<open>simp add: netlink_preserves_def\<close>)

text \<open>The operations of the services as \<open>main\<close> builds them.\<close>

lemma preserves_lookups:
  assumes "lookups_preserve R M"
  shows "preserves R (pp_get (lxProcessProvider M) p)"
    and "preserves R (kp_query (po_socketProvider (lxPortService M)) query)"
    and "preserves R (or_resolve (po_ownerResolver (lxPortService M)) inodes)"
    and "preserves R (vp_unitByPid (lxServiceProvider M) p)"
proof -
  have laws: "files_preserve R (mc_os M)" "netlink_preserves R (mc_netlink M)" "bus_preserves R (mc_bus M)"
    using assms by (simp_all add: lookups_preserve_def)
  show "preserves R (pp_get (lxProcessProvider M) p)"
    using preserves_get [OF laws(1)] by (simp add: lxProcessProvider_def ProcFsProcessProvider_def)
  show "preserves R (kp_query (po_socketProvider (lxPortService M)) query)"
    by (simp add: NetlinkSocketProvider_def) (intro preserves_intros preserves_query laws)
  show "preserves R (or_resolve (po_ownerResolver (lxPortService M)) inodes)"
    using preserves_resolve [OF laws(1)] by (simp add: SocketInodeResolver_def)
  show "preserves R (vp_unitByPid (lxServiceProvider M) p)"
    using preserves_unitByPid [OF laws(3)]
    by (simp add: lxServiceProvider_def SystemdServiceProvider_def UnavailableServiceProvider_def
        preserves_return)
qed

lemma preserves_inspect:
  assumes "lookups_preserve R M"
  shows "preserves R (ProcessService_inspect (lxProcessService M) p)"
  unfolding ProcessService_inspect_def ServiceService_unitByPid_def lxProcessService_def lxServiceService_def
    ProcessService.simps ServiceService.simps option.case
  by (intro preserves_intros preserves_lookups [OF assms])

end

text \<open>Two such relations: the signals delivered stay the same, and the time does not go back.\<close>

interpretation same_signals: world_order "\<lambda>v w. delivered w = delivered v" for delivered :: "'w \<Rightarrow> (pid \<times> int) list"
  by unfold_locales simp_all

interpretation time_passes: world_order "\<lambda>v w. time v \<le> time w" for time :: "'w \<Rightarrow> int"
  by unfold_locales simp_all

lemma inspection_advances_lx:
  assumes "lookups_preserve (\<lambda>v w. time v \<le> time w) M"
  shows "inspection_advances time (lxPortService M)"
  using time_passes.preserves_lookups [OF assms]
  by (simp add: inspection_advances_def advances_def preserves_def lxProcessService_def lxServiceService_def)

end
