(* ===== verification/FreePort.thy ===== *)
theory FreePort
  imports LxMain
begin

text \<open>
  \<open>lx port free\<close> from the command line down to the kernel: what exit code 0 says about the port. The
  application layer calls a port released when \<open>prepareRelease\<close> fails with \<open>NotFound\<close>
  (\<open>PortService.cpp\<close>); here that error is traced through the adapters of the program to the one place
  it should come from, a socket query that found nothing.
\<close>

section \<open>Where NotFound comes from\<close>

definition not_missing :: "'a result \<Rightarrow> bool" where
  "not_missing r \<longleftrightarrow> (case r of Inl e \<Rightarrow> er_code e \<noteq> NotFound | Inr _ \<Rightarrow> True)"

lemma not_missing_simps [simp]:
  "not_missing (Inl e) \<longleftrightarrow> er_code e \<noteq> NotFound" "not_missing (Inr x)" "not_missing (parseError s)"
  by (simp_all add: not_missing_def parseError_def)

lemma yields_SomeD: "yields (pred_option P) m \<Longrightarrow> result_of m w = Some x \<Longrightarrow> P x"
  by (auto simp: yields_def pred_option_def)

text \<open>Neither a datagram that does not parse nor a system call that fails is reported as \<open>NotFound\<close>.\<close>

lemma parseDiagMessage_code:
  "not_missing (case parseDiagMessage L protocol m of Inl e \<Rightarrow> failure e | Inr so \<Rightarrow> success (f so))"
  by (auto simp: parseDiagMessage_def parseError_def Let_def split: option.split)

lemma parseNetlinkMessage_code:
  "parseNetlinkMessage L protocol data payload n h batch = Some r \<Longrightarrow> not_missing r"
  by (auto simp: parseNetlinkMessage_def Let_def parseDiagMessage_code split: if_split_asm)

lemma parseMessages_code:
  "parseMessages fuel L data sequence protocol offset batch = Returned r \<Longrightarrow> not_missing r"
proof (induction fuel arbitrary: offset batch)
  case (Suc fuel)
  then show ?case
    by (auto simp: parseMessages.simps Let_def dest!: parseNetlinkMessage_code
        split: if_split_asm option.split_asm sum.split_asm)
qed (simp add: parseMessages.simps)

lemma netlink_error_code: "er_code (netlink_error N n operation) \<noteq> NotFound"
  by (simp add: netlink_error_def)

lemma receiveDump_code: "yields (pred_option not_missing) (receiveDump fuel N fd sequence protocol vs)"
proof (induction fuel arbitrary: vs)
  case (Suc fuel)
  have "yields (pred_option not_missing) (NetlinkSocket_receive (Suc fuel) N fd)"
    by (auto simp: NetlinkSocket_receive_def yields_def netlink_error_code pred_option_def
        simp del: retryInterrupted.simps split: sum.split)
  note codes = yields_SomeD [OF this] yields_SomeD [OF Suc] parseMessages_code
  show ?case
    unfolding receiveDump.simps yields_def
    by (auto simp: parseInetDiagDatagram_def pred_option_def simp del: retryInterrupted.simps
        split: option.split sum.split parse_run.split dest!: codes)
qed (simp add: yields_return)

lemma one_dump_code: "yields (pred_option not_missing) (one_dump fuel N fd family protocol sequence)"
proof -
  have "yields (pred_option not_missing) (NetlinkSocket_send fuel N fd b)" for b
    by (auto simp: NetlinkSocket_send_def yields_def netlink_error_code split: option.split sum.split)
  note codes = yields_SomeD [OF this] yields_SomeD [OF receiveDump_code]
  show ?thesis
    unfolding one_dump_def Let_def yields_def
    by (auto simp: pred_option_def split: option.split sum.split dest!: codes)
qed

definition last_code_ok :: "SocketScan \<Rightarrow> bool" where
  "last_code_ok scan \<longleftrightarrow> (\<forall>e. sn_last scan = Some e \<longrightarrow> er_code e \<noteq> NotFound)"

lemma dumpAll_code:
  "last_code_ok scan \<Longrightarrow> yields (pred_option last_code_ok) (dumpAll fuel N fd query ps sequence scan)"
proof (induction ps arbitrary: sequence scan)
  case (Cons pf ps)
  obtain protocol family where pf: "pf = (protocol, family)" by fastforce
  have "last_code_ok (noteDump query protocol r scan)" if "not_missing r" for r
    using that Cons.prems by (auto simp: noteDump_def last_code_ok_def Let_def split: sum.split)
  note codes = this [OF yields_SomeD [OF one_dump_code]] yields_SomeD [OF Cons.IH]
  show ?case
    unfolding pf dumpAll.simps yields_def
    by (auto simp: pred_option_def split: option.split intro: codes)
qed (simp add: yields_def)

lemma query_code: "yields not_missing (kp_query (NetlinkSocketProvider fuel N) query)"
proof -
  have "yields (pred_option not_missing) (NetlinkSocketProvider_query fuel N query)"
    by (auto simp: NetlinkSocketProvider_query_def NetlinkSocket_open_def yields_def netlink_error_code
        finishScan_def pred_option_def split: sum.split option.split
        dest!: yields_SomeD [OF dumpAll_code, rotated] simp: last_code_ok_def)
  then show ?thesis
    by (auto simp: NetlinkSocketProvider_def settled_def yields_def pred_option_def split: option.split)
qed

text \<open>The process file system is mounted: listing it may fail, but not because it is not there.\<close>

definition proc_mounted :: "('w, 'bus, 'msg, 'j) Machine \<Rightarrow> bool" where
  "proc_mounted M \<longleftrightarrow> (\<forall>w n. result_of (os_directory (mc_os M) ''/proc'') w = Inl n \<longrightarrow> \<not> disappeared n)"

lemma resolve_code:
  "proc_mounted M \<Longrightarrow> yields not_missing (SocketInodeResolver_resolve (mc_os M) ''/proc'' inodes)"
  by (auto simp: SocketInodeResolver_resolve_def Let_def yields_def proc_mounted_def disappeared_def
      resolver_makeError_def resolver_errorCode_def split: sum.split)

lemma validateAll_code: "not_missing (validateAll S ps)"
  by (induction ps) (auto simp: ProcessService_validateSignalTarget_def)

lemma planFrom_code:
  "planFrom S port inspected = Inl e \<Longrightarrow> er_code e = NotFound \<Longrightarrow> ob_value inspected = []"
  using validateAll_code
  by (fastforce simp: planFrom_def Let_def not_missing_def split: if_split_asm option.split_asm sum.split_asm)

text \<open>\<open>query_free M port w v\<close>: asked in the world \<open>w\<close>, the kernel named no socket on the port, and \<open>v\<close> is the
  world after the question.\<close>

definition query_free :: "('w, 'bus, 'msg, 'j) Machine \<Rightarrow> u16 \<Rightarrow> 'w \<Rightarrow> 'w \<Rightarrow> bool" where
  "query_free M port w v \<longleftrightarrow>
     (let query = kp_query (NetlinkSocketProvider (mc_fuel M) (mc_netlink M))
            (default_SocketQuery\<lparr>sq_localPort := Some port\<rparr>) in
      (\<exists>ob. result_of query w = Inr ob \<and> ob_value ob = []) \<and> v = world_after query w)"

lemma looked_free_query:
  assumes "proc_mounted M" and "mc_hashOrder M [] = []" and "looked_free (lxPortService M) port w v"
  shows "query_free M port w v"
proof -
  let ?q = "kp_query (NetlinkSocketProvider (mc_fuel M) (mc_netlink M))
    (default_SocketQuery\<lparr>sq_localPort := Some port\<rparr>)"
  have codes: "not_missing (result_of ?q w)"
      "not_missing (result_of (SocketInodeResolver_resolve (mc_os M) ''/proc'' inodes) w')" for inodes w'
    using query_code [of "mc_fuel M" "mc_netlink M"] resolve_code [OF assms(1)] by (simp_all add: yields_def)
  then have "er_code e \<noteq> NotFound"
      if "result_of (SocketInodeResolver_resolve (mc_os M) ''/proc'' inodes) w' = Inl e" for e inodes w'
    using that by (metis not_missing_simps(1))
  note codes = codes(1) this
  have "\<exists>ob. result_of ?q w = Inr ob \<and> ob_value ob = []"
    using assms(3) codes(1)
    by (auto simp: looked_free_def PortService_prepareRelease_def PortService_inspect_def SocketInodeResolver_def
        dest!: planFrom_code dest: codes(2) split: if_split_asm sum.split_asm prod.split_asm)
  moreover from this have "world_after (PortService_prepareRelease (lxPortService M) port) w = world_after ?q w"
      if "port \<noteq> 0"
    using that assms(2)
    by (auto simp: PortService_prepareRelease_def PortService_inspect_def SocketInodeResolver_def
        SocketInodeResolver_resolve_def insertedPids_def lxPortService_def)
  moreover have "port \<noteq> 0"
    using assms(3) by (auto simp: looked_free_def PortService_prepareRelease_def)
  ultimately show ?thesis
    using assms(3) by (simp add: query_free_def looked_free_def)
qed

section \<open>What exit code 0 says\<close>

text \<open>\<open>only_prints C u v\<close>: between the worlds \<open>u\<close> and \<open>v\<close> there are only writes to the console.\<close>

inductive only_prints :: "'w Console \<Rightarrow> 'w \<Rightarrow> 'w \<Rightarrow> bool" for C where
  prints_nothing: "only_prints C u u"
| prints_output: "only_prints C u v \<Longrightarrow> only_prints C u (world_after (cn_output C s) v)"
| prints_error: "only_prints C u v \<Longrightarrow> only_prints C u (world_after (cn_error C s) v)"

lemma only_prints_trans: "only_prints C v w \<Longrightarrow> only_prints C u v \<Longrightarrow> only_prints C u w"
  by (induction rule: only_prints.induct) (auto intro: only_prints.intros)

interpretation printing: world_order "only_prints C" for C :: "'w Console"
  by unfold_locales (auto intro: prints_nothing only_prints_trans)

lemma writes_print:
  "preserves (only_prints (en_console (cr_env R))) (writeDiagnostics R s)"
  "preserves (only_prints (en_console (cr_env R))) (writeUnlessQuiet R s)"
  by (auto simp: preserves_def writeDiagnostics_def writeUnlessQuiet_def writeError_def writeOutput_def
      intro: only_prints.intros)

text \<open>\<open>ends_free S port C m\<close>: when \<open>m\<close> exits with 0, the last thing it did but for the messages was to look at
  the port and find it free.\<close>

definition ends_free :: "'w PortService \<Rightarrow> u16 \<Rightarrow> 'w Console \<Rightarrow> ('w, cli_outcome) io \<Rightarrow> bool" where
  "ends_free S port C m \<longleftrightarrow> (\<forall>w. result_of m w = Exits 0 \<longrightarrow>
     (\<exists>w' v. looked_free S port w' v \<and> only_prints C v (world_after m w)))"

lemma ends_free_fail: "ends_free S port C (cli_fail R c operation e)"
  by (simp add: ends_free_def cli_fail_nonzero)

lemma ends_free_bind: "(\<And>x. ends_free S port C (f x)) \<Longrightarrow> ends_free S port C (State_Monad.bind m f)"
  by (simp add: ends_free_def)

text \<open>The three messages that say so: each follows such a look.\<close>

lemma ends_free_tell:
  assumes "\<And>w x. result_of m w = x \<Longrightarrow> P x \<Longrightarrow> \<exists>w'. looked_free S port w' (world_after m w)"
    and "\<And>x. P x \<Longrightarrow> preserves (only_prints C) (f x)"
    and "\<And>w. \<not> P (result_of m w) \<Longrightarrow> ends_free S port C (f (result_of m w))"
  shows "ends_free S port C (State_Monad.bind m f)"
  unfolding ends_free_def
proof (intro allI impI)
  fix w
  assume r: "result_of (State_Monad.bind m f) w = Exits 0"
  show "\<exists>w' v. looked_free S port w' v \<and> only_prints C v (world_after (State_Monad.bind m f) w)"
  proof (cases "P (result_of m w)")
    case True
    from assms(1) [OF refl True] assms(2) [OF True] show ?thesis
      by (auto simp: preserves_def)
  next
    case False
    from assms(3) [OF False] r show ?thesis by (simp add: ends_free_def)
  qed
qed

lemma releaseByForce_ends_free:
  assumes "pa_confirmRelease a" and "rr_remaining terminated = Some remaining" and "rp_localPort remaining = port"
  shows "ends_free (ca_portService A) port (en_console (cr_env R)) (releaseByForce R A a terminated)"
proof -
  let ?tell = "\<lambda>forced. case forced of
      Inl e \<Rightarrow> cli_fail R ''port'' ''free'' e
    | Inr released \<Rightarrow> do {
        _ \<leftarrow> writeDiagnostics R (warningLines (ob_warnings released));
        _ \<leftarrow> writeUnlessQuiet R (formatted R ''Port {} released with SIGKILL.\<newline>''
          [FmtInt (uint (pa_freePortNumber a))]);
        return (Exits 0)
      }"
  have "ends_free (ca_portService A) port (en_console (cr_env R))
      (State_Monad.bind (PortService_force (ca_portService A) remaining) ?tell)"
    by (rule ends_free_tell [where P = "\<lambda>forced. \<exists>ob. forced = Inr ob"])
       (use force_looked [of "ca_portService A" remaining] assms(3) in
         \<open>auto simp: ends_free_fail split: sum.split
           intro!: printing.preserves_bind printing.preserves_return writes_print\<close>)
  then show ?thesis
    unfolding releaseByForce_def using assms(1,2) by (auto intro!: ends_free_bind)
qed

lemma releaseBySignal_ends_free:
  assumes "pa_confirmRelease a" and "rp_localPort plan = port"
  shows "ends_free (ca_portService A) port (en_console (cr_env R)) (releaseBySignal R A a plan)"
proof -
  let ?S = "ca_portService A" and ?C = "en_console (cr_env R)"
  let ?free = "\<lambda>terminated. \<exists>ob. terminated = Inr ob \<and> rr_released (ob_value ob)"
  have still: "ends_free ?S port ?C (releaseByForce R A a (ob_value ob))"
    if occupied: "result_of (PortService_terminate ?S plan) w = Inr ob" "\<not> rr_released (ob_value ob)" for w ob
  proof -
    obtain w' after where "result_of (PortService_prepareRelease ?S (rp_localPort plan)) w' = Inr after"
        "rr_remaining (ob_value ob) = Some (ob_value after)"
      using occupied by (rule terminate_remaining)
    from prepared_owners [OF this(1)] this(2) show ?thesis
      using assms(2) by (intro releaseByForce_ends_free [OF assms(1), where remaining = "ob_value after"]) auto
  qed
  let ?tell = "\<lambda>terminated. case terminated of
      Inl e \<Rightarrow> cli_fail R ''port'' ''free'' e
    | Inr observed \<Rightarrow> do {
        _ \<leftarrow> writeDiagnostics R (warningLines (ob_warnings observed));
        if rr_released (ob_value observed)
        then do {
          _ \<leftarrow> writeUnlessQuiet R (formatted R ''Port {} released with SIGTERM.\<newline>''
            [FmtInt (uint (pa_freePortNumber a))]);
          return (Exits 0)
        }
        else releaseByForce R A a (ob_value observed)
      }"
  have "ends_free ?S port ?C (State_Monad.bind (PortService_terminate ?S plan) ?tell)"
  proof (rule ends_free_tell [where P = ?free])
    show "\<exists>w'. looked_free ?S port w' (world_after (PortService_terminate ?S plan) w)"
      if "result_of (PortService_terminate ?S plan) w = x" "?free x" for w x
      using that terminate_looked [of ?S plan w] assms(2) by auto
    show "preserves (only_prints ?C) (?tell x)" if "?free x" for x
      using that by (auto intro!: printing.preserves_bind printing.preserves_return writes_print)
    show "ends_free ?S port ?C (?tell (result_of (PortService_terminate ?S plan) w))"
      if "\<not> ?free (result_of (PortService_terminate ?S plan) w)" for w
      using that by (auto intro!: ends_free_bind ends_free_fail still split: sum.split)
  qed
  then show ?thesis
    unfolding releaseBySignal_def using assms(1) by (auto intro!: ends_free_bind)
qed

lemma releaseByService_ends_free:
  assumes "pa_confirmRelease a" and "rp_localPort plan = port"
  shows "ends_free (ca_portService A) port (en_console (cr_env R)) (releaseByService R A a plan unit)"
proof -
  let ?S = "ca_portService A" and ?C = "en_console (cr_env R)" and ?n = "en_pollRounds (cr_env R)"
  let ?tell = "\<lambda>stopped. case stopped of
      None \<Rightarrow> return StillPolling
    | Some (Inl e) \<Rightarrow> cli_fail R ''port'' ''free'' e
    | Some (Inr released) \<Rightarrow> do {
        _ \<leftarrow> writeDiagnostics R (warningLines (ob_warnings released));
        _ \<leftarrow> writeUnlessQuiet R (formatted R ''Port {} released by stopping {}.\<newline>''
          [FmtInt (uint (pa_freePortNumber a)), FmtStr unit]);
        return (Exits 0)
      }"
  let ?free = "\<lambda>stopped. \<exists>ob. stopped = Some (Inr ob)"
  have "ends_free ?S port ?C (State_Monad.bind (PortService_stopManagedService ?n ?S plan) ?tell)"
  proof (rule ends_free_tell [where P = ?free])
    show "\<exists>w'. looked_free ?S port w' (world_after (PortService_stopManagedService ?n ?S plan) w)"
      if "result_of (PortService_stopManagedService ?n ?S plan) w = x" "?free x" for w x
      using that stopManagedService_looked [of ?n ?S plan w] assms(2) by auto
    show "preserves (only_prints ?C) (?tell x)" if "?free x" for x
      using that by (auto intro!: printing.preserves_bind printing.preserves_return writes_print)
    show "ends_free ?S port ?C (?tell (result_of (PortService_stopManagedService ?n ?S plan) w))"
      if "\<not> ?free (result_of (PortService_stopManagedService ?n ?S plan) w)" for w
      using that by (auto intro!: ends_free_fail simp: ends_free_def [of _ _ _ "return _"]
        split: option.split sum.split)
  qed
  then show ?thesis
    unfolding releaseByService_def using assms(1) by (auto intro!: ends_free_bind)
qed

lemma runFreePort_ends_free:
  assumes "pa_confirmRelease a"
  shows "ends_free (ca_portService A) (ucast (pa_freePortNumber a)) (en_console (cr_env R)) (runFreePort R A a)"
proof -
  let ?S = "ca_portService A" and ?port = "ucast (pa_freePortNumber a) :: u16"
  have bind: "ends_free S port C (State_Monad.bind m f)"
    if "\<And>w. ends_free S port C (f (result_of m w))" for S port C and m :: "('a, 'b) io" and f
    using that by (simp add: ends_free_def)
  show ?thesis
    unfolding runFreePort_def Let_def
    by (rule bind)
       (auto simp: ends_free_fail split: sum.split option.split dest!: prepared_owners
         intro!: ends_free_bind releaseByService_ends_free releaseBySignal_ends_free assms)
qed

text \<open>
  C3. \<open>lx port free <port> --yes\<close> exits with 0 only if the port is free. For a machine with its process
  file system mounted, if the run exits with 0 then its last action, apart from what it printed, was to
  ask the kernel for the sockets on exactly that port, the listening TCP sockets and all UDP sockets over
  both address families, and the kernel named none. This holds on each of the paths a release can take: stopping the service that owns
  the port, a termination signal to the owners, and a kill signal to those that stayed.
\<close>

theorem lx_free_exit_code:
  assumes "proc_mounted M" and "mc_hashOrder M [] = []"
    and "en_parse E args = Inr a" and "checkedArguments a" and "pa_freePort a \<and> pa_confirmRelease a"
    and "\<not> (pa_tui a \<or> pa_doctor a \<or> pa_status a \<or> pa_inspect a \<or> pa_find a \<or> pa_process a \<or> pa_service a \<or>
      pa_log a)"
    and "result_of (CliApp_run E (lxApp M) args) w = Exits 0"
  shows "\<exists>port w' v. uint port = uint (pa_freePortNumber a) \<and> query_free M port w' v \<and>
    only_prints (en_console E) v (world_after (CliApp_run E (lxApp M) args) w)"
proof -
  let ?port = "ucast (pa_freePortNumber a) :: u16"
  let ?R = "\<lparr>cr_env = E, cr_json = jsonRequested args (pa_json a), cr_options = outputOptionsOf (en_noColor E) a\<rparr>"
  have "CliApp_run E (lxApp M) args =
      (if cr_json ?R then cli_fail ?R ''port'' ''mutate'' (validateError ''--json is only supported by read-only commands'')
       else runFreePort ?R (lxApp M) a)"
    using assms(3-6) by (auto simp: CliApp_run_def CliApp_dispatch_def mutating_def checkedArguments_def)
  then have "ends_free (lxPortService M) ?port (en_console E) (CliApp_run E (lxApp M) args)"
    using runFreePort_ends_free [of a "lxApp M" ?R] assms(5) by (auto simp: ends_free_fail)
  then obtain w' v where "looked_free (lxPortService M) ?port w' v"
      "only_prints (en_console E) v (world_after (CliApp_run E (lxApp M) args) w)"
    using assms(7) by (auto simp: ends_free_def)
  moreover have "uint ?port = uint (pa_freePortNumber a)"
    using assms(4,5) by (intro checkedPort_ucast) (simp add: checkedArguments_def)
  ultimately show ?thesis
    using looked_free_query [OF assms(1,2)] by blast
qed

text \<open>
  A machine whose world is the last request to the kernel and whether process 7 runs: it listens on port
  8080 and ends with the first signal. There is no systemd.
\<close>

definition demo_portNetlink :: "(bytes \<times> bool) NetlinkOS" where
  "demo_portNetlink =
     \<lparr>nk_socket = return (Inr 3),
      nk_sendto = (\<lambda>fd request. State (\<lambda>(_, runs). (Inr (length request), (request, runs)))),
      nk_recv = (\<lambda>fd n. State (\<lambda>(request, runs).
        (Inr (if runs \<and> request ! 16 = 2 \<and> request ! 17 = 6
              then diag_dump (le32 (drop 8 request)) 7 [demo_entry] @ dump_end (le32 (drop 8 request)) 7
              else dump_end (le32 (drop 8 request)) 7), (request, runs)))),
      nk_close = (\<lambda>fd. return ()), nk_errno = return 0, nk_libc = demo_libc, nk_arrange = (\<lambda>x. x)\<rparr>"

definition demo_portSignals :: "(bytes \<times> bool) SignalOS" where
  "demo_portSignals =
     \<lparr>sg_pidfdOpen = (\<lambda>p. State (\<lambda>(r, runs). (if runs \<and> p = 7 then Inr 4 else Inl ESRCH, (r, runs)))),
      sg_pidfdSend = (\<lambda>fd n. State (\<lambda>(r, runs). (Inr (), (r, False)))),
      sg_poll = (\<lambda>fd timeout. return (Inr 1)), sg_close = (\<lambda>fd. return ()),
      sg_kill = (\<lambda>p n. return (Inl ESRCH)), sg_waitid = (\<lambda>p. return False),
      sg_clock = \<lparr>ck_steadyNow = return 0, ck_systemNow = return 0, ck_sleep = (\<lambda>d. return ())\<rparr>,
      sg_getpid = 9, sg_havePidFdOpen = True, sg_havePidFdSend = True, sg_strerror = (\<lambda>_. [])\<rparr>"

definition demo_portOS :: "(bytes \<times> bool) OS" where
  "demo_portOS =
     \<lparr>os_read = (\<lambda>path. return (OpenFailed ENOENT)),
      os_readlink = (\<lambda>path. return (Inr ''socket:[4242]'')),
      os_directory = (\<lambda>path. return (Inr (if path = ''/proc'' then [''7''] else [''3''], None))),
      os_getpwuid = (\<lambda>uid n. return (0, None)), os_getpwSize = 0,
      os_gethostname = return (Inr ''h''), os_strerror = (\<lambda>n. [])\<rparr>"

definition demo_portSocket :: SocketInfo where
  "demo_portSocket = entry_socket (\<lambda>family bs. if family = IPv4 then ''127.0.0.1'' else ''::1'') Tcp demo_entry"

lemma demo_port_dump:
  "result_of (one_dump (Suc 0) demo_portNetlink fd family protocol sequence) w =
     Some (Inr (if snd w \<and> family = IPv4 \<and> protocol = Tcp then [demo_portSocket] else []))"
  "snd (world_after (one_dump (Suc 0) demo_portNetlink fd family protocol sequence) w) = snd w"
  by (cases w; cases family; cases protocol; cases "snd w";
      simp add: one_dump_def Let_def NetlinkSocket_send_def NetlinkSocket_receive_def demo_portNetlink_def
        request_fields demo_parse demo_portSocket_def)+

lemma demo_portSocket_fields:
  "ep_port (so_local demo_portSocket) = 8080" "so_inode demo_portSocket = 4242"
  by (simp_all add: demo_portSocket_def entry_socket_def Let_def demo_entry_def)

lemma demo_port_query:
  "result_of (kp_query (NetlinkSocketProvider (Suc 0) demo_portNetlink)
      (default_SocketQuery\<lparr>sq_localPort := Some 8080\<rparr>)) w =
     Inr \<lparr>ob_value = (if snd w then [demo_portSocket] else []), ob_warnings = []\<rparr>"
  "snd (world_after (kp_query (NetlinkSocketProvider (Suc 0) demo_portNetlink)
      (default_SocketQuery\<lparr>sq_localPort := Some 8080\<rparr>)) w) = snd w"
proof -
  have "nk_socket demo_portNetlink = return (Inr 3)" "nk_close demo_portNetlink = (\<lambda>fd. return ())"
    by (simp_all add: demo_portNetlink_def)
  moreover have "dumpOrder (default_SocketQuery\<lparr>sq_localPort := Some 8080\<rparr>) =
      [(Tcp, IPv4), (Tcp, IPv6), (Udp, IPv4), (Udp, IPv6)]"
    by (simp add: dumpOrder_def default_SocketQuery_def)
  ultimately show
    "result_of (kp_query (NetlinkSocketProvider (Suc 0) demo_portNetlink)
        (default_SocketQuery\<lparr>sq_localPort := Some 8080\<rparr>)) w =
       Inr \<lparr>ob_value = (if snd w then [demo_portSocket] else []), ob_warnings = []\<rparr>"
    "snd (world_after (kp_query (NetlinkSocketProvider (Suc 0) demo_portNetlink)
        (default_SocketQuery\<lparr>sq_localPort := Some 8080\<rparr>)) w) = snd w"
    by (simp_all add: NetlinkSocketProvider_def NetlinkSocketProvider_query_def NetlinkSocket_open_def
        demo_port_dump noteDump_def Let_def finishScan_def wanted_def demo_portSocket_fields default_SocketQuery_def
        std_sort_def)
qed

text \<open>No bus and no journal can be opened.\<close>

definition demo_noBus :: "('w, unit, unit) SdBusLib" where
  "demo_noBus =
     \<lparr>sb_openSystem = return (Inl EACCES),
      sb_callMethod = (\<lambda>bus d p i m args. return (Inr None)),
      sb_getProperty = (\<lambda>bus d p i n t. return (Inr None)),
      sb_getPropertyString = (\<lambda>bus d p i n. return (Inr None)),
      sb_getPropertyU32 = (\<lambda>bus d p i n. return (Inr 0)),
      sb_getPropertyU64 = (\<lambda>bus d p i n. return (Inr 0)),
      sb_enterContainer = (\<lambda>message t c. return (Inr False)), sb_exitContainer = (\<lambda>message. return (Inr ())),
      sb_readUnit = (\<lambda>message. return (Inl EIO)), sb_readOne = (\<lambda>message t. return (Inl EIO)),
      sb_strerror = (\<lambda>n. [])\<rparr>"

definition demo_noJournal :: "('w, unit) SdJournalLib" where
  "demo_noJournal =
     \<lparr>sj_open = return (Inl EACCES), sj_close = (\<lambda>j. return ()), sj_setDataThreshold = (\<lambda>j n. return (Inr ())),
      sj_addMatch = (\<lambda>j m. return (Inr ())), sj_getData = (\<lambda>j f. return (Inr None)),
      sj_getRealtimeUsec = (\<lambda>j. return (Inr 0)), sj_getCursor = (\<lambda>j. return (Inr None)),
      sj_seekTail = (\<lambda>j. return (Inr ())), sj_seekRealtimeUsec = (\<lambda>j t. return (Inr ())),
      sj_seekCursor = (\<lambda>j c. return (Inr ())), sj_previous = (\<lambda>j. return (Inr False)),
      sj_next = (\<lambda>j. return (Inr False)), sj_wait = (\<lambda>j t. return (Inr ())), sj_strerror = (\<lambda>n. [])\<rparr>"

definition demo_portMachine :: "(bytes \<times> bool, unit, unit, unit) Machine" where
  "demo_portMachine =
     \<lparr>mc_os = demo_portOS, mc_signals = demo_portSignals, mc_netlink = demo_portNetlink, mc_bus = demo_noBus,
      mc_journal = demo_noJournal, mc_clock = sg_clock demo_portSignals,
      mc_fromChars = (\<lambda>s. \<lparr>dp_ec = ErrcInvalidArgument, dp_ptr = 0, dp_value = None\<rparr>), mc_round = (\<lambda>x. x),
      mc_hashOrder = (\<lambda>ps. ps), mc_getpid = 9, mc_fuel = Suc 0, mc_followRounds = 0, mc_hasSystemd = False, mc_hasTui = False,
      mc_tuiLoop = (\<lambda>D S. return (Inr ()))\<rparr>"

definition demo_portEnv :: "(bytes \<times> bool) CliEnv" where
  "demo_portEnv =
     \<lparr>en_console =
        \<lparr>cn_output = (\<lambda>s. return ()), cn_error = (\<lambda>s. return ()), cn_getline = return None,
         cn_clearInterrupt = return (), cn_sigaction = return None, cn_restoreAction = return (),
         cn_interruptRequested = return False, cn_systemNow = return 0, cn_strerror = (\<lambda>n. [])\<rparr>,
      en_formats = demo_Formats, en_dump = (\<lambda>j. Some []), en_timeZone = demo_LocalTime,
      en_parse = (\<lambda>args. Inr (demo_arguments\<lparr>pa_port := True, pa_freePort := True, pa_freePortNumber := 8080,
        pa_confirmRelease := True\<rparr>)),
      en_noColor = None, en_pollRounds = 122\<rparr>"

lemma demo_portService:
  "mc_fuel demo_portMachine = Suc 0" "mc_netlink demo_portMachine = demo_portNetlink"
  "mc_os demo_portMachine = demo_portOS" "mc_signals demo_portMachine = demo_portSignals"
  "mc_getpid demo_portMachine = 9" "po_hashOrder (lxPortService demo_portMachine) = (\<lambda>ps. ps)"
  "po_clock (lxPortService demo_portMachine) = sg_clock demo_portSignals"
  by (simp_all add: lxPortService_def demo_portMachine_def)

lemma demo_port_resolve:
  "result_of (SocketInodeResolver_resolve demo_portOS ''/proc'' [4242]) w =
     Inr \<lparr>ob_value = [4242 \<mapsto> [7]], ob_warnings = []\<rparr>"
  "world_after (SocketInodeResolver_resolve demo_portOS ''/proc'' [4242]) w = w"
  "SocketInodeResolver_resolve demo_portOS ''/proc'' [] = return (Inr \<lparr>ob_value = Map.empty, ob_warnings = []\<rparr>)"
proof -
  have "pidOfName ''7'' = Some 7"
    by (simp add: pidOfName_def consumed_all_def from_chars_unsigned_def isdigit_def Let_def
        digits_value_def fc_value_or_def pid_max_def)
  moreover have "parseSocketFdTarget ''socket:[4242]'' = Inr (Some 4242)"
    using socket_link_complete [of "''4242''" 4242] by (simp add: isdigit_def digits_value_def)
  moreover show "SocketInodeResolver_resolve demo_portOS ''/proc'' [] =
      return (Inr \<lparr>ob_value = Map.empty, ob_warnings = []\<rparr>)"
    by (simp add: SocketInodeResolver_resolve_def)
  ultimately show "result_of (SocketInodeResolver_resolve demo_portOS ''/proc'' [4242]) w =
      Inr \<lparr>ob_value = [4242 \<mapsto> [7]], ob_warnings = []\<rparr>"
    "world_after (SocketInodeResolver_resolve demo_portOS ''/proc'' [4242]) w = w"
    by (auto simp: SocketInodeResolver_resolve_def demo_portOS_def Let_def path_join_def noteAdvance_def
        addOwner_def scanWarnings_def fun_eq_iff)
qed

definition demo_portPlan :: PortReleasePlan where
  "demo_portPlan =
     \<lparr>rp_localPort = 8080, rp_ports = [\<lparr>po_socket = demo_portSocket\<lparr>so_ownerPids := [7]\<rparr>, po_owners = []\<rparr>],
      rp_ownerPids = [7], rp_recommendedUnit = None\<rparr>"

lemma demo_port_inspect:
  "\<exists>e. result_of (ProcessService_inspect (lxProcessService demo_portMachine) 7) w = Inl e"
  "world_after (ProcessService_inspect (lxProcessService demo_portMachine) 7) w = w"
  by (auto simp: ProcessService_inspect_def lxProcessProvider_def ProcFsProcessProvider_def
      ProcFsProcessProvider_get_def ProcFsReader_readFile_def demo_portMachine_def demo_portOS_def Let_def)

lemma demo_port_prepare:
  "snd w \<Longrightarrow> \<exists>ob. result_of (PortService_prepareRelease (lxPortService demo_portMachine) 8080) w = Inr ob \<and>
     ob_value ob = demo_portPlan"
  "\<not> snd w \<Longrightarrow> \<exists>e. result_of (PortService_prepareRelease (lxPortService demo_portMachine) 8080) w = Inl e \<and>
     er_code e = NotFound"
  "snd (world_after (PortService_prepareRelease (lxPortService demo_portMachine) 8080) w) = snd w"
proof -
  note run = PortService_prepareRelease_def PortService_inspect_def demo_portService demo_port_query
      SocketInodeResolver_def demo_port_resolve demo_portSocket_fields insertedPids_def
  obtain e where e: "result_of (ProcessService_inspect (lxProcessService demo_portMachine) 7) w' = Inl (e w')" for w'
    using demo_port_inspect(1) by metis
  show "\<exists>ob. result_of (PortService_prepareRelease (lxPortService demo_portMachine) 8080) w = Inr ob \<and>
     ob_value ob = demo_portPlan" if "snd w"
    using that
    by (simp add: run e demo_port_inspect(2) planFrom_def portOf_def assignOwners_def Let_def demo_portPlan_def
        recommendedUnitFor_def List.map_filter_def ProcessService_validateSignalTarget_def)
  show "\<exists>e. result_of (PortService_prepareRelease (lxPortService demo_portMachine) 8080) w = Inl e \<and>
     er_code e = NotFound" if "\<not> snd w"
    using that by (simp add: run planFrom_def)
  show "snd (world_after (PortService_prepareRelease (lxPortService demo_portMachine) 8080) w) = snd w"
    by (cases "snd w") (simp_all add: run e demo_port_inspect(2))
qed

lemma demo_port_signal:
  assumes "snd w"
  shows "\<exists>ds. result_of (signalOwners (lxProcessService demo_portMachine) Terminate [7] []) w = Inr ds"
    and "\<not> snd (world_after (signalOwners (lxProcessService demo_portMachine) Terminate [7] []) w)"
  using assms
  by (cases w; simp add: ProcessService_stop_def ProcessService_signal_def ProcessService_validateSignalTarget_def
      lxSignalProvider_def LinuxSignalProvider_def LinuxSignalProvider_send_def PidFd_open_def PidFd_send_def
      demo_portService demo_portSignals_def)+

lemma demo_port_await:
  assumes "\<not> snd w"
  shows "result_of (awaitOwners (lxPortService demo_portMachine) deadline [7]) w = Inr ()"
    and "\<not> snd (world_after (awaitOwners (lxPortService demo_portMachine) deadline [7]) w)"
  using assms
  by (cases w; simp add: ProcessService_waitForExit_def ProcessService_validateSignalTarget_def lxSignalProvider_def
      LinuxSignalProvider_def LinuxSignalProvider_waitForExit_def PidFd_open_def pidfd_makeError_def Let_def
      demo_portService demo_portSignals_def)+

lemma demo_port_terminate:
  assumes "snd w"
  shows "\<exists>ob. result_of (PortService_terminate (lxPortService demo_portMachine) demo_portPlan) w = Inr ob \<and>
    rr_released (ob_value ob)"
proof -
  let ?S = "lxPortService demo_portMachine"
  let ?v = "world_after (PortService_prepareRelease ?S 8080) w"
  let ?u = "world_after (signalOwners (lxProcessService demo_portMachine) Terminate [7] []) ?v"
  let ?x = "world_after (awaitOwners ?S (po_gracePeriod ?S * 1000000) [7]) ?u"
  have plan: "rp_localPort demo_portPlan = 8080" "rp_ownerPids demo_portPlan = [7]"
      "sameTargets demo_portPlan demo_portPlan"
    by (simp_all add: demo_portPlan_def sameTargets_def)
  obtain ob where ob: "result_of (PortService_prepareRelease ?S 8080) w = Inr ob" "ob_value ob = demo_portPlan"
    using demo_port_prepare(1) [OF assms] by blast
  have "snd ?v" using assms demo_port_prepare(3) by simp
  then obtain ds where ds: "result_of (signalOwners (lxProcessService demo_portMachine) Terminate [7] []) ?v = Inr ds"
      "\<not> snd ?u"
    using demo_port_signal by blast
  then have "result_of (awaitOwners ?S (po_gracePeriod ?S * 1000000) [7]) ?u = Inr ()" "\<not> snd ?x"
    using demo_port_await by blast+
  moreover from this obtain e where "result_of (PortService_prepareRelease ?S 8080) ?x = Inl e" "er_code e = NotFound"
    using demo_port_prepare(2) by blast
  moreover have "ck_steadyNow (po_clock ?S) = return 0"
    by (simp add: demo_portService demo_portSignals_def)
  ultimately show ?thesis
    using ob ds plan
    by (simp add: PortService_terminate_def del: signalOwners.simps awaitOwners.simps)
qed

theorem lx_free_exit_code_witness:
  "\<exists>port w' v. uint port = 8080 \<and> query_free demo_portMachine port w' v \<and>
     only_prints (en_console demo_portEnv) v
       (world_after (CliApp_run demo_portEnv (lxApp demo_portMachine) [''port'', ''free'', ''8080'', ''--yes''])
         ([], True))"
proof -
  let ?args = "[''port'', ''free'', ''8080'', ''--yes'']"
  let ?a = "demo_arguments\<lparr>pa_port := True, pa_freePort := True, pa_freePortNumber := 8080, pa_confirmRelease := True\<rparr>"
  have quiet: "writeOutput R s = return ()" "writeDiagnostics R s = return ()" "writeUnlessQuiet R s = return ()"
    if "cr_env R = demo_portEnv" for R s
    using that
    by (simp_all add: writeOutput_def writeDiagnostics_def writeError_def writeUnlessQuiet_def demo_portEnv_def)
  have "proc_mounted demo_portMachine"
    by (simp add: proc_mounted_def demo_portMachine_def demo_portOS_def)
  moreover have "mc_hashOrder demo_portMachine [] = []" by (simp add: demo_portMachine_def)
  moreover have parsed: "en_parse demo_portEnv ?args = Inr ?a" by (simp add: demo_portEnv_def)
  moreover have "checkedArguments ?a"
    by (simp add: checkedArguments_def checkedPort_def demo_arguments_def)
  moreover have "pa_freePort ?a \<and> pa_confirmRelease ?a" by simp
  moreover have other: "\<not> (pa_tui ?a \<or> pa_doctor ?a \<or> pa_status ?a \<or> pa_inspect ?a \<or> pa_find ?a \<or> pa_process ?a \<or>
      pa_service ?a \<or> pa_log ?a)" by (simp add: demo_arguments_def)
  moreover have "result_of (CliApp_run demo_portEnv (lxApp demo_portMachine) ?args) ([], True) = Exits 0"
  proof -
    let ?S = "lxPortService demo_portMachine" and ?w = "([], True) :: bytes \<times> bool"
    obtain ob where ob: "result_of (PortService_prepareRelease ?S 8080) ?w = Inr ob" "ob_value ob = demo_portPlan"
      using demo_port_prepare(1) [of ?w] by auto
    have "snd (world_after (PortService_prepareRelease ?S 8080) ?w)" by (simp add: demo_port_prepare(3))
    then obtain t where "result_of (PortService_terminate ?S demo_portPlan)
        (world_after (PortService_prepareRelease ?S 8080) ?w) = Inr t" "rr_released (ob_value t)"
      using demo_port_terminate by blast
    then show ?thesis
      using ob parsed other
      by (simp add: CliApp_run_def CliApp_dispatch_def jsonRequested_def demo_arguments_def runFreePort_def quiet
          releaseBySignal_def demo_portPlan_def [THEN arg_cong [where f = rp_recommendedUnit]])
  qed
  ultimately show ?thesis
    using lx_free_exit_code [of demo_portMachine demo_portEnv ?args ?a "([], True)"] by simp
qed

end
