(* ===== verification/FollowInterrupt.thy ===== *)
theory FollowInterrupt
  imports FreePort
begin

text \<open>
  Ctrl-C during \<open>lx log --follow\<close>: the signal handler that \<open>InterruptGuard\<close> of \<open>cli/CliApp.cpp\<close> installs, the
  loop of \<open>SystemdJournalProvider::follow\<close> that asks whether it was called, and the way back through
  \<open>CliApp::run\<close>, which puts the former handler and the handle of the journal back.
\<close>

section \<open>Signals and handles\<close>

text \<open>
  What can be said of a world: what the process does on SIGINT, what \<open>InterruptGuard\<close> has kept of it, the
  journal handles that are open, and how often the user will yet be asked in vain: SIGINT may come at any
  time, and \<open>iv_left\<close> bounds the number of further looks at the flag that find it unset.
\<close>

record ('w, 'act, 'j) interrupt_view =
  iv_action :: "'w \<Rightarrow> 'act"
  iv_saved :: "'w \<Rightarrow> 'act"
  iv_open :: "'w \<Rightarrow> 'j multiset"
  iv_left :: "'w \<Rightarrow> nat"

definition undisturbed :: "('w, 'act, 'j) interrupt_view \<Rightarrow> 'w \<Rightarrow> 'w \<Rightarrow> bool" where
  "undisturbed V v w \<longleftrightarrow> iv_action V w = iv_action V v \<and> iv_saved V w = iv_saved V v \<and>
     iv_open V w = iv_open V v \<and> iv_left V w \<le> iv_left V v"

interpretation undisturbed: world_order "undisturbed V" for V :: "('w, 'act, 'j) interrupt_view"
  by unfold_locales (auto simp: undisturbed_def)

text \<open>\<open>sigaction\<close> with the former action kept and put back, and the flag that the handler sets.\<close>

definition guards_interrupts :: "('w, 'act, 'j) interrupt_view \<Rightarrow> 'w Console \<Rightarrow> bool" where
  "guards_interrupts V C \<longleftrightarrow>
     (\<forall>w. iv_action V (world_after (cn_clearInterrupt C) w) = iv_action V w \<and>
        iv_open V (world_after (cn_clearInterrupt C) w) = iv_open V w) \<and>
     (\<forall>w. iv_open V (world_after (cn_sigaction C) w) = iv_open V w \<and>
        (if result_of (cn_sigaction C) w = None then iv_saved V (world_after (cn_sigaction C) w) = iv_action V w
         else iv_action V (world_after (cn_sigaction C) w) = iv_action V w)) \<and>
     (\<forall>w. iv_action V (world_after (cn_restoreAction C) w) = iv_saved V w \<and>
        iv_open V (world_after (cn_restoreAction C) w) = iv_open V w) \<and>
     preserves (undisturbed V) (cn_interruptRequested C) \<and>
     (\<forall>w. \<not> result_of (cn_interruptRequested C) w \<longrightarrow>
        iv_left V (world_after (cn_interruptRequested C) w) < iv_left V w) \<and>
     (\<forall>s. preserves (undisturbed V) (cn_output C s)) \<and> (\<forall>s. preserves (undisturbed V) (cn_error C s)) \<and>
     preserves (undisturbed V) (cn_systemNow C)"

text \<open>The calls of the journal library other than opening and closing a handle.\<close>

definition reads_preserve :: "('w \<Rightarrow> 'w \<Rightarrow> bool) \<Rightarrow> ('w, 'j) SdJournalLib \<Rightarrow> bool" where
  "reads_preserve R J \<longleftrightarrow> (\<forall>j. (\<forall>f. preserves R (sj_getData J j f)) \<and> preserves R (sj_getRealtimeUsec J j) \<and>
     preserves R (sj_getCursor J j))"

definition journal_preserves :: "('w \<Rightarrow> 'w \<Rightarrow> bool) \<Rightarrow> ('w, 'j) SdJournalLib \<Rightarrow> bool" where
  "journal_preserves R J \<longleftrightarrow> reads_preserve R J \<and> (\<forall>j.
     (\<forall>n. preserves R (sj_setDataThreshold J j n)) \<and> (\<forall>m. preserves R (sj_addMatch J j m)) \<and>
     preserves R (sj_seekTail J j) \<and>
     (\<forall>t. preserves R (sj_seekRealtimeUsec J j t)) \<and> (\<forall>c. preserves R (sj_seekCursor J j c)) \<and>
     preserves R (sj_previous J j) \<and> preserves R (sj_next J j) \<and> (\<forall>n. preserves R (sj_wait J j n)))"

definition handles_journals :: "('w, 'act, 'j) interrupt_view \<Rightarrow> ('w, 'j) SdJournalLib \<Rightarrow> bool" where
  "handles_journals V J \<longleftrightarrow> journal_preserves (undisturbed V) J \<and>
     (\<forall>w. iv_action V (world_after (sj_open J) w) = iv_action V w \<and>
        iv_saved V (world_after (sj_open J) w) = iv_saved V w \<and>
        iv_open V (world_after (sj_open J) w) =
          (case result_of (sj_open J) w of Inl _ \<Rightarrow> iv_open V w | Inr j \<Rightarrow> add_mset j (iv_open V w))) \<and>
     (\<forall>j w. iv_action V (world_after (sj_close J j) w) = iv_action V w \<and>
        iv_saved V (world_after (sj_close J j) w) = iv_saved V w \<and>
        iv_open V (world_after (sj_close J j) w) = iv_open V w - {#j#})"

section \<open>Following changes nothing of them\<close>

context world_order
begin

lemma preserves_case_bool:
  "preserves R m \<Longrightarrow> preserves R n \<Longrightarrow> preserves R (case b of True \<Rightarrow> m | False \<Rightarrow> n)"
  by (cases b) simp_all

lemmas follow_intros = preserves_intros preserves_case_bool

lemma preserves_readEntry:
  assumes "reads_preserve R J"
  shows "preserves R (readCurrentEntry J j)"
  unfolding readCurrentEntry_def readFields_def readField_def
  by (intro follow_intros; use assms in \<open>simp add: reads_preserve_def\<close>)

lemma preserves_readCurrentEntry: "journal_preserves R J \<Longrightarrow> preserves R (readCurrentEntry J j)"
  by (simp add: journal_preserves_def preserves_readEntry)

lemma preserves_configureJournal:
  assumes "journal_preserves R J"
  shows "preserves R (configureJournal J j query)"
  unfolding configureJournal_def addOptionalMatch_def addMatch_def
  by (intro follow_intros; use assms in \<open>simp add: journal_preserves_def\<close>)

lemma preserves_readBackwards:
  assumes "journal_preserves R J"
  shows "preserves R (readBackwards J j n reversed)"
proof (induction n arbitrary: reversed)
  case (Suc n)
  show ?case
    unfolding readBackwards.simps
    by (intro follow_intros Suc preserves_readCurrentEntry assms; use assms in \<open>simp add: journal_preserves_def\<close>)
qed (simp add: preserves_return)

lemma preserves_readForwards:
  assumes "journal_preserves R J"
  shows "preserves R (readForwards fuel J j limit window)"
proof (induction fuel arbitrary: window)
  case (Suc fuel)
  show ?case
    unfolding readForwards.simps
    by (intro follow_intros Suc preserves_readCurrentEntry assms; use assms in \<open>simp add: journal_preserves_def\<close>)
qed (simp add: preserves_return)

lemma preserves_queryJournal:
  assumes "journal_preserves R J"
  shows "preserves R (queryJournal fuel J j query)"
  unfolding queryJournal_def queryTail_def querySince_def
  by (intro follow_intros preserves_readBackwards preserves_readForwards assms;
      use assms in \<open>simp add: journal_preserves_def\<close>)

lemma preserves_positionAfterInitial:
  assumes "journal_preserves R J"
  shows "preserves R (positionAfterInitial J j entries)"
  unfolding positionAfterInitial_def
  by (intro follow_intros; use assms in \<open>simp add: journal_preserves_def\<close>)

lemma preserves_emitInitial:
  assumes "\<And>ob. preserves R (sink ob)" and "preserves R stop"
  shows "preserves R (emitInitial entries warnings sink stop)"
proof (induction entries arbitrary: warnings)
  case (Cons e es)
  show ?case unfolding emitInitial.simps by (intro follow_intros assms Cons)
qed (simp add: preserves_return)

lemma preserves_followLoop:
  assumes "journal_preserves R J" and "\<And>ob. preserves R (sink ob)" and "preserves R stop"
  shows "preserves R (followLoop fuel J j sink stop checked)"
proof (induction fuel arbitrary: checked)
  case (Suc fuel)
  have calls: "preserves R (sj_next J j)" "preserves R (sj_wait J j n)" for n
    using assms(1) by (simp_all add: journal_preserves_def)
  show ?case
    by (cases checked; simp only: followLoop.simps; intro follow_intros assms(2,3) calls Suc
        preserves_readCurrentEntry [OF assms(1)])
qed (simp add: preserves_return)

lemma preserves_followJournal:
  assumes "journal_preserves R J" and "\<And>ob. preserves R (sink ob)" and "preserves R stop"
  shows "preserves R (followJournal fuel J j query sink stop)"
  unfolding followJournal_def
  by (intro follow_intros preserves_configureJournal preserves_queryJournal preserves_positionAfterInitial
      preserves_emitInitial preserves_followLoop assms)

end

section \<open>A journal that serves\<close>

text \<open>A library call that only an interrupting signal makes fail.\<close>

definition interrupted_only :: "('w, errno + 'a) io \<Rightarrow> bool" where
  "interrupted_only m \<longleftrightarrow> (\<forall>w n. result_of m w = Inl n \<longrightarrow> n = EINTR)"

text \<open>
  A journal that can be opened and read: apart from interruptions no call fails, fields come with their
  names, times are below the bound the code checks, and the entry of a cursor that was just sought is there.
\<close>

definition journal_serves :: "('w, 'j) SdJournalLib \<Rightarrow> bool" where
  "journal_serves J \<longleftrightarrow> (\<forall>w. \<exists>j. result_of (sj_open J) w = Inr j) \<and> (\<forall>j.
     (\<forall>n. interrupted_only (sj_setDataThreshold J j n)) \<and> (\<forall>m. interrupted_only (sj_addMatch J j m)) \<and>
     (\<forall>f w. case result_of (sj_getData J j f) w of
        Inl n \<Rightarrow> n = ENOENT \<or> n = EINTR | Inr d \<Rightarrow> (\<exists>v. d = Some (f @ ''='' @ v))) \<and>
     interrupted_only (sj_getRealtimeUsec J j) \<and>
     (\<forall>w t. result_of (sj_getRealtimeUsec J j) w = Inr t \<longrightarrow> uint t < 2 ^ 63) \<and>
     interrupted_only (sj_getCursor J j) \<and> interrupted_only (sj_seekTail J j) \<and>
     (\<forall>t. interrupted_only (sj_seekRealtimeUsec J j t)) \<and> (\<forall>c. interrupted_only (sj_seekCursor J j c)) \<and>
     (\<forall>c w. result_of (sj_next J j) (world_after (sj_seekCursor J j c) w) \<noteq> Inr False) \<and>
     interrupted_only (sj_previous J j) \<and> interrupted_only (sj_next J j) \<and>
     (\<forall>n. interrupted_only (sj_wait J j n)))"

lemma journal_servesD:
  assumes "journal_serves J"
  shows "interrupted_only (sj_setDataThreshold J j n)" "interrupted_only (sj_addMatch J j m)"
    "interrupted_only (sj_getRealtimeUsec J j)" "interrupted_only (sj_getCursor J j)"
    "interrupted_only (sj_seekTail J j)" "interrupted_only (sj_seekRealtimeUsec J j t)"
    "interrupted_only (sj_seekCursor J j c)" "interrupted_only (sj_previous J j)"
    "interrupted_only (sj_next J j)" "interrupted_only (sj_wait J j n)"
  using assms by (simp_all add: journal_serves_def)

text \<open>Reading forward catches up with the writers of the journal after at most \<open>N\<close> entries.\<close>

definition catches_up :: "('w \<Rightarrow> nat) \<Rightarrow> nat \<Rightarrow> ('w, 'j) SdJournalLib \<Rightarrow> bool" where
  "catches_up ahead N J \<longleftrightarrow> (\<forall>w. ahead w \<le> N) \<and> reads_preserve (\<lambda>v w. ahead w \<le> ahead v) J \<and>
     (\<forall>j w. result_of (sj_next J j) w = Inr True \<longrightarrow> ahead (world_after (sj_next J j) w) < ahead w)"

interpretation catching_up: world_order "\<lambda>v w. ahead w \<le> ahead v" for ahead :: "'w \<Rightarrow> nat"
  by unfold_locales simp_all

text \<open>Then every step that fails was interrupted.\<close>

definition only_interrupted :: "'a result \<Rightarrow> bool" where
  "only_interrupted r \<longleftrightarrow> (\<forall>e. r = Inl e \<longrightarrow> er_code e = Interrupted)"

lemma only_interrupted_simps [simp]:
  "only_interrupted (Inr x)" "only_interrupted (Inl e) \<longleftrightarrow> er_code e = Interrupted"
  by (simp_all add: only_interrupted_def)

lemma interrupted_onlyD: "interrupted_only m \<Longrightarrow> result_of m w = Inl n \<Longrightarrow> n = EINTR"
  by (simp add: interrupted_only_def)

lemma journalError_interrupted [simp]: "er_code (journalError J EINTR s) = Interrupted"
  by (simp add: journalError_def)

text \<open>Rules for a call of the library, and for a step that only an interruption makes fail, before a case
  distinction on the result.\<close>

lemma yields_call:
  "interrupted_only m \<Longrightarrow> (\<And>x. yields P (f x)) \<Longrightarrow> yields P (g EINTR) \<Longrightarrow>
   yields P (State_Monad.bind m (\<lambda>r. case r of Inl n \<Rightarrow> g n | Inr x \<Rightarrow> f x))"
  "interrupted_only m \<Longrightarrow> (\<And>x. P (b x)) \<Longrightarrow> P (a EINTR) \<Longrightarrow>
   yields P (State_Monad.bind m (\<lambda>r. return (case r of Inl n \<Rightarrow> a n | Inr x \<Rightarrow> b x)))"
  by (auto simp: yields_def interrupted_only_def split: sum.split)

lemma yields_step:
  "yields only_interrupted m \<Longrightarrow> (\<And>x. yields P (f x)) \<Longrightarrow>
   (\<And>e. er_code e = Interrupted \<Longrightarrow> yields P (g e)) \<Longrightarrow>
   yields P (State_Monad.bind m (\<lambda>r. case r of Inl e \<Rightarrow> g e | Inr x \<Rightarrow> f x))"
  "yields only_interrupted m \<Longrightarrow> (\<And>x. P (b x)) \<Longrightarrow> (\<And>e. er_code e = Interrupted \<Longrightarrow> P (a e)) \<Longrightarrow>
   yields P (State_Monad.bind m (\<lambda>r. return (case r of Inl e \<Rightarrow> a e | Inr x \<Rightarrow> b x)))"
  by (auto simp: yields_def only_interrupted_def split: sum.split)

lemmas interrupt_intros = yields_call yields_step yields_return yields_if yields_case_option

lemma configureJournal_interrupted:
  assumes "journal_serves J" and "lq_limit query \<noteq> 0"
  shows "yields only_interrupted (configureJournal J j query)"
  unfolding configureJournal_def addOptionalMatch_def addMatch_def
  by (intro interrupt_intros journal_servesD [OF assms(1)]) (simp_all add: assms(2))

lemma readField_interrupted:
  assumes "journal_serves J"
  shows "yields only_interrupted (readField J j f)"
proof -
  have "only_interrupted (result_of (readField J j f) w)" for w
  proof -
    have "case result_of (sj_getData J j f) w of
        Inl n \<Rightarrow> n = ENOENT \<or> n = EINTR | Inr d \<Rightarrow> (\<exists>v. d = Some (f @ ''='' @ v))"
      using assms unfolding journal_serves_def by blast
    then show ?thesis
      by (cases "result_of (sj_getData J j f) w")
         (auto simp: readField_def journalError_def journalFieldValue_roundtrip [simplified])
  qed
  then show ?thesis by (simp add: yields_def)
qed

lemma readCurrentEntry_interrupted:
  assumes "journal_serves J"
  shows "yields only_interrupted (readCurrentEntry J j)"
proof -
  have fields: "yields only_interrupted (readFields J j u c)" for u c
    using readField_interrupted [OF assms]
    by (auto simp: readFields_def yields_def only_interrupted_def split: sum.split)
  have range: "\<not> 2 ^ 63 - 1 < uint t" if "result_of (sj_getRealtimeUsec J j) w = Inr t" for t w
    using assms that unfolding journal_serves_def by fastforce
  show ?thesis
    unfolding readCurrentEntry_def
  proof (rule yields_bind_result)
    fix s
    let ?rest = "\<lambda>usec. do {
      cursor \<leftarrow> sj_getCursor J j;
      case cursor of
        Inl e \<Rightarrow> return (failure (journalError J e ''read cursor''))
      | Inr c \<Rightarrow> do {
          fields \<leftarrow> readFields J j usec (case c of None \<Rightarrow> [] | Some x \<Rightarrow> x);
          return (case fields of
            Inl e \<Rightarrow> failure e
          | Inr f \<Rightarrow> success (noteEmptyMessage (journalEntryFromFields f)))
        }
    }"
    have "yields only_interrupted (?rest usec)" for usec
      by (intro interrupt_intros journal_servesD [OF assms] fields) simp_all
    then show "yields only_interrupted (case result_of (sj_getRealtimeUsec J j) s of
        Inl e \<Rightarrow> return (failure (journalError J e ''read timestamp''))
      | Inr usec \<Rightarrow>
          if 2 ^ 63 - 1 < uint usec
          then return (failure (mkError ParseError ''Journal timestamp is out of range'' 0
                 ''sd-journal'' ''read timestamp''))
          else ?rest usec)"
      using range [of s]
      by (cases "result_of (sj_getRealtimeUsec J j) s")
         (auto dest!: interrupted_onlyD [OF journal_servesD(3) [OF assms]] intro!: yields_return)
  qed
qed

lemma readBackwards_interrupted:
  assumes "journal_serves J"
  shows "yields only_interrupted (readBackwards J j n reversed)"
proof (induction n arbitrary: reversed)
  case (Suc n)
  have case_bool: "yields P (case b of True \<Rightarrow> m | False \<Rightarrow> m')" if "yields P m" "yields P m'"
    for P and m m' :: "('a, 'd) io" and b
    using that by (cases b) simp_all
  show ?case
    unfolding readBackwards.simps
    by (intro interrupt_intros case_bool journal_servesD [OF assms] readCurrentEntry_interrupted [OF assms] Suc) simp_all
qed (simp add: yields_return)

text \<open>The first query returns, and fails only if it was interrupted.\<close>

definition returns_interrupted :: "'a result option \<Rightarrow> bool" where
  "returns_interrupted r \<longleftrightarrow> (\<exists>x. r = Some x \<and> only_interrupted x)"

lemma returns_interrupted_simps [simp]:
  "returns_interrupted (Some x) \<longleftrightarrow> only_interrupted x" "\<not> returns_interrupted None"
  by (simp_all add: returns_interrupted_def)

lemma returns_interrupted_map:
  "returns_interrupted r \<Longrightarrow>
   returns_interrupted (map_option (\<lambda>r. case r of Inl e \<Rightarrow> failure e | Inr x \<Rightarrow> success (f x)) r)"
  by (cases r) (auto split: sum.split)

lemma readForwards_returns:
  assumes serves: "journal_serves J" and ends: "catches_up ahead N J"
  shows "ahead w < fuel \<Longrightarrow> returns_interrupted (result_of (readForwards fuel J j limit window) w)"
proof (induction fuel arbitrary: w window)
  case (Suc fuel)
  let ?w1 = "world_after (sj_next J j) w" and ?w2 = "world_after (readCurrentEntry J j) (world_after (sj_next J j) w)"
  have "ahead ?w2 \<le> ahead ?w1"
    using catching_up.preserves_readEntry [of ahead J j] ends by (simp add: catches_up_def preserves_def)
  moreover have "ahead ?w1 < ahead w" if "result_of (sj_next J j) w = Inr True"
    using ends that by (simp add: catches_up_def)
  ultimately have "returns_interrupted (result_of (readForwards fuel J j limit window') ?w2)"
    if "result_of (sj_next J j) w = Inr True" for window'
    using that Suc.prems by (intro Suc.IH) force
  moreover have "only_interrupted (result_of (readCurrentEntry J j) ?w1)"
    using readCurrentEntry_interrupted [OF serves] by (simp add: yields_def)
  ultimately show ?case
    by (auto simp: returns_interrupted_def only_interrupted_def split: sum.split bool.split
        dest!: interrupted_onlyD [OF journal_servesD(9) [OF serves]])
qed simp

lemma queryJournal_returns:
  assumes serves: "journal_serves J" and ends: "catches_up ahead N J" and fuel: "N < fuel"
    and since: "\<forall>s. lq_since query = Some s \<longrightarrow> 0 \<le> s"
  shows "returns_interrupted (result_of (queryJournal fuel J j query) w)"
proof (cases "lq_since query")
  case None
  have "yields only_interrupted (queryTail J j (lq_limit query))"
    unfolding queryTail_def
    by (intro interrupt_intros journal_servesD [OF serves] readBackwards_interrupted [OF serves]) simp_all
  then show ?thesis using None by (simp add: queryJournal_def yields_def returns_interrupted_def)
next
  case (Some s)
  have "ahead v < fuel" for v using ends fuel by (auto simp: catches_up_def intro: le_less_trans)
  then have window: "returns_interrupted (result_of (readForwards fuel J j limit []) v)" for limit v
    by (rule readForwards_returns [OF serves ends])
  have "\<not> toMicroseconds s < 0"
    using since Some by (simp add: toMicroseconds_def)
  then show ?thesis
    using Some window
    by (auto simp: queryJournal_def querySince_def intro: returns_interrupted_map split: sum.split
        dest!: interrupted_onlyD [OF journal_servesD(6) [OF serves]])
qed

text \<open>The position after the first entries, and handing them to a sink that accepts all of them.\<close>

lemma positionAfterInitial_interrupted:
  assumes serves: "journal_serves J"
  shows "yields only_interrupted (positionAfterInitial J j entries)"
proof -
  have "result_of (sj_next J j) (world_after (sj_seekCursor J j c) w) \<noteq> Inr False" for c w
    using serves by (simp add: journal_serves_def)
  then show ?thesis
    unfolding positionAfterInitial_def yields_def
    by (auto split: sum.split bool.split dest!: interrupted_onlyD [OF journal_servesD(5) [OF serves]]
        interrupted_onlyD [OF journal_servesD(7) [OF serves]] interrupted_onlyD [OF journal_servesD(9) [OF serves]])
qed

definition accepts_all :: "'w JournalEntrySink \<Rightarrow> bool" where
  "accepts_all sink \<longleftrightarrow> (\<forall>ob w. result_of (sink ob) w = Inr ())"

lemma emitInitial_interrupted:
  "accepts_all sink \<Longrightarrow> yields only_interrupted (emitInitial entries warnings sink stop)"
proof (induction entries arbitrary: warnings)
  case (Cons e es)
  then show ?case
    by (auto simp: yields_def accepts_all_def follow_interrupted_def)
qed (simp add: yields_return)

section \<open>Following ends\<close>

definition ends_interrupted :: "unit result option \<Rightarrow> bool" where
  "ends_interrupted r \<longleftrightarrow> (\<exists>e. r = Some (Inl e) \<and> er_code e = Interrupted)"

lemma ends_interrupted_simps [simp]:
  "ends_interrupted (Some (Inl e)) \<longleftrightarrow> er_code e = Interrupted" "ends_interrupted (Some follow_interrupted)"
  by (simp_all add: ends_interrupted_def follow_interrupted_def)

text \<open>The flag is looked at once in a round or in two; so two rounds for every look that is left, one more
  to look, and another where the loop begins with an entry.\<close>

lemma followLoop_ends:
  assumes serves: "journal_serves J" and keeps: "journal_preserves (undisturbed V) J"
    and sink: "accepts_all sink" "\<And>ob. preserves (undisturbed V) (sink ob)"
    and stop: "preserves (undisturbed V) stop"
      "\<And>w. \<not> result_of stop w \<Longrightarrow> iv_left V (world_after stop w) < iv_left V w"
  shows "2 * iv_left V w + (if checked then 2 else 1) \<le> fuel \<Longrightarrow>
    ends_interrupted (result_of (followLoop fuel J j sink stop checked) w)"
proof (induction fuel arbitrary: w checked)
  case (Suc fuel)
  have calls: "preserves (undisturbed V) (sj_next J j)" "\<And>n. preserves (undisturbed V) (sj_wait J j n)"
      "preserves (undisturbed V) (readCurrentEntry J j)"
    using keeps undisturbed.preserves_readCurrentEntry [OF keeps] by (simp_all add: journal_preserves_def)
  have left: "iv_left V (world_after m v) \<le> iv_left V v" if "preserves (undisturbed V) m" for v and m :: "('a, 'x) io"
    using that by (simp add: preserves_def undisturbed_def)
  show ?case
  proof (cases checked)
    case False
    then show ?thesis
      using Suc.prems Suc.IH [of "world_after stop w" True] stop(2) [of w] by auto
  next
    case True
    let ?w1 = "world_after (sj_next J j) w"
    let ?w2 = "world_after (readCurrentEntry J j) ?w1"
    have w1: "iv_left V ?w1 \<le> iv_left V w" using left [OF calls(1)] .
    have entry: "ends_interrupted (result_of (do {
        stopped \<leftarrow> stop;
        if stopped then return (Some follow_interrupted) else followLoop fuel J j sink stop True
      }) (world_after (sink ob) ?w2))" for ob
    proof -
      let ?w3 = "world_after (sink ob) ?w2"
      have "iv_left V ?w3 \<le> iv_left V w"
        using left [OF sink(2), of ob ?w2] left [OF calls(3), of ?w1] w1 by linarith
      then show ?thesis
        using stop(2) [of ?w3] Suc.prems True Suc.IH [of "world_after stop ?w3" True] by auto
    qed
    have waited: "ends_interrupted (result_of (followLoop fuel J j sink stop False) (world_after (sj_wait J j n) ?w1))"
      for n
      using left [OF calls(2), of n ?w1] w1 Suc.prems True by (intro Suc.IH) simp
    have "only_interrupted (result_of (readCurrentEntry J j) ?w1)"
      using readCurrentEntry_interrupted [OF serves] by (simp add: yields_def)
    then show ?thesis
      using True sink(1) entry waited
      by (auto simp: accepts_all_def only_interrupted_def split: sum.split bool.split
          dest!: interrupted_onlyD [OF journal_servesD(9) [OF serves]]
            interrupted_onlyD [OF journal_servesD(10) [OF serves]])
  qed
qed (simp split: if_split_asm)

text \<open>What the loop needs: a bound \<open>L\<close> on the looks at the flag, \<open>N\<close> on the entries of the first query.\<close>

definition enough_rounds :: "nat \<Rightarrow> nat \<Rightarrow> nat \<Rightarrow> bool" where
  "enough_rounds L N fuel \<longleftrightarrow> 2 * L + 1 \<le> fuel \<and> N < fuel"

lemma yields_returned:
  assumes "\<And>w. returns_interrupted (result_of m w)" and "\<And>x. yields P (f x)"
    and "\<And>e. er_code e = Interrupted \<Longrightarrow> yields P (g e)"
  shows "yields P (State_Monad.bind m (\<lambda>r. case r of
    None \<Rightarrow> n | Some r' \<Rightarrow> (case r' of Inl e \<Rightarrow> g e | Inr x \<Rightarrow> f x)))"
proof (rule yields_bind_result)
  fix w
  obtain x where "result_of m w = Some x" "only_interrupted x"
    using assms(1) [of w] by (auto simp: returns_interrupted_def)
  then show "yields P (case result_of m w of
      None \<Rightarrow> n | Some r' \<Rightarrow> (case r' of Inl e \<Rightarrow> g e | Inr x \<Rightarrow> f x))"
    using assms(2,3) by (cases x) simp_all
qed

lemma followJournal_ends:
  assumes serves: "journal_serves J" and keeps: "journal_preserves (undisturbed V) J"
    and sink: "accepts_all sink" "\<And>ob. preserves (undisturbed V) (sink ob)"
    and stop: "preserves (undisturbed V) stop"
      "\<And>w. \<not> result_of stop w \<Longrightarrow> iv_left V (world_after stop w) < iv_left V w"
    and ends: "catches_up ahead N J" and left: "\<And>w. iv_left V w \<le> L" and fuel: "enough_rounds L N fuel"
    and query: "lq_limit query \<noteq> 0" "\<forall>s. lq_since query = Some s \<longrightarrow> 0 \<le> s"
  shows "yields ends_interrupted (followJournal fuel J j query sink stop)"
proof -
  have loop: "yields ends_interrupted (followLoop fuel J j sink stop False)"
    unfolding yields_def
  proof
    fix w
    have "2 * iv_left V w + 1 \<le> fuel" using left [of w] fuel by (simp add: enough_rounds_def)
    then show "ends_interrupted (result_of (followLoop fuel J j sink stop False) w)"
      by (intro followLoop_ends [OF serves keeps sink stop(1)]) (auto dest: stop(2))
  qed
  define rest where "rest = (\<lambda>ob :: JournalEntry list Observation. do {
    positioned \<leftarrow> positionAfterInitial J j (ob_value ob);
    case positioned of
      Inl e \<Rightarrow> return (Some (failure e))
    | Inr _ \<Rightarrow> do {
        emitted \<leftarrow> emitInitial (ob_value ob) (ob_warnings ob) sink stop;
        case emitted of
          Inl e \<Rightarrow> return (Some (failure e))
        | Inr _ \<Rightarrow> followLoop fuel J j sink stop False
      }
  })"
  have rest: "yields ends_interrupted (rest ob)" for ob
    unfolding rest_def
    by (intro interrupt_intros loop positionAfterInitial_interrupted [OF serves] emitInitial_interrupted [OF sink(1)])
       simp_all
  have returned: "returns_interrupted (result_of (queryJournal fuel J j query) w)" for w
    using fuel by (intro queryJournal_returns [OF serves ends _ query(2)]) (simp add: enough_rounds_def)
  have "yields ends_interrupted (do {
      initial \<leftarrow> queryJournal fuel J j query;
      case initial of
        None \<Rightarrow> return None
      | Some (Inl e) \<Rightarrow> return (Some (failure e))
      | Some (Inr ob) \<Rightarrow> rest ob
    })"
    by (rule yields_returned [OF returned rest]) (simp add: yields_return)
  then show ?thesis
    unfolding followJournal_def rest_def
    by (intro interrupt_intros configureJournal_interrupted [OF serves query(1)]) simp_all
qed

section \<open>The provider\<close>

text \<open>On every path the handle that was opened is closed, and SIGINT does what it did.\<close>

definition leaves :: "('w, 'act, 'j) interrupt_view \<Rightarrow> ('w, 'a) io \<Rightarrow> bool" where
  "leaves V m \<longleftrightarrow> (\<forall>w. iv_action V (world_after m w) = iv_action V w \<and> iv_open V (world_after m w) = iv_open V w \<and>
     iv_saved V (world_after m w) = iv_saved V w)"

lemma leaves_undisturbed: "preserves (undisturbed V) m \<Longrightarrow> leaves V m"
  by (simp add: leaves_def preserves_def undisturbed_def)

lemma leaves_return: "leaves V (return x)"
  by (simp add: leaves_def)

lemma leaves_bind: "leaves V m \<Longrightarrow> (\<And>x. leaves V (f x)) \<Longrightarrow> leaves V (State_Monad.bind m f)"
  by (simp add: leaves_def)

lemma follow_leaves:
  assumes "handles_journals V J" and "\<And>ob. preserves (undisturbed V) (sink ob)" and "preserves (undisturbed V) stop"
  shows "leaves V (SystemdJournalProvider_follow fuel J query sink stop)"
proof -
  have inner: "leaves V (followJournal fuel J j query sink stop)" for j
    using assms by (intro leaves_undisturbed undisturbed.preserves_followJournal) (simp_all add: handles_journals_def)
  then show ?thesis
    using assms(1)
    by (auto simp: SystemdJournalProvider_follow_def openLocal_def handles_journals_def leaves_def split: sum.split)
qed

lemma follow_ends:
  assumes serves: "journal_serves J" and handles: "handles_journals V J"
    and sink: "accepts_all sink" "\<And>ob. preserves (undisturbed V) (sink ob)"
    and stop: "preserves (undisturbed V) stop"
      "\<And>w. \<not> result_of stop w \<Longrightarrow> iv_left V (world_after stop w) < iv_left V w"
    and ends: "catches_up ahead N J" and left: "\<And>w. iv_left V w \<le> L" and fuel: "enough_rounds L N fuel"
    and query: "lq_limit query \<noteq> 0" "\<forall>s. lq_since query = Some s \<longrightarrow> 0 \<le> s"
  shows "ends_interrupted (result_of (SystemdJournalProvider_follow fuel J query sink stop) w)"
proof -
  have "yields ends_interrupted (followJournal fuel J j query sink stop)" for j
    by (rule followJournal_ends [OF serves _ sink stop(1) _ ends left fuel query])
       (use handles stop(2) in \<open>simp_all add: handles_journals_def\<close>)
  moreover obtain j where "result_of (sj_open J) w = Inr j"
    using serves unfolding journal_serves_def by blast
  ultimately show ?thesis
    by (simp add: SystemdJournalProvider_follow_def openLocal_def yields_def)
qed

section \<open>The command\<close>

lemma guards_interruptsD:
  assumes "guards_interrupts V C"
  shows "preserves (undisturbed V) (cn_interruptRequested C)"
    "\<not> result_of (cn_interruptRequested C) w \<Longrightarrow>
       iv_left V (world_after (cn_interruptRequested C) w) < iv_left V w"
    "preserves (undisturbed V) (cn_output C s)" "preserves (undisturbed V) (cn_error C s)"
    "preserves (undisturbed V) (cn_systemNow C)"
  using assms by (simp_all add: guards_interrupts_def)

lemma writes_undisturbed:
  assumes "guards_interrupts V (en_console (cr_env R))"
  shows "preserves (undisturbed V) (writeOutput R s)" "preserves (undisturbed V) (writeError R s)"
    "preserves (undisturbed V) (writeDiagnostics R s)" "preserves (undisturbed V) (cli_fail R c operation e)"
    "preserves (undisturbed V) (followSink R ob)"
  unfolding writeOutput_def writeError_def writeDiagnostics_def cli_fail_def writeJson_def followSink_def
    writeBoth_def Let_def
  by (intro undisturbed.preserves_intros guards_interruptsD [OF assms])+

lemma followSink_accepts:
  "writes_all (en_dump (cr_env R)) \<Longrightarrow> accepts_all (followSink R)"
  by (auto simp: accepts_all_def followSink_def writes_all_def JsonSerializer_logEvent_def split: option.split)

text \<open>What \<open>log --follow\<close> does with a valid query, over the adapter the program has.\<close>

lemma LogService_follow_leaves:
  assumes "handles_journals V (mc_journal M)" and "\<And>ob. preserves (undisturbed V) (sink ob)"
    and "preserves (undisturbed V) stop"
  shows "leaves V (LogService_follow (lxLogService M) query sink stop)"
  using follow_leaves [OF assms]
  by (auto simp: LogService_follow_def lxLogService_def lxJournalProvider_def SystemdJournalProvider_def
      UnavailableJournalProvider_def leaves_return split: sum.split intro!: leaves_bind)

lemma runFollow_restores:
  assumes guards: "guards_interrupts V (en_console (cr_env R))" and handles: "handles_journals V (mc_journal M)"
  shows "iv_action V (world_after (runFollow R (lxApp M) query) w) = iv_action V w \<and>
    iv_open V (world_after (runFollow R (lxApp M) query) w) = iv_open V w"
proof -
  let ?C = "en_console (cr_env R)"
  have follow: "leaves V (LogService_follow (lxLogService M) query (followSink R) (InterruptGuard_requested ?C))"
    unfolding InterruptGuard_requested_def
    by (intro LogService_follow_leaves handles writes_undisturbed guards guards_interruptsD(1) [OF guards])
  have "leaves V (do {
      followed \<leftarrow> LogService_follow (lxLogService M) query (followSink R) (InterruptGuard_requested ?C);
      case followed of
        Inr _ \<Rightarrow> return (Exits 0)
      | Inl e \<Rightarrow>
          (if e = sinkThrew then return Throws
           else if er_code e = Interrupted then return (Exits 130)
           else cli_fail R ''log'' ''follow'' e)
    })"
    by (intro leaves_bind follow)
       (auto intro!: leaves_return leaves_undisturbed writes_undisturbed guards split: sum.split)
  then show ?thesis
    using guards writes_undisturbed(4) [OF guards, THEN leaves_undisturbed]
    by (auto simp: runFollow_def Let_def InterruptGuard_install_def InterruptGuard_destroy_def leaves_def
        guards_interrupts_def split: option.split)
qed

text \<open>The user interrupts within \<open>L\<close> looks at the flag, on a machine whose journal serves.\<close>

definition interrupted_within ::
  "('w, 'act, 'j) interrupt_view \<Rightarrow> ('w \<Rightarrow> nat) \<Rightarrow> nat \<Rightarrow> nat \<Rightarrow> ('w, 'bus, 'msg, 'j) Machine \<Rightarrow> 'w CliEnv \<Rightarrow> bool" where
  "interrupted_within V ahead L N M E \<longleftrightarrow>
     mc_hasSystemd M \<and> journal_serves (mc_journal M) \<and> catches_up ahead N (mc_journal M) \<and>
     (\<forall>w. iv_left V w \<le> L) \<and> enough_rounds L N (mc_followRounds M) \<and>
     (\<forall>w. result_of (cn_sigaction (en_console E)) w = None) \<and> writes_all (en_dump E)"

lemma sinkThrew_code: "er_code sinkThrew \<noteq> Interrupted"
  by (simp add: sinkThrew_def)

lemma runFollow_interrupted:
  assumes guards: "guards_interrupts V (en_console (cr_env R))" and handles: "handles_journals V (mc_journal M)"
    and within: "interrupted_within V ahead L N M (cr_env R)"
    and query: "LogService_normalize query = Inr q" "\<forall>s. lq_since query = Some s \<longrightarrow> 0 \<le> s"
  shows "result_of (runFollow R (lxApp M) query) w = Exits 130"
proof -
  let ?C = "en_console (cr_env R)" and ?q = "q\<lparr>lq_follow := True\<rparr>"
  have q: "lq_limit ?q \<noteq> 0" "\<forall>s. lq_since ?q = Some s \<longrightarrow> 0 \<le> s"
    using query by (auto simp: LogService_normalize_def invalid_log_def split: if_split_asm option.split_asm sum.split_asm)
  have ends: "ends_interrupted (result_of (SystemdJournalProvider_follow (mc_followRounds M) (mc_journal M) ?q
      (followSink R) (cn_interruptRequested ?C)) v)" for v
    by (rule follow_ends [OF _ handles _ _ guards_interruptsD(1) [OF guards] _ _ _ _ q, where ahead = ahead and L = L and N = N])
       (use within in \<open>simp_all add: interrupted_within_def followSink_accepts writes_undisturbed [OF guards]
          guards_interruptsD(2) [OF guards]\<close>)
  have "\<exists>e. result_of (LogService_follow (lxLogService M) query (followSink R) (cn_interruptRequested ?C)) v = Inl e \<and>
      er_code e = Interrupted" for v
  proof -
    from ends [of v] obtain e where "result_of (SystemdJournalProvider_follow (mc_followRounds M) (mc_journal M) ?q
        (followSink R) (cn_interruptRequested ?C)) v = Some (Inl e)" "er_code e = Interrupted"
      by (auto simp: ends_interrupted_def)
    then show ?thesis
      using query(1) within
      by (simp add: LogService_follow_def lxLogService_def lxJournalProvider_def SystemdJournalProvider_def
          interrupted_within_def)
  qed
  then obtain e where "result_of (LogService_follow (lxLogService M) query (followSink R) (cn_interruptRequested ?C)) v =
      Inl (e v) \<and> er_code (e v) = Interrupted" for v
    by metis
  moreover from this have "e v \<noteq> sinkThrew" for v by (metis sinkThrew_code)
  ultimately show ?thesis
    using within
    by (simp add: runFollow_def Let_def InterruptGuard_install_def InterruptGuard_requested_def
        interrupted_within_def)
qed

text \<open>The command line asks for it, and for something that can be asked for.\<close>

definition follow_command :: "ParsedArguments \<Rightarrow> bool" where
  "follow_command a \<longleftrightarrow> pa_log a \<and> pa_followLog a \<and> \<not> (pa_tui a \<or> pa_doctor a \<or> pa_status a \<or> pa_inspect a \<or>
     pa_find a \<or> pa_process a \<or> pa_stopProcess a \<or> pa_killProcess a \<or> pa_freePort a \<or> pa_service a)"

definition valid_log_arguments :: "'w CliEnv \<Rightarrow> ParsedArguments \<Rightarrow> bool" where
  "valid_log_arguments E a \<longleftrightarrow> checkedArguments a \<and> (pa_logUnit a \<noteq> None \<or> pa_logPid a \<noteq> None) \<and>
     (\<forall>u. pa_logUnit a = Some u \<longrightarrow> (\<exists>n. ServiceService_normalizeUnit u = Inr n)) \<and>
     (\<forall>t w. pa_logSince a = Some t \<longrightarrow> (\<exists>s. 0 \<le> s \<and>
        LogService_parseSince (en_timeZone E) t (result_of (cn_systemNow (en_console E)) w) = Some (Inr s)))"

lemma valid_query:
  assumes "valid_log_arguments E a"
  shows "\<exists>q. LogService_normalize (default_LogQuery\<lparr>lq_unit := pa_logUnit a, lq_pid := pa_logPid a,
    lq_limit := unat (pa_logLines a), lq_since := since\<rparr>) = Inr q"
proof -
  have lines: "0 < unat (pa_logLines a)" "unat (pa_logLines a) \<le> 10000"
    using assms by (simp_all add: valid_log_arguments_def checkedArguments_def word_le_nat_alt)
  have pid: "0 < p" if "pa_logPid a = Some p" for p
    using assms that by (simp add: valid_log_arguments_def checkedArguments_def checkedPid_def)
  have unit: "\<exists>n. ServiceService_normalizeUnit u = Inr n" if "pa_logUnit a = Some u" for u
    using assms that by (simp add: valid_log_arguments_def)
  have asked: "pa_logUnit a \<noteq> None \<or> pa_logPid a \<noteq> None"
    using assms by (simp add: valid_log_arguments_def)
  show ?thesis
    using lines pid unit asked
    by (cases "pa_logUnit a"; cases "pa_logPid a") (fastforce simp: LogService_normalize_def)+
qed


text \<open>
  A machine with an empty journal. Its world: the action on SIGINT and the one kept, the open handles, how
  often the flag is yet found unset, and whether a cursor was just sought. The wait for entries is
  interrupted when the flag is set.
\<close>

type_synonym demo_follow = "nat \<times> nat \<times> unit multiset \<times> nat \<times> bool"

definition demo_followView :: "(demo_follow, nat, unit) interrupt_view" where
  "demo_followView = \<lparr>iv_action = fst, iv_saved = (\<lambda>w. fst (snd w)), iv_open = (\<lambda>w. fst (snd (snd w))),
     iv_left = (\<lambda>w. min 5 (fst (snd (snd (snd w)))))\<rparr>"

definition demo_followConsole :: "demo_follow Console" where
  "demo_followConsole =
     \<lparr>cn_output = (\<lambda>s. return ()), cn_error = (\<lambda>s. return ()), cn_getline = return None,
      cn_clearInterrupt = return (),
      cn_sigaction = State (\<lambda>(act, saved, handles, n, b). (None, (1, act, handles, n, b))),
      cn_restoreAction = State (\<lambda>(act, saved, handles, n, b). ((), (saved, saved, handles, n, b))),
      cn_interruptRequested = State (\<lambda>(act, saved, handles, n, b).
        (n = 0, (act, saved, handles, min 5 n - 1, b))),
      cn_systemNow = return 0, cn_strerror = (\<lambda>n. [])\<rparr>"

definition demo_followJournal :: "(demo_follow, unit) SdJournalLib" where
  "demo_followJournal =
     \<lparr>sj_open = State (\<lambda>(act, saved, handles, n, b). (Inr (), (act, saved, add_mset () handles, n, b))),
      sj_close = (\<lambda>j. State (\<lambda>(act, saved, handles, n, b). ((), (act, saved, handles - {#()#}, n, b)))),
      sj_setDataThreshold = (\<lambda>j n. return (Inr ())), sj_addMatch = (\<lambda>j m. return (Inr ())),
      sj_getData = (\<lambda>j f. return (Inl ENOENT)), sj_getRealtimeUsec = (\<lambda>j. return (Inr 0)),
      sj_getCursor = (\<lambda>j. return (Inr None)), sj_seekTail = (\<lambda>j. return (Inr ())),
      sj_seekRealtimeUsec = (\<lambda>j t. return (Inr ())),
      sj_seekCursor = (\<lambda>j c. State (\<lambda>(act, saved, handles, n, b). (Inr (), (act, saved, handles, n, True)))),
      sj_previous = (\<lambda>j. return (Inr False)),
      sj_next = (\<lambda>j. State (\<lambda>(act, saved, handles, n, b). (Inr b, (act, saved, handles, n, False)))),
      sj_wait = (\<lambda>j t. State (\<lambda>(act, saved, handles, n, b).
        (if n = 0 then Inl EINTR else Inr (), (act, saved, handles, n, b)))),
      sj_strerror = (\<lambda>n. [])\<rparr>"

definition demo_followMachine :: "(demo_follow, unit, unit, unit) Machine" where
  "demo_followMachine =
     \<lparr>mc_os =
        \<lparr>os_read = (\<lambda>path. return (OpenFailed ENOENT)), os_readlink = (\<lambda>path. return (Inl ENOENT)),
         os_directory = (\<lambda>path. return (Inl ENOENT)), os_getpwuid = (\<lambda>uid n. return (0, None)),
         os_getpwSize = 1024, os_gethostname = return (Inl EIO), os_strerror = (\<lambda>n. [])\<rparr>,
      mc_signals =
        \<lparr>sg_pidfdOpen = (\<lambda>p. return (Inl ESRCH)), sg_pidfdSend = (\<lambda>fd n. return (Inl ESRCH)),
         sg_poll = (\<lambda>fd timeout. return (Inr 1)), sg_close = (\<lambda>fd. return ()),
         sg_kill = (\<lambda>p n. return (Inl ESRCH)), sg_waitid = (\<lambda>p. return False),
         sg_clock = \<lparr>ck_steadyNow = return 0, ck_systemNow = return 0, ck_sleep = (\<lambda>d. return ())\<rparr>,
         sg_getpid = 9, sg_havePidFdOpen = True, sg_havePidFdSend = True, sg_strerror = (\<lambda>_. [])\<rparr>,
      mc_netlink =
        \<lparr>nk_socket = return (Inl EACCES), nk_sendto = (\<lambda>fd b. return (Inl EIO)),
         nk_recv = (\<lambda>fd n. return (Inl EIO)), nk_close = (\<lambda>fd. return ()), nk_errno = return 0,
         nk_libc = demo_libc, nk_arrange = (\<lambda>sockets. sockets)\<rparr>,
      mc_bus = demo_noBus, mc_journal = demo_followJournal,
      mc_clock = \<lparr>ck_steadyNow = return 0, ck_systemNow = return 0, ck_sleep = (\<lambda>d. return ())\<rparr>,
      mc_fromChars = (\<lambda>s. \<lparr>dp_ec = ErrcInvalidArgument, dp_ptr = 0, dp_value = None\<rparr>), mc_round = (\<lambda>x. x),
      mc_hashOrder = (\<lambda>ps. ps), mc_getpid = 9, mc_fuel = 11, mc_followRounds = 11, mc_hasSystemd = True, mc_hasTui = False,
      mc_tuiLoop = (\<lambda>D S. return (Inr ()))\<rparr>"

definition demo_followArguments :: ParsedArguments where
  "demo_followArguments = demo_arguments\<lparr>pa_log := True, pa_logPid := Some 42, pa_followLog := True\<rparr>"

definition demo_followEnv :: "demo_follow CliEnv" where
  "demo_followEnv =
     \<lparr>en_console = demo_followConsole, en_formats = demo_Formats, en_dump = (\<lambda>j. Some []),
      en_timeZone = demo_LocalTime, en_parse = (\<lambda>args. Inr demo_followArguments), en_noColor = None,
      en_pollRounds = 122\<rparr>"

lemma demo_follow_guards: "guards_interrupts demo_followView demo_followConsole"
  by (auto simp: guards_interrupts_def demo_followView_def demo_followConsole_def preserves_def undisturbed_def)

lemma demo_follow_journal:
  "handles_journals demo_followView demo_followJournal" "journal_serves demo_followJournal"
  "catches_up (\<lambda>w. if snd (snd (snd (snd w))) then 1 else 0) 1 demo_followJournal"
  by (auto simp: handles_journals_def journal_preserves_def reads_preserve_def demo_followView_def
      demo_followJournal_def preserves_def undisturbed_def journal_serves_def interrupted_only_def catches_up_def)


end
