(* ===== verification/Rounds.thy ===== *)
theory Rounds
  imports Netlink LinuxSignal SystemdService SystemdJournal
begin

text \<open>
  More fuel changes nothing: where the kernel and the libraries let every loop of the adapters end within the
  fuel given, the providers are the same for every larger amount. So what is proved of a program built from
  them does not depend on the number of rounds, and the value that stands for a call that has not returned
  never comes up.
\<close>

section \<open>A bounded loop that has its result\<close>

text \<open>\<open>settles m m'\<close>: where \<open>m\<close> ends before its fuel runs out, \<open>m'\<close> ends with the same result in the same
  world.\<close>

definition settles :: "('w, 'a option) io \<Rightarrow> ('w, 'a option) io \<Rightarrow> bool" where
  "settles m m' \<longleftrightarrow>
     (\<forall>w. result_of m w \<noteq> None \<longrightarrow> result_of m' w = result_of m w \<and> world_after m' w = world_after m w)"

named_theorems settle_intros

lemma settles_refl [settle_intros]: "settles m m"
  by (simp add: settles_def)

lemma settles_None [settle_intros]: "settles (return None) m"
  by (simp add: settles_def)

lemma settles_bind [settle_intros]:
  "(\<And>x. settles (f x) (g x)) \<Longrightarrow> settles (State_Monad.bind m f) (State_Monad.bind m g)"
  by (simp add: settles_def)

text \<open>A bounded step, after which running out of fuel is passed on.\<close>

lemma settles_step:
  assumes "settles m m'" and "\<And>x. settles (f (Some x)) (g (Some x))" and "\<And>w. result_of (f None) w = None"
  shows "settles (State_Monad.bind m f) (State_Monad.bind m' g)"
  unfolding settles_def
proof (intro allI impI)
  fix w
  assume returned: "result_of (State_Monad.bind m f) w \<noteq> None"
  then obtain x where "result_of m w = Some x"
    using assms(3) by (cases "result_of m w") simp_all
  with returned assms(1,2) show "result_of (State_Monad.bind m' g) w = result_of (State_Monad.bind m f) w \<and>
      world_after (State_Monad.bind m' g) w = world_after (State_Monad.bind m f) w"
    unfolding settles_def by simp
qed

lemma settles_cases [settle_intros]:
  "(b \<Longrightarrow> settles x x') \<Longrightarrow> (\<not> b \<Longrightarrow> settles y y') \<Longrightarrow> settles (if b then x else y) (if b then x' else y')"
  "(\<And>a. settles (f a) (f' a)) \<Longrightarrow> (\<And>c. settles (g c) (g' c)) \<Longrightarrow>
   settles (case s of Inl a \<Rightarrow> f a | Inr c \<Rightarrow> g c) (case s of Inl a \<Rightarrow> f' a | Inr c \<Rightarrow> g' c)"
  "settles x x' \<Longrightarrow> settles y y' \<Longrightarrow>
   settles (case b of True \<Rightarrow> x | False \<Rightarrow> y) (case b of True \<Rightarrow> x' | False \<Rightarrow> y')"
  "settles x x' \<Longrightarrow> (\<And>a. settles (h a) (h' a)) \<Longrightarrow>
   settles (case q of None \<Rightarrow> x | Some a \<Rightarrow> h a) (case q of None \<Rightarrow> x' | Some a \<Rightarrow> h' a)"
  by (auto split: sum.split bool.split option.split)

lemma settles_always:
  assumes "settles m m'" and "\<And>w. result_of m w \<noteq> None"
  shows "m' = m"
proof -
  have "run_state m' w = run_state m w" for w
    using assms by (simp add: settles_def prod_eq_iff)
  then have "run_state m' = run_state m" by (rule ext)
  then show ?thesis by (rule state.expand)
qed

section \<open>Netlink\<close>

lemma retryInterrupted_settles: "f \<le> g \<Longrightarrow> settles (retryInterrupted f m) (retryInterrupted g m)"
proof (induction f arbitrary: g)
  case (Suc f)
  then obtain g' where "g = Suc g'" "f \<le> g'" by (cases g) simp_all
  with Suc.IH show ?case by (auto intro!: settle_intros)
qed (simp add: settles_None)

lemma NetlinkSocket_settles:
  assumes "f \<le> g"
  shows "settles (NetlinkSocket_send f N fd b) (NetlinkSocket_send g N fd b)"
    and "settles (NetlinkSocket_receive f N fd) (NetlinkSocket_receive g N fd)"
  unfolding NetlinkSocket_send_def NetlinkSocket_receive_def
  by (rule settles_step [OF retryInterrupted_settles [OF assms]]; simp add: settles_refl)+

lemma receiveDump_settles:
  "f \<le> g \<Longrightarrow> settles (receiveDump f N fd sequence protocol vs) (receiveDump g N fd sequence protocol vs)"
proof (induction f arbitrary: g vs)
  case (Suc f)
  then obtain g' where g: "g = Suc g'" "f \<le> g'" by (cases g) simp_all
  show ?case
    unfolding g(1) receiveDump.simps
  proof (rule settles_step [OF NetlinkSocket_settles(2)])
    show "Suc f \<le> Suc g'" using g by simp
  qed (auto intro!: settle_intros Suc.IH g(2) split: sum.split parse_run.split)
qed (simp add: settles_None)

lemma one_dump_settles:
  assumes "f \<le> g"
  shows "settles (one_dump f N fd family protocol sequence) (one_dump g N fd family protocol sequence)"
  unfolding one_dump_def Let_def
  by (rule settles_step [OF NetlinkSocket_settles(1) [OF assms]])
     (auto intro!: settle_intros receiveDump_settles [OF assms] split: sum.split)

lemma dumpAll_settles:
  assumes "f \<le> g"
  shows "settles (dumpAll f N fd query ps sequence scan) (dumpAll g N fd query ps sequence scan)"
proof (induction ps arbitrary: sequence scan)
  case (Cons p ps)
  obtain protocol family where p: "p = (protocol, family)" by fastforce
  show ?case
    unfolding p dumpAll.simps by (rule settles_step [OF one_dump_settles [OF assms]]) (simp_all add: Cons.IH)
qed (simp add: settles_refl)

lemma NetlinkSocketProvider_query_settles:
  assumes "f \<le> g"
  shows "settles (NetlinkSocketProvider_query f N query) (NetlinkSocketProvider_query g N query)"
  unfolding NetlinkSocketProvider_query_def
  by (intro settle_intros settles_step [OF dumpAll_settles [OF assms]]) simp_all

lemma NetlinkSocketProvider_more:
  assumes "dump_ends left K N" and "K < f" and "f \<le> g"
  shows "NetlinkSocketProvider g N = NetlinkSocketProvider f N"
proof -
  have "NetlinkSocketProvider_query g N query = NetlinkSocketProvider_query f N query" for query
  proof (rule settles_always [OF NetlinkSocketProvider_query_settles [OF assms(3)]])
    show "result_of (NetlinkSocketProvider_query f N query) w \<noteq> None" for w
      using NetlinkSocketProvider_query_returns [OF assms(1,2)] by simp
  qed
  then show ?thesis by (simp add: NetlinkSocketProvider_def)
qed

section \<open>Waiting for a process\<close>

lemma pollRetry_settles: "f \<le> g \<Longrightarrow> settles (pollRetry f G fd t) (pollRetry g G fd t)"
proof (induction f arbitrary: g)
  case (Suc f)
  then obtain g' where "g = Suc g'" "f \<le> g'" by (cases g) simp_all
  with Suc.IH show ?case by (auto intro!: settle_intros)
qed (simp add: settles_None)

lemma waitLoop_settles: "f \<le> g \<Longrightarrow> settles (waitLoop f G p deadline) (waitLoop g G p deadline)"
proof (induction f arbitrary: g)
  case (Suc f)
  then obtain g' where "g = Suc g'" "f \<le> g'" by (cases g) simp_all
  with Suc.IH show ?case by (auto intro!: settle_intros)
qed (simp add: settles_None)

lemma LinuxSignalProvider_waitForExit_settles:
  assumes "f \<le> g"
  shows "settles (LinuxSignalProvider_waitForExit f G policy p timeout)
    (LinuxSignalProvider_waitForExit g G policy p timeout)"
proof -
  have "settles (PidFd_waitForExit f G fd timeout) (PidFd_waitForExit g G fd timeout)" for fd
    unfolding PidFd_waitForExit_def
    by (rule settles_step [OF pollRetry_settles [OF assms]]) (simp_all add: settles_refl)
  then show ?thesis
    unfolding LinuxSignalProvider_waitForExit_def Let_def
    by (intro settle_intros waitLoop_settles [OF assms] settles_step) simp_all
qed

lemma LinuxSignalProvider_more:
  assumes "signal_kernel handles delivered G" and "clock_ticks time G" and "interruptions pending K G"
    and "K \<le> f" and "f \<le> g"
  shows "LinuxSignalProvider g G policy = LinuxSignalProvider f G policy"
proof -
  have "LinuxSignalProvider_waitForExit (wait_rounds g timeout) G policy p timeout =
      LinuxSignalProvider_waitForExit (wait_rounds f timeout) G policy p timeout" for p timeout
  proof (rule settles_always [OF LinuxSignalProvider_waitForExit_settles])
    show "wait_rounds f timeout \<le> wait_rounds g timeout" using assms(5) by (simp add: wait_rounds_def)
    have "wait_rounds K timeout \<le> wait_rounds f timeout" using assms(4) by (simp add: wait_rounds_def)
    then show "result_of (LinuxSignalProvider_waitForExit (wait_rounds f timeout) G policy p timeout) w \<noteq> None" for w
      using waitForExit_ends [OF assms(1,2,3)] by simp
  qed
  then show ?thesis by (simp add: LinuxSignalProvider_def)
qed

section \<open>The units of systemd\<close>

text \<open>
  \<open>rows_end left K B\<close>: a reply of the manager has at most \<open>K\<close> rows; \<open>left w\<close> counts those still to come. Once
  the array is entered there are no more than \<open>K\<close>, and a row that was entered, read and left is not to come
  again.
\<close>

definition rows_end :: "('w \<Rightarrow> nat) \<Rightarrow> nat \<Rightarrow> ('w, 'bus, 'msg) SdBusLib \<Rightarrow> bool" where
  "rows_end left K B \<longleftrightarrow> (\<forall>m w.
     left (world_after (sb_enterContainer B m (CHR ''a'') ''(ssssssouso)'') w) \<le> K \<and>
     (result_of (sb_enterContainer B m (CHR ''r'') ''ssssssouso'') w = Inr True \<longrightarrow>
      left (world_after (sb_exitContainer B m) (world_after (sb_readUnit B m)
        (world_after (sb_enterContainer B m (CHR ''r'') ''ssssssouso'') w))) < left w))"

lemma parseRows_settles: "f \<le> g \<Longrightarrow> settles (parseRows f B m services) (parseRows g B m services)"
proof (induction f arbitrary: g services)
  case (Suc f)
  then obtain g' where "g = Suc g'" "f \<le> g'" by (cases g) simp_all
  with Suc.IH show ?case by (auto intro!: settle_intros)
qed (simp add: settles_None)

lemma parseRows_ends:
  assumes "rows_end left K B"
  shows "left w < f \<Longrightarrow> result_of (parseRows f B m services) w \<noteq> None"
proof (induction f arbitrary: w services)
  case (Suc f)
  let ?e = "sb_enterContainer B m (CHR ''r'') ''ssssssouso''"
  let ?w3 = "world_after (sb_exitContainer B m) (world_after (sb_readUnit B m) (world_after ?e w))"
  have "left ?w3 < f" if "result_of ?e w = Inr True"
    using assms that Suc.prems unfolding rows_end_def by (meson less_Suc_eq_le order_less_le_trans)
  with Suc.IH show ?case by (auto split: sum.split bool.split)
qed simp

lemma SystemdServiceProvider_more:
  assumes "rows_end left K B" and "K < f" and "f \<le> g"
  shows "SystemdServiceProvider g B = SystemdServiceProvider f B"
proof -
  have parse: "settles (parseListUnitsMessage f B m) (parseListUnitsMessage g B m)" for m
    unfolding parseListUnitsMessage_def by (intro settle_intros parseRows_settles assms(3))
  have "left (world_after (sb_enterContainer B m (CHR ''a'') ''(ssssssouso)'') w) < f" for m w
    using assms(1,2) unfolding rows_end_def by (meson le_less_trans)
  then have rows: "result_of (parseListUnitsMessage f B m) w \<noteq> None" for m w
    using parseRows_ends [OF assms(1)] by (auto simp: parseListUnitsMessage_def split: option.split sum.split)
  have "SystemdServiceProvider_list g B = SystemdServiceProvider_list f B"
  proof (rule settles_always)
    show "settles (SystemdServiceProvider_list f B) (SystemdServiceProvider_list g B)"
      unfolding SystemdServiceProvider_list_def
      by (intro settle_intros settles_step [OF parse]) (simp_all add: settles_refl)
    show "result_of (SystemdServiceProvider_list f B) w \<noteq> None" for w
    proof -
      have "\<exists>r. result_of (parseListUnitsMessage f B m) v = Some r" for m v using rows by blast
      then obtain r where "result_of (parseListUnitsMessage f B m) v = Some (r m v)" for m v by metis
      then show ?thesis by (simp add: SystemdServiceProvider_list_def split: sum.split prod.split)
    qed
  qed
  then show ?thesis by (simp add: SystemdServiceProvider_def)
qed

section \<open>Reading the journal\<close>

text \<open>
  \<open>entries_end ahead N J\<close>: reading forwards catches up with the writers of the journal after at most \<open>N\<close>
  entries; \<open>ahead w\<close> counts those that can still be stepped to. After a time was sought there are no more
  than \<open>N\<close>, stepping to one leaves fewer, and reading it adds none.
\<close>

definition entries_end :: "('w \<Rightarrow> nat) \<Rightarrow> nat \<Rightarrow> ('w, 'j) SdJournalLib \<Rightarrow> bool" where
  "entries_end ahead N J \<longleftrightarrow> (\<forall>j w.
     (\<forall>t. ahead (world_after (sj_seekRealtimeUsec J j t) w) \<le> N) \<and>
     (result_of (sj_next J j) w = Inr True \<longrightarrow> ahead (world_after (sj_next J j) w) < ahead w) \<and>
     ahead (world_after (sj_getRealtimeUsec J j) w) \<le> ahead w \<and>
     ahead (world_after (sj_getCursor J j) w) \<le> ahead w \<and>
     (\<forall>f. ahead (world_after (sj_getData J j f) w) \<le> ahead w))"

lemma readForwards_settles:
  "f \<le> g \<Longrightarrow> settles (readForwards f J j limit window) (readForwards g J j limit window)"
proof (induction f arbitrary: g window)
  case (Suc f)
  then obtain g' where "g = Suc g'" "f \<le> g'" by (cases g) simp_all
  with Suc.IH show ?case by (auto intro!: settle_intros)
qed (simp add: settles_None)

lemma readEntry_ahead:
  assumes "entries_end ahead N J"
  shows "ahead (world_after (readCurrentEntry J j) w) \<le> ahead w"
proof -
  have field: "ahead (world_after (readField J j f) w) \<le> ahead w" for f w
    using assms by (simp add: entries_end_def readField_def)
  have fields: "ahead (world_after (readFields J j t c) w) \<le> ahead w" for t c w
    unfolding readFields_def using field by (simp) (meson order_trans)
  show ?thesis
    using assms fields unfolding entries_end_def readCurrentEntry_def
    by (auto split: sum.split) (meson order_trans)+
qed

lemma readForwards_ends:
  assumes "entries_end ahead N J"
  shows "ahead w < f \<Longrightarrow> result_of (readForwards f J j limit window) w \<noteq> None"
proof (induction f arbitrary: w window)
  case (Suc f)
  let ?w1 = "world_after (sj_next J j) w"
  have "ahead (world_after (readCurrentEntry J j) ?w1) < f" if "result_of (sj_next J j) w = Inr True"
    using assms readEntry_ahead [OF assms, of j ?w1] that Suc.prems unfolding entries_end_def
    by (meson le_less_trans less_Suc_eq_le order_less_le_trans)
  with Suc.IH show ?case by (auto split: sum.split bool.split)
qed simp

lemma SystemdJournalProvider_more:
  assumes "entries_end ahead N J" and "N < f" and "f \<le> g"
  shows "SystemdJournalProvider g rounds J = SystemdJournalProvider f rounds J"
proof -
  have since: "settles (querySince f J j t n) (querySince g J j t n)" for j t n
    unfolding querySince_def
    by (intro settle_intros settles_step [OF readForwards_settles [OF assms(3)]]) (simp_all add: settles_refl)
  have "ahead (world_after (sj_seekRealtimeUsec J j t) w) < f" for j t w
    using assms(1,2) unfolding entries_end_def by (meson le_less_trans)
  then have ends: "result_of (queryJournal f J j query) w \<noteq> None" for j query w
    using readForwards_ends [OF assms(1)]
    by (auto simp: queryJournal_def querySince_def split: option.split sum.split)
  have journal: "settles (queryJournal f J j query) (queryJournal g J j query)" for j query
    unfolding queryJournal_def by (intro settle_intros since)
  have "SystemdJournalProvider_query g J query = SystemdJournalProvider_query f J query" for query
  proof (rule settles_always)
    show "settles (SystemdJournalProvider_query f J query) (SystemdJournalProvider_query g J query)"
      unfolding SystemdJournalProvider_query_def
      by (intro settle_intros settles_step) (auto intro!: settle_intros journal split: sum.split)
    show "result_of (SystemdJournalProvider_query f J query) w \<noteq> None" for w
      using ends by (auto simp: SystemdJournalProvider_query_def split: sum.split)
  qed
  then show ?thesis by (simp add: SystemdJournalProvider_def)
qed

section \<open>Machines whose loops end\<close>

text \<open>The laws hold of the bus with four units and of every journal in memory.\<close>

lemma demo_rows_end: "rows_end length (length demo_rows) demo_SdBus"
  by (auto simp: rows_end_def demo_SdBus_def)

lemma memory_entries_end:
  "entries_end (\<lambda>w. length (visible E (fst w)) - next_index (snd w)) (length E) (memory_SdJournal E)"
proof -
  have "length (visible E ms) \<le> length E" for ms by (simp add: visible_def)
  then show ?thesis
    unfolding entries_end_def memory_SdJournal_def
    by (auto simp: le_diff_conv intro: trans_le_add1 split: option.split)
qed

end
