(* ===== verification/Handles.thy ===== *)
theory Handles
  imports Prelude
begin

text \<open>
  The classes that own a handle of the system: \<open>PidFd\<close> (\<open>linux/process\<close>), \<open>NetlinkSocket\<close> (\<open>linux/netlink\<close>),
  \<open>SdBusConnection\<close>, \<open>SdBusMessage\<close>, \<open>SdJournal\<close> and \<open>JournalCursor\<close> (\<open>linux/systemd\<close>). They cannot be copied;
  their move operations hand the handle over and their destructors close it.

  The objects live in an explicit store, since a move assigns to two objects at once and may assign an
  object to itself. The store also records the handles that were closed, in order: the calls of
  \<open>close\<close>, \<open>sd_bus_unref\<close>, \<open>sd_bus_message_unref\<close>, \<open>sd_journal_close\<close> and \<open>free\<close>. On a null pointer these library
  functions do nothing, and nothing is recorded.
\<close>

type_synonym addr = nat

record 'h Handles =
  hd_objects :: "addr \<Rightarrow> 'h option"
  hd_closed :: "'h list"

definition Handles_empty :: "'h Handles" where
  "Handles_empty = \<lparr>hd_objects = Map.empty, hd_closed = []\<rparr>"

definition set_member :: "addr \<Rightarrow> 'h \<Rightarrow> 'h Handles \<Rightarrow> 'h Handles" where
  "set_member a h s = s\<lparr>hd_objects := (hd_objects s)(a \<mapsto> h)\<rparr>"

definition end_object :: "addr \<Rightarrow> 'h Handles \<Rightarrow> 'h Handles" where
  "end_object a s = s\<lparr>hd_objects := (hd_objects s)(a := None)\<rparr>"

definition call_close :: "'h \<Rightarrow> 'h Handles \<Rightarrow> 'h Handles" where
  "call_close h s = s\<lparr>hd_closed := hd_closed s @ [h]\<rparr>"

text \<open>The member of an object; the operations below are applied to objects that exist.\<close>

abbreviation member_of :: "'h Handles \<Rightarrow> addr \<Rightarrow> 'h" where
  "member_of s a \<equiv> the (hd_objects s a)"

section \<open>File descriptors\<close>

text \<open>Both classes hold a descriptor, with -1 for none.\<close>

definition PidFd_destroy :: "addr \<Rightarrow> int Handles \<Rightarrow> int Handles" where
  "PidFd_destroy a s =
     end_object a (if 0 \<le> member_of s a then call_close (member_of s a) s else s)"

definition PidFd_moveConstruct :: "addr \<Rightarrow> addr \<Rightarrow> int Handles \<Rightarrow> int Handles" where
  "PidFd_moveConstruct a other s = set_member a (member_of s other) (set_member other (-1) s)"

definition PidFd_moveAssign :: "addr \<Rightarrow> addr \<Rightarrow> int Handles \<Rightarrow> int Handles" where
  "PidFd_moveAssign a other s =
     (if a = other then s
      else
        (let s1 = (if 0 \<le> member_of s a then call_close (member_of s a) s else s) in
         set_member a (member_of s1 other) (set_member other (-1) s1)))"

definition NetlinkSocket_destroy :: "addr \<Rightarrow> int Handles \<Rightarrow> int Handles" where
  "NetlinkSocket_destroy a s =
     end_object a (if 0 \<le> member_of s a then call_close (member_of s a) s else s)"

definition NetlinkSocket_moveConstruct :: "addr \<Rightarrow> addr \<Rightarrow> int Handles \<Rightarrow> int Handles" where
  "NetlinkSocket_moveConstruct a other s = set_member a (member_of s other) (set_member other (-1) s)"

definition NetlinkSocket_moveAssign :: "addr \<Rightarrow> addr \<Rightarrow> int Handles \<Rightarrow> int Handles" where
  "NetlinkSocket_moveAssign a other s =
     (if a \<noteq> other
      then
        (let s1 = (if 0 \<le> member_of s a then call_close (member_of s a) s else s) in
         set_member a (member_of s1 other) (set_member other (-1) s1))
      else s)"

section \<open>Library objects\<close>

text \<open>A pointer to an object of the library, \<open>None\<close> for null. Releasing null does nothing.\<close>

type_synonym 'p pointer = "'p option"

definition release_pointer :: "'p pointer \<Rightarrow> 'p pointer Handles \<Rightarrow> 'p pointer Handles" where
  "release_pointer p s = (case p of None \<Rightarrow> s | Some _ \<Rightarrow> call_close p s)"

definition SdBusConnection_destroy :: "addr \<Rightarrow> 'p pointer Handles \<Rightarrow> 'p pointer Handles" where
  "SdBusConnection_destroy a s = end_object a (release_pointer (member_of s a) s)"

definition SdBusConnection_moveConstruct :: "addr \<Rightarrow> addr \<Rightarrow> 'p pointer Handles \<Rightarrow> 'p pointer Handles" where
  "SdBusConnection_moveConstruct a other s = set_member a (member_of s other) (set_member other None s)"

definition SdBusConnection_moveAssign :: "addr \<Rightarrow> addr \<Rightarrow> 'p pointer Handles \<Rightarrow> 'p pointer Handles" where
  "SdBusConnection_moveAssign a other s =
     (if a \<noteq> other
      then
        (let s1 = release_pointer (member_of s a) s in
         set_member a (member_of s1 other) (set_member other None s1))
      else s)"

definition SdBusMessage_destroy :: "addr \<Rightarrow> 'p pointer Handles \<Rightarrow> 'p pointer Handles" where
  "SdBusMessage_destroy a s = end_object a (release_pointer (member_of s a) s)"

definition SdBusMessage_moveConstruct :: "addr \<Rightarrow> addr \<Rightarrow> 'p pointer Handles \<Rightarrow> 'p pointer Handles" where
  "SdBusMessage_moveConstruct a other s = set_member a (member_of s other) (set_member other None s)"

definition SdBusMessage_moveAssign :: "addr \<Rightarrow> addr \<Rightarrow> 'p pointer Handles \<Rightarrow> 'p pointer Handles" where
  "SdBusMessage_moveAssign a other s =
     (if a \<noteq> other
      then
        (let s1 = release_pointer (member_of s a) s in
         set_member a (member_of s1 other) (set_member other None s1))
      else s)"

text \<open>\<open>put\<close> empties the object; the library function that is given the address then stores into it.\<close>

definition SdBusMessage_put :: "addr \<Rightarrow> 'p pointer Handles \<Rightarrow> 'p pointer Handles" where
  "SdBusMessage_put a s = set_member a None (release_pointer (member_of s a) s)"

definition SdJournal_destroy :: "addr \<Rightarrow> 'p pointer Handles \<Rightarrow> 'p pointer Handles" where
  "SdJournal_destroy a s = end_object a (release_pointer (member_of s a) s)"

definition SdJournal_moveConstruct :: "addr \<Rightarrow> addr \<Rightarrow> 'p pointer Handles \<Rightarrow> 'p pointer Handles" where
  "SdJournal_moveConstruct a other s = set_member a (member_of s other) (set_member other None s)"

definition SdJournal_moveAssign :: "addr \<Rightarrow> addr \<Rightarrow> 'p pointer Handles \<Rightarrow> 'p pointer Handles" where
  "SdJournal_moveAssign a other s =
     (if a \<noteq> other
      then
        (let s1 = release_pointer (member_of s a) s in
         set_member a (member_of s1 other) (set_member other None s1))
      else s)"

definition JournalCursor_destroy :: "addr \<Rightarrow> 'p pointer Handles \<Rightarrow> 'p pointer Handles" where
  "JournalCursor_destroy a s = end_object a (release_pointer (member_of s a) s)"

definition JournalCursor_moveConstruct :: "addr \<Rightarrow> addr \<Rightarrow> 'p pointer Handles \<Rightarrow> 'p pointer Handles" where
  "JournalCursor_moveConstruct a other s = set_member a (member_of s other) (set_member other None s)"

definition JournalCursor_moveAssign :: "addr \<Rightarrow> addr \<Rightarrow> 'p pointer Handles \<Rightarrow> 'p pointer Handles" where
  "JournalCursor_moveAssign a other s =
     (if a \<noteq> other
      then
        (let s1 = release_pointer (member_of s a) s in
         set_member a (member_of s1 other) (set_member other None s1))
      else s)"

definition JournalCursor_put :: "addr \<Rightarrow> 'p pointer Handles \<Rightarrow> 'p pointer Handles" where
  "JournalCursor_put a s = set_member a None (release_pointer (member_of s a) s)"

section \<open>Lives of objects\<close>

text \<open>A class with its operations. A class without \<open>put\<close> has \<open>None\<close> there; \<open>hc_none\<close> tells the values of the
  member that are no handle.\<close>

record 'h HandleClass =
  hc_none :: "'h \<Rightarrow> bool"
  hc_destroy :: "addr \<Rightarrow> 'h Handles \<Rightarrow> 'h Handles"
  hc_moveConstruct :: "addr \<Rightarrow> addr \<Rightarrow> 'h Handles \<Rightarrow> 'h Handles"
  hc_moveAssign :: "addr \<Rightarrow> addr \<Rightarrow> 'h Handles \<Rightarrow> 'h Handles"
  hc_put :: "(addr \<Rightarrow> 'h Handles \<Rightarrow> 'h Handles) option"

definition PidFd_class :: "int HandleClass" where
  "PidFd_class = \<lparr>hc_none = (\<lambda>fd. fd < 0), hc_destroy = PidFd_destroy,
     hc_moveConstruct = PidFd_moveConstruct, hc_moveAssign = PidFd_moveAssign, hc_put = None\<rparr>"

definition NetlinkSocket_class :: "int HandleClass" where
  "NetlinkSocket_class = \<lparr>hc_none = (\<lambda>fd. fd < 0), hc_destroy = NetlinkSocket_destroy,
     hc_moveConstruct = NetlinkSocket_moveConstruct, hc_moveAssign = NetlinkSocket_moveAssign, hc_put = None\<rparr>"

definition SdBusConnection_class :: "'p pointer HandleClass" where
  "SdBusConnection_class = \<lparr>hc_none = (\<lambda>p. p = None), hc_destroy = SdBusConnection_destroy,
     hc_moveConstruct = SdBusConnection_moveConstruct, hc_moveAssign = SdBusConnection_moveAssign, hc_put = None\<rparr>"

definition SdBusMessage_class :: "'p pointer HandleClass" where
  "SdBusMessage_class = \<lparr>hc_none = (\<lambda>p. p = None), hc_destroy = SdBusMessage_destroy,
     hc_moveConstruct = SdBusMessage_moveConstruct, hc_moveAssign = SdBusMessage_moveAssign,
     hc_put = Some SdBusMessage_put\<rparr>"

definition SdJournal_class :: "'p pointer HandleClass" where
  "SdJournal_class = \<lparr>hc_none = (\<lambda>p. p = None), hc_destroy = SdJournal_destroy,
     hc_moveConstruct = SdJournal_moveConstruct, hc_moveAssign = SdJournal_moveAssign, hc_put = None\<rparr>"

definition JournalCursor_class :: "'p pointer HandleClass" where
  "JournalCursor_class = \<lparr>hc_none = (\<lambda>p. p = None), hc_destroy = JournalCursor_destroy,
     hc_moveConstruct = JournalCursor_moveConstruct, hc_moveAssign = JournalCursor_moveAssign,
     hc_put = Some JournalCursor_put\<rparr>"

text \<open>
  What can happen to the objects of a class: one is constructed, empty or from a handle the system
  has given out; one is constructed or assigned by a move; a handle is stored through \<open>put\<close>; one
  ends. The system gives out a handle, a descriptor number in particular, only when it is not open:
  when every earlier one of that value was closed. \<open>given\<close> are the handles it gave out.
\<close>

definition not_open :: "'h list \<Rightarrow> 'h Handles \<Rightarrow> 'h \<Rightarrow> bool" where
  "not_open given s h \<longleftrightarrow> count_list given h = count_list (hd_closed s) h"

inductive object_lives :: "'h HandleClass \<Rightarrow> 'h list \<Rightarrow> 'h Handles \<Rightarrow> bool" for C where
  none_yet: "object_lives C [] Handles_empty"
| empty_object: "object_lives C given s \<Longrightarrow> hd_objects s a = None \<Longrightarrow> hc_none C h \<Longrightarrow>
    object_lives C given (set_member a h s)"
| from_handle: "object_lives C given s \<Longrightarrow> hd_objects s a = None \<Longrightarrow> \<not> hc_none C h \<Longrightarrow> not_open given s h \<Longrightarrow>
    object_lives C (h # given) (set_member a h s)"
| moved_into_new: "object_lives C given s \<Longrightarrow> hd_objects s a = None \<Longrightarrow> hd_objects s b \<noteq> None \<Longrightarrow>
    object_lives C given (hc_moveConstruct C a b s)"
| move_assigned: "object_lives C given s \<Longrightarrow> hd_objects s a \<noteq> None \<Longrightarrow> hd_objects s b \<noteq> None \<Longrightarrow>
    object_lives C given (hc_moveAssign C a b s)"
| put_only: "object_lives C given s \<Longrightarrow> hc_put C = Some put \<Longrightarrow> hd_objects s a \<noteq> None \<Longrightarrow>
    object_lives C given (put a s)"
| put_handle: "object_lives C given s \<Longrightarrow> hc_put C = Some put \<Longrightarrow> hd_objects s a \<noteq> None \<Longrightarrow> \<not> hc_none C h \<Longrightarrow>
    not_open given (put a s) h \<Longrightarrow> object_lives C (h # given) (set_member a h (put a s))"
| ended: "object_lives C given s \<Longrightarrow> hd_objects s a \<noteq> None \<Longrightarrow>
    object_lives C given (hc_destroy C a s)"

section \<open>The contract of the classes\<close>

text \<open>Every handle given out was closed, or is the member of exactly one object; none was closed twice.\<close>

definition held :: "('h \<Rightarrow> bool) \<Rightarrow> 'h Handles \<Rightarrow> 'h \<Rightarrow> bool" where
  "held none s h \<longleftrightarrow> \<not> none h \<and> (\<exists>a. hd_objects s a = Some h)"

definition owned_once :: "('h \<Rightarrow> bool) \<Rightarrow> 'h list \<Rightarrow> 'h Handles \<Rightarrow> bool" where
  "owned_once none given s \<longleftrightarrow>
     (\<forall>h. count_list given h = count_list (hd_closed s) h + (if held none s h then 1 else 0)) \<and>
     (\<forall>a b h. hd_objects s a = Some h \<longrightarrow> hd_objects s b = Some h \<longrightarrow> \<not> none h \<longrightarrow> a = b)"

text \<open>The laws: what each operation does to the members and to the list of closed handles.\<close>

definition closing :: "('h \<Rightarrow> bool) \<Rightarrow> 'h \<Rightarrow> 'h list" where
  "closing none h = (if none h then [] else [h])"

locale handle_class =
  fixes C :: "'h HandleClass" and left_behind :: 'h
  assumes left_none: "hc_none C left_behind"
    and destroy: "hd_objects s a = Some h \<Longrightarrow> hc_destroy C a s =
      \<lparr>hd_objects = (hd_objects s)(a := None), hd_closed = hd_closed s @ closing (hc_none C) h\<rparr>"
    and move_construct: "hd_objects s a = None \<Longrightarrow> hd_objects s b = Some h \<Longrightarrow> hc_moveConstruct C a b s =
      s\<lparr>hd_objects := (hd_objects s)(b \<mapsto> left_behind, a \<mapsto> h)\<rparr>"
    and move_assign: "hd_objects s a = Some g \<Longrightarrow> hd_objects s b = Some h \<Longrightarrow> a \<noteq> b \<Longrightarrow> hc_moveAssign C a b s =
      \<lparr>hd_objects = (hd_objects s)(b \<mapsto> left_behind, a \<mapsto> h),
       hd_closed = hd_closed s @ closing (hc_none C) g\<rparr>"
    and self_assign: "hc_moveAssign C a a s = s"
    and put: "hc_put C = Some p \<Longrightarrow> hd_objects s a = Some h \<Longrightarrow> p a s =
      \<lparr>hd_objects = (hd_objects s)(a \<mapsto> left_behind), hd_closed = hd_closed s @ closing (hc_none C) h\<rparr>"

text \<open>The effect of an operation on who holds what.\<close>

lemma owned_onceI:
  assumes "\<And>h. count_list given h = count_list (hd_closed s) h + (if held none s h then 1 else 0)"
    and "\<And>a b h. hd_objects s a = Some h \<Longrightarrow> hd_objects s b = Some h \<Longrightarrow> \<not> none h \<Longrightarrow> a = b"
  shows "owned_once none given s"
  using assms unfolding owned_once_def by blast

lemma owned_onceD:
  assumes "owned_once none given s"
  shows "count_list given h = count_list (hd_closed s) h + (if held none s h then 1 else 0)"
    and "hd_objects s a = Some h \<Longrightarrow> hd_objects s b = Some h \<Longrightarrow> \<not> none h \<Longrightarrow> a = b"
  using assms unfolding owned_once_def by blast+

lemma owned_once_drop:
  assumes inv: "owned_once none given s" and member: "hd_objects s a = Some h"
    and objects: "hd_objects s' = (hd_objects s)(a := x)" "\<And>e. x = Some e \<Longrightarrow> none e"
    and closed: "hd_closed s' = hd_closed s @ closing none h"
  shows "owned_once none given s'"
proof -
  have same: "hd_objects s' b = Some k \<longleftrightarrow> b \<noteq> a \<and> hd_objects s b = Some k" if "\<not> none k" for b k
    using objects that by auto
  have unique: "b = c" if "hd_objects s b = Some k" "hd_objects s c = Some k" "\<not> none k" for b c k
    using inv that unfolding owned_once_def by blast
  have "held none s' k \<longleftrightarrow> held none s k \<and> (k \<noteq> h \<or> none h)" for k
    using same [of k] unique [of _ k a] member unfolding held_def by (metis option.inject)
  moreover have "held none s h" if "\<not> none h"
    using that member unfolding held_def by blast
  moreover have "count_list given k = count_list (hd_closed s) k + (if held none s k then 1 else 0)" for k
    using inv unfolding owned_once_def by blast
  ultimately have "count_list given k = count_list (hd_closed s') k + (if held none s' k then 1 else 0)" for k
    by (cases "k = h") (auto simp: closed closing_def)
  then show ?thesis
    using same unique unfolding owned_once_def by blast
qed

lemma owned_once_gain:
  assumes inv: "owned_once none given s" and member: "\<And>e. hd_objects s a = Some e \<Longrightarrow> none e"
    and fresh: "not_open given s h" "\<not> none h"
  shows "owned_once none (h # given) (set_member a h s)"
proof -
  have counts: "count_list given k = count_list (hd_closed s) k + (if held none s k then 1 else 0)" for k
    using inv unfolding owned_once_def by blast
  have free: "hd_objects s b \<noteq> Some h" for b
    using counts [of h] fresh unfolding not_open_def held_def by (auto split: if_splits)
  have now: "hd_objects (set_member a h s) x = Some k \<longleftrightarrow> (if k = h then x = a else hd_objects s x = Some k)"
    if "\<not> none k" for x k
    using member free that by (auto simp: set_member_def)
  have "held none (set_member a h s) k \<longleftrightarrow> held none s k \<or> k = h" for k
    using now [of k] fresh(2) unfolding held_def by (cases "k = h") auto
  moreover have "\<not> held none s h" using free unfolding held_def by blast
  ultimately have "count_list (h # given) k =
      count_list (hd_closed (set_member a h s)) k + (if held none (set_member a h s) k then 1 else 0)" for k
    using counts [of k] by (auto simp: set_member_def)
  moreover have "x = y" if "hd_objects (set_member a h s) x = Some k" "hd_objects (set_member a h s) y = Some k"
      "\<not> none k" for x y k
    using that(1,2) inv that(3) unfolding now [OF that(3)] owned_once_def by (cases "k = h") auto
  ultimately show ?thesis unfolding owned_once_def by blast
qed

lemma owned_once_same:
  assumes "owned_once none given s" "hd_closed s' = hd_closed s"
    and "\<And>x k. \<not> none k \<Longrightarrow> hd_objects s' x = Some k \<longleftrightarrow> hd_objects s x = Some k"
  shows "owned_once none given s'"
proof -
  have "held none s' k \<longleftrightarrow> held none s k" for k
    using assms(3) unfolding held_def by blast
  then show ?thesis
    using owned_onceD [OF assms(1)] assms(2,3) by (intro owned_onceI) auto
qed

lemma owned_once_move:
  assumes inv: "owned_once none given s" and member: "hd_objects s b = Some h" "a \<noteq> b"
    and empties: "\<And>g. hd_objects s a = Some g \<Longrightarrow> none g" "none e"
  shows "owned_once none given (s\<lparr>hd_objects := (hd_objects s)(b \<mapsto> e, a \<mapsto> h)\<rparr>)"
proof -
  let ?s = "s\<lparr>hd_objects := (hd_objects s)(b \<mapsto> e, a \<mapsto> h)\<rparr>"
  have unique: "x = y" if "hd_objects s x = Some k" "hd_objects s y = Some k" "\<not> none k" for x y k
    using inv that unfolding owned_once_def by blast
  have now: "hd_objects ?s x = Some k \<longleftrightarrow> hd_objects s (if x = a then b else x) = Some k \<and> x \<noteq> b" if "\<not> none k" for x k
    using member empties(2) that by auto
  have holds: "held none ?s k \<longleftrightarrow> held none s k" for k
  proof (cases "none k")
    case False
    have "hd_objects ?s (if x = b then a else x) = Some k" if "hd_objects s x = Some k" for x
      using that member empties False by auto
    with False show ?thesis unfolding held_def using now by blast
  qed (simp add: held_def)
  have one: "x = y" if "hd_objects ?s x = Some k" "hd_objects ?s y = Some k" "\<not> none k" for x y k
  proof -
    have "(if x = a then b else x) = (if y = a then b else y)" "x \<noteq> b" "y \<noteq> b"
      using that(1,2) unique [OF _ _ that(3)] unfolding now [OF that(3)] by blast+
    then show ?thesis by (cases "x = a"; cases "y = a") simp_all
  qed
  show ?thesis
    by (rule owned_onceI) (simp add: holds owned_onceD(1) [OF inv], rule one)
qed

context handle_class
begin

lemma owned_once_assign:
  assumes inv: "owned_once (hc_none C) given s" and members: "hd_objects s a = Some g" "hd_objects s b = Some h"
  shows "owned_once (hc_none C) given (hc_moveAssign C a b s)"
proof (cases "a = b")
  case False
  let ?s = "\<lparr>hd_objects = (hd_objects s)(a \<mapsto> left_behind), hd_closed = hd_closed s @ closing (hc_none C) g\<rparr>"
  have "owned_once (hc_none C) given ?s"
    by (rule owned_once_drop [OF inv members(1)]) (auto simp: left_none)
  from owned_once_move [OF this, of b h a left_behind] False members show ?thesis
    by (simp add: move_assign [OF members False] left_none fun_upd_twist)
qed (simp add: self_assign inv)

lemma put_owned:
  assumes "owned_once (hc_none C) given s" "hc_put C = Some p" "hd_objects s a = Some h"
  shows "owned_once (hc_none C) given (p a s)"
  by (rule owned_once_drop [OF assms(1,3)]) (auto simp: put [OF assms(2,3)] left_none)

lemma lives_owned: "object_lives C given s \<Longrightarrow> owned_once (hc_none C) given s"
proof (induction rule: object_lives.induct)
  case none_yet
  show ?case by (simp add: owned_once_def held_def Handles_empty_def)
next
  case (empty_object given s a h)
  then show ?case
    by (intro owned_once_same [OF empty_object.IH]) (auto simp: set_member_def)
next
  case (from_handle given s a h)
  then show ?case by (intro owned_once_gain) simp_all
next
  case (moved_into_new given s a b)
  then obtain h where "hd_objects s b = Some h" by blast
  moreover from moved_into_new.hyps this have "a \<noteq> b" by auto
  ultimately show ?case
    using moved_into_new owned_once_move [of "hc_none C" given s b h a left_behind] left_none
    by (simp add: move_construct)
next
  case (move_assigned given s a b)
  then show ?case using owned_once_assign by blast
next
  case (put_only given s p a)
  then show ?case using put_owned by blast
next
  case (put_handle given s p a h)
  then obtain g where g: "hd_objects s a = Some g" by blast
  have "owned_once (hc_none C) given (p a s)"
    using put_owned put_handle.IH put_handle.hyps g by blast
  then show ?case
    using put_handle.hyps by (intro owned_once_gain) (auto simp: put [OF put_handle.hyps(2) g] left_none)
next
  case (ended given s a)
  then obtain h where "hd_objects s a = Some h" by blast
  then show ?case
    by (intro owned_once_drop [OF ended.IH]) (auto simp: destroy)
qed

end

section \<open>The classes keep it\<close>

lemmas handle_defs = set_member_def end_object_def call_close_def release_pointer_def closing_def

interpretation pidfd: handle_class PidFd_class "-1"
  by unfold_locales
     (auto simp: PidFd_class_def PidFd_destroy_def PidFd_moveConstruct_def PidFd_moveAssign_def handle_defs Let_def)

interpretation netlink_socket: handle_class NetlinkSocket_class "-1"
  by unfold_locales
     (auto simp: NetlinkSocket_class_def NetlinkSocket_destroy_def NetlinkSocket_moveConstruct_def
       NetlinkSocket_moveAssign_def handle_defs Let_def)

interpretation bus_connection: handle_class SdBusConnection_class None
  by unfold_locales
     (auto simp: SdBusConnection_class_def SdBusConnection_destroy_def SdBusConnection_moveConstruct_def
       SdBusConnection_moveAssign_def handle_defs Let_def split: option.split)

interpretation bus_message: handle_class SdBusMessage_class None
  by unfold_locales
     (auto simp: SdBusMessage_class_def SdBusMessage_destroy_def SdBusMessage_moveConstruct_def
       SdBusMessage_moveAssign_def SdBusMessage_put_def handle_defs Let_def split: option.split)

interpretation journal_handle: handle_class SdJournal_class None
  by unfold_locales
     (auto simp: SdJournal_class_def SdJournal_destroy_def SdJournal_moveConstruct_def
       SdJournal_moveAssign_def handle_defs Let_def split: option.split)

interpretation journal_cursor: handle_class JournalCursor_class None
  by unfold_locales
     (auto simp: JournalCursor_class_def JournalCursor_destroy_def JournalCursor_moveConstruct_def
       JournalCursor_moveAssign_def JournalCursor_put_def handle_defs Let_def split: option.split)

lemma all_ended_closed:
  assumes "owned_once none given s" "\<And>a. hd_objects s a = None"
  shows "mset (hd_closed s) = mset given"
proof (rule multiset_eqI)
  show "count (mset (hd_closed s)) h = count (mset given) h" for h
    using owned_onceD(1) [OF assms(1), of h] assms(2) by (simp add: held_def count_mset)
qed

text \<open>What the classes promise together: at every moment each handle given out is closed or held, by one
  object, and when no object is left all handles were closed, each as often as it was given out.\<close>

definition closes_exactly_once :: "'h HandleClass \<Rightarrow> bool" where
  "closes_exactly_once C \<longleftrightarrow> (\<forall>given s. object_lives C given s \<longrightarrow>
     owned_once (hc_none C) given s \<and>
     ((\<forall>a. hd_objects s a = None) \<longrightarrow> mset (hd_closed s) = mset given))"

lemma closes_exactly_onceI:
  "(\<And>given s. object_lives C given s \<Longrightarrow> owned_once (hc_none C) given s) \<Longrightarrow> closes_exactly_once C"
  unfolding closes_exactly_once_def using all_ended_closed by blast

text \<open>A descriptor that is opened, moved to another object, closed when that object ends, and whose number
  is then used again.\<close>

lemma demo_descriptor_lives:
  "object_lives PidFd_class [3, 3] \<lparr>hd_objects = Map.empty(0 \<mapsto> -1, 2 \<mapsto> 3), hd_closed = [3]\<rparr>"
proof -
  have "object_lives PidFd_class [3] (set_member 0 3 Handles_empty)"
    by (rule object_lives.from_handle [OF object_lives.none_yet])
       (simp_all add: PidFd_class_def not_open_def Handles_empty_def)
  from object_lives.moved_into_new [OF this, of 1 0]
  have "object_lives PidFd_class [3] \<lparr>hd_objects = Map.empty(0 \<mapsto> -1, 1 \<mapsto> 3), hd_closed = []\<rparr>"
    by (simp add: PidFd_class_def PidFd_moveConstruct_def set_member_def Handles_empty_def)
  from object_lives.ended [OF this, of 1]
  have "object_lives PidFd_class [3] \<lparr>hd_objects = Map.empty(0 \<mapsto> -1), hd_closed = [3]\<rparr>"
    by (simp add: PidFd_class_def PidFd_destroy_def end_object_def call_close_def fun_upd_twist)
  from object_lives.from_handle [OF this, of 2 3] show ?thesis
    by (simp add: PidFd_class_def not_open_def set_member_def)
qed

text \<open>
  C29. No handle leaks and none is closed twice: for each class that owns a descriptor, a bus
  connection, a message, a journal or a cursor, whatever sequence of constructions, moves (also an
  object to itself), stores through \<open>put\<close> and destructions its objects go through, every handle
  the system gave out is held by exactly one object until it is closed, once.
\<close>

theorem handles_closed_once:
  "closes_exactly_once PidFd_class \<and> closes_exactly_once NetlinkSocket_class \<and>
   closes_exactly_once (SdBusConnection_class :: 'bus pointer HandleClass) \<and>
   closes_exactly_once (SdBusMessage_class :: 'message pointer HandleClass) \<and>
   closes_exactly_once (SdJournal_class :: 'journal pointer HandleClass) \<and>
   closes_exactly_once (JournalCursor_class :: 'cursor pointer HandleClass)"
  by (intro conjI closes_exactly_onceI pidfd.lives_owned netlink_socket.lives_owned
      bus_connection.lives_owned bus_message.lives_owned journal_handle.lives_owned
      journal_cursor.lives_owned)

end
