(* ===== verification/JsonText.thy ===== *)
theory JsonText
  imports JsonSerializer
begin

text \<open>
  What the text of a JSON document says. \<open>nlohmann::json\<close> keeps the members of an object in a sorted map and
  writes a double so that reading it gives the same double back; so a text determines its document up to the
  order of members, as far as keys are distinct and numbers are doubles. That is the hypothesis \<open>reads_back\<close>
  on the parameter \<open>dump\<close>; a writer over sorted documents that has it is defined below.
\<close>

section \<open>Documents up to the order of members\<close>

text \<open>The document as the library keeps it.\<close>

primrec canon :: "json \<Rightarrow> json" where
  "canon JNull = JNull"
| "canon (JString s) = JString s"
| "canon (JInt i) = JInt i"
| "canon (JReal x) = JReal x"
| "canon (JArray js) = JArray (map canon js)"
| "canon (JObject ms) = JObject (sort_key fst (map (map_prod id canon) ms))"

text \<open>The values of \<open>double\<close>: a significand of 53 bits and an exponent, on the scale of the least one.\<close>

definition scale :: real where
  "scale = 2 ^ 1074"

definition doubles :: "real set" where
  "doubles = {x. \<exists>m e. \<bar>m\<bar> < 2 ^ 53 \<and> e \<le> 2045 \<and> x = real_of_int m * 2 ^ e / scale}"

primrec printable :: "json \<Rightarrow> bool" where
  "printable JNull \<longleftrightarrow> True"
| "printable (JString s) \<longleftrightarrow> True"
| "printable (JInt i) \<longleftrightarrow> True"
| "printable (JReal x) \<longleftrightarrow> x \<in> doubles"
| "printable (JArray js) \<longleftrightarrow> (\<forall>b \<in> set (map printable js). b)"
| "printable (JObject ms) \<longleftrightarrow> distinct (map fst ms) \<and> (\<forall>m \<in> set (map (map_prod id printable) ms). snd m)"

definition reads_back :: "json_dump \<Rightarrow> bool" where
  "reads_back dump \<longleftrightarrow> (\<forall>j k t. printable j \<longrightarrow> printable k \<longrightarrow> dump j = Some t \<longrightarrow> dump k = Some t \<longrightarrow>
     canon j = canon k)"

lemma reads_backD:
  "reads_back dump \<Longrightarrow> printable j \<Longrightarrow> printable k \<Longrightarrow> dump j = Some t \<Longrightarrow> dump k = Some t \<Longrightarrow> canon j = canon k"
  unfolding reads_back_def by blast

text \<open>
  Documents whose objects have the same keys in the same order wherever both have an object. For these the
  order of members carries nothing.
\<close>

inductive coherent :: "json \<Rightarrow> json \<Rightarrow> bool" where
  coherent_eq: "coherent j j"
| coherent_kinds: "canon j \<noteq> canon k \<Longrightarrow> coherent j k"
| coherent_arrays: "list_all2 coherent js ks \<Longrightarrow> coherent (JArray js) (JArray ks)"
| coherent_objects: "map fst ms = map fst ns \<Longrightarrow> distinct (map fst ms) \<Longrightarrow>
    list_all2 coherent (map snd ms) (map snd ns) \<Longrightarrow> coherent (JObject ms) (JObject ns)"

lemma sorted_members:
  assumes keys: "map fst ms = map fst ns" "distinct (map fst ms)"
    and same: "sort_key fst (map (map_prod id f) ms) = sort_key fst (map (map_prod id f) ns)"
  shows "map f (map snd ms) = map f (map snd ns)"
proof (rule nth_equalityI)
  show len: "length (map f (map snd ms)) = length (map f (map snd ns))"
    using keys(1) by (metis length_map)
  fix i assume i: "i < length (map f (map snd ms))"
  have sets: "set (map (map_prod id f) ms) = set (map (map_prod id f) ns)"
    using same by (metis set_sort)
  have "map_prod id f (ms ! i) \<in> set (map (map_prod id f) ns)"
    unfolding sets [symmetric] using i by simp
  then obtain k where k: "k < length ns" "map_prod id f (ms ! i) = map_prod id f (ns ! k)"
    by (auto simp: in_set_conv_nth)
  have "map fst ms ! i = map fst ns ! k" using i k by (cases "ms ! i"; cases "ns ! k") simp
  then have "i = k" using nth_eq_iff_index_eq [OF keys(2), of i k] keys(1) i k(1) len by simp
  then show "map f (map snd ms) ! i = map f (map snd ns) ! i"
    using k i by (cases "ms ! i"; cases "ns ! k") simp
qed

lemma coherent_canon: "coherent j k \<Longrightarrow> canon j = canon k \<Longrightarrow> j = k"
proof (induction rule: coherent.induct)
  case (coherent_arrays js ks)
  then have "list_all2 (\<lambda>j k. j = k) js ks"
    by (auto simp: list_all2_conv_all_nth list_eq_iff_nth_eq)
  then show ?case by (simp add: list.rel_eq)
next
  case (coherent_objects ms ns)
  have "map canon (map snd ms) = map canon (map snd ns)"
    by (rule sorted_members) (use coherent_objects in simp_all)
  with coherent_objects(3) have "map snd ms = map snd ns"
    by (auto simp: list_all2_conv_all_nth list_eq_iff_nth_eq)
  with coherent_objects(1) show ?case by (metis zip_map_fst_snd)
qed simp_all

section \<open>The documents of the program\<close>

lemma coherent_array:
  assumes "\<And>x y. coherent (f x) (f y)"
  shows "coherent (JArray (map f xs)) (JArray (map f ys))"
proof (cases "length xs = length ys")
  case True
  then show ?thesis using assms by (intro coherent_arrays) (simp add: list_all2_conv_all_nth)
next
  case False
  then show ?thesis by (intro coherent_kinds) (auto dest: map_eq_imp_length_eq)
qed

lemma coherent_atomic: "canon j = j \<Longrightarrow> canon k = k \<Longrightarrow> coherent j k"
  by (cases "j = k") (auto intro: coherent_eq coherent_kinds)

lemma coherent_atoms [intro]:
  "coherent (JString s) (JString t)" "coherent (JInt m) (JInt n)" "coherent (JReal x) (JReal y)"
  "coherent (optionalString u) (optionalString v)" "coherent (optionalReal a) (optionalReal b)"
  "coherent (optionalPid p) (optionalPid q)"
  by (auto simp: optionalString_def optionalReal_def optionalPid_def intro!: coherent_atomic split: option.split)

lemma coherent_endpoint: "coherent (endpointValue a) (endpointValue b)"
  unfolding endpointValue_def by (rule coherent_objects) auto

lemma coherent_remote:
  "coherent (case a of None \<Rightarrow> JNull | Some e \<Rightarrow> endpointValue e) (case b of None \<Rightarrow> JNull | Some e \<Rightarrow> endpointValue e)"
proof -
  have "canon (endpointValue e) \<noteq> canon JNull" "canon JNull \<noteq> canon (endpointValue e)" for e
    by (simp_all add: endpointValue_def)
  then show ?thesis
    by (cases a; cases b) (auto intro: coherent_endpoint coherent_eq coherent_kinds)
qed

lemma coherent_socket: "coherent (socketValue a) (socketValue b)"
  unfolding socketValue_def
  by (rule coherent_objects) (auto intro: coherent_endpoint coherent_remote coherent_array)

lemma coherent_process: "coherent (processValue p r) (processValue q r')"
  unfolding processValue_def by (rule coherent_objects) (auto intro: coherent_array)

lemma coherent_port: "coherent (portValue p) (portValue q)"
  unfolding portValue_def
  by (rule coherent_objects) (auto intro: coherent_socket coherent_array coherent_process)

lemma coherent_service: "coherent (serviceValue a) (serviceValue b)"
  unfolding serviceValue_def by (rule coherent_objects) auto

lemma coherent_warnings: "coherent (warningValues ws) (warningValues vs)"
proof -
  have "coherent (warningValue w) (warningValue v)" for w v
    unfolding warningValue_def by (rule coherent_objects) auto
  then show ?thesis unfolding warningValues_def by (rule coherent_array)
qed

lemma coherent_envelope:
  assumes "coherent d e"
  shows "coherent (envelope c oper d ws) (envelope c' oper' e ws')"
  unfolding envelope_def by (rule coherent_objects) (use assms in \<open>auto intro: coherent_warnings\<close>)

text \<open>All of them can be printed, where what was measured are doubles.\<close>

definition measured :: "PortInfo list Observation \<Rightarrow> bool" where
  "measured ob \<longleftrightarrow> (\<forall>port \<in> set (ob_value ob). \<forall>owner \<in> set (po_owners port). \<forall>x.
     pi_cpuPercent owner = Some x \<longrightarrow> x \<in> doubles)"

lemma printable_warnings: "printable (warningValues ws)"
  by (auto simp: warningValues_def warningValue_def)

lemma printable_atoms [simp]: "printable (optionalString s)" "printable (optionalPid p)"
  by (simp_all add: optionalString_def optionalPid_def split: option.split)

lemma printable_services:
  "printable (envelope c oper (JObject [(k, JArray (map serviceValue xs))]) ws)"
  by (auto simp: envelope_def serviceValue_def printable_warnings)

lemma printable_ports:
  assumes "measured ob"
  shows "printable (envelope c oper (JObject [(k, JArray (map portValue (ob_value ob)))]) ws)"
proof -
  have endpoint: "printable (endpointValue e)" for e by (simp add: endpointValue_def)
  then have "printable (socketValue socket)" for socket
    by (auto simp: socketValue_def split: option.split)
  moreover have "printable (processValue owner False)"
    if "port \<in> set (ob_value ob)" "owner \<in> set (po_owners port)" for port owner
    using assms that
    by (auto simp: measured_def processValue_def optionalReal_def split: option.split)
  ultimately have "printable (portValue port)" if "port \<in> set (ob_value ob)" for port
    using that by (auto simp: portValue_def)
  then show ?thesis by (auto simp: envelope_def printable_warnings)
qed

section \<open>A writer\<close>

text \<open>
  Each value starts with a letter for its kind; strings and lists write a mark before each element and one
  after the last. No text is then the beginning of another.
\<close>

definition text_list :: "string list \<Rightarrow> string" where
  "text_list es = concat (map (\<lambda>e. CHR ''x'' # e) es) @ ''.''"

definition text_string :: "string \<Rightarrow> string" where
  "text_string s = text_list (map (\<lambda>c. [c]) s)"

primrec json_text :: "json \<Rightarrow> string" where
  "json_text JNull = ''n''"
| "json_text (JString s) = CHR ''s'' # text_string s"
| "json_text (JInt i) = CHR ''i'' # text_string (int_str i)"
| "json_text (JReal x) = CHR ''r'' # text_string (int_str \<lfloor>x * scale\<rfloor>)"
| "json_text (JArray js) = CHR ''a'' # text_list (map json_text js)"
| "json_text (JObject ms) =
     CHR ''o'' # text_list (map (\<lambda>m. text_string (fst m) @ snd m) (map (map_prod id json_text) ms))"

definition sorted_writer :: json_dump where
  "sorted_writer j = Some (json_text (canon j))"

definition prefix_free :: "('a \<Rightarrow> string) \<Rightarrow> 'a set \<Rightarrow> 'a set \<Rightarrow> bool" where
  "prefix_free f A B \<longleftrightarrow> (\<forall>a \<in> A. \<forall>b \<in> B. \<forall>r r'. f a @ r = f b @ r' \<longrightarrow> a = b \<and> r = r')"

lemma prefix_freeD: "prefix_free f A B \<Longrightarrow> a \<in> A \<Longrightarrow> b \<in> B \<Longrightarrow> f a @ r = f b @ r' \<Longrightarrow> a = b \<and> r = r'"
  unfolding prefix_free_def by blast

lemma prefix_free_subset: "prefix_free f A B \<Longrightarrow> A' \<subseteq> A \<Longrightarrow> B' \<subseteq> B \<Longrightarrow> prefix_free f A' B'"
  unfolding prefix_free_def by blast

lemma text_list_inject:
  "prefix_free f (set xs) (set ys) \<Longrightarrow> text_list (map f xs) @ r = text_list (map f ys) @ r' \<Longrightarrow> xs = ys \<and> r = r'"
proof (induction xs arbitrary: ys)
  case Nil
  then show ?case by (cases ys) (simp_all add: text_list_def)
next
  case (Cons x xs)
  then obtain y zs where ys: "ys = y # zs" by (cases ys) (simp_all add: text_list_def)
  have "f x @ (text_list (map f xs) @ r) = f y @ (text_list (map f zs) @ r')"
    using Cons.prems(2) by (simp add: ys text_list_def)
  from prefix_freeD [OF Cons.prems(1) _ _ this]
  have x: "x = y \<and> text_list (map f xs) @ r = text_list (map f zs) @ r'" by (simp add: ys)
  have "prefix_free f (set xs) (set zs)"
    by (rule prefix_free_subset [OF Cons.prems(1)]) (auto simp: ys)
  from Cons.IH [OF this] x show ?case by (simp add: ys)
qed

lemma text_string_inject: "text_string s @ r = text_string t @ r' \<Longrightarrow> s = t \<and> r = r'"
  unfolding text_string_def by (rule text_list_inject) (auto simp: prefix_free_def)

lemma int_str_inject: "int_str i = int_str j \<Longrightarrow> i = j"
proof -
  have "CHR ''-'' # s \<noteq> nat_str n" "nat_str n \<noteq> CHR ''-'' # s" for s n
    using nat_str_digits [of "CHR ''-''" n] by (auto simp: isdigit_def dest: sym)
  then show "int_str i = int_str j \<Longrightarrow> i = j"
    by (auto simp: int_str_def split: if_split_asm)
qed

lemma scale_nonzero: "scale \<noteq> 0"
  unfolding scale_def by (rule power_not_zero) simp

lemma doubles_inject:
  assumes "\<lfloor>x * scale\<rfloor> = \<lfloor>y * scale\<rfloor>" "x \<in> doubles" "y \<in> doubles"
  shows "x = y"
proof -
  have "real_of_int \<lfloor>z * scale\<rfloor> = z * scale" if "z \<in> doubles" for z
  proof -
    from that obtain m :: int and e :: nat where "z = real_of_int m * 2 ^ e / scale"
      unfolding doubles_def by blast
    then have "z * scale = real_of_int (m * 2 ^ e)" using scale_nonzero by simp
    then show ?thesis by (metis floor_of_int)
  qed
  with assms have "x * scale = y * scale" by metis
  then show ?thesis using scale_nonzero by simp
qed

lemma json_text_inject:
  "printable j \<Longrightarrow> printable k \<Longrightarrow> json_text j @ r = json_text k @ r' \<Longrightarrow> j = k \<and> r = r'"
proof (induction j arbitrary: k r r')
  case JNull
  then show ?case by (cases k) simp_all
next
  case (JString s)
  then show ?case by (cases k) (auto dest: text_string_inject)
next
  case (JInt i)
  then show ?case by (cases k) (auto dest!: text_string_inject int_str_inject)
next
  case (JReal x)
  then show ?case by (cases k) (auto dest!: text_string_inject int_str_inject intro: doubles_inject)
next
  case (JArray js)
  then obtain ks where k: "k = JArray ks" by (cases k) simp_all
  have "\<forall>j \<in> set js. printable j" "\<forall>j \<in> set ks. printable j" using JArray.prems(1,2) k by simp_all
  then have "prefix_free json_text (set js) (set ks)"
    unfolding prefix_free_def using JArray.IH by blast
  from text_list_inject [OF this] show ?case using JArray.prems(3) k by simp
next
  case (JObject ms)
  then obtain ns where k: "k = JObject ns" by (cases k) simp_all
  let ?f = "\<lambda>m. text_string (fst m) @ json_text (snd m)"
  have "m = n \<and> r = r'" if "m \<in> set ms" "n \<in> set ns" "?f m @ r = ?f n @ r'" for m n r r'
  proof -
    have keys: "fst m = fst n \<and> json_text (snd m) @ r = json_text (snd n) @ r'"
      by (rule text_string_inject) (use that(3) in simp)
    have "printable (snd m)" "printable (snd n)"
      using JObject.prems(1,2) that(1,2) k by auto
    moreover have "snd m \<in> Basic_BNFs.snds m" by (cases m) simp
    ultimately have "snd m = snd n \<and> r = r'" using JObject.IH [OF that(1)] keys by blast
    with keys show ?thesis by (simp add: prod_eq_iff)
  qed
  then have "prefix_free ?f (set ms) (set ns)" unfolding prefix_free_def by blast
  from text_list_inject [OF this] show ?case using JObject.prems(3) k by (simp add: comp_def)
qed

lemma printable_canon: "printable j \<Longrightarrow> printable (canon j)"
proof (induction j)
  case (JObject ms)
  have "map fst (map (map_prod id canon) ms) = map fst ms" by simp
  then have "distinct (map fst (sort_key fst (map (map_prod id canon) ms)))"
    using JObject.prems by (metis distinct_map distinct_sort printable.simps(6) set_sort)
  moreover have "printable (canon (snd m))" if "m \<in> set ms" for m
    using JObject that by (cases m) auto
  ultimately show ?case by auto
qed auto

lemma sorted_writer_reads_back: "reads_back sorted_writer"
  unfolding reads_back_def sorted_writer_def
  using json_text_inject [of _ _ "[]" "[]"] printable_canon by fastforce

section \<open>Properties\<close>

text \<open>
  C32. The documents say exactly what was observed but for the secrets in command lines: where the text of a
  document determines it up to the order of its members, and what was measured are doubles, two lists of
  services give the same text only if they and their warnings are equal, and two lists of ports give
  the same text if and only if they agree in their sockets, in everything about the owners except
  the values of secret keys, in the warnings and in the operation.
\<close>

theorem JsonSerializer_documents_faithful:
  assumes "reads_back dump" and "measured c" and "measured d"
    and "JsonSerializer_services dump a = Some t" and "JsonSerializer_services dump b = Some u"
    and "JsonSerializer_ports dump c oper = Some v" and "JsonSerializer_ports dump d oper' = Some w"
  shows "(t = u \<longleftrightarrow> a = b) \<and>
    (v = w \<longleftrightarrow> list_all2 same_port (ob_value c) (ob_value d) \<and> ob_warnings c = ob_warnings d \<and>
      oper = oper')"
proof (intro conjI iffI)
  assume "t = u"
  let ?doc = "\<lambda>x. envelope ''service'' ''list'' (JObject [(''services'', JArray (map serviceValue (ob_value x)))])
    (ob_warnings x)"
  have "coherent (?doc a) (?doc b)"
    by (intro coherent_envelope coherent_objects) (auto intro: coherent_array coherent_service)
  moreover have "canon (?doc a) = canon (?doc b)"
    using reads_backD [OF assms(1) printable_services printable_services] assms(4,5) \<open>t = u\<close>
    unfolding JsonSerializer_services_def by blast
  ultimately have "?doc a = ?doc b" by (rule coherent_canon)
  then show "a = b"
    by (simp add: envelope_def map_eq_map_list_all2 [where R = "(=)"] list.rel_eq)
next
  assume "v = w"
  let ?doc = "\<lambda>x oper. envelope ''port'' oper (JObject [(''ports'', JArray (map portValue (ob_value x)))])
    (ob_warnings x)"
  have "coherent (?doc c oper) (?doc d oper')"
    by (intro coherent_envelope coherent_objects) (auto intro: coherent_array coherent_port)
  moreover have "canon (?doc c oper) = canon (?doc d oper')"
    using reads_backD [OF assms(1) printable_ports [OF assms(2)] printable_ports [OF assms(3)]] assms(6,7) \<open>v = w\<close>
    unfolding JsonSerializer_ports_def by blast
  ultimately have "?doc c oper = ?doc d oper'" by (rule coherent_canon)
  then show "list_all2 same_port (ob_value c) (ob_value d)" "ob_warnings c = ob_warnings d" "oper = oper'"
    by (simp_all add: envelope_def map_eq_map_list_all2 [OF portValue_iff])
next
  assume "list_all2 same_port (ob_value c) (ob_value d) \<and> ob_warnings c = ob_warnings d \<and> oper = oper'"
  then have "map portValue (ob_value c) = map portValue (ob_value d)" "ob_warnings c = ob_warnings d"
      "oper = oper'"
    by (simp_all add: map_eq_map_list_all2 [OF portValue_iff])
  with assms(6,7) show "v = w" by (simp add: JsonSerializer_ports_def)
qed (use assms(4,5) in simp)

text \<open>A port whose owner is given a password, written with the writer above.\<close>

definition demo_owner :: "string \<Rightarrow> PortInfo list Observation" where
  "demo_owner password =
     \<lparr>ob_value = [\<lparr>po_socket = \<lparr>so_protocol = Tcp, so_family = IPv4,
          so_local = \<lparr>ep_address = ''0.0.0.0'', ep_port = 80\<rparr>, so_remote = None, so_state = ''LISTEN'',
          so_uid = 0, so_inode = 7, so_ownerPids = [42]\<rparr>,
        po_owners = [default_ProcessInfo\<lparr>pi_pid := 42, pi_argv := [''db'', ''--password'', password]\<rparr>]\<rparr>],
      ob_warnings = []\<rparr>"

theorem JsonSerializer_documents_faithful_witness:
  "list_all2 same_port (ob_value (demo_owner ''hunter2'')) (ob_value (demo_owner ''letmein'')) \<and>
   JsonSerializer_services sorted_writer \<lparr>ob_value = [], ob_warnings = []\<rparr> \<noteq>
   JsonSerializer_services sorted_writer \<lparr>ob_value = [default_ServiceInfo], ob_warnings = []\<rparr>"
proof -
  have "same_but_secrets [''db'', ''--password'', ''hunter2''] [''db'', ''--password'', ''letmein'']"
    unfolding arguments_exact [symmetric] by code_simp
  then have "map portValue (ob_value (demo_owner ''hunter2'')) = map portValue (ob_value (demo_owner ''letmein''))"
    by (simp add: demo_owner_def portValue_iff same_port_def same_process_def)
  then have same: "JsonSerializer_ports sorted_writer (demo_owner ''hunter2'') oper =
      JsonSerializer_ports sorted_writer (demo_owner ''letmein'') oper" for oper
    by (simp add: JsonSerializer_ports_def demo_owner_def)
  have measured: "measured (demo_owner p)" for p
    by (simp add: measured_def demo_owner_def default_ProcessInfo_def)
  obtain v where v: "JsonSerializer_ports sorted_writer (demo_owner ''letmein'') ''list'' = Some v"
    by (simp add: JsonSerializer_ports_def sorted_writer_def)
  obtain t where t: "JsonSerializer_services sorted_writer \<lparr>ob_value = [], ob_warnings = []\<rparr> = Some t"
    by (simp add: JsonSerializer_services_def sorted_writer_def)
  obtain u where u: "JsonSerializer_services sorted_writer \<lparr>ob_value = [default_ServiceInfo], ob_warnings = []\<rparr> = Some u"
    by (simp add: JsonSerializer_services_def sorted_writer_def)
  from JsonSerializer_documents_faithful [OF sorted_writer_reads_back measured measured t u
      v [folded same] v] show ?thesis
    using t u by simp
qed

end
