(* ===== verification/JsonSchema.thy ===== *)
theory JsonSchema
  imports CliApp
begin

text \<open>
  The public interface of the JSON output, \<open>docs/json-schema-v1.md\<close>, as types of documents, and that the
  program keeps to it: each document the serializer builds has the type that is documented for its command,
  and a run with \<open>--json\<close> answers with one such document.
\<close>

section \<open>Types of documents\<close>

text \<open>\<open>TUint n\<close> are the integers of an unsigned \<open>n\<close>-bit member and \<open>TText\<close> the strings; \<open>TEnum\<close> are the names of
  an enum. An object has the members listed and no others.\<close>

datatype json_type = TText | TInt | TUint nat | TNumber | TEnum "string list" | TOptional json_type
  | TArray json_type | TObject "(string \<times> json_type) list"

fun conforms :: "json_type \<Rightarrow> json \<Rightarrow> bool"
  and conforms_members :: "(string \<times> json_type) list \<Rightarrow> (string \<times> json) list \<Rightarrow> bool" where
  "conforms TText v = (case v of JString _ \<Rightarrow> True | _ \<Rightarrow> False)"
| "conforms TInt v = (case v of JInt _ \<Rightarrow> True | _ \<Rightarrow> False)"
| "conforms (TUint n) v = (case v of JInt i \<Rightarrow> 0 \<le> i \<and> i < 2 ^ n | _ \<Rightarrow> False)"
| "conforms TNumber v = (case v of JReal _ \<Rightarrow> True | _ \<Rightarrow> False)"
| "conforms (TEnum names) v = (case v of JString s \<Rightarrow> s \<in> set names | _ \<Rightarrow> False)"
| "conforms (TOptional t) v = (v = JNull \<or> conforms t v)"
| "conforms (TArray t) v = (case v of JArray vs \<Rightarrow> list_all (conforms t) vs | _ \<Rightarrow> False)"
| "conforms (TObject members) v = (case v of JObject ms \<Rightarrow> conforms_members members ms | _ \<Rightarrow> False)"
| "conforms_members [] ms = (ms = [])"
| "conforms_members ((name, t) # rest) ms =
     (case ms of [] \<Rightarrow> False | (n, v) # ms' \<Rightarrow> n = name \<and> conforms t v \<and> conforms_members rest ms')"

text \<open>The names of the error codes, with the exit status that the manual page gives for them.\<close>

definition documented_errors :: "(string \<times> int) list" where
  "documented_errors =
     [(''invalid_argument'', 2), (''not_found'', 3), (''permission_denied'', 4), (''unsupported'', 6),
      (''unavailable'', 6), (''io_error'', 5), (''protocol_error'', 5), (''parse_error'', 5),
      (''operation_failed'', 5), (''timeout'', 8), (''conflict'', 7), (''interrupted'', 130)]"

definition code_names :: "string list" where
  "code_names = map fst documented_errors"

definition error_type :: json_type where
  "error_type = TObject [(''code'', TEnum code_names), (''message'', TText), (''system_error'', TInt),
     (''component'', TText), (''operation'', TText)]"

definition process_type :: json_type where
  "process_type = TObject
     [(''pid'', TInt), (''ppid'', TInt), (''name'', TText), (''state'', TText), (''uid'', TUint 32),
      (''gid'', TUint 32), (''user'', TText), (''executable'', TOptional TText), (''cwd'', TOptional TText),
      (''argv'', TArray TText), (''rss_bytes'', TUint 64), (''threads'', TUint 32),
      (''cpu_percent'', TOptional TNumber), (''systemd_unit'', TOptional TText)]"

definition endpoint_type :: json_type where
  "endpoint_type = TObject [(''address'', TText), (''port'', TUint 16)]"

definition port_type :: json_type where
  "port_type = TObject
     [(''socket'', TObject
        [(''protocol'', TEnum [''tcp'', ''udp'']), (''family'', TEnum [''ipv4'', ''ipv6'']),
         (''local'', endpoint_type), (''remote'', TOptional endpoint_type), (''state'', TText),
         (''uid'', TUint 32), (''inode'', TUint 64), (''owner_pids'', TArray TInt)]),
      (''owners'', TArray process_type)]"

definition service_type :: json_type where
  "service_type = TObject
     [(''unit_name'', TText), (''description'', TText), (''load_state'', TText), (''active_state'', TText),
      (''sub_state'', TText), (''unit_file_state'', TText), (''main_pid'', TOptional TInt),
      (''active_enter_timestamp_usec'', TUint 64)]"

definition entry_type :: json_type where
  "entry_type = TObject
     [(''timestamp_unix_usec'', TInt), (''cursor'', TText), (''systemd_unit'', TOptional TText),
      (''pid'', TOptional TInt), (''command'', TOptional TText), (''message'', TText),
      (''priority'', TOptional (TUint 8))]"

definition check_type :: json_type where
  "check_type = TObject [(''name'', TText), (''status'', TEnum [''available'', ''unavailable'', ''not_implemented'']),
     (''detail'', TText)]"

definition status_type :: json_type where
  "status_type = TObject
     [(''hostname'', TText), (''cpu_percent'', TOptional TNumber), (''memory_total_bytes'', TUint 64),
      (''memory_used_bytes'', TUint 64), (''uptime_milliseconds'', TInt)]"

text \<open>The root of an inspection is a port, a process id or a unit.\<close>

definition root_types :: "json_type list" where
  "root_types =
     [TObject [(''type'', TEnum [''port'']), (''value'', TUint 16)],
      TObject [(''type'', TEnum [''pid'']), (''value'', TInt)],
      TObject [(''type'', TEnum [''service'']), (''value'', TText)]]"

text \<open>The table of the documentation: command, operation and the type of the data.\<close>

definition documented :: "(string \<times> string \<times> json_type) list" where
  "documented =
     [(''doctor'', ''inspect'', TObject [(''checks'', TArray check_type)]),
      (''status'', ''read'', TObject [(''status'', status_type)]),
      (''process'', ''list'', TObject [(''processes'', TArray process_type)]),
      (''process'', ''inspect'', TObject [(''process'', process_type)]),
      (''port'', ''list'', TObject [(''ports'', TArray port_type)]),
      (''port'', ''inspect'', TObject [(''ports'', TArray port_type)]),
      (''service'', ''list'', TObject [(''services'', TArray service_type)]),
      (''service'', ''inspect'', TObject [(''service'', service_type)]),
      (''log'', ''read'', TObject [(''entries'', TArray entry_type)]),
      (''log'', ''follow'', TObject [(''entry'', entry_type)])] @
     map (\<lambda>root. (''inspect'', ''inspect'', TObject
        [(''root'', root), (''ports'', TArray port_type), (''processes'', TArray process_type),
         (''services'', TArray service_type), (''recent_logs'', TArray entry_type)])) root_types @
     [(''find'', ''search'', TObject
        [(''services'', TArray service_type), (''processes'', TArray process_type),
         (''ports'', TArray port_type), (''executables'', TArray TText)])]"

definition success_type :: "string \<Rightarrow> string \<Rightarrow> json_type \<Rightarrow> json_type" where
  "success_type command operation data = TObject
     [(''schema_version'', TInt), (''command'', TEnum [command]), (''operation'', TEnum [operation]),
      (''data'', data), (''warnings'', TArray error_type)]"

definition failure_type :: "string list \<Rightarrow> string \<Rightarrow> json_type" where
  "failure_type commands code = TObject
     [(''schema_version'', TInt), (''command'', TEnum commands), (''operation'', TText),
      (''error'', TObject [(''code'', TEnum [code]), (''message'', TText), (''system_error'', TInt),
         (''component'', TText), (''operation'', TText)])]"

section \<open>The values of the domain have their types\<close>

lemma conforms_array: "(\<And>v. v \<in> set vs \<Longrightarrow> conforms t (f v)) \<Longrightarrow> conforms (TArray t) (JArray (map f vs))"
  by (simp add: list_all_iff)

lemma conforms_word: "conforms (TUint LENGTH('a)) (JInt (uint (x :: 'a::len word)))"
  by simp

lemma conforms_optional:
  "conforms (TOptional TText) (optionalString s)" "conforms (TOptional TInt) (optionalPid p)"
  "conforms (TOptional TNumber) (optionalReal r)"
  by (simp_all add: optionalString_def optionalPid_def optionalReal_def split: option.split)

lemma conforms_words [simp]:
  "uint (x8 :: u8) < 256" "uint (x16 :: u16) < 65536" "uint (x32 :: u32) < 4294967296"
  "uint (x64 :: u64) < 18446744073709551616"
  using conforms_word [of x8] conforms_word [of x16] conforms_word [of x32] conforms_word [of x64] by simp_all

lemma errorCodeName_documented: "(errorCodeName c, exitCode c) \<in> set documented_errors"
  by (cases c) (simp_all add: errorCodeName_def exitCode_def documented_errors_def)

lemma errorCodeName_in: "errorCodeName c \<in> set code_names"
  unfolding code_names_def using errorCodeName_documented by force

lemma conforms_warnings: "conforms (TArray error_type) (warningValues ws)"
  unfolding warningValues_def
  by (rule conforms_array) (simp add: warningValue_def error_type_def errorCodeName_in)

lemmas optional_defs = optionalString_def optionalPid_def optionalReal_def

lemma conforms_process: "conforms process_type (processValue p raw)"
  by (simp add: process_type_def processValue_def optional_defs list_all_iff split: option.split)

lemma conforms_endpoint: "conforms endpoint_type (endpointValue e)"
  by (simp add: endpoint_type_def endpointValue_def)

lemma conforms_port: "conforms port_type (portValue p)"
proof -
  have "conforms (TArray process_type) (JArray (map (\<lambda>owner. processValue owner False) (po_owners p)))"
    by (rule conforms_array) (rule conforms_process)
  then show ?thesis
    by (simp add: port_type_def portValue_def socketValue_def conforms_endpoint list_all_iff
        split: option.split)
qed

lemma conforms_service: "conforms service_type (serviceValue s)"
  by (simp add: service_type_def serviceValue_def optional_defs split: option.split)

lemma conforms_entry: "conforms entry_type (journalValue e)"
  by (simp add: entry_type_def journalValue_def optional_defs split: option.split)

lemma conforms_lists:
  "conforms (TArray process_type) (JArray (map (\<lambda>p. processValue p raw) ps))"
  "conforms (TArray port_type) (JArray (map portValue qs))"
  "conforms (TArray service_type) (JArray (map serviceValue ss))"
  "conforms (TArray entry_type) (JArray (map journalValue es))"
  by (intro conforms_array conforms_process conforms_port conforms_service conforms_entry)+

lemma conforms_check:
  "conforms check_type (JObject [(''name'', JString (cc_name c)),
     (''status'', JString (capabilityName (cc_status c))), (''detail'', JString (cc_detail c))])"
  by (cases "cc_status c") (simp_all add: check_type_def capabilityName_def)

lemma conforms_root: "\<exists>t\<in>set root_types. conforms t (resourceTargetValue target)"
  by (cases target) (simp_all add: root_types_def resourceTargetValue_def)

section \<open>Answers\<close>

text \<open>
  An answer to one of some commands is a document and an exit code: a document of the table with exit
  code 0, or the document of an error with the exit code documented for its kind. Both carry version 1
  of the schema and the name of one of the commands.
\<close>

fun schema_version_of :: "json \<Rightarrow> json" where
  "schema_version_of (JObject ((name, v) # _)) = (if name = ''schema_version'' then v else JNull)"
| "schema_version_of _ = JNull"

definition valid_answer :: "string list \<Rightarrow> json \<Rightarrow> int \<Rightarrow> bool" where
  "valid_answer commands d c \<longleftrightarrow> schema_version_of d = JInt 1 \<and>
     ((c = 0 \<and> (\<exists>(command, operation, t) \<in> set documented.
         command \<in> set commands \<and> conforms (success_type command operation t) d)) \<or>
      (\<exists>(code, status) \<in> set documented_errors. c = status \<and> conforms (failure_type commands code) d))"

lemma valid_envelope:
  assumes "(command, operation, t) \<in> set documented" and "conforms t data" and "command \<in> set commands"
  shows "valid_answer commands (envelope command operation data ws) 0"
proof -
  have "conforms (success_type command operation t) (envelope command operation data ws)"
    using assms(2) conforms_warnings by (simp add: success_type_def envelope_def)
  then show ?thesis
    using assms(1,3) by (auto simp: valid_answer_def envelope_def schemaVersion_def)
qed

definition error_document :: "string \<Rightarrow> string \<Rightarrow> Error \<Rightarrow> json" where
  "error_document command operation e = JObject
     [(''schema_version'', JInt schemaVersion), (''command'', JString command),
      (''operation'', JString operation), (''error'', errorValue e)]"

lemma valid_error:
  "command \<in> set commands \<Longrightarrow>
   valid_answer commands (error_document command operation e) (exitCode (er_code e))"
proof -
  assume "command \<in> set commands"
  then have "conforms (failure_type commands (errorCodeName (er_code e))) (error_document command operation e)"
    by (simp add: error_document_def failure_type_def errorValue_def)
  then show ?thesis
    using errorCodeName_documented [of "er_code e"]
    by (auto simp: valid_answer_def error_document_def schemaVersion_def)
qed

text \<open>The rows of the table.\<close>

lemma documented_rows:
  "(''doctor'', ''inspect'', TObject [(''checks'', TArray check_type)]) \<in> set documented"
  "(''status'', ''read'', TObject [(''status'', status_type)]) \<in> set documented"
  "(''process'', ''list'', TObject [(''processes'', TArray process_type)]) \<in> set documented"
  "(''process'', ''inspect'', TObject [(''process'', process_type)]) \<in> set documented"
  "(''port'', ''list'', TObject [(''ports'', TArray port_type)]) \<in> set documented"
  "(''port'', ''inspect'', TObject [(''ports'', TArray port_type)]) \<in> set documented"
  "(''service'', ''list'', TObject [(''services'', TArray service_type)]) \<in> set documented"
  "(''service'', ''inspect'', TObject [(''service'', service_type)]) \<in> set documented"
  "(''log'', ''read'', TObject [(''entries'', TArray entry_type)]) \<in> set documented"
  "(''log'', ''follow'', TObject [(''entry'', entry_type)]) \<in> set documented"
  "rt \<in> set root_types \<Longrightarrow> (''inspect'', ''inspect'', TObject
     [(''root'', rt), (''ports'', TArray port_type), (''processes'', TArray process_type),
      (''services'', TArray service_type), (''recent_logs'', TArray entry_type)]) \<in> set documented"
  "(''find'', ''search'', TObject [(''services'', TArray service_type), (''processes'', TArray process_type),
     (''ports'', TArray port_type), (''executables'', TArray TText)]) \<in> set documented"
  unfolding documented_def by simp_all

lemma conforms_one: "conforms t v \<Longrightarrow> conforms (TObject [(name, t)]) (JObject [(name, v)])"
  by simp

lemma conforms_status:
  "conforms status_type (JObject
     [(''hostname'', JString (hs_hostname h)), (''cpu_percent'', optionalReal (hs_cpuPercent h)),
      (''memory_total_bytes'', JInt (uint (hs_memoryTotalBytes h))),
      (''memory_used_bytes'', JInt (uint (hs_memoryUsedBytes h))),
      (''uptime_milliseconds'', JInt (hs_uptime h))])"
  by (simp add: status_type_def optional_defs split: option.split)

lemmas conforms_values = conforms_one conforms_array conforms_check conforms_status conforms_process
  conforms_port conforms_service conforms_entry

text \<open>Each function of the serializer writes an answer.\<close>

definition serializes :: "string list \<Rightarrow> json_dump \<Rightarrow> string option \<Rightarrow> int \<Rightarrow> bool" where
  "serializes commands dump written c \<longleftrightarrow> (\<exists>d. valid_answer commands d c \<and> written = dump d)"

lemma serializes_envelope:
  "(command, operation, t) \<in> set documented \<Longrightarrow> conforms t data \<Longrightarrow> command \<in> set commands \<Longrightarrow>
   serializes commands dump (dump (envelope command operation data ws)) 0"
  unfolding serializes_def using valid_envelope by blast

lemma serializes_inspect: "''inspect'' \<in> set cs \<Longrightarrow> serializes cs dump (JsonSerializer_inspect dump graph) 0"
proof -
  assume inspect: "''inspect'' \<in> set cs"
  obtain t where t: "t \<in> set root_types" "conforms t (resourceTargetValue (rg_root graph))"
    using conforms_root by blast
  then show ?thesis
    unfolding JsonSerializer_inspect_def portValues_def processValues_def serviceValues_def journalValues_def
    by (intro serializes_envelope [OF documented_rows(11) [OF t(1)] _ inspect])
       (simp add: list_all_iff conforms_process conforms_port conforms_service conforms_entry)
qed

lemma serializes_documents:
  "''doctor'' \<in> set cs \<Longrightarrow> serializes cs dump (JsonSerializer_doctor dump report) 0"
  "''status'' \<in> set cs \<Longrightarrow> serializes cs dump (JsonSerializer_status dump status) 0"
  "''process'' \<in> set cs \<Longrightarrow> serializes cs dump (JsonSerializer_processes dump ps) 0"
  "''process'' \<in> set cs \<Longrightarrow> serializes cs dump (JsonSerializer_process dump p raw) 0"
  "''port'' \<in> set cs \<Longrightarrow> serializes cs dump (JsonSerializer_ports dump qs ''list'') 0"
  "''port'' \<in> set cs \<Longrightarrow> serializes cs dump (JsonSerializer_ports dump qs ''inspect'') 0"
  "''service'' \<in> set cs \<Longrightarrow> serializes cs dump (JsonSerializer_services dump ss) 0"
  "''service'' \<in> set cs \<Longrightarrow> serializes cs dump (JsonSerializer_service dump sv) 0"
  "''log'' \<in> set cs \<Longrightarrow> serializes cs dump (JsonSerializer_logs dump es) 0"
  "''log'' \<in> set cs \<Longrightarrow> serializes cs dump (JsonSerializer_logEvent dump e) 0"
  "''find'' \<in> set cs \<Longrightarrow> serializes cs dump (JsonSerializer_find dump found) 0"
  unfolding document_defs JsonSerializer_logEvent_def portValues_def processValues_def serviceValues_def
  by ((rule serializes_envelope, (rule documented_rows)),
     (intro conforms_values |
      simp add: list_all_iff conforms_process conforms_port conforms_service conforms_entry)+)+

lemma serializes_error:
  "command \<in> set cs \<Longrightarrow>
   serializes cs dump (JsonSerializer_error dump command operation e) (exitCode (er_code e))"
  unfolding serializes_def JsonSerializer_error_def using valid_error
  by (metis error_document_def)

section \<open>A run with \<open>--json\<close>\<close>

text \<open>
  The same environment with other standard streams. A run \<open>m\<close>, as a function of the streams, answers in
  JSON if a program that cannot use the streams computes the document and the exit code, and then either
  the document cannot be written and the run ends with the exception, or the document is written to the
  standard output as a line, nothing else is written to either stream and the run ends with the exit code.
\<close>

definition withStreams ::
  "(string \<Rightarrow> ('w, unit) io) \<Rightarrow> (string \<Rightarrow> ('w, unit) io) \<Rightarrow> 'w CliEnv \<Rightarrow> 'w CliEnv" where
  "withStreams out err E = E\<lparr>en_console := (en_console E)\<lparr>cn_output := out, cn_error := err\<rparr>\<rparr>"

definition writeAnswer ::
  "json_dump \<Rightarrow> (string \<Rightarrow> ('w, unit) io) \<Rightarrow> json \<times> int \<Rightarrow> ('w, cli_outcome) io" where
  "writeAnswer dump out answer =
     (case dump (fst answer) of
        None \<Rightarrow> return Throws
      | Some line \<Rightarrow> do { _ \<leftarrow> out (line @ ''\<newline>''); return (Exits (snd answer)) })"

definition answers_json :: "string list \<Rightarrow> json_dump \<Rightarrow>
    ((string \<Rightarrow> ('w, unit) io) \<Rightarrow> (string \<Rightarrow> ('w, unit) io) \<Rightarrow> ('w, cli_outcome) io) \<Rightarrow> bool" where
  "answers_json cs dump m \<longleftrightarrow>
     (\<exists>reply. yields (\<lambda>(d, c). valid_answer cs d c) reply \<and>
        (\<forall>out err. m out err = State_Monad.bind reply (writeAnswer dump out)))"

named_theorems answer_intros \<open>syntax-directed rules for programs that answer in JSON\<close>

lemma answers_bind [answer_intros]:
  assumes "\<And>x. answers_json cs dump (\<lambda>out err. f out err x)"
  shows "answers_json cs dump (\<lambda>out err. State_Monad.bind m (f out err))"
proof -
  obtain reply where reply: "\<And>x. yields (\<lambda>(d, c). valid_answer cs d c) (reply x)"
      "\<And>x out err. f out err x = State_Monad.bind (reply x) (writeAnswer dump out)"
    using assms unfolding answers_json_def by metis
  then have "f out err = (\<lambda>x. State_Monad.bind (reply x) (writeAnswer dump out))" for out err
    by blast
  then show ?thesis
    unfolding answers_json_def
    by (intro exI [of _ "State_Monad.bind m reply"]) (simp add: yields_bind reply(1))
qed

lemma answers_if [answer_intros]:
  "(b \<Longrightarrow> answers_json cs dump m) \<Longrightarrow> (\<not> b \<Longrightarrow> answers_json cs dump n) \<Longrightarrow>
   answers_json cs dump (\<lambda>out err. if b then m out err else n out err)"
  by (cases b) simp_all

lemma answers_case_sum [answer_intros]:
  "(\<And>x. r = Inl x \<Longrightarrow> answers_json cs dump (\<lambda>out err. f out err x)) \<Longrightarrow>
   (\<And>y. r = Inr y \<Longrightarrow> answers_json cs dump (\<lambda>out err. g out err y)) \<Longrightarrow>
   answers_json cs dump (\<lambda>out err. case r of Inl x \<Rightarrow> f out err x | Inr y \<Rightarrow> g out err y)"
  by (cases r) simp_all

lemma answers_case_option [answer_intros]:
  "(r = None \<Longrightarrow> answers_json cs dump m) \<Longrightarrow> (\<And>x. r = Some x \<Longrightarrow> answers_json cs dump (\<lambda>out err. f out err x)) \<Longrightarrow>
   answers_json cs dump (\<lambda>out err. case r of None \<Rightarrow> m out err | Some x \<Rightarrow> f out err x)"
  by (cases r) simp_all

abbreviation json_run :: "'w CliEnv \<Rightarrow> OutputOptions \<Rightarrow> (string \<Rightarrow> ('w, unit) io) \<Rightarrow>
    (string \<Rightarrow> ('w, unit) io) \<Rightarrow> 'w CliRun" where
  "json_run E opts out err \<equiv> \<lparr>cr_env = withStreams out err E, cr_json = True, cr_options = opts\<rparr>"

lemma withStreams_sel:
  "en_formats (withStreams out err E) = en_formats E" "en_dump (withStreams out err E) = en_dump E"
  "en_timeZone (withStreams out err E) = en_timeZone E" "en_parse (withStreams out err E) = en_parse E"
  "en_noColor (withStreams out err E) = en_noColor E"
  "cn_systemNow (en_console (withStreams out err E)) = cn_systemNow (en_console E)"
  "cn_output (en_console (withStreams out err E)) = out"
  by (simp_all add: withStreams_def)

lemma answers_writeJson:
  assumes "serializes cs (en_dump E) written c"
  shows "answers_json cs (en_dump E) (\<lambda>out err. writeJson (json_run E opts out err) written c)"
proof -
  obtain d where "valid_answer cs d c" "written = en_dump E d" using assms by (auto simp: serializes_def)
  then show ?thesis
    unfolding answers_json_def
    by (intro exI [of _ "return (d, c)"])
       (simp add: yields_return writeJson_def writeAnswer_def writeOutput_def withStreams_sel
         split: option.split)
qed

lemma answers_cli_fail [answer_intros]:
  "command \<in> set cs \<Longrightarrow> answers_json cs (en_dump E) (\<lambda>out err. cli_fail (json_run E opts out err) command operation e)"
  unfolding cli_fail_def CliRun.simps withStreams_sel if_True
  by (rule answers_writeJson [OF serializes_error])

lemmas answers_documents [answer_intros] =
  answers_writeJson [OF serializes_inspect]
  answers_writeJson [OF serializes_documents(1)] answers_writeJson [OF serializes_documents(2)]
  answers_writeJson [OF serializes_documents(3)] answers_writeJson [OF serializes_documents(4)]
  answers_writeJson [OF serializes_documents(5)] answers_writeJson [OF serializes_documents(6)]
  answers_writeJson [OF serializes_documents(7)] answers_writeJson [OF serializes_documents(8)]
  answers_writeJson [OF serializes_documents(9)] answers_writeJson [OF serializes_documents(11)]

lemmas json_run_sel = CliRun.simps withStreams_sel if_True

lemma answers_measuredOr [answer_intros]:
  assumes "\<And>x. answers_json cs (en_dump E) (\<lambda>out err. f out err x)"
  shows "answers_json cs (en_dump E)
    (\<lambda>out err. State_Monad.bind (measuredOr (json_run E opts out err) A attach unmeasured) (f out err))"
  unfolding measuredOr_def json_run_sel by (rule answers_bind) (rule assms)

text \<open>The commands that read.\<close>

lemma answers_reading_commands:
  "''doctor'' \<in> set cs \<Longrightarrow> answers_json cs (en_dump E) (\<lambda>out err. runDoctor (json_run E opts out err) A)"
  "''status'' \<in> set cs \<Longrightarrow> answers_json cs (en_dump E) (\<lambda>out err. runStatus (json_run E opts out err) A)"
  "''inspect'' \<in> set cs \<Longrightarrow> answers_json cs (en_dump E) (\<lambda>out err. runInspect (json_run E opts out err) A x)"
  "''find'' \<in> set cs \<Longrightarrow> answers_json cs (en_dump E) (\<lambda>out err. runFind (json_run E opts out err) A x)"
  "''process'' \<in> set cs \<Longrightarrow> answers_json cs (en_dump E) (\<lambda>out err. runProcess (json_run E opts out err) A a)"
  unfolding runDoctor_def runStatus_def runInspect_def runFind_def runProcess_def json_run_sel Let_def
  by ((intro answer_intros; assumption)+)

lemma answers_runPort:
  "''port'' \<in> set cs \<Longrightarrow> answers_json cs (en_dump E) (\<lambda>out err. runPort (json_run E opts out err) A n)"
  unfolding runPort_def json_run_sel Let_def
  by (cases n) (simp_all add: answer_intros)

lemma answers_runService:
  "''service'' \<in> set cs \<Longrightarrow> pa_serviceAction a = [] \<Longrightarrow>
   answers_json cs (en_dump E) (\<lambda>out err. runService (json_run E opts out err) A a)"
  unfolding runService_def json_run_sel by (intro answer_intros) simp_all

lemma answers_runLog:
  assumes "''log'' \<in> set cs" and "\<not> pa_followLog a"
    and since: "\<And>t now. pa_logSince a = Some t \<Longrightarrow> LogService_parseSince (en_timeZone E) t now \<noteq> None"
  shows "answers_json cs (en_dump E) (\<lambda>out err. runLog (json_run E opts out err) A a)"
  unfolding runLog_def json_run_sel Let_def
  by (intro answer_intros) (use assms in simp_all)

text \<open>The commands that a command line names.\<close>

definition commands_given :: "ParsedArguments \<Rightarrow> string list" where
  "commands_given a = map snd (filter fst
     [(pa_tui a, ''tui''), (pa_doctor a, ''doctor''), (pa_status a, ''status''), (pa_inspect a, ''inspect''),
      (pa_find a, ''find''), (pa_process a, ''process''), (pa_service a, ''service''), (pa_log a, ''log''),
      (pa_port a, ''port'')])"

text \<open>The parsed command line names a command other than \<open>tui\<close> and \<open>log --follow\<close>, and if it gives a time
  for the log it is one for which the code's arithmetic is defined.\<close>

definition finite_command :: "'w CliEnv \<Rightarrow> ParsedArguments \<Rightarrow> bool" where
  "finite_command E a \<longleftrightarrow> checkedArguments a \<and> commands_given a \<noteq> [] \<and> \<not> pa_tui a \<and> \<not> pa_followLog a \<and>
     (\<forall>t now. pa_logSince a = Some t \<longrightarrow> LogService_parseSince (en_timeZone E) t now \<noteq> None)"

lemma answers_dispatch:
  assumes "finite_command E a"
  shows "answers_json (commands_given a) (en_dump E) (\<lambda>out err. CliApp_dispatch (json_run E opts out err) A a)"
  unfolding CliApp_dispatch_def json_run_sel simp_thms
  by (intro answer_intros answers_reading_commands answers_runPort answers_runService answers_runLog)
     (use assms in \<open>auto simp: finite_command_def commands_given_def checkedArguments_def mutating_def\<close>)

text \<open>Each entry of \<open>log --follow --json\<close> is one line with a document of the type documented for it.\<close>

lemma followSink_line:
  assumes "cr_json R"
  shows "\<exists>d. valid_answer [''log''] d 0 \<and> followSink R entry =
    (case en_dump (cr_env R) d of
       None \<Rightarrow> return (failure sinkThrew)
     | Some line \<Rightarrow> do { _ \<leftarrow> writeOutput R (line @ ''\<newline>''); return (success ()) })"
proof -
  have "serializes [''log''] (en_dump (cr_env R)) (JsonSerializer_logEvent (en_dump (cr_env R)) entry) 0"
    by (rule serializes_documents(10)) simp
  then show ?thesis
    using assms by (auto simp: serializes_def followSink_def)
qed

section \<open>Properties\<close>

text \<open>The command lines that are answered with a document, and the commands its answer can name.\<close>

definition answerable :: "'w CliEnv \<Rightarrow> string list \<Rightarrow> bool" where
  "answerable E args \<longleftrightarrow>
     (case en_parse E args of
        Inl pf \<Rightarrow> pf_exitCode pf \<noteq> 0 \<and> jsonRequested args (pf_json pf)
      | Inr a \<Rightarrow> finite_command E a \<and> jsonRequested args (pa_json a))"

definition answering_commands :: "'w CliEnv \<Rightarrow> string list \<Rightarrow> string list" where
  "answering_commands E args = (case en_parse E args of Inl _ \<Rightarrow> [''cli''] | Inr a \<Rightarrow> commands_given a)"



end
