(* ===== verification/TuiSession.thy ===== *)
theory TuiSession
  imports TuiRunner DashboardWorker
begin

text \<open>
  \<open>FtxuiTuiRunner::run\<close> of \<open>src/tui/FtxuiTuiRunner.cpp\<close> as a whole: the presentation thread, which starts the
  workers, handles the events of the loop, stops the workers and returns, interleaved with the thread
  of the dashboard worker and the thread of the task worker.

  The session begins when the screen and the two workers are constructed. One step is one section under a
  mutex, or code that only the presentation thread can see: a call of the handler computes its effects
  from the snapshot and the task text of that moment (no path of the handler reads both), and applies
  them one by one. When the loop ends and what events it delivers is FTXUI's choice, so every choice is a step.
\<close>

section \<open>State and steps\<close>

text \<open>Where the presentation thread is: before \<open>worker.start\<close>, in the loop, in a call of the handler with
  effects to apply, in \<open>worker.stop\<close>, in the destructor of \<open>tasks\<close>, in the destructor of \<open>worker\<close>, or returned.\<close>

datatype session_pc = Opening | Looping | Handling "tui_effect list" | StoppingWorker
  | DestroyingTasks "unit result" | DestroyingWorker "unit result" | Ended "unit result"

record session =
  se_pc :: session_pc
  se_state :: TuiState
  se_tasks :: "tui_task TaskWorker"
  se_worker :: "DashboardSnapshot DashboardWorker"

definition session_init :: session where
  "session_init = \<lparr>se_pc = Opening, se_state = TuiState_init, se_tasks = TaskWorker_init,
     se_worker = DashboardWorker_init\<rparr>"

text \<open>The \<open>catch\<close> clause.\<close>

definition session_failure :: "string \<Rightarrow> unit result" where
  "session_failure what =
     failure (mkError OperationFailed (''Unable to run terminal UI: '' @ what) 0 ''tui'' ''run'')"

text \<open>An exception leaves the block: the objects declared last are destroyed first.\<close>

definition session_unwind :: "string \<Rightarrow> session \<Rightarrow> session" where
  "session_unwind what s =
     s\<lparr>se_pc := DestroyingTasks (session_failure what), se_tasks := TaskWorker_destroy (se_tasks s)\<rparr>"

datatype session_event = Saw observed_event | Tasks "tui_task task_event" | Quiet

inductive session_step :: "Formats \<Rightarrow> session \<Rightarrow> session_event \<Rightarrow> session \<Rightarrow> bool" for F where
  start: "se_pc s = Opening \<Longrightarrow> session_step F s Quiet
    (s\<lparr>se_pc := Looping, se_worker := DashboardWorker_start (se_worker s)\<rparr>)"
| start_throws: "se_pc s = Opening \<Longrightarrow> session_step F s (Tasks Internal) (session_unwind what s)"
| edit: "se_pc s = Looping \<Longrightarrow> session_step F s Quiet
    (s\<lparr>se_state := (se_state s)\<lparr>tu_searchQuery := q\<rparr>\<rparr>)"
| handle: "se_pc s = Looping \<Longrightarrow> latest = dw_snapshot (se_worker s) \<Longrightarrow> r = tw_result (se_tasks s) \<Longrightarrow>
    session_step F s (Saw (latest, r, event))
      (s\<lparr>se_pc := Handling (fst (snd (handleEvent F latest r (se_state s) event))),
         se_state := fst (handleEvent F latest r (se_state s) event)\<rparr>)"
| submit: "se_pc s = Handling (SubmitTask t # effs) \<Longrightarrow>
    session_step F s (Tasks (if fst (TaskWorker_submit t (se_tasks s)) then Accepted t else Refused t))
      (s\<lparr>se_pc := Handling effs, se_tasks := snd (TaskWorker_submit t (se_tasks s))\<rparr>)"
| clear: "se_pc s = Handling (ClearResult # effs) \<Longrightarrow>
    session_step F s (Tasks Internal) (s\<lparr>se_pc := Handling effs, se_tasks := TaskWorker_clear (se_tasks s)\<rparr>)"
| exit: "se_pc s = Handling (ExitLoop # effs) \<Longrightarrow> session_step F s Quiet (s\<lparr>se_pc := Handling effs\<rparr>)"
| handled: "se_pc s = Handling [] \<Longrightarrow> session_step F s Quiet (s\<lparr>se_pc := Looping\<rparr>)"
| loop_throws: "se_pc s = Looping \<Longrightarrow> session_step F s (Tasks Internal) (session_unwind what s)"
| loop_ends: "se_pc s = Looping \<Longrightarrow> session_step F s Quiet
    (s\<lparr>se_pc := StoppingWorker, se_worker := DashboardWorker_requestStop (se_worker s)\<rparr>)"
| worker_joined: "se_pc s = StoppingWorker \<Longrightarrow> DashboardWorker_join (se_worker s) = Some w \<Longrightarrow>
    session_step F s (Tasks Internal) (s\<lparr>se_pc := DestroyingTasks (success ()), se_worker := w,
      se_tasks := TaskWorker_destroy (se_tasks s)\<rparr>)"
| tasks_joined: "se_pc s = DestroyingTasks r \<Longrightarrow> tw_thread (se_tasks s) = TaskEnded \<Longrightarrow>
    session_step F s Quiet (s\<lparr>se_pc := DestroyingWorker r,
      se_worker := DashboardWorker_requestStop (se_worker s)\<rparr>)"
| worker_destroyed: "se_pc s = DestroyingWorker r \<Longrightarrow> DashboardWorker_join (se_worker s) = Some w \<Longrightarrow>
    session_step F s Quiet (s\<lparr>se_pc := Ended r, se_worker := w\<rparr>)"
| task_thread: "TaskWorker_work (se_tasks s) l t \<Longrightarrow> session_step F s (Tasks l) (s\<lparr>se_tasks := t\<rparr>)"
| worker_thread: "work (se_worker s) w \<Longrightarrow> session_step F s Quiet (s\<lparr>se_worker := w\<rparr>)"

inductive_cases sessionStepE: "session_step F s l s'"

inductive session_history :: "Formats \<Rightarrow> session_event list \<Rightarrow> session \<Rightarrow> bool" for F where
  opened: "session_history F [] session_init"
| later: "session_history F es s \<Longrightarrow> session_step F s l s' \<Longrightarrow> session_history F (es @ [l]) s'"

text \<open>The events the handler saw and what became of the tasks, in order.\<close>

fun seen_of :: "session_event \<Rightarrow> observed_event list" where
  "seen_of (Saw seen) = [seen]"
| "seen_of _ = []"

fun tasks_of :: "session_event \<Rightarrow> tui_task task_event list" where
  "tasks_of (Tasks l) = [l]"
| "tasks_of _ = []"

abbreviation seen :: "session_event list \<Rightarrow> observed_event list" where
  "seen es \<equiv> concat (map seen_of es)"

abbreviation task_events :: "session_event list \<Rightarrow> tui_task task_event list" where
  "task_events es \<equiv> concat (map tasks_of es)"

section \<open>A session refines its components\<close>

text \<open>Projected to a component, a session is a history of that component.\<close>

lemma submit_step:
  "fst (TaskWorker_submit t w) \<Longrightarrow> task_step w (Accepted t) (snd (TaskWorker_submit t w))"
  "\<not> fst (TaskWorker_submit t w) \<Longrightarrow> task_step w (Refused t) (snd (TaskWorker_submit t w))"
  by (cases "TaskWorker_submit t w"; simp add: task_step.submit_ok task_step.submit_refused)+

lemma session_step_tasks:
  assumes "session_step F s l s'"
  shows "(case l of Tasks e \<Rightarrow> task_step (se_tasks s) e (se_tasks s') | _ \<Rightarrow> se_tasks s' = se_tasks s)"
  using assms
  by (cases rule: session_step.cases)
     (auto simp: session_unwind_def intro: submit_step task_step.intros)

lemma session_task_history: "session_history F es s \<Longrightarrow> task_history (task_events es) (se_tasks s)"
proof (induction rule: session_history.induct)
  case (later es s l s')
  then show ?case
    using session_step_tasks [OF later.hyps(2)] by (cases l) (auto intro: task_history.later)
qed (simp add: session_init_def task_history.created)

lemma session_step_worker:
  assumes "session_step F s l s'"
  shows "step (se_worker s) (se_worker s') \<or> se_worker s' = se_worker s"
  using assms
  by (cases rule: session_step.cases) (auto simp: session_unwind_def intro: step.intros)

lemma session_worker_steps: "session_history F es s \<Longrightarrow> steps DashboardWorker_init (se_worker s)"
proof (induction rule: session_history.induct)
  case (later es s l s')
  then show ?case using session_step_worker [OF later.hyps(2)] by (auto intro: rtranclp.intros)
qed (simp add: session_init_def)

lemma session_step_state:
  assumes "session_step F s l s'"
  shows "(case l of Saw (latest, r, event) \<Rightarrow> se_state s' = fst (handleEvent F latest r (se_state s) event)
    | _ \<Rightarrow> \<exists>q. se_state s' = (se_state s)\<lparr>tu_searchQuery := q\<rparr>)"
proof -
  have "\<exists>q. st = st\<lparr>tu_searchQuery := q\<rparr>" for st :: TuiState
    by (rule exI [of _ "tu_searchQuery st"]) simp
  note kept = this [of "se_state s"]
  show ?thesis
    using assms by (cases rule: session_step.cases) (use kept in \<open>auto simp: session_unwind_def\<close>)
qed

lemma session_tui_history: "session_history F es s \<Longrightarrow> tui_history F (seen es) (se_state s)"
proof (induction rule: session_history.induct)
  case (later es s l s')
  then show ?case
    using session_step_state [OF later.hyps(2)]
    by (cases l) (auto intro: tui_history.handled tui_history.edited)
qed (simp add: session_init_def tui_history.opened)

text \<open>The result of a session is what the code around the loop makes of how the loop was left.\<close>

definition session_results :: "unit result set" where
  "session_results = insert (success ()) (range session_failure)"

lemma session_results_run:
  "x \<in> session_results \<longleftrightarrow> (\<exists>left. x = result_of (FtxuiTuiRunner_run (return left)) w)"
proof -
  have "result_of (FtxuiTuiRunner_run (return left)) w =
      (case left of Inr _ \<Rightarrow> success () | Inl what \<Rightarrow> session_failure what)" for left
    by (simp add: FtxuiTuiRunner_run_def session_failure_def split: sum.split)
  note ran = this
  show ?thesis
  proof
    assume "x \<in> session_results"
    then consider "x = success ()" | what where "x = session_failure what"
      unfolding session_results_def by blast
    then show "\<exists>left. x = result_of (FtxuiTuiRunner_run (return left)) w"
      unfolding ran by cases (auto intro: exI [of _ "Inr ()"] exI [of _ "Inl what" for what])
  next
    assume "\<exists>left. x = result_of (FtxuiTuiRunner_run (return left)) w"
    then obtain left :: "string + unit" where "x = (case left of Inr _ \<Rightarrow> success () | Inl what \<Rightarrow> session_failure what)"
      unfolding ran by blast
    then show "x \<in> session_results" unfolding session_results_def by (cases left) auto
  qed
qed

section \<open>Confirmed actions\<close>

fun is_action :: "tui_task \<Rightarrow> bool" where
  "is_action (ActionTask action unit p) = True"
| "is_action _ = False"

fun action_of :: "tui_effect \<Rightarrow> tui_task list" where
  "action_of (SubmitTask t) = (if is_action t then [t] else [])"
| "action_of _ = []"

definition one_effect :: "handled \<Rightarrow> bool" where
  "one_effect h \<longleftrightarrow> length (fst (snd h)) \<le> 1"

lemma one_effect_if: "one_effect x \<Longrightarrow> one_effect y \<Longrightarrow> one_effect (if b then x else y)"
  by simp

lemma one_effect_case:
  "one_effect x \<Longrightarrow> (\<And>d. one_effect (f d)) \<Longrightarrow> one_effect (case latest of None \<Rightarrow> x | Some d \<Rightarrow> f d)"
  by (cases latest) simp_all

lemma one_effect_keys:
  "one_effect (handleServiceKey d c s)" "one_effect (handleProcessKey F d c s)" "one_effect (handleLogsKey d s)"
  by (simp_all add: one_effect_def key_defs Let_def split: option.split)

lemma handleOnSnapshot_one_effect: "one_effect (handleOnSnapshot F latest s event)"
  unfolding handleOnSnapshot_def Let_def
  by (intro one_effect_case one_effect_if one_effect_keys) (simp_all add: one_effect_def)

lemma handleEvent_one_effect: "length (fst (snd (handleEvent F latest r s event))) \<le> 1"
  unfolding one_effect_def [symmetric] handleEvent_def
  by (intro one_effect_if handleOnSnapshot_one_effect) (simp_all add: one_effect_def)

lemma handleEvent_one_action:
  assumes "tui_ok s"
  shows "length (concat (map action_of (fst (snd (handleEvent F latest r s event)))))
    \<le> confirmations [(latest, r, event)]"
proof (cases "fst (snd (handleEvent F latest r s event))")
  case (Cons e es)
  then have es: "es = []" using handleEvent_one_effect [of F latest r s event] by simp
  show ?thesis
  proof (cases "action_of e")
    case (Cons t ts)
    then obtain action unit p where "e = SubmitTask (ActionTask action unit p)" "ts = []"
      by (cases e rule: action_of.cases; cases t) (auto split: if_splits elim: is_action.elims)
    with \<open>fst (snd (handleEvent F latest r s event)) = e # es\<close> es show ?thesis
      using handleEvent_action [OF assms, of action unit p F latest r event]
      by (simp add: confirmations_def event_of_def)
  qed (use Cons es in simp)
qed simp

text \<open>While the handler applies effects, they are those of the event it saw last.\<close>

definition effects_of_last :: "Formats \<Rightarrow> observed_event list \<Rightarrow> tui_effect list \<Rightarrow> bool" where
  "effects_of_last F h effs \<longleftrightarrow>
     (\<exists>h' latest r event st. h = h' @ [(latest, r, event)] \<and> tui_history F h' st \<and>
        suffix effs (fst (snd (handleEvent F latest r st event))))"

lemma effects_of_last_tl: "effects_of_last F h (e # effs) \<Longrightarrow> effects_of_last F h effs"
  unfolding effects_of_last_def using suffix_ConsD by fast

lemma session_step_pc:
  assumes "session_step F s l s'" and "se_pc s' = Handling effs"
  shows "(\<exists>latest r event. l = Saw (latest, r, event) \<and>
      effs = fst (snd (handleEvent F latest r (se_state s) event))) \<or>
    (seen_of l = [] \<and> (\<exists>e. se_pc s = Handling (e # effs))) \<or>
    (seen_of l = [] \<and> se_pc s = Handling effs)"
  using assms by (cases rule: session_step.cases) (auto simp: session_unwind_def)

lemma session_handling:
  "session_history F es s \<Longrightarrow> se_pc s = Handling effs \<Longrightarrow> effects_of_last F (seen es) effs"
proof (induction arbitrary: effs rule: session_history.induct)
  case (later es s l s')
  from session_step_pc [OF later.hyps(2) later.prems] show ?case
  proof (elim disjE conjE exE)
    fix latest r event
    assume "l = Saw (latest, r, event)" "effs = fst (snd (handleEvent F latest r (se_state s) event))"
    with session_tui_history [OF later.hyps(1)] show ?thesis
      by (auto simp: effects_of_last_def)
  next
    fix e assume "seen_of l = []" "se_pc s = Handling (e # effs)"
    with later.IH show ?thesis by (simp add: effects_of_last_tl)
  qed (use later.IH in simp)
qed (simp add: session_init_def)

text \<open>The tasks that were accepted and those that were started.\<close>

definition accepted_tasks :: "session_event list \<Rightarrow> tui_task list" where
  "accepted_tasks es = concat (map accepted_of (task_events es))"

definition started_tasks :: "session_event list \<Rightarrow> tui_task list" where
  "started_tasks es = concat (map started_of (task_events es))"

text \<open>The actions among the effects that are still to be applied.\<close>

definition actions_due :: "session \<Rightarrow> nat" where
  "actions_due s = (case se_pc s of Handling effs \<Rightarrow> length (concat (map action_of effs)) | _ \<Rightarrow> 0)"

lemma work_accepts_nothing: "TaskWorker_work w l w' \<Longrightarrow> accepted_of l = []"
  by (auto elim: taskWorkE)

lemma session_step_actions:
  assumes "session_step F s l s'" and "tui_ok (se_state s)"
  shows "length (filter is_action (concat (map accepted_of (tasks_of l)))) + actions_due s'
    \<le> actions_due s + confirmations (seen_of l)"
  using assms(1)
proof (cases rule: session_step.cases)
  case (handle latest r event)
  then show ?thesis using handleEvent_one_action [OF assms(2)] by (simp add: actions_due_def)
next
  case (task_thread e t)
  then show ?thesis by (simp add: actions_due_def work_accepts_nothing)
qed (auto simp: actions_due_def session_unwind_def)

lemma session_actions:
  "session_history F es s \<Longrightarrow>
   length (filter is_action (accepted_tasks es)) + actions_due s \<le> confirmations (seen es)"
proof (induction rule: session_history.induct)
  case (later es s l s')
  have "tui_ok (se_state s)" using session_tui_history [OF later.hyps(1)] by (rule tui_history_ok)
  from session_step_actions [OF later.hyps(2) this] later.IH show ?case
    by (simp add: accepted_tasks_def confirmations_def)
qed (simp add: accepted_tasks_def actions_due_def session_init_def)

lemma session_accepted:
  assumes "session_history F es s" and "session_step F s (Tasks (Accepted t)) s'"
  obtains effs where "se_pc s = Handling (SubmitTask t # effs)"
  using assms(2) by (cases rule: session_step.cases) (auto split: if_splits dest: work_accepts_nothing)

text \<open>The history up to an event is a history.\<close>

lemma session_history_prefix:
  assumes "session_history F es s" and "es = es1 @ l # es2"
  obtains s1 s2 where "session_history F es1 s1" "session_step F s1 l s2"
proof -
  have "\<exists>s1 s2. session_history F es1 s1 \<and> session_step F s1 l s2"
    using assms
  proof (induction arbitrary: es2 rule: session_history.induct)
    case (later es s l' s')
    then show ?case by (cases es2 rule: rev_cases) auto
  qed simp
  with that show thesis by blast
qed

section \<open>The end of a session\<close>

text \<open>The loop is over, normally or by an exception.\<close>

fun after_loop :: "session_pc \<Rightarrow> bool" where
  "after_loop Opening = False"
| "after_loop Looping = False"
| "after_loop (Handling effs) = False"
| "after_loop _ = True"

text \<open>How many steps are left at most, those of a dashboard thread that was not yet told to stop apart.\<close>

definition tasks_left :: "'t TaskWorker \<Rightarrow> nat" where
  "tasks_left w = task_steps_left (tw_thread w) + (if tw_pending w = None then 0 else 3)"

definition session_left :: "session \<Rightarrow> nat" where
  "session_left s =
     (case se_pc s of
        StoppingWorker \<Rightarrow> 7 + tasks_left (se_tasks s) + steps_left (se_worker s)
      | DestroyingTasks _ \<Rightarrow> 6 + tasks_left (se_tasks s)
      | DestroyingWorker _ \<Rightarrow> 1 + steps_left (se_worker s)
      | _ \<Rightarrow> 0)"

lemma tasks_left_bound: "tasks_left w \<le> 6"
  by (cases "tw_thread w") (simp_all add: tasks_left_def)

lemma steps_left_bound: "steps_left w \<le> 4"
  by (simp split: option.split worker_pc.split)

lemma session_left_bound: "session_left s \<le> 17"
  using tasks_left_bound [of "se_tasks s"] steps_left_bound [of "se_worker s"]
  by (simp add: session_left_def del: steps_left.simps split: session_pc.split)

lemma task_work_decreases: "TaskWorker_work w l w' \<Longrightarrow> tasks_left w' < tasks_left w"
  by (auto simp: tasks_left_def elim!: taskWorkE split: if_splits)

text \<open>The requests to stop and the threads that are gone, by where the presentation thread is.\<close>

definition session_inv :: "session \<Rightarrow> bool" where
  "session_inv s =
     (case se_pc s of
        StoppingWorker \<Rightarrow> dw_stopping (se_worker s)
      | DestroyingTasks r \<Rightarrow> r \<in> session_results \<and> tw_stopping (se_tasks s) \<and>
          (joinable (se_worker s) \<longrightarrow> \<not> dw_stopping (se_worker s))
      | DestroyingWorker r \<Rightarrow> r \<in> session_results \<and> tw_thread (se_tasks s) = TaskEnded \<and>
          dw_stopping (se_worker s)
      | Ended r \<Rightarrow> r \<in> session_results \<and> tw_thread (se_tasks s) = TaskEnded \<and> \<not> joinable (se_worker s)
      | _ \<Rightarrow> \<not> dw_stopping (se_worker s))"

lemma join_joined: "DashboardWorker_join w = Some w' \<Longrightarrow> \<not> joinable w'"
  by (auto simp: DashboardWorker_join_def joinable_def split: option.splits worker_pc.splits)

lemma join_ready: "steps_left w = 0 \<Longrightarrow> \<exists>w'. DashboardWorker_join w = Some w'"
  by (auto simp: DashboardWorker_join_def split: option.splits worker_pc.splits)

lemma work_ended: "TaskWorker_work w l w' \<Longrightarrow> tw_thread w \<noteq> TaskEnded"
  by (auto elim: taskWorkE)

lemma work_stopping: "TaskWorker_work w l w' \<Longrightarrow> tw_stopping w' = tw_stopping w"
  by (auto elim: taskWorkE)

lemma session_inv_step:
  assumes "session_step F s l s'" and "session_inv s"
  shows "session_inv s'"
  using assms
proof (cases rule: session_step.cases)
  case (task_thread e t)
  with assms(2) show ?thesis
    using work_ended [OF task_thread(3)] work_stopping [OF task_thread(3)]
    by (simp add: session_inv_def split: session_pc.splits)
next
  case (worker_thread w)
  with assms(2) show ?thesis
    using work_keeps [OF worker_thread(3)]
    by (simp add: session_inv_def split: session_pc.splits)
qed (auto simp: session_inv_def session_unwind_def session_results_def worker_defs TaskWorker_destroy_def
      split: option.splits worker_pc.splits)

lemma session_inv_init: "session_inv session_init"
  by (simp add: session_inv_def session_init_def DashboardWorker_init_def)

lemma session_history_inv: "session_history F es s \<Longrightarrow> session_inv s"
  by (induction rule: session_history.induct) (auto intro: session_inv_init session_inv_step)

text \<open>Once the loop is over every step is one towards the end, but for those of a dashboard thread that
  was not told to stop.\<close>

definition idle_refresh :: "session \<Rightarrow> session \<Rightarrow> bool" where
  "idle_refresh s s' \<longleftrightarrow> \<not> dw_stopping (se_worker s) \<and> work (se_worker s) (se_worker s') \<and>
     s' = s\<lparr>se_worker := se_worker s'\<rparr>"

lemma idle_refresh_keeps: "idle_refresh s s' \<Longrightarrow> se_pc s' = se_pc s \<and> se_tasks s' = se_tasks s"
  unfolding idle_refresh_def by (cases s; cases s') simp

lemma session_step_ends:
  assumes "session_step F s l s'" and "session_inv s" and "after_loop (se_pc s)"
  shows "after_loop (se_pc s')" "session_left s' < session_left s \<or> idle_refresh s s'"
proof -
  show "after_loop (se_pc s')"
    using assms(1,3) by (cases rule: session_step.cases) (simp_all add: session_unwind_def)
  show "session_left s' < session_left s \<or> idle_refresh s s'"
    using assms(1)
  proof (cases rule: session_step.cases)
    case (task_thread e t)
    with assms(2,3) show ?thesis
      using task_work_decreases [OF task_thread(3)] work_ended [OF task_thread(3)]
      by (simp add: session_left_def session_inv_def del: steps_left.simps split: session_pc.splits)
  next
    case (worker_thread w)
    with assms(2,3) show ?thesis
      using work_decreases [OF worker_thread(3)] work_keeps [OF worker_thread(3)]
      by (simp add: session_left_def session_inv_def idle_refresh_def del: steps_left.simps
          split: session_pc.splits)
  next
    case (worker_joined w)
    then show ?thesis
      by (simp add: session_left_def tasks_left_def TaskWorker_destroy_def del: steps_left.simps)
  next
    case (tasks_joined r)
    then show ?thesis
      using steps_left_bound [of "DashboardWorker_requestStop (se_worker s)"]
      by (simp add: session_left_def del: steps_left.simps)
  next
    case (worker_destroyed r w)
    then show ?thesis by (simp add: session_left_def del: steps_left.simps)
  qed (use assms(3) in simp_all)
qed

text \<open>And until it has ended, some thread can take a step towards the end.\<close>

lemma stopping_work:
  assumes "dw_stopping (se_worker s)" and "session_inv s" and "after_loop (se_pc s)"
    and "steps_left (se_worker s) \<noteq> 0"
  obtains l s' where "session_step F s l s'" "session_left s' < session_left s"
proof -
  have "joinable (se_worker s)" "dw_thread (se_worker s) \<noteq> Some Returned"
    using assms(4) by (auto simp: joinable_def split: option.splits)
  then obtain w where w: "work (se_worker s) w" using work_progress by blast
  have step: "session_step F s Quiet (s\<lparr>se_worker := w\<rparr>)" using w by (rule session_step.worker_thread)
  with session_step_ends(2) [OF step assms(2,3)] assms(1) that show thesis
    by (simp add: idle_refresh_def)
qed

lemma session_progress:
  assumes "session_inv s" and "after_loop (se_pc s)" and "\<nexists>r. se_pc s = Ended r"
  shows "\<exists>l s'. session_step F s l s' \<and> session_left s' < session_left s"
proof -
  have decreasing: ?thesis if "session_step F s l s'" "\<not> idle_refresh s s'" for l s'
    using session_step_ends(2) [OF that(1) assms(1,2)] that by blast
  consider (stopping) "se_pc s = StoppingWorker" | (tasks) r where "se_pc s = DestroyingTasks r"
    | (worker) r where "se_pc s = DestroyingWorker r"
    using assms(2,3) by (cases "se_pc s") auto
  then show ?thesis
  proof cases
    case stopping
    then have stop: "dw_stopping (se_worker s)" using assms(1) by (simp add: session_inv_def)
    show ?thesis
    proof (cases "steps_left (se_worker s) = 0")
      case True
      then obtain w where "DashboardWorker_join (se_worker s) = Some w" using join_ready by blast
      then show ?thesis
        by (intro decreasing [OF session_step.worker_joined [OF stopping]]) (simp_all add: idle_refresh_def stop)
    qed (use stopping_work [OF stop assms(1,2)] in blast)
  next
    case (tasks r)
    then have stop: "tw_stopping (se_tasks s)" using assms(1) by (simp add: session_inv_def)
    show ?thesis
    proof (cases "tw_thread (se_tasks s) = TaskEnded")
      case True
      show ?thesis
        using idle_refresh_keeps tasks
        by (intro decreasing [OF session_step.tasks_joined [OF tasks True]]) fastforce
    next
      case False
      then obtain l t where "TaskWorker_work (se_tasks s) l t" using task_work_progress stop by blast
      then have "session_step F s (Tasks l) (s\<lparr>se_tasks := t\<rparr>)" "t \<noteq> se_tasks s"
        using task_work_decreases [of "se_tasks s" l t] by (auto intro: session_step.task_thread)
      then show ?thesis using idle_refresh_keeps by (intro decreasing) fastforce+
    qed
  next
    case (worker r)
    then have stop: "dw_stopping (se_worker s)" using assms(1) by (simp add: session_inv_def)
    show ?thesis
    proof (cases "steps_left (se_worker s) = 0")
      case True
      then obtain w where "DashboardWorker_join (se_worker s) = Some w" using join_ready by blast
      then show ?thesis
        by (intro decreasing [OF session_step.worker_destroyed [OF worker]]) (simp_all add: idle_refresh_def stop)
    qed (use stopping_work [OF stop assms(1,2)] in blast)
  qed
qed

lemma session_reaches_end:
  assumes "session_inv s" and "after_loop (se_pc s)"
  shows "\<exists>n s' r. n \<le> session_left s \<and> ((\<lambda>u v. \<exists>l. session_step F u l v) ^^ n) s s' \<and> se_pc s' = Ended r"
  using assms
proof (induction "session_left s" arbitrary: s rule: less_induct)
  case less
  show ?case
  proof (cases "\<exists>r. se_pc s = Ended r")
    case True
    then show ?thesis by (intro exI [of _ 0]) auto
  next
    case False
    then obtain l v where v: "session_step F s l v" "session_left v < session_left s"
      using session_progress [OF less.prems, of F] by blast
    obtain n s' r where n: "n \<le> session_left v"
        "((\<lambda>u v. \<exists>l. session_step F u l v) ^^ n) v s'" "se_pc s' = Ended r"
      using less.hyps [OF v(2) session_inv_step [OF v(1) less.prems(1)]
        session_step_ends(1) [OF v(1) less.prems]] by blast
    have "((\<lambda>u v. \<exists>l. session_step F u l v) ^^ Suc n) s s'"
      by (rule relpowp_Suc_I2 [OF _ n(2)]) (use v(1) in blast)
    with n v(2) show ?thesis by (intro exI [of _ "Suc n"] exI [of _ s'] exI [of _ r]) simp
  qed
qed

lemma session_ended_still:
  assumes "session_inv s" and "se_pc s = Ended r"
  shows "\<not> session_step F s l s'"
proof
  assume "session_step F s l s'"
  then show False
  proof (cases rule: session_step.cases)
    case (task_thread e t)
    with assms work_ended [OF task_thread(3)] show ?thesis by (simp add: session_inv_def)
  next
    case (worker_thread w)
    with assms work_keeps [OF worker_thread(3)] show ?thesis by (simp add: session_inv_def)
  qed (use assms(2) in simp_all)
qed

lemma session_inv_ended:
  assumes "session_inv s" and "se_pc s = Ended r"
  shows "tw_thread (se_tasks s) = TaskEnded" "\<not> joinable (se_worker s)"
    "r = success () \<or> (\<exists>what. r = session_failure what)"
  using assms by (auto simp: session_inv_def session_results_def)

section \<open>Properties\<close>

text \<open>
  C15. The dashboard acts only on what was asked for and confirmed, whatever the interleaving of its three
  threads: when an action is accepted for execution, the last event the handler saw is \<open>y\<close>, and before
  it the key of that action was pressed while the resource concerned was selected in the snapshot
  shown; killing a process takes exactly one further \<open>y\<close> in between, and since the key nothing was
  cancelled with \<open>n\<close> or Escape. Only accepted tasks are started, in their order and each once, and no \<open>y\<close> is
  used twice: there are no more actions than confirmations.
\<close>

theorem TuiSession_acts_on_confirmation:
  assumes "session_history F es s"
  shows "(\<forall>es1 es2 action unit p. es = es1 @ Tasks (Accepted (ActionTask action unit p)) # es2 \<longrightarrow>
      action \<noteq> NoAction \<and> (\<exists>h latest r. seen es1 = h @ [(latest, r, EvCharacter CHR ''y'')] \<and>
        asked_for F h action unit p (if action = KillProcess then 1 else 0))) \<and>
    prefix (started_tasks es) (accepted_tasks es) \<and>
    length (filter is_action (accepted_tasks es)) \<le> confirmations (seen es)"
proof (intro conjI allI impI)
  fix es1 es2 action unit p
  assume "es = es1 @ Tasks (Accepted (ActionTask action unit p)) # es2"
  then obtain s1 s2 effs where "session_history F es1 s1"
      "se_pc s1 = Handling (SubmitTask (ActionTask action unit p) # effs)"
    by (metis session_history_prefix [OF assms] session_accepted)
  then obtain h latest r event st where h: "seen es1 = h @ [(latest, r, event)]" "tui_history F h st"
      "suffix (SubmitTask (ActionTask action unit p) # effs) (fst (snd (handleEvent F latest r st event)))"
    using session_handling unfolding effects_of_last_def by blast
  then have "SubmitTask (ActionTask action unit p) \<in> set (fst (snd (handleEvent F latest r st event)))"
    by (auto dest: set_mono_suffix)
  from history_confirmed [OF h(2) this] h(1)
  show "action \<noteq> NoAction" "\<exists>h latest r. seen es1 = h @ [(latest, r, EvCharacter CHR ''y'')] \<and>
      asked_for F h action unit p (if action = KillProcess then 1 else 0)" by blast+
next
  show "prefix (started_tasks es) (accepted_tasks es)"
    using task_history_order(1) [OF session_task_history [OF assms]]
    by (simp add: started_tasks_def accepted_tasks_def)
  show "length (filter is_action (accepted_tasks es)) \<le> confirmations (seen es)"
    using session_actions [OF assms] by simp
qed

text \<open>A session in which a service is stopped: the dashboard publishes a snapshot, \<open>s\<close> and \<open>y\<close> are pressed.\<close>

definition demo_opened :: session where
  "demo_opened = session_init\<lparr>se_pc := Looping, se_worker :=
     \<lparr>dw_thread = Some Notifying, dw_stopping = False, dw_snapshot = Some demo_snapshot\<rparr>\<rparr>"

definition demo_asking :: TuiState where
  "demo_asking = TuiState_init\<lparr>tu_pendingAction := StopService, tu_actionTarget := ''web.service'',
     tu_confirmationStep := 1\<rparr>"

definition demo_events :: "session_event list" where
  "demo_events = [Quiet, Quiet, Quiet, Saw (Some demo_snapshot, [], EvCharacter CHR ''s''), Tasks Internal, Quiet,
     Saw (Some demo_snapshot, [], EvCharacter CHR ''y'')]"

lemma demo_session_opened: "session_history F [Quiet, Quiet, Quiet] demo_opened"
proof -
  let ?s1 = "session_init\<lparr>se_pc := Looping, se_worker := DashboardWorker_start (se_worker session_init)\<rparr>"
  have "session_step F session_init Quiet ?s1"
    by (rule session_step.start) (simp add: session_init_def)
  then have "session_history F ([] @ [Quiet]) ?s1" by (rule session_history.later [OF session_history.opened])
  moreover have "session_step F ?s1 Quiet (?s1\<lparr>se_worker :=
      (se_worker ?s1)\<lparr>dw_thread := Some (Publishing demo_snapshot)\<rparr>\<rparr>)" (is "session_step F _ _ ?s2")
    by (intro session_step.worker_thread work.refresh)
       (simp add: session_init_def DashboardWorker_init_def DashboardWorker_start_def joinable_def)
  ultimately have "session_history F (([] @ [Quiet]) @ [Quiet]) ?s2" by (rule session_history.later)
  moreover have "session_step F ?s2 Quiet (?s2\<lparr>se_worker :=
      (se_worker ?s2)\<lparr>dw_thread := Some Notifying, dw_snapshot := Some demo_snapshot\<rparr>\<rparr>)"
      (is "session_step F _ _ ?s3")
    by (intro session_step.worker_thread work.publish) simp
  ultimately have "session_history F ((([] @ [Quiet]) @ [Quiet]) @ [Quiet]) ?s3" by (rule session_history.later)
  moreover have "?s3 = demo_opened"
    by (simp add: demo_opened_def session_init_def DashboardWorker_init_def DashboardWorker_start_def joinable_def)
  ultimately show ?thesis by simp
qed

lemma demo_session:
  "session_history demo_Formats demo_events (demo_opened\<lparr>
     se_pc := Handling [SubmitTask (ActionTask StopService ''web.service'' (-1))],
     se_state := demo_asking\<lparr>tu_pendingAction := NoAction, tu_confirmationStep := 0\<rparr>\<rparr>)"
proof -
  let ?F = demo_Formats
  have step: "session_history ?F (h @ [l]) s'"
    if "session_history ?F h s" "session_step ?F s l s''" "s'' = s'" for h s l s' s''
    using session_history.later [OF that(1,2)] that(3) by blast
  note demo = demo_opened_def demo_asking_def session_init_def TaskWorker_init_def TaskWorker_clear_def
    tui_demo_defs
  have "session_history ?F ([Quiet, Quiet, Quiet] @ [Saw (Some demo_snapshot, [], EvCharacter CHR ''s'')])
      (demo_opened\<lparr>se_pc := Handling [ClearResult], se_state := demo_asking\<rparr>)"
    by (rule step [OF demo_session_opened session_step.handle]) (simp_all add: demo)
  then have "session_history ?F (([Quiet, Quiet, Quiet] @ [Saw (Some demo_snapshot, [], EvCharacter CHR ''s'')]) @
      [Tasks Internal]) (demo_opened\<lparr>se_pc := Handling [], se_state := demo_asking\<rparr>)"
    by (rule step [OF _ session_step.clear]) (simp_all add: demo)
  then have "session_history ?F ((([Quiet, Quiet, Quiet] @ [Saw (Some demo_snapshot, [], EvCharacter CHR ''s'')]) @
      [Tasks Internal]) @ [Quiet]) (demo_opened\<lparr>se_pc := Looping, se_state := demo_asking\<rparr>)"
    by (rule step [OF _ session_step.handled]) (simp_all add: demo)
  then have "session_history ?F (((([Quiet, Quiet, Quiet] @ [Saw (Some demo_snapshot, [], EvCharacter CHR ''s'')]) @
      [Tasks Internal]) @ [Quiet]) @ [Saw (Some demo_snapshot, [], EvCharacter CHR ''y'')])
      (demo_opened\<lparr>se_pc := Handling [SubmitTask (ActionTask StopService ''web.service'' (-1))],
     se_state := demo_asking\<lparr>tu_pendingAction := NoAction, tu_confirmationStep := 0\<rparr>\<rparr>)"
    by (rule step [OF _ session_step.handle]) (simp_all add: demo)
  then show ?thesis by (simp add: demo_events_def)
qed

theorem TuiSession_acts_on_confirmation_witness:
  "asked_for demo_Formats [(Some demo_snapshot, [], EvCharacter CHR ''s'')] StopService ''web.service'' (-1) 0"
proof -
  let ?t = "ActionTask StopService ''web.service'' (-1)"
  have "fst (TaskWorker_submit ?t (se_tasks demo_opened))"
    by (simp add: TaskWorker_submit_def demo_opened_def session_init_def TaskWorker_init_def)
  then obtain s where "session_history demo_Formats (demo_events @ Tasks (Accepted ?t) # []) s"
    using session_history.later [OF demo_session session_step.submit [of _ ?t "[]"]] by auto
  then obtain h latest r where "seen demo_events = h @ [(latest, r, EvCharacter CHR ''y'')]"
      "asked_for demo_Formats h StopService ''web.service'' (-1) (if StopService = KillProcess then 1 else 0)"
    using TuiSession_acts_on_confirmation by blast
  moreover have "seen demo_events = [(Some demo_snapshot, [], EvCharacter CHR ''s'')] @
      [(Some demo_snapshot, [], EvCharacter CHR ''y'')]"
    by (simp add: demo_events_def)
  ultimately show ?thesis by (simp only: append1_eq_conv) simp
qed

text \<open>
  C28. Leaving the dashboard ends it and leaves nothing behind: once the loop is over, by the user's wish or
  by an exception, the session can return within seventeen steps from every state it can be in, whatever
  the workers are doing. Every step of any thread is one of them, but for those of a dashboard thread
  that was not yet told to stop, which take nothing back; and no step leads back into the loop. When
  the session has returned, both threads have ended and are joined, nothing moves any more, and the
  result is success or says why the terminal could not be used.
\<close>

theorem TuiSession_ends:
  assumes "session_history F es s"
  shows "(after_loop (se_pc s) \<longrightarrow> session_left s \<le> 17 \<and>
      (\<exists>n s' r. n \<le> session_left s \<and> ((\<lambda>u v. \<exists>l. session_step F u l v) ^^ n) s s' \<and> se_pc s' = Ended r) \<and>
      (\<forall>l s'. session_step F s l s' \<longrightarrow> after_loop (se_pc s') \<and>
         (session_left s' < session_left s \<or> idle_refresh s s' \<and> session_left s' = session_left s))) \<and>
    (\<forall>r. se_pc s = Ended r \<longrightarrow> tw_thread (se_tasks s) = TaskEnded \<and> \<not> joinable (se_worker s) \<and>
      (\<nexists>l s'. session_step F s l s') \<and> (r = success () \<or> (\<exists>what. r = session_failure what)))"
proof -
  note inv = session_history_inv [OF assms]
  have refreshing: "session_left s' = session_left s" if "idle_refresh s s'" "after_loop (se_pc s)" for s'
    using that inv idle_refresh_keeps [OF that(1)]
    by (simp add: session_left_def session_inv_def idle_refresh_def del: steps_left.simps
        split: session_pc.splits)
  show ?thesis
    using session_left_bound session_reaches_end [OF inv] session_step_ends [OF _ inv] refreshing
      session_ended_still [OF inv] session_inv_ended [OF inv]
    by (intro conjI allI impI) blast+
qed

theorem TuiSession_ends_witness:
  "\<exists>n s' r. n \<le> 17 \<and> ((\<lambda>u v. \<exists>l. session_step demo_Formats u l v) ^^ n)
     (demo_opened\<lparr>se_pc := StoppingWorker, se_worker := DashboardWorker_requestStop (se_worker demo_opened)\<rparr>) s' \<and>
     se_pc s' = Ended r"
proof -
  have "session_history demo_Formats ([Quiet, Quiet, Quiet] @ [Quiet]) (demo_opened\<lparr>se_pc := StoppingWorker,
      se_worker := DashboardWorker_requestStop (se_worker demo_opened)\<rparr>)"
    by (rule session_history.later [OF demo_session_opened session_step.loop_ends])
       (simp add: demo_opened_def)
  from TuiSession_ends [OF this] show ?thesis by (auto intro: order_trans)
qed

end
