(* ===== verification/JournalFollow.thy ===== *)
theory JournalFollow
  imports SystemdJournal
begin

text \<open>
  \<open>log --follow\<close> while other programs write to the journal: what \<open>SystemdJournalProvider::follow\<close> passes on to its
  sink, over a library that behaves as documented on a journal that grows. Any call may find new entries
  at the end of the journal.
\<close>

named_theorems grow_intros \<open>syntax-directed rules for programs that only see the journal grow\<close>
named_theorems wait_intros \<open>syntax-directed rules for programs that leave the handle where it is\<close>

section \<open>A journal that grows\<close>

text \<open>What can be said of a world: the entries stored, the matches and the place of the handle, and what the
  sink was given.\<close>

record 'w journal_view =
  jv_store :: "'w \<Rightarrow> raw_entry list"
  jv_matches :: "'w \<Rightarrow> string list"
  jv_here :: "'w \<Rightarrow> place"
  jv_shown :: "'w \<Rightarrow> JournalEntry Observation list"

definition in_view :: "'w journal_view \<Rightarrow> 'w \<Rightarrow> raw_entry list" where
  "in_view V w = visible (jv_store V w) (jv_matches V w)"

text \<open>\<open>grows V m\<close>: \<open>m\<close> changes nothing but that entries may have been added and the place may have moved;
  \<open>waits V m\<close>: the place has not moved either.\<close>

definition grows :: "'w journal_view \<Rightarrow> ('w, 'a) io \<Rightarrow> bool" where
  "grows V m \<longleftrightarrow> (\<forall>w. prefix (jv_store V w) (jv_store V (world_after m w)) \<and>
     jv_matches V (world_after m w) = jv_matches V w \<and> jv_shown V (world_after m w) = jv_shown V w)"

definition waits :: "'w journal_view \<Rightarrow> ('w, 'a) io \<Rightarrow> bool" where
  "waits V m \<longleftrightarrow> grows V m \<and> (\<forall>w. jv_here V (world_after m w) = jv_here V w)"

definition live_configures :: "('w, 'j) SdJournalLib \<Rightarrow> 'j \<Rightarrow> 'w journal_view \<Rightarrow> bool" where
  "live_configures J j V \<longleftrightarrow>
     (\<forall>w. result_of (sj_open J) w = Inr j \<and> jv_matches V (world_after (sj_open J) w) = [] \<and>
        prefix (jv_store V w) (jv_store V (world_after (sj_open J) w)) \<and>
        jv_shown V (world_after (sj_open J) w) = jv_shown V w) \<and>
     (\<forall>n. grows V (sj_setDataThreshold J j n) \<and> (\<forall>w. result_of (sj_setDataThreshold J j n) w = Inr ())) \<and>
     (\<forall>m w. result_of (sj_addMatch J j m) w = Inr () \<and>
        jv_matches V (world_after (sj_addMatch J j m) w) = jv_matches V w @ [m] \<and>
        prefix (jv_store V w) (jv_store V (world_after (sj_addMatch J j m) w)) \<and>
        jv_shown V (world_after (sj_addMatch J j m) w) = jv_shown V w) \<and>
     grows V (sj_close J j)"

definition live_moves :: "('w, 'j) SdJournalLib \<Rightarrow> 'j \<Rightarrow> 'w journal_view \<Rightarrow> bool" where
  "live_moves J j V \<longleftrightarrow>
     grows V (sj_seekTail J j) \<and>
     (\<forall>w. result_of (sj_seekTail J j) w = Inr () \<and>
        (\<exists>n. jv_here V (world_after (sj_seekTail J j) w) = Before n \<and>
           length (in_view V w) \<le> n \<and> n \<le> length (in_view V (world_after (sj_seekTail J j) w)))) \<and>
     (\<forall>t. grows V (sj_seekRealtimeUsec J j t) \<and>
        (\<forall>w. result_of (sj_seekRealtimeUsec J j t) w = Inr () \<and>
           jv_here V (world_after (sj_seekRealtimeUsec J j t) w) =
             Before (length (takeWhile (\<lambda>raw. re_usec raw < t)
               (in_view V (world_after (sj_seekRealtimeUsec J j t) w)))))) \<and>
     (\<forall>c. grows V (sj_seekCursor J j c) \<and>
        (\<forall>w. result_of (sj_seekCursor J j c) w = Inr () \<and>
           (\<forall>i < length (in_view V w). re_cursor (in_view V w ! i) = c \<longrightarrow>
              jv_here V (world_after (sj_seekCursor J j c) w) = Before i))) \<and>
     grows V (sj_previous J j) \<and>
     (\<forall>w. result_of (sj_previous J j) w = Inr (0 < entries_before (jv_here V w)) \<and>
        jv_here V (world_after (sj_previous J j) w) =
          (if 0 < entries_before (jv_here V w) then At (entries_before (jv_here V w) - 1) else jv_here V w)) \<and>
     grows V (sj_next J j) \<and>
     (\<forall>w. \<exists>b. result_of (sj_next J j) w = Inr b \<and>
        (if b then next_index (jv_here V w) < length (in_view V (world_after (sj_next J j) w)) \<and>
               jv_here V (world_after (sj_next J j) w) = At (next_index (jv_here V w))
         else length (in_view V w) \<le> next_index (jv_here V w) \<and>
               jv_here V (world_after (sj_next J j) w) = jv_here V w)) \<and>
     (\<forall>n. waits V (sj_wait J j n) \<and> (\<forall>w. result_of (sj_wait J j n) w = Inr ()))"

definition live_reads :: "('w, 'j) SdJournalLib \<Rightarrow> 'j \<Rightarrow> 'w journal_view \<Rightarrow> bool" where
  "live_reads J j V \<longleftrightarrow>
     waits V (sj_getRealtimeUsec J j) \<and> waits V (sj_getCursor J j) \<and> (\<forall>f. waits V (sj_getData J j f)) \<and>
     (\<forall>w i. jv_here V w = At i \<and> i < length (in_view V w) \<longrightarrow>
        result_of (sj_getRealtimeUsec J j) w = Inr (re_usec (in_view V w ! i)) \<and>
        result_of (sj_getCursor J j) w = Inr (Some (re_cursor (in_view V w ! i))) \<and>
        (\<forall>f. result_of (sj_getData J j f) w =
           (case re_fields (in_view V w ! i) f of None \<Rightarrow> Inl ENOENT | Some v \<Rightarrow> Inr (Some (f @ ''='' @ v)))))"

text \<open>The cursor identifies an entry, entries are stored in the order of their times, and the times are
  below 2^63 nanoseconds, where the code's conversion does not overflow.\<close>

definition live_store :: "'w journal_view \<Rightarrow> bool" where
  "live_store V \<longleftrightarrow> (\<forall>w. distinct (map re_cursor (jv_store V w)) \<and> sorted (map re_usec (jv_store V w)) \<and>
     (\<forall>raw \<in> set (jv_store V w). uint (re_usec raw) * 1000 < 2 ^ 63))"

definition live_journal :: "('w, 'j) SdJournalLib \<Rightarrow> 'j \<Rightarrow> 'w journal_view \<Rightarrow> bool" where
  "live_journal J j V \<longleftrightarrow> live_configures J j V \<and> live_moves J j V \<and> live_reads J j V \<and> live_store V"

text \<open>The sink takes note of every entry it is given; it may refuse to go on.\<close>

definition takes_note :: "'w journal_view \<Rightarrow> 'w JournalEntrySink \<Rightarrow> bool" where
  "takes_note V sink \<longleftrightarrow> (\<forall>ob w. prefix (jv_store V w) (jv_store V (world_after (sink ob) w)) \<and>
     jv_matches V (world_after (sink ob) w) = jv_matches V w \<and>
     jv_here V (world_after (sink ob) w) = jv_here V w \<and>
     jv_shown V (world_after (sink ob) w) = jv_shown V w @ [ob])"

section \<open>Programs that only see the journal grow\<close>

lemma growsD:
  assumes "grows V m"
  shows "prefix (jv_store V w) (jv_store V (world_after m w))" "jv_matches V (world_after m w) = jv_matches V w"
    "jv_shown V (world_after m w) = jv_shown V w"
  using assms unfolding grows_def by blast+

lemma grows_return [grow_intros]: "grows V (return x)"
  by (simp add: grows_def)

lemma grows_bind [grow_intros]:
  "grows V m \<Longrightarrow> (\<And>x. grows V (f x)) \<Longrightarrow> grows V (State_Monad.bind m f)"
  unfolding grows_def world_after_bind by (metis prefix_order.trans)

lemma grows_if [grow_intros]: "(b \<Longrightarrow> grows V m) \<Longrightarrow> (\<not> b \<Longrightarrow> grows V n) \<Longrightarrow> grows V (if b then m else n)"
  by simp

lemma grows_case_sum [grow_intros]:
  "(\<And>x. r = Inl x \<Longrightarrow> grows V (f x)) \<Longrightarrow> (\<And>y. r = Inr y \<Longrightarrow> grows V (g y)) \<Longrightarrow>
   grows V (case r of Inl x \<Rightarrow> f x | Inr y \<Rightarrow> g y)"
  by (cases r) simp_all

lemma grows_case_bool [grow_intros]:
  "(b \<Longrightarrow> grows V m) \<Longrightarrow> (\<not> b \<Longrightarrow> grows V n) \<Longrightarrow> grows V (case b of True \<Rightarrow> m | False \<Rightarrow> n)"
  by (cases b) simp_all

lemma waits_grows: "waits V m \<Longrightarrow> grows V m"
  by (simp add: waits_def)

lemma waits_return [wait_intros]: "waits V (return x)"
  by (simp add: waits_def grows_return)

lemma waits_bind [wait_intros]:
  "waits V m \<Longrightarrow> (\<And>x. waits V (f x)) \<Longrightarrow> waits V (State_Monad.bind m f)"
  unfolding waits_def by (simp add: grows_bind)

lemma waits_if [wait_intros]: "(b \<Longrightarrow> waits V m) \<Longrightarrow> (\<not> b \<Longrightarrow> waits V n) \<Longrightarrow> waits V (if b then m else n)"
  by simp

lemma waits_case_sum [wait_intros]:
  "(\<And>x. r = Inl x \<Longrightarrow> waits V (f x)) \<Longrightarrow> (\<And>y. r = Inr y \<Longrightarrow> waits V (g y)) \<Longrightarrow>
   waits V (case r of Inl x \<Rightarrow> f x | Inr y \<Rightarrow> g y)"
  by (cases r) simp_all

lemma prefix_filter: "prefix xs ys \<Longrightarrow> prefix (filter P xs) (filter P ys)"
  by (auto simp: prefix_def)

lemma grows_in_view: "grows V m \<Longrightarrow> prefix (in_view V w) (in_view V (world_after m w))"
  unfolding in_view_def visible_def using growsD(1,2) [of V m w] by (simp add: prefix_filter)

text \<open>An entry in view stays where it is.\<close>

lemma prefix_nth: "prefix xs ys \<Longrightarrow> i < length xs \<Longrightarrow> ys ! i = xs ! i"
  by (auto simp: prefix_def nth_append)

lemma prefix_take: "prefix xs ys \<Longrightarrow> i \<le> length xs \<Longrightarrow> take i ys = take i xs"
  by (auto simp: prefix_def)

section \<open>Reading one entry\<close>

lemma live_readField:
  assumes "live_reads J j V"
  shows "waits V (readField J j f)"
    and "jv_here V w = At i \<Longrightarrow> i < length (in_view V w) \<Longrightarrow>
      result_of (readField J j f) w = success (re_fields (in_view V w ! i) f)"
proof -
  show "waits V (readField J j f)"
    unfolding readField_def using assms by (intro wait_intros) (simp add: live_reads_def)
  assume "jv_here V w = At i" "i < length (in_view V w)"
  then have "result_of (sj_getData J j f) w =
      (case re_fields (in_view V w ! i) f of None \<Rightarrow> Inl ENOENT | Some v \<Rightarrow> Inr (Some (f @ ''='' @ v)))"
    using assms unfolding live_reads_def by blast
  then show "result_of (readField J j f) w = success (re_fields (in_view V w ! i) f)"
    by (cases "re_fields (in_view V w ! i) f")
       (simp_all add: readField_def journalFieldValue_roundtrip [simplified])
qed

text \<open>At an entry in view; what waits leaves the handle there.\<close>

definition stands_at :: "'w journal_view \<Rightarrow> nat \<Rightarrow> raw_entry \<Rightarrow> 'w \<Rightarrow> bool" where
  "stands_at V i raw w \<longleftrightarrow> jv_here V w = At i \<and> i < length (in_view V w) \<and> in_view V w ! i = raw"

lemma waits_stands: "waits V m \<Longrightarrow> stands_at V i raw w \<Longrightarrow> stands_at V i raw (world_after m w)"
  using grows_in_view [of V m w] prefix_length_le [of "in_view V w" "in_view V (world_after m w)"]
    prefix_nth [of "in_view V w" "in_view V (world_after m w)" i]
  by (auto simp: waits_def stands_at_def)

lemma readFields_waits: "live_reads J j V \<Longrightarrow> waits V (readFields J j u c)"
  unfolding readFields_def by (intro wait_intros live_readField)

lemma readCurrentEntry_waits: "live_reads J j V \<Longrightarrow> waits V (readCurrentEntry J j)"
  unfolding readCurrentEntry_def
  by (intro wait_intros readFields_waits) (simp_all add: live_reads_def)

lemma live_readCurrentEntry:
  assumes reads: "live_reads J j V" and at: "stands_at V i raw w" and range: "uint (re_usec raw) * 1000 < 2 ^ 63"
  shows "result_of (readCurrentEntry J j) w = success (stored_entry raw)"
proof -
  have getters: "result_of (sj_getRealtimeUsec J j) v = Inr (re_usec raw)"
      "result_of (sj_getCursor J j) v = Inr (Some (re_cursor raw))"
      "result_of (readField J j f) v = success (re_fields raw f)" if "stands_at V i raw v" for v f
    using reads that live_readField(2) [OF reads, of v i f]
    unfolding live_reads_def stands_at_def by blast+
  have stay: "stands_at V i raw (world_after (sj_getRealtimeUsec J j) v)"
      "stands_at V i raw (world_after (sj_getCursor J j) v)"
      "stands_at V i raw (world_after (readField J j f) v)" if "stands_at V i raw v" for v f
    using reads that live_readField(1) [OF reads]
    by (auto intro!: waits_stands simp: live_reads_def)
  have "\<not> 2 ^ 63 - 1 < uint (re_usec raw)" using range by simp
  then show ?thesis
    using at stored_entry_fields [OF range]
    by (simp add: readCurrentEntry_def readFields_def getters stay del: not_less)
qed

lemma in_view_range:
  assumes "live_store V" and "raw \<in> set (in_view V w)"
  shows "uint (re_usec raw) * 1000 < 2 ^ 63"
  using assms by (auto simp: live_store_def in_view_def visible_def)

section \<open>Segments\<close>

text \<open>The entries from position \<open>k\<close> up to position \<open>n\<close>.\<close>

definition segment :: "'a list \<Rightarrow> nat \<Rightarrow> nat \<Rightarrow> 'a list" where
  "segment xs k n = drop k (take n xs)"

lemma segment_prefix: "prefix xs ys \<Longrightarrow> n \<le> length xs \<Longrightarrow> segment ys k n = segment xs k n"
  by (simp add: segment_def prefix_take)

lemma segment_snoc: "k \<le> n \<Longrightarrow> n < length xs \<Longrightarrow> segment xs k (Suc n) = segment xs k n @ [xs ! n]"
  by (simp add: segment_def take_Suc_conv_app_nth)

lemma segment_Cons: "k < n \<Longrightarrow> n \<le> length xs \<Longrightarrow> segment xs k n = xs ! k # segment xs (Suc k) n"
  by (simp add: segment_def Cons_nth_drop_Suc [symmetric])

lemma segment_empty: "n \<le> length xs \<Longrightarrow> segment xs k n = [] \<longleftrightarrow> n \<le> k"
  by (simp add: segment_def)

lemma last_segment: "k < n \<Longrightarrow> n \<le> length xs \<Longrightarrow> last (segment xs k n) = xs ! (n - 1)"
  by (simp add: segment_def last_drop last_conv_nth)

lemma newest_segment: "n \<le> length xs \<Longrightarrow> newest l (segment xs f n) = segment xs (max f (n - l)) n"
proof -
  assume "n \<le> length xs"
  moreover have "n - f - l + f = max f (n - l)" by simp
  ultimately show ?thesis by (simp add: newest_def segment_def)
qed

lemma takeWhile_prefix_length: "prefix xs ys \<Longrightarrow> length (takeWhile P xs) \<le> length (takeWhile P ys)"
  by (auto simp: prefix_def takeWhile_append trans_le_add1 [OF length_takeWhile_le])

section \<open>The first entries\<close>

lemma live_readBackwards:
  assumes moves: "live_moves J j V" and reads: "live_reads J j V" and store: "live_store V"
  shows "grows V (readBackwards J j n reversed)"
    and "entries_before (jv_here V w) \<le> length (in_view V w) \<Longrightarrow>
      result_of (readBackwards J j n reversed) w =
        success (reversed @ map stored_entry (take n (rev (take (entries_before (jv_here V w)) (in_view V w)))))"
proof (induction n arbitrary: w reversed)
  case (Suc n)
  { case 1
    show ?case
      unfolding readBackwards.simps
      by (intro grow_intros Suc.IH(1) waits_grows [OF readCurrentEntry_waits] reads) (use moves in \<open>simp add: live_moves_def\<close>)
  next
    case 2
    let ?i = "entries_before (jv_here V w)" and ?w1 = "world_after (sj_previous J j) w"
    have step: "result_of (sj_previous J j) w = Inr (0 < ?i)"
        "jv_here V ?w1 = (if 0 < ?i then At (?i - 1) else jv_here V w)" and grow: "grows V (sj_previous J j)"
      using moves by (simp_all add: live_moves_def)
    show ?case
    proof (cases "0 < ?i")
      case True
      let ?raw = "in_view V w ! (?i - 1)" and ?w2 = "world_after (readCurrentEntry J j) ?w1"
      note pre = grows_in_view [OF grow, of w]
      have at: "stands_at V (?i - 1) ?raw ?w1"
        using True step(2) 2 prefix_nth [OF pre, of "?i - 1"] prefix_length_le [OF pre]
        by (simp add: stands_at_def)
      have wait: "waits V (readCurrentEntry J j)" using reads by (rule readCurrentEntry_waits)
      have view: "prefix (in_view V w) (in_view V ?w2)"
        using pre grows_in_view [OF waits_grows [OF wait]] by (rule prefix_order.trans)
      have "?raw \<in> set (in_view V w)" using True 2 by simp
      then have entry: "result_of (readCurrentEntry J j) ?w1 = success (stored_entry ?raw)"
        using live_readCurrentEntry [OF reads at] in_view_range [OF store] by blast
      have here: "jv_here V ?w2 = At (?i - 1)"
        using waits_stands [OF wait at] by (simp add: stands_at_def)
      have "take (?i - 1) (in_view V ?w2) = take (?i - 1) (in_view V w)"
        using prefix_take [OF view] 2 by simp
      moreover have "take ?i (in_view V w) = take (?i - 1) (in_view V w) @ [?raw]"
        using True 2 take_Suc_conv_app_nth [of "?i - 1" "in_view V w"] by simp
      moreover have "?i - 1 \<le> length (in_view V ?w2)"
        using prefix_length_le [OF view] 2 by simp
      ultimately show ?thesis
        using True step(1) entry here Suc.IH(2) [of ?w2 "reversed @ [stored_entry ?raw]"] by simp
    qed (simp add: step) }
qed (simp_all add: grows_return)

lemma live_queryTail:
  assumes "live_moves J j V" and "live_reads J j V" and "live_store V"
  shows "grows V (queryTail J j limit)"
    and "\<exists>m ob. length (in_view V w) \<le> m \<and> m \<le> length (in_view V (world_after (queryTail J j limit) w)) \<and>
      result_of (queryTail J j limit) w = success ob \<and>
      ob_value ob = map (ob_value \<circ> stored_entry)
        (segment (in_view V (world_after (queryTail J j limit) w)) (m - limit) m)"
proof -
  have seek: "grows V (sj_seekTail J j)" using assms(1) by (simp add: live_moves_def)
  show tail: "grows V (queryTail J j limit)"
    unfolding queryTail_def by (intro grow_intros seek live_readBackwards assms)
  let ?w1 = "world_after (sj_seekTail J j) w" and ?w' = "world_after (queryTail J j limit) w"
  obtain m where m: "result_of (sj_seekTail J j) w = Inr ()" "jv_here V ?w1 = Before m"
      "length (in_view V w) \<le> m" "m \<le> length (in_view V ?w1)"
    using assms(1) unfolding live_moves_def by meson
  have "?w' = world_after (readBackwards J j limit []) ?w1"
    using m(1) by (simp add: queryTail_def)
  then have view: "prefix (in_view V ?w1) (in_view V ?w')"
    using grows_in_view [OF live_readBackwards(1) [OF assms]] by simp
  have "result_of (readBackwards J j limit []) ?w1 = success (map stored_entry (take limit (rev (take m (in_view V ?w1)))))"
    using live_readBackwards(2) [OF assms, of ?w1 limit "[]"] m by simp
  then have result: "result_of (queryTail J j limit) w =
      success (appendEntries (map stored_entry (newest limit (take m (in_view V ?w1)))) noEntries)"
    using m(1) by (simp add: queryTail_def rev_map rev_take_rev)
  have "newest limit (take m (in_view V ?w1)) = segment (in_view V ?w1) (m - limit) m"
    using newest_segment [OF m(4), of limit 0] by (simp add: segment_def)
  also have "\<dots> = segment (in_view V ?w') (m - limit) m"
    using segment_prefix [OF view m(4)] by simp
  finally show "\<exists>m ob. length (in_view V w) \<le> m \<and> m \<le> length (in_view V ?w') \<and>
      result_of (queryTail J j limit) w = success ob \<and>
      ob_value ob = map (ob_value \<circ> stored_entry) (segment (in_view V ?w') (m - limit) m)"
    using m(3,4) prefix_length_le [OF view] result
    by (intro exI [of _ m] exI) (auto simp: appendEntries_eq)
qed

text \<open>How far the window of \<open>querySince\<close> reaches when the end of the journal was reached.\<close>

lemma live_next:
  assumes "live_moves J j V"
  shows "grows V (sj_next J j)"
    and "(result_of (sj_next J j) w = Inr True \<and>
        stands_at V (next_index (jv_here V w)) (in_view V (world_after (sj_next J j) w) ! next_index (jv_here V w))
          (world_after (sj_next J j) w)) \<or>
      (result_of (sj_next J j) w = Inr False \<and> length (in_view V w) \<le> next_index (jv_here V w) \<and>
        jv_here V (world_after (sj_next J j) w) = jv_here V w)"
proof -
  show "grows V (sj_next J j)" using assms by (simp add: live_moves_def)
  obtain b where "result_of (sj_next J j) w = Inr b"
      "if b then next_index (jv_here V w) < length (in_view V (world_after (sj_next J j) w)) \<and>
          jv_here V (world_after (sj_next J j) w) = At (next_index (jv_here V w))
       else length (in_view V w) \<le> next_index (jv_here V w) \<and>
          jv_here V (world_after (sj_next J j) w) = jv_here V w"
    using assms unfolding live_moves_def by blast
  then show "(result_of (sj_next J j) w = Inr True \<and>
        stands_at V (next_index (jv_here V w)) (in_view V (world_after (sj_next J j) w) ! next_index (jv_here V w))
          (world_after (sj_next J j) w)) \<or>
      (result_of (sj_next J j) w = Inr False \<and> length (in_view V w) \<le> next_index (jv_here V w) \<and>
        jv_here V (world_after (sj_next J j) w) = jv_here V w)"
    by (cases b) (simp_all add: stands_at_def)
qed

lemma live_readForwards:
  assumes moves: "live_moves J j V" and reads: "live_reads J j V" and store: "live_store V" and limit: "0 < limit"
  shows "grows V (readForwards fuel J j limit window)"
    and "f \<le> next_index (jv_here V w) \<Longrightarrow> next_index (jv_here V w) \<le> length (in_view V w) \<Longrightarrow>
      window = newest limit (map stored_entry (segment (in_view V w) f (next_index (jv_here V w)))) \<Longrightarrow>
      result_of (readForwards fuel J j limit window) w = None \<or>
      (\<exists>m. f \<le> m \<and> length (in_view V w) \<le> m \<and>
         m \<le> length (in_view V (world_after (readForwards fuel J j limit window) w)) \<and>
         result_of (readForwards fuel J j limit window) w = Some (success (newest limit
           (map stored_entry (segment (in_view V (world_after (readForwards fuel J j limit window) w)) f m)))))"
proof (induction fuel arbitrary: w window)
  case (Suc fuel)
  have wait: "waits V (readCurrentEntry J j)" using reads by (rule readCurrentEntry_waits)
  { case 1
    show ?case
      unfolding readForwards.simps
      by (intro grow_intros Suc.IH(1) waits_grows [OF wait] live_next [OF moves])
  next
    case 2
    let ?i = "next_index (jv_here V w)" and ?w1 = "world_after (sj_next J j) w"
    note view1 = grows_in_view [OF live_next(1) [OF moves], of w]
    from live_next(2) [OF moves, of w] show ?case
    proof (elim disjE conjE)
      assume "result_of (sj_next J j) w = Inr False" "length (in_view V w) \<le> ?i"
      then show ?thesis
        using 2 prefix_length_le [OF view1] segment_prefix [OF view1, of ?i f]
        by (intro disjI2 exI [of _ ?i]) simp
    next
      let ?raw = "in_view V ?w1 ! ?i" and ?w2 = "world_after (readCurrentEntry J j) ?w1"
      let ?window = "pushWindow limit window (stored_entry ?raw)"
      assume next_entry: "result_of (sj_next J j) w = Inr True" and at: "stands_at V ?i ?raw ?w1"
      have "?raw \<in> set (in_view V ?w1)" using at by (simp add: stands_at_def)
      then have entry: "result_of (readCurrentEntry J j) ?w1 = success (stored_entry ?raw)"
        using live_readCurrentEntry [OF reads at] in_view_range [OF store] by blast
      have at2: "stands_at V ?i ?raw ?w2" using wait at by (rule waits_stands)
      have view2: "prefix (in_view V w) (in_view V ?w2)"
        using view1 grows_in_view [OF waits_grows [OF wait]] by (rule prefix_order.trans)
      have "segment (in_view V ?w2) f (Suc ?i) = segment (in_view V ?w2) f ?i @ [?raw]"
        using segment_snoc [of f ?i "in_view V ?w2"] at2 2 by (simp add: stands_at_def)
      moreover have "segment (in_view V ?w2) f ?i = segment (in_view V w) f ?i"
        using segment_prefix [OF view2] 2 by simp
      moreover have "length window \<le> limit" using 2 by (simp add: newest_def)
      ultimately have window: "?window = newest limit (map stored_entry
          (segment (in_view V ?w2) f (next_index (jv_here V ?w2))))"
        using pushWindow_newest(1) [OF limit, of window] 2 at2 newest_append
        by (simp add: stands_at_def)
      have "result_of (readForwards fuel J j limit ?window) ?w2 = None \<or>
        (\<exists>m. f \<le> m \<and> length (in_view V ?w2) \<le> m \<and>
           m \<le> length (in_view V (world_after (readForwards fuel J j limit ?window) ?w2)) \<and>
           result_of (readForwards fuel J j limit ?window) ?w2 = Some (success (newest limit
             (map stored_entry (segment (in_view V (world_after (readForwards fuel J j limit ?window) ?w2)) f m)))))"
        using Suc.IH(2) [OF _ _ window] 2(1) at2 by (simp add: stands_at_def)
      then show ?thesis
        using next_entry entry prefix_length_le [OF view2] by fastforce
    qed }
qed (simp_all add: grows_return)

lemma live_querySince:
  assumes moves: "live_moves J j V" and reads: "live_reads J j V" and store: "live_store V" and limit: "0 < limit"
  shows "grows V (querySince fuel J j t limit)"
    and "0 \<le> t \<Longrightarrow> result_of (querySince fuel J j t limit) w = None \<or>
      (\<exists>f m ob. length (takeWhile (\<lambda>raw. re_usec raw < word_of_int (toMicroseconds t)) (in_view V w)) \<le> f \<and>
         f \<le> m \<and> length (in_view V w) \<le> m \<and>
         m \<le> length (in_view V (world_after (querySince fuel J j t limit) w)) \<and>
         result_of (querySince fuel J j t limit) w = Some (success ob) \<and>
         ob_value ob = map (ob_value \<circ> stored_entry)
           (segment (in_view V (world_after (querySince fuel J j t limit) w)) (max f (m - limit)) m))"
proof -
  let ?t = "word_of_int (toMicroseconds t) :: u64"
  have seek: "grows V (sj_seekRealtimeUsec J j u)" for u using moves by (simp add: live_moves_def)
  show "grows V (querySince fuel J j t limit)"
    unfolding querySince_def by (intro grow_intros seek live_readForwards assms)
  assume "0 \<le> t"
  then have known: "\<not> toMicroseconds t < 0" by (simp add: toMicroseconds_def)
  let ?w1 = "world_after (sj_seekRealtimeUsec J j ?t) w" and ?w' = "world_after (querySince fuel J j t limit) w"
  let ?f = "length (takeWhile (\<lambda>raw. re_usec raw < ?t) (in_view V ?w1))"
  have there: "result_of (sj_seekRealtimeUsec J j ?t) w = Inr ()" "jv_here V ?w1 = Before ?f"
    using moves by (simp_all add: live_moves_def)
  have end_of: "?w' = world_after (readForwards fuel J j limit []) ?w1"
    using there(1) known by (simp add: querySince_def)
  note view1 = grows_in_view [OF seek, of w ?t]
  have "?f \<le> length (in_view V ?w1)" by (rule length_takeWhile_le)
  then have "result_of (readForwards fuel J j limit []) ?w1 = None \<or>
      (\<exists>m. ?f \<le> m \<and> length (in_view V ?w1) \<le> m \<and> m \<le> length (in_view V ?w') \<and>
         result_of (readForwards fuel J j limit []) ?w1 =
           Some (success (newest limit (map stored_entry (segment (in_view V ?w') ?f m)))))"
    using live_readForwards(2) [OF assms, of ?f ?w1 "[]" fuel] there(2)
    by (simp add: end_of segment_def newest_def)
  then show "result_of (querySince fuel J j t limit) w = None \<or>
      (\<exists>f m ob. length (takeWhile (\<lambda>raw. re_usec raw < ?t) (in_view V w)) \<le> f \<and> f \<le> m \<and>
         length (in_view V w) \<le> m \<and> m \<le> length (in_view V ?w') \<and>
         result_of (querySince fuel J j t limit) w = Some (success ob) \<and>
         ob_value ob = map (ob_value \<circ> stored_entry) (segment (in_view V ?w') (max f (m - limit)) m))"
  proof (elim disjE exE conjE)
    fix m
    assume m: "?f \<le> m" "length (in_view V ?w1) \<le> m" "m \<le> length (in_view V ?w')"
      "result_of (readForwards fuel J j limit []) ?w1 =
         Some (success (newest limit (map stored_entry (segment (in_view V ?w') ?f m))))"
    have "newest limit (map stored_entry (segment (in_view V ?w') ?f m)) =
        map stored_entry (segment (in_view V ?w') (max ?f (m - limit)) m)"
      using newest_segment [OF m(3)] by (simp add: newest_def drop_map)
    moreover have "length (takeWhile (\<lambda>raw. re_usec raw < ?t) (in_view V w)) \<le> ?f"
      using view1 by (rule takeWhile_prefix_length)
    moreover have "result_of (querySince fuel J j t limit) w = Some (success (appendEntries
        (newest limit (map stored_entry (segment (in_view V ?w') ?f m))) noEntries))"
      using m(4) there(1) known by (simp add: querySince_def end_of)
    ultimately show ?thesis
      using m(1-3) prefix_length_le [OF view1]
      by (intro disjI2 exI [of _ ?f] exI [of _ m] exI [of _ "appendEntries
        (newest limit (map stored_entry (segment (in_view V ?w') ?f m))) noEntries"] conjI)
         (simp_all add: appendEntries_eq)
  qed (use there(1) known in \<open>simp add: querySince_def\<close>)
qed

text \<open>Either query returns a run of entries that ends at the end of the journal as it was found. It has at
  most \<open>limit\<close> entries of those that were there before, and none that are older than the time asked for.\<close>

definition begins_at :: "LogQuery \<Rightarrow> raw_entry list \<Rightarrow> nat \<Rightarrow> bool" where
  "begins_at query before k \<longleftrightarrow> length before \<le> k + lq_limit query \<and>
     (\<forall>i. k \<le> i \<and> i < length before \<longrightarrow>
        (case lq_since query of None \<Rightarrow> True | Some t \<Rightarrow> toMicroseconds t \<le> uint (re_usec (before ! i))))"

lemma begins_later: "begins_at query before k \<Longrightarrow> k \<le> k' \<Longrightarrow> begins_at query before k'"
  unfolding begins_at_def by auto

lemma begins_since:
  assumes "sorted (map re_usec xs)" and "length (takeWhile (\<lambda>raw. re_usec raw < word_of_int u) xs) \<le> i"
    and "i < length xs" and "0 \<le> u" and "u < 2 ^ 64"
  shows "u \<le> uint (re_usec (xs ! i))"
proof -
  let ?n = "length (takeWhile (\<lambda>raw. re_usec raw < word_of_int u) xs)"
  have "\<not> re_usec (xs ! ?n) < word_of_int u"
    using nth_length_takeWhile [of "\<lambda>raw. re_usec raw < word_of_int u" xs] assms(2,3) by simp
  moreover have "re_usec (xs ! ?n) \<le> re_usec (xs ! i)"
    using sorted_nth_mono [OF assms(1), of ?n i] assms(2,3) by simp
  moreover have "uint (word_of_int u :: u64) = u" using assms(4,5) by (simp add: uint_word_of_int)
  ultimately show ?thesis by (simp add: word_le_def word_less_def)
qed

lemma in_view_sorted: "live_store V \<Longrightarrow> sorted (map re_usec (in_view V w))"
  by (simp add: live_store_def in_view_def visible_def sorted_filter)

lemma live_queryJournal:
  assumes moves: "live_moves J j V" and reads: "live_reads J j V" and store: "live_store V"
    and limit: "0 < lq_limit query" and since: "\<forall>t. lq_since query = Some t \<longrightarrow> 0 \<le> t \<and> t < 2 ^ 63"
  shows "grows V (queryJournal fuel J j query)"
    and "result_of (queryJournal fuel J j query) w = None \<or>
      (\<exists>k m ob. k \<le> m \<and> m \<le> length (in_view V (world_after (queryJournal fuel J j query) w)) \<and>
         length (in_view V w) \<le> m \<and> begins_at query (in_view V w) k \<and>
         result_of (queryJournal fuel J j query) w = Some (success ob) \<and>
         ob_value ob = map (ob_value \<circ> stored_entry)
           (segment (in_view V (world_after (queryJournal fuel J j query) w)) k m))"
proof -
  note tail = live_queryTail [OF moves reads store]
  note window = live_querySince [OF moves reads store limit]
  show "grows V (queryJournal fuel J j query)"
    unfolding queryJournal_def by (cases "lq_since query") (auto intro!: grow_intros tail window)
  show "result_of (queryJournal fuel J j query) w = None \<or>
      (\<exists>k m ob. k \<le> m \<and> m \<le> length (in_view V (world_after (queryJournal fuel J j query) w)) \<and>
         length (in_view V w) \<le> m \<and> begins_at query (in_view V w) k \<and>
         result_of (queryJournal fuel J j query) w = Some (success ob) \<and>
         ob_value ob = map (ob_value \<circ> stored_entry)
           (segment (in_view V (world_after (queryJournal fuel J j query) w)) k m))"
  proof (cases "lq_since query")
    case None
    obtain m ob where m: "length (in_view V w) \<le> m"
        "m \<le> length (in_view V (world_after (queryTail J j (lq_limit query)) w))"
        "result_of (queryTail J j (lq_limit query)) w = success ob"
        "ob_value ob = map (ob_value \<circ> stored_entry) (segment
          (in_view V (world_after (queryTail J j (lq_limit query)) w)) (m - lq_limit query) m)"
      using tail(2) by blast
    moreover have "begins_at query (in_view V w) (m - lq_limit query)"
      using m(1) None by (simp add: begins_at_def)
    ultimately show ?thesis
      using None by (intro disjI2 exI [of _ "m - lq_limit query"] exI [of _ m] exI [of _ ob])
        (simp add: queryJournal_def)
  next
    case (Some t)
    let ?q = "querySince fuel J j t (lq_limit query)"
    have q: "queryJournal fuel J j query = ?q" by (simp add: queryJournal_def Some)
    have "0 \<le> t" "t < 2 ^ 63" using since Some by simp_all
    then have t: "0 \<le> toMicroseconds t" "toMicroseconds t < 2 ^ 64" "0 \<le> t"
      by (simp_all add: toMicroseconds_def)
    from window(2) [OF t(3), of fuel w] show ?thesis
    proof (elim disjE exE conjE)
      fix f m ob
      assume f: "length (takeWhile (\<lambda>raw. re_usec raw < word_of_int (toMicroseconds t)) (in_view V w)) \<le> f"
        and m: "f \<le> m" "length (in_view V w) \<le> m" "m \<le> length (in_view V (world_after ?q w))"
          "result_of ?q w = Some (success ob)" "ob_value ob = map (ob_value \<circ> stored_entry)
             (segment (in_view V (world_after ?q w)) (max f (m - lq_limit query)) m)"
      have "begins_at query (in_view V w) (max f (m - lq_limit query))"
        using m(2) f Some begins_since [OF in_view_sorted [OF store] _ _ t(1,2), of w]
        by (auto simp: begins_at_def)
      with m show ?thesis
        unfolding q by (intro disjI2 exI [of _ "max f (m - lq_limit query)"] exI [of _ m] exI [of _ ob]) simp
    qed (simp add: q)
  qed
qed

section \<open>What the sink is given\<close>

text \<open>The sink was given the entries from position \<open>k\<close> up to position \<open>n\<close>, and no others.\<close>

definition shows_segment :: "'w journal_view \<Rightarrow> nat \<Rightarrow> nat \<Rightarrow> 'w \<Rightarrow> bool" where
  "shows_segment V k n w \<longleftrightarrow> k \<le> n \<and> n \<le> length (in_view V w) \<and>
     map ob_value (jv_shown V w) = map (ob_value \<circ> stored_entry) (segment (in_view V w) k n)"

lemma grows_shows: "grows V m \<Longrightarrow> shows_segment V k n w \<Longrightarrow> shows_segment V k n (world_after m w)"
  using grows_in_view [of V m w] growsD(3) [of V m w]
  by (auto simp: shows_segment_def segment_prefix dest: prefix_length_le)

lemma takes_note_view:
  "takes_note V sink \<Longrightarrow> prefix (in_view V w) (in_view V (world_after (sink ob) w))"
  by (simp add: takes_note_def in_view_def visible_def prefix_filter)

lemma takes_note_shows:
  assumes "takes_note V sink" and "shows_segment V k n w" and "n < length (in_view V w)"
    and "ob_value ob = ob_value (stored_entry (in_view V w ! n))"
  shows "shows_segment V k (Suc n) (world_after (sink ob) w)"
proof -
  note view = takes_note_view [OF assms(1), of w ob]
  have "segment (in_view V (world_after (sink ob) w)) k (Suc n) = segment (in_view V w) k n @ [in_view V w ! n]"
    using segment_prefix [OF view, of "Suc n" k] segment_snoc [of k n "in_view V w"] assms(2,3)
    by (simp add: shows_segment_def)
  moreover have "jv_shown V (world_after (sink ob) w) = jv_shown V w @ [ob]"
    using assms(1) by (simp add: takes_note_def)
  ultimately show ?thesis
    using assms(2-4) prefix_length_le [OF view] by (simp add: shows_segment_def)
qed

text \<open>How following may end.\<close>

definition follow_result :: "'w JournalEntrySink \<Rightarrow> unit result \<Rightarrow> bool" where
  "follow_result sink r \<longleftrightarrow> r = follow_interrupted \<or> (\<exists>ob w e. result_of (sink ob) w = Inl e \<and> r = failure e)"

lemma live_positionAfterInitial:
  assumes moves: "live_moves J j V" and store: "live_store V"
    and entries: "entries = map (ob_value \<circ> stored_entry) (segment (in_view V w) k m)"
    and m: "k \<le> m" "m \<le> length (in_view V w)"
  shows "grows V (positionAfterInitial J j entries)"
    and "result_of (positionAfterInitial J j entries) w = success ()"
    and "let w' = world_after (positionAfterInitial J j entries) w in
      if k < m then next_index (jv_here V w') = m
      else m \<le> next_index (jv_here V w') \<and> next_index (jv_here V w') \<le> length (in_view V w')"
proof -
  have grow: "grows V (sj_seekTail J j)" "grows V (sj_seekCursor J j c)" "grows V (sj_next J j)" for c
    using moves by (simp_all add: live_moves_def)
  show "grows V (positionAfterInitial J j entries)"
    unfolding positionAfterInitial_def by (intro grow_intros grow)
  have empty: "entries = [] \<longleftrightarrow> \<not> k < m" using segment_empty [OF m(2)] by (simp add: entries not_less)
  have "result_of (positionAfterInitial J j entries) w = success () \<and>
    (let w' = world_after (positionAfterInitial J j entries) w in
      if k < m then next_index (jv_here V w') = m
      else m \<le> next_index (jv_here V w') \<and> next_index (jv_here V w') \<le> length (in_view V w'))"
  proof (cases "k < m")
    case False
    let ?w1 = "world_after (sj_seekTail J j) w"
    obtain n where "result_of (sj_seekTail J j) w = Inr ()" "jv_here V ?w1 = Before n"
        "length (in_view V w) \<le> n" "n \<le> length (in_view V ?w1)"
      using moves unfolding live_moves_def by meson
    then show ?thesis using False empty m(2) by (simp add: positionAfterInitial_def)
  next
    case True
    define c where "c = re_cursor (in_view V w ! (m - 1))"
    let ?w1 = "world_after (sj_seekCursor J j c) w"
    have last: "je_cursor (last entries) = c"
      using True m segment_empty [OF m(2), of k]
      by (simp add: entries last_map last_segment c_def stored_entry_def Let_def)
    have seek: "result_of (sj_seekCursor J j c) w = Inr ()" "jv_here V ?w1 = Before (m - 1)"
      using moves m True unfolding live_moves_def c_def by simp_all
    have "m - 1 < length (in_view V ?w1)"
      using prefix_length_le [OF grows_in_view [OF grow(2), of w c]] m(2) True by simp
    then have "result_of (sj_next J j) ?w1 = Inr True"
        "jv_here V (world_after (sj_next J j) ?w1) = At (m - 1)"
      using live_next(2) [OF moves, of ?w1] seek(2) by (auto simp: stands_at_def)
    then show ?thesis
      using True empty last seek by (simp add: positionAfterInitial_def)
  qed
  then show "result_of (positionAfterInitial J j entries) w = success ()"
    and "let w' = world_after (positionAfterInitial J j entries) w in
      if k < m then next_index (jv_here V w') = m
      else m \<le> next_index (jv_here V w') \<and> next_index (jv_here V w') \<le> length (in_view V w')"
    by blast+
qed

lemma live_emitInitial:
  assumes sink: "takes_note V sink" and stop: "waits V stop"
  shows "shows_segment V k i w \<Longrightarrow> i \<le> m \<Longrightarrow> m \<le> length (in_view V w) \<Longrightarrow>
    es = map (ob_value \<circ> stored_entry) (segment (in_view V w) i m) \<Longrightarrow>
    (\<exists>n. shows_segment V k n (world_after (emitInitial es ws sink stop) w) \<and>
       jv_here V (world_after (emitInitial es ws sink stop) w) = jv_here V w \<and>
       (case result_of (emitInitial es ws sink stop) w of Inr _ \<Rightarrow> n = m | Inl e \<Rightarrow> follow_result sink (Inl e))) \<and>
    prefix (jv_store V w) (jv_store V (world_after (emitInitial es ws sink stop) w)) \<and>
    jv_matches V (world_after (emitInitial es ws sink stop) w) = jv_matches V w"
proof (induction es arbitrary: i w ws)
  case Nil
  then have "i = m" using segment_empty [OF Nil.prems(3), of i] by simp
  with Nil show ?case by auto
next
  case (Cons e es)
  let ?w1 = "world_after stop w"
  have i: "i < m" using Cons.prems(4) segment_empty [OF Cons.prems(3), of i] by auto
  have e: "e = ob_value (stored_entry (in_view V w ! i))"
      "es = map (ob_value \<circ> stored_entry) (segment (in_view V w) (Suc i) m)"
    using Cons.prems(4) segment_Cons [OF i Cons.prems(3)] by simp_all
  note view1 = grows_in_view [OF waits_grows [OF stop], of w]
  have shows1: "shows_segment V k i ?w1" using grows_shows [OF waits_grows [OF stop] Cons.prems(1)] .
  have same1: "jv_here V ?w1 = jv_here V w" "jv_matches V ?w1 = jv_matches V w"
      "prefix (jv_store V w) (jv_store V ?w1)"
    using stop growsD [OF waits_grows [OF stop]] by (simp_all add: waits_def)
  show ?case
  proof (cases "result_of stop w")
    case True
    then show ?thesis using shows1 same1 by (auto simp: follow_interrupted_def follow_result_def)
  next
    case False
    let ?ob = "\<lparr>ob_value = e, ob_warnings = ws\<rparr>" and ?w2 = "world_after (sink \<lparr>ob_value = e, ob_warnings = ws\<rparr>) ?w1"
    have view2: "prefix (in_view V w) (in_view V ?w2)"
      using view1 takes_note_view [OF sink] by (rule prefix_order.trans)
    have shows2: "shows_segment V k (Suc i) ?w2"
      using takes_note_shows [OF sink shows1, of ?ob] i Cons.prems(3) prefix_length_le [OF view1]
        prefix_nth [OF view1, of i] e(1) by simp
    have same2: "jv_here V ?w2 = jv_here V w" "jv_matches V ?w2 = jv_matches V w"
        "prefix (jv_store V w) (jv_store V ?w2)"
      using sink same1 unfolding takes_note_def by (simp, simp, metis prefix_order.trans)
    show ?thesis
    proof (cases "result_of (sink ?ob) ?w1")
      case (Inl err)
      then show ?thesis using False shows2 same2 by (auto simp: follow_result_def)
    next
      case (Inr u)
      have "es = map (ob_value \<circ> stored_entry) (segment (in_view V ?w2) (Suc i) m)"
        using e(2) segment_prefix [OF view2 Cons.prems(3)] by simp
      from Cons.IH [OF shows2 _ _ this] i Cons.prems(3) prefix_length_le [OF view2] False Inr same2
      show ?thesis by (auto intro: prefix_order.trans)
    qed
  qed
qed

text \<open>What holds of the world when following has ended.\<close>

definition follows_from :: "'w journal_view \<Rightarrow> 'w JournalEntrySink \<Rightarrow> nat \<Rightarrow> 'w \<Rightarrow> ('w, unit result option) io \<Rightarrow> bool" where
  "follows_from V sink k w m \<longleftrightarrow>
     (\<exists>n. shows_segment V k n (world_after m w)) \<and>
     (case result_of m w of None \<Rightarrow> True | Some r \<Rightarrow> follow_result sink r) \<and>
     prefix (jv_store V w) (jv_store V (world_after m w)) \<and>
     jv_matches V (world_after m w) = jv_matches V w"

lemma follows_return:
  "shows_segment V k n w \<Longrightarrow> (case r of None \<Rightarrow> True | Some x \<Rightarrow> follow_result sink x) \<Longrightarrow>
   follows_from V sink k w (return r)"
  by (auto simp: follows_from_def)

lemma follows_bind:
  "prefix (jv_store V w) (jv_store V (world_after m w)) \<Longrightarrow> jv_matches V (world_after m w) = jv_matches V w \<Longrightarrow>
   follows_from V sink k (world_after m w) (f (result_of m w)) \<Longrightarrow> follows_from V sink k w (State_Monad.bind m f)"
  unfolding follows_from_def result_of_bind world_after_bind by (metis prefix_order.trans)

lemma follows_grows:
  "grows V m \<Longrightarrow> follows_from V sink k (world_after m w) (f (result_of m w)) \<Longrightarrow>
   follows_from V sink k w (State_Monad.bind m f)"
  using growsD [of V m w] by (intro follows_bind) simp_all

lemma follow_result_interrupted: "follow_result sink follow_interrupted"
  by (simp add: follow_result_def)

text \<open>The parts of the loop, with what comes after them as a parameter: asking whether to stop, waiting, and
  passing on the entry the handle stands at.\<close>

lemma follows_stop:
  assumes "waits V stop" and "shows_segment V k i v" and "next_index (jv_here V v) = i"
    and "\<And>u. shows_segment V k i u \<Longrightarrow> next_index (jv_here V u) = i \<Longrightarrow> follows_from V sink k u m"
  shows "follows_from V sink k v (State_Monad.bind stop
    (\<lambda>stopped. if stopped then return (Some follow_interrupted) else m))"
proof (rule follows_grows [OF waits_grows [OF assms(1)]])
  let ?v = "world_after stop v"
  have "shows_segment V k i ?v" "next_index (jv_here V ?v) = i"
    using grows_shows [OF waits_grows [OF assms(1)] assms(2)] assms(1,3) by (simp_all add: waits_def)
  then show "follows_from V sink k ?v (if result_of stop v then return (Some follow_interrupted) else m)"
    using assms(4) [of ?v] by (auto intro!: follows_return follow_result_interrupted)
qed

lemma follows_wait:
  assumes "live_moves J j V" and "shows_segment V k i v" and "next_index (jv_here V v) = i"
    and "\<And>u. shows_segment V k i u \<Longrightarrow> next_index (jv_here V u) = i \<Longrightarrow> follows_from V sink k u m"
  shows "follows_from V sink k v (State_Monad.bind (sj_wait J j t) (case_sum f (\<lambda>_. m)))"
proof -
  have wait: "waits V (sj_wait J j t)" "result_of (sj_wait J j t) v = Inr ()"
    using assms(1) by (simp_all add: live_moves_def)
  have "follows_from V sink k (world_after (sj_wait J j t) v) m"
    using assms(4) [OF grows_shows [OF waits_grows [OF wait(1)] assms(2)]] wait(1) assms(3)
    by (simp add: waits_def)
  then show ?thesis by (intro follows_grows [OF waits_grows [OF wait(1)]]) (simp add: wait(2))
qed

lemma follows_entry:
  assumes reads: "live_reads J j V" and store: "live_store V" and sink: "takes_note V sink"
    and shown: "shows_segment V k i v" and at: "stands_at V i raw v"
    and go_on: "\<And>u. shows_segment V k (Suc i) u \<Longrightarrow> next_index (jv_here V u) = Suc i \<Longrightarrow> follows_from V sink k u m"
  shows "follows_from V sink k v (State_Monad.bind (readCurrentEntry J j) (case_sum (\<lambda>e. return (Some (failure e)))
    (\<lambda>ob. State_Monad.bind (sink ob) (case_sum (\<lambda>e. return (Some (failure e))) (\<lambda>_. m)))))"
proof -
  have wait: "waits V (readCurrentEntry J j)" using reads by (rule readCurrentEntry_waits)
  let ?ob = "stored_entry raw"
  let ?v1 = "world_after (readCurrentEntry J j) v" and ?v2 = "world_after (sink ?ob) (world_after (readCurrentEntry J j) v)"
  have "raw \<in> set (in_view V v)" using at by (auto simp: stands_at_def)
  then have entry: "result_of (readCurrentEntry J j) v = success ?ob"
    using live_readCurrentEntry [OF reads at] in_view_range [OF store] by blast
  have at1: "stands_at V i raw ?v1" using wait at by (rule waits_stands)
  have shown2: "shows_segment V k (Suc i) ?v2"
    using takes_note_shows [OF sink grows_shows [OF waits_grows [OF wait] shown]] at1
    by (auto simp: stands_at_def)
  have "next_index (jv_here V ?v2) = Suc i"
    using sink at1 by (simp add: takes_note_def stands_at_def)
  from go_on [OF shown2 this] shown2
  have "follows_from V sink k ?v2 (case_sum (\<lambda>e. return (Some (failure e))) (\<lambda>_. m) (result_of (sink ?ob) ?v1))"
    by (cases "result_of (sink ?ob) ?v1") (auto simp: follow_result_def intro!: follows_return)
  then have "follows_from V sink k ?v1 (State_Monad.bind (sink ?ob) (case_sum (\<lambda>e. return (Some (failure e))) (\<lambda>_. m)))"
    by (intro follows_bind) (use sink in \<open>simp_all add: takes_note_def\<close>)
  then show ?thesis
    by (intro follows_grows [OF waits_grows [OF wait]]) (simp add: entry)
qed

lemma live_followLoop:
  assumes moves: "live_moves J j V" and reads: "live_reads J j V" and store: "live_store V"
    and sink: "takes_note V sink" and stop: "waits V stop"
  shows "shows_segment V k n w \<Longrightarrow> next_index (jv_here V w) = n \<Longrightarrow>
    follows_from V sink k w (followLoop fuel J j sink stop checked)"
proof (induction fuel arbitrary: n w checked)
  case 0
  then show ?case by (simp add: follows_return)
next
  case (Suc fuel)
  have go_on: "follows_from V sink k u (followLoop fuel J j sink stop c)"
    if "shows_segment V k i u" "next_index (jv_here V u) = i" for u i c
    using that by (rule Suc.IH)
  show ?case
  proof (cases checked)
    case False
    then show ?thesis by (simp, intro follows_stop [OF stop Suc.prems] go_on)
  next
    case True
    then have checked: "checked = True" by simp
    let ?w1 = "world_after (sj_next J j) w"
    have shows1: "shows_segment V k n ?w1"
      using grows_shows [OF live_next(1) [OF moves] Suc.prems(1)] .
    note next_step = follows_grows [OF live_next(1) [OF moves]]
    from live_next(2) [OF moves, of w] show ?thesis
    proof (elim disjE conjE)
      assume none: "result_of (sj_next J j) w = Inr False" "jv_here V ?w1 = jv_here V w"
      with Suc.prems(2) have "next_index (jv_here V ?w1) = n" by simp
      then have "follows_from V sink k ?w1 (State_Monad.bind (sj_wait J j t)
          (case_sum f (\<lambda>_. followLoop fuel J j sink stop False)))" for t f
        by (rule follows_wait [OF moves shows1]) (rule go_on)
      then show ?thesis
        unfolding checked followLoop.simps by (intro next_step) (simp add: none(1))
    next
      assume some: "result_of (sj_next J j) w = Inr True"
        and "stands_at V (next_index (jv_here V w)) (in_view V ?w1 ! next_index (jv_here V w)) ?w1"
      then have "stands_at V n (in_view V ?w1 ! n) ?w1" using Suc.prems(2) by simp
      then have "follows_from V sink k ?w1 (State_Monad.bind (readCurrentEntry J j)
          (case_sum (\<lambda>e. return (Some (failure e))) (\<lambda>ob. State_Monad.bind (sink ob)
            (case_sum (\<lambda>e. return (Some (failure e))) (\<lambda>_. State_Monad.bind stop (\<lambda>stopped.
              if stopped then return (Some follow_interrupted) else followLoop fuel J j sink stop True))))))"
        by (rule follows_entry [OF reads store sink shows1]) (rule follows_stop [OF stop], assumption+, rule go_on)
      then show ?thesis
        unfolding checked followLoop.simps by (intro next_step) (simp add: some)
    qed
  qed
qed

section \<open>Following from the start\<close>

lemma live_configureJournal:
  assumes "live_configures J j V" and "0 < lq_limit query"
  shows "result_of (configureJournal J j query) w = success ()"
    and "jv_matches V (world_after (configureJournal J j query) w) = jv_matches V w @ query_matches query"
    and "prefix (jv_store V w) (jv_store V (world_after (configureJournal J j query) w))"
    and "jv_shown V (world_after (configureJournal J j query) w) = jv_shown V w"
proof -
  have optional: "result_of (addOptionalMatch J j m) w = success ()"
      "jv_matches V (world_after (addOptionalMatch J j m) w) = jv_matches V w @ (case m of None \<Rightarrow> [] | Some x \<Rightarrow> [x])"
      "prefix (jv_store V w) (jv_store V (world_after (addOptionalMatch J j m) w))"
      "jv_shown V (world_after (addOptionalMatch J j m) w) = jv_shown V w" for m w
    using assms(1) by (auto simp: addOptionalMatch_def addMatch_def live_configures_def split: option.split)
  have threshold: "result_of (sj_setDataThreshold J j n) w = Inr ()"
      "jv_matches V (world_after (sj_setDataThreshold J j n) w) = jv_matches V w"
      "prefix (jv_store V w) (jv_store V (world_after (sj_setDataThreshold J j n) w))"
      "jv_shown V (world_after (sj_setDataThreshold J j n) w) = jv_shown V w" for n w
    using assms(1) by (simp_all add: live_configures_def grows_def)
  show "result_of (configureJournal J j query) w = success ()"
      "jv_shown V (world_after (configureJournal J j query) w) = jv_shown V w"
    using assms(2) optional threshold by (simp_all add: configureJournal_def)
  show "prefix (jv_store V w) (jv_store V (world_after (configureJournal J j query) w))"
    using assms(2) optional(1,3) threshold(1,3)
    by (simp add: configureJournal_def) (meson prefix_order.trans)
  show "jv_matches V (world_after (configureJournal J j query) w) = jv_matches V w @ query_matches query"
    using assms(2) optional threshold
    by (simp add: configureJournal_def query_matches_def option.case_distrib [where h = "\<lambda>x. _ @ x"]
        split: option.split)
qed

text \<open>Nothing was shown yet.\<close>

lemma shows_nothing: "jv_shown V w = [] \<Longrightarrow> k \<le> length (in_view V w) \<Longrightarrow> shows_segment V k k w"
  by (simp add: shows_segment_def segment_def)

lemma begins_prefix:
  assumes "begins_at query ys k" and pre: "prefix xs ys"
  shows "begins_at query xs k"
proof -
  have "i < length ys \<and> ys ! i = xs ! i" if "i < length xs" for i
    using prefix_nth [OF pre that] prefix_length_le [OF pre] that by simp
  then show ?thesis
    using assms(1) prefix_length_le [OF pre] unfolding begins_at_def
    by (intro conjI allI impI) (linarith, metis)
qed

text \<open>From a configured handle on: the entries found first, then the loop.\<close>

lemma live_emit_and_loop:
  assumes moves: "live_moves J j V" and reads: "live_reads J j V" and store: "live_store V"
    and sink: "takes_note V sink" and stop: "waits V stop"
    and es: "es = map (ob_value \<circ> stored_entry) (segment (in_view V w) k m)" "k \<le> m" "m \<le> length (in_view V w)"
    and here: "next_index (jv_here V w) = m" and shown: "jv_shown V w = []"
  shows "follows_from V sink k w (State_Monad.bind (emitInitial es ws sink stop)
    (case_sum (\<lambda>e. return (Some (failure e))) (\<lambda>_. followLoop fuel J j sink stop False)))"
proof -
  let ?w1 = "world_after (emitInitial es ws sink stop) w"
  have "shows_segment V k k w" using shown es(2,3) by (intro shows_nothing) simp_all
  from live_emitInitial [OF sink stop this es(2,3,1), of ws] obtain n where n: "shows_segment V k n ?w1"
      "jv_here V ?w1 = jv_here V w"
      "case result_of (emitInitial es ws sink stop) w of Inr _ \<Rightarrow> n = m | Inl e \<Rightarrow> follow_result sink (Inl e)"
    and kept: "prefix (jv_store V w) (jv_store V ?w1)" "jv_matches V ?w1 = jv_matches V w"
    by blast
  show ?thesis
  proof (rule follows_bind [OF kept])
    show "follows_from V sink k ?w1 (case_sum (\<lambda>e. return (Some (failure e)))
        (\<lambda>_. followLoop fuel J j sink stop False) (result_of (emitInitial es ws sink stop) w))"
      using n here live_followLoop [OF moves reads store sink stop n(1)]
      by (cases "result_of (emitInitial es ws sink stop) w") (auto intro!: follows_return)
  qed
qed

lemma live_follow_configured:
  assumes moves: "live_moves J j V" and reads: "live_reads J j V" and store: "live_store V"
    and sink: "takes_note V sink" and stop: "waits V stop" and limit: "0 < lq_limit query"
    and since: "\<forall>t. lq_since query = Some t \<longrightarrow> 0 \<le> t \<and> t < 2 ^ 63" and shown: "jv_shown V w = []"
  shows "\<exists>k. begins_at query (in_view V w) k \<and> follows_from V sink k w (do {
    initial \<leftarrow> queryJournal fuel J j query;
    case initial of
      None \<Rightarrow> return None
    | Some (Inl e) \<Rightarrow> return (Some (failure e))
    | Some (Inr ob) \<Rightarrow> do {
        positioned \<leftarrow> positionAfterInitial J j (ob_value ob);
        case positioned of
          Inl e \<Rightarrow> return (Some (failure e))
        | Inr _ \<Rightarrow> do {
            emitted \<leftarrow> emitInitial (ob_value ob) (ob_warnings ob) sink stop;
            case emitted of
              Inl e \<Rightarrow> return (Some (failure e))
            | Inr _ \<Rightarrow> followLoop fuel J j sink stop False
          }
      }
  })" (is "\<exists>k. _ \<and> follows_from V sink k w (State_Monad.bind ?query ?rest)")
proof -
  let ?w1 = "world_after ?query w"
  note query = live_queryJournal [OF moves reads store limit since, where fuel = fuel]
  have shown1: "jv_shown V ?w1 = []" using growsD(3) [OF query(1)] shown by simp
  from query(2) [of w] show ?thesis
  proof (elim disjE exE conjE)
    assume none: "result_of ?query w = None"
    let ?k = "length (in_view V ?w1)"
    have "follows_from V sink ?k ?w1 (return None)"
      by (rule follows_return [OF shows_nothing [OF shown1]]) simp_all
    then have "follows_from V sink ?k w (State_Monad.bind ?query ?rest)"
      by (intro follows_grows [OF query(1)]) (simp add: none)
    moreover have "begins_at query (in_view V w) ?k"
      using prefix_length_le [OF grows_in_view [OF query(1), of w]] by (auto simp: begins_at_def)
    ultimately show ?thesis by blast
  next
    fix k m ob
    assume m: "k \<le> m" "m \<le> length (in_view V ?w1)" "length (in_view V w) \<le> m"
      and begins: "begins_at query (in_view V w) k" and found: "result_of ?query w = Some (success ob)"
      and es: "ob_value ob = map (ob_value \<circ> stored_entry) (segment (in_view V ?w1) k m)"
    let ?position = "positionAfterInitial J j (ob_value ob)" and ?w2 = "world_after (positionAfterInitial J j (ob_value ob)) ?w1"
    note position = live_positionAfterInitial [OF moves store es m(1,2)]
    note view = grows_in_view [OF position(1), of ?w1]
    have shown2: "jv_shown V ?w2 = []" using growsD(3) [OF position(1)] shown1 by simp
    define k' where "k' = (if k < m then k else next_index (jv_here V ?w2))"
    define m' where "m' = (if k < m then m else next_index (jv_here V ?w2))"
    have k': "k \<le> k'" "k' \<le> m'" "m' \<le> length (in_view V ?w2)" "next_index (jv_here V ?w2) = m'"
      using position(3) m prefix_length_le [OF view] by (auto simp: k'_def m'_def Let_def split: if_splits)
    have "ob_value ob = map (ob_value \<circ> stored_entry) (segment (in_view V ?w2) k' m')"
      using es segment_prefix [OF view m(2), of k] m(1,2) by (auto simp: k'_def m'_def segment_def)
    from live_emit_and_loop [OF moves reads store sink stop this k'(2,3,4) shown2, of "ob_warnings ob" fuel]
    have "follows_from V sink k' ?w1 (State_Monad.bind ?position (case_sum (\<lambda>e. return (Some (failure e)))
        (\<lambda>_. State_Monad.bind (emitInitial (ob_value ob) (ob_warnings ob) sink stop)
          (case_sum (\<lambda>e. return (Some (failure e))) (\<lambda>_. followLoop fuel J j sink stop False)))))"
      by (intro follows_grows [OF position(1)]) (simp add: position(2))
    then have "follows_from V sink k' w (State_Monad.bind ?query ?rest)"
      by (intro follows_grows [OF query(1)]) (simp add: found)
    then show ?thesis using begins_later [OF begins k'(1)] by blast
  qed
qed

section \<open>Properties\<close>

text \<open>
  C21. Following a log shows a gapless run of it: while other programs write to the journal, and whenever and
  however following ends, what the sink was given is a run of consecutive entries of those that carry
  the asked unit and process id, in journal order, each with its time and its decoded fields, none left out
  and none twice; times are below 2^63 nanoseconds, where the code's conversion does not overflow. Of the entries that were
  there before it has at most \<open>limit\<close> and none older than the asked time. Following ends only when it is
  asked to stop or when the sink refuses an entry.
\<close>

theorem SystemdJournalProvider_follow_gapless:
  assumes "live_journal J j V" and "takes_note V sink" and "waits V stop" and "0 < lq_limit query"
    and "\<forall>t. lq_since query = Some t \<longrightarrow> 0 \<le> t \<and> t < 2 ^ 63" and "jv_shown V w = []"
  shows "\<exists>k n. k \<le> n \<and>
      n \<le> length (visible (jv_store V (world_after (SystemdJournalProvider_follow fuel J query sink stop) w))
        (query_matches query)) \<and>
      map ob_value (jv_shown V (world_after (SystemdJournalProvider_follow fuel J query sink stop) w)) =
        map (ob_value \<circ> stored_entry) (segment (visible (jv_store V
          (world_after (SystemdJournalProvider_follow fuel J query sink stop) w)) (query_matches query)) k n) \<and>
      begins_at query (visible (jv_store V w) (query_matches query)) k \<and>
      (case result_of (SystemdJournalProvider_follow fuel J query sink stop) w of
         None \<Rightarrow> True
       | Some r \<Rightarrow> follow_result sink r)"
proof -
  let ?follow = "SystemdJournalProvider_follow fuel J query sink stop"
  have conf: "live_configures J j V" and rest: "live_moves J j V" "live_reads J j V" "live_store V"
    using assms(1) by (simp_all add: live_journal_def)
  define w1 where "w1 = world_after (sj_open J) w"
  define w2 where "w2 = world_after (configureJournal J j query) w1"
  have opened: "result_of (sj_open J) w = Inr j" "jv_matches V w1 = []" "prefix (jv_store V w) (jv_store V w1)"
      "jv_shown V w1 = []"
    using conf assms(6) by (simp_all add: live_configures_def w1_def)
  note configured = live_configureJournal [OF conf assms(4), of w1, folded w2_def]
  have view: "in_view V w2 = visible (jv_store V w2) (query_matches query)"
    using configured(2) opened(2) by (simp add: in_view_def)
  have before: "prefix (visible (jv_store V w) (query_matches query)) (in_view V w2)"
    unfolding view visible_def using prefix_order.trans [OF opened(3) configured(3)] by (rule prefix_filter)
  obtain k m where begins: "begins_at query (in_view V w2) k" and follows: "follows_from V sink k w2 m"
    and m: "followJournal fuel J j query sink stop = do {
      configured \<leftarrow> configureJournal J j query;
      case configured of Inl e \<Rightarrow> return (Some (failure e)) | Inr _ \<Rightarrow> m }"
    using live_follow_configured [OF rest assms(2-5), of w2 fuel] configured(4) opened(4)
    unfolding followJournal_def by auto
  let ?w3 = "world_after m w2"
  have run: "result_of ?follow w = result_of m w2" "world_after ?follow w = world_after (sj_close J j) ?w3"
    using opened(1) configured(1)
    by (simp_all add: SystemdJournalProvider_follow_def openLocal_def m w1_def [symmetric] w2_def [symmetric])
  obtain n where "shows_segment V k n ?w3" using follows by (auto simp: follows_from_def)
  moreover have close: "grows V (sj_close J j)" using conf by (simp add: live_configures_def)
  ultimately have "shows_segment V k n (world_after ?follow w)"
    unfolding run(2) by (rule grows_shows [rotated])
  moreover have "in_view V (world_after ?follow w) = visible (jv_store V (world_after ?follow w)) (query_matches query)"
    using growsD(2) [OF close, of ?w3] follows configured(2) opened(2)
    by (simp add: in_view_def run(2) follows_from_def)
  ultimately show ?thesis
    using begins_prefix [OF begins before] follows run(1)
    by (intro exI [of _ k] exI [of _ n]) (simp add: shows_segment_def follows_from_def)
qed

section \<open>A growing journal in memory\<close>

text \<open>A library over a store that gets one more entry of \<open>E\<close> with every wait, a sink that takes note, and a
  user who stops after a number of questions.\<close>

record live_memory =
  lm_matches :: "string list"
  lm_here :: place
  lm_count :: nat
  lm_shown :: "JournalEntry Observation list"
  lm_patience :: nat

definition live_view :: "raw_entry list \<Rightarrow> live_memory journal_view" where
  "live_view E = \<lparr>jv_store = (\<lambda>w. take (lm_count w) E), jv_matches = lm_matches, jv_here = lm_here, jv_shown = lm_shown\<rparr>"

definition live_current :: "raw_entry list \<Rightarrow> live_memory \<Rightarrow> raw_entry option" where
  "live_current E w = (case lm_here w of
     At i \<Rightarrow> if i < length (in_view (live_view E) w) then Some (in_view (live_view E) w ! i) else None
   | Before _ \<Rightarrow> None)"

definition live_SdJournal :: "raw_entry list \<Rightarrow> (live_memory, unit) SdJournalLib" where
  "live_SdJournal E =
     \<lparr>sj_open = State (\<lambda>w. (Inr (), w\<lparr>lm_matches := []\<rparr>)),
      sj_close = (\<lambda>_. return ()),
      sj_setDataThreshold = (\<lambda>_ _. return (Inr ())),
      sj_addMatch = (\<lambda>_ m. State (\<lambda>w. (Inr (), w\<lparr>lm_matches := lm_matches w @ [m]\<rparr>))),
      sj_getData = (\<lambda>_ f. State (\<lambda>w. (case live_current E w of
          None \<Rightarrow> Inl ENOENT
        | Some raw \<Rightarrow> (case re_fields raw f of None \<Rightarrow> Inl ENOENT | Some v \<Rightarrow> Inr (Some (f @ ''='' @ v))), w))),
      sj_getRealtimeUsec = (\<lambda>_. State (\<lambda>w. (case live_current E w of None \<Rightarrow> Inl EIO | Some raw \<Rightarrow> Inr (re_usec raw), w))),
      sj_getCursor = (\<lambda>_. State (\<lambda>w. (case live_current E w of None \<Rightarrow> Inl EIO | Some raw \<Rightarrow> Inr (Some (re_cursor raw)), w))),
      sj_seekTail = (\<lambda>_. State (\<lambda>w. (Inr (), w\<lparr>lm_here := Before (length (in_view (live_view E) w))\<rparr>))),
      sj_seekRealtimeUsec = (\<lambda>_ t. State (\<lambda>w. (Inr (),
        w\<lparr>lm_here := Before (length (takeWhile (\<lambda>raw. re_usec raw < t) (in_view (live_view E) w)))\<rparr>))),
      sj_seekCursor = (\<lambda>_ c. State (\<lambda>w. (Inr (),
        w\<lparr>lm_here := Before (length (takeWhile (\<lambda>raw. re_cursor raw \<noteq> c) (in_view (live_view E) w)))\<rparr>))),
      sj_previous = (\<lambda>_. State (\<lambda>w. (Inr (0 < entries_before (lm_here w)),
        if 0 < entries_before (lm_here w) then w\<lparr>lm_here := At (entries_before (lm_here w) - 1)\<rparr> else w))),
      sj_next = (\<lambda>_. State (\<lambda>w. (Inr (next_index (lm_here w) < length (in_view (live_view E) w)),
        if next_index (lm_here w) < length (in_view (live_view E) w)
        then w\<lparr>lm_here := At (next_index (lm_here w))\<rparr> else w))),
      sj_wait = (\<lambda>_ _. State (\<lambda>w. (Inr (), w\<lparr>lm_count := lm_count w + 1\<rparr>))),
      sj_strerror = (\<lambda>_. ''error'')\<rparr>"

definition live_sink :: "live_memory JournalEntrySink" where
  "live_sink ob = State (\<lambda>w. (success (), w\<lparr>lm_shown := lm_shown w @ [ob]\<rparr>))"

definition live_stop :: "live_memory JournalStopRequested" where
  "live_stop = State (\<lambda>w. (lm_patience w = 0, w\<lparr>lm_patience := lm_patience w - 1\<rparr>))"

lemma live_view_sel [simp]:
  "jv_store (live_view E) w = take (lm_count w) E" "jv_matches (live_view E) w = lm_matches w"
  "jv_here (live_view E) w = lm_here w" "jv_shown (live_view E) w = lm_shown w"
  "in_view (live_view E) (w\<lparr>lm_here := p\<rparr>) = in_view (live_view E) w"
  by (simp_all add: live_view_def in_view_def)

lemma take_grows: "prefix (take n xs) (take (Suc n) xs)"
  by (cases "n < length xs") (simp_all add: take_Suc_conv_app_nth)

lemma find_cursor:
  assumes "distinct (map re_cursor xs)" and "i < length xs"
  shows "length (takeWhile (\<lambda>raw. re_cursor raw \<noteq> re_cursor (xs ! i)) xs) = i"
proof -
  have "takeWhile (\<lambda>raw. re_cursor raw \<noteq> re_cursor (xs ! i)) xs = take i xs"
    using assms by (intro takeWhile_eq_take_P_nth) (auto simp: distinct_conv_nth)
  then show ?thesis using assms(2) by simp
qed

lemma live_memory_moves:
  assumes "distinct (map re_cursor E)"
  shows "live_moves (live_SdJournal E) () (live_view E)"
proof -
  have distinct: "distinct (map re_cursor (in_view (live_view E) w))" for w
    using assms by (simp add: in_view_def visible_def distinct_map_filter distinct_take take_map [symmetric])
  show ?thesis
    unfolding live_moves_def
    by (intro conjI allI impI)
       (auto simp: live_SdJournal_def grows_def waits_def find_cursor [OF distinct] take_grows)
qed

lemma live_memory:
  assumes "distinct (map re_cursor E)" and "sorted (map re_usec E)" and "\<forall>raw \<in> set E. uint (re_usec raw) * 1000 < 2 ^ 63"
  shows "live_journal (live_SdJournal E) () (live_view E)"
  unfolding live_journal_def
proof (intro conjI live_memory_moves [OF assms(1)])
  show "live_configures (live_SdJournal E) () (live_view E)"
    by (simp add: live_configures_def live_SdJournal_def grows_def)
  show "live_reads (live_SdJournal E) () (live_view E)"
    by (auto simp: live_reads_def live_SdJournal_def grows_def waits_def live_current_def split: option.split)
  show "live_store (live_view E)"
    using assms by (auto simp: live_store_def distinct_take take_map [symmetric] sorted_wrt_take dest: in_set_takeD)
qed

definition demo_stream :: "raw_entry list" where
  "demo_stream = map (\<lambda>(t, c, u). \<lparr>re_usec = t, re_cursor = c, re_fields =
     [''_SYSTEMD_UNIT'' \<mapsto> u, ''MESSAGE'' \<mapsto> ''hello'']\<rparr>)
     [(1000, ''c1'', ''a.service''), (2000, ''c2'', ''b.service''), (3000, ''c3'', ''a.service''),
      (4000, ''c4'', ''a.service'')]"

definition demo_followed :: live_memory where
  "demo_followed = world_after (SystemdJournalProvider_follow 9 (live_SdJournal demo_stream)
     (default_LogQuery\<lparr>lq_unit := Some ''a.service'', lq_limit := 2\<rparr>) live_sink live_stop)
     \<lparr>lm_matches = [], lm_here = Before 0, lm_count = 2, lm_shown = [], lm_patience = 4\<rparr>"

theorem SystemdJournalProvider_follow_gapless_witness:
  "\<exists>k n. k \<le> n \<and> map ob_value (lm_shown demo_followed) = map (ob_value \<circ> stored_entry)
     (segment (visible (take (lm_count demo_followed) demo_stream) [''_SYSTEMD_UNIT=a.service'']) k n)"
proof -
  let ?q = "default_LogQuery\<lparr>lq_unit := Some ''a.service'', lq_limit := 2\<rparr>"
  let ?w = "\<lparr>lm_matches = [], lm_here = Before 0, lm_count = 2, lm_shown = [], lm_patience = 4\<rparr>"
  have journal: "live_journal (live_SdJournal demo_stream) () (live_view demo_stream)"
    by (rule live_memory) (simp_all add: demo_stream_def)
  have sink: "takes_note (live_view demo_stream) live_sink"
    by (simp add: takes_note_def live_sink_def)
  have stop: "waits (live_view demo_stream) live_stop"
    by (simp add: waits_def grows_def live_stop_def)
  show ?thesis
    using SystemdJournalProvider_follow_gapless [OF journal sink stop, where query = ?q and w = ?w and fuel = 9]
    by (auto simp: demo_followed_def query_matches_def default_LogQuery_def)
qed

end
