(* ===== verification/Spec2Isabelle.thy ===== *)
theory Spec2Isabelle
  imports FreePort FollowInterrupt Rounds Handles JsonText JsonSchema TuiSession JournalFollow
begin

text \<open>
  A verification of lx, a command line and terminal program that inspects and manages the processes,
  ports, services and logs of a Linux machine. The sources are the C++ files under \<open>src/src\<close> and
  \<open>src/include/lx\<close>; below, paths are given from there.

  \<^bold>\<open>The program and its parts.\<close> The domain types (\<open>domain\<close>) are shared by all layers. The services
  (\<open>application\<close>) are written against abstract providers (\<open>contracts\<close>): processes, process metrics,
  sockets, socket owners, signals, services, journal. The adapters (\<open>linux\<close>) implement the providers
  over /proc, INET_DIAG netlink sockets, pidfd and kill, sd-bus and sd-journal. On top are the command
  line (\<open>cli\<close>) and the dashboard (\<open>tui\<close>); \<open>main.cpp\<close> builds all of it.

  \<^bold>\<open>How code is modelled.\<close> A class is a record of its members, an enum or variant a datatype, a function
  that has no effects a HOL function with the name it has in the source. Code with effects is a
  program of the state monad over a world \<open>'w\<close> that nothing is assumed about; the system calls and
  libraries it uses are fields of records (\<open>OS\<close>, \<open>SignalOS\<close>, \<open>NetlinkOS\<close>, \<open>SdBusLib\<close>, \<open>SdJournalLib\<close>, \<open>Clock\<close>,
  \<open>Console\<close>, \<open>Formats\<close>), so that a statement holds for every behaviour of them, failures included, unless
  a named hypothesis says what they are documented to do. \<open>Result<T>\<close> is \<open>Error + 'a\<close>; unsigned integers
  are words of their width; \<open>pid_t\<close> and the 64-bit times are integers with the range checks written out
  where the code computes with them, and signed overflow is a value of its own (\<open>None\<close>) where a command line
  can cause it; the time of a journal entry is computed in 64 bits, and the theorems on entries are for times
  below 2^63 nanoseconds, where that does not overflow. The steady clock and the deadlines computed from it
  are unbounded integers, while the code has 64 bits for them: 292 years of nanoseconds, against deadlines a
  few seconds ahead. What a service
  calls is observed by running it on recorded providers: a world is paired with the list of calls, and
  \<open>quiet D m\<close> says that \<open>m\<close> makes no call in \<open>D\<close>. The threads of the dashboard are step relations, interleaved.

  \<^bold>\<open>Theories.\<close>
  \<^item> \<open>Prelude\<close>: the monad, recorded calls and the collections of rules that follow the shape of a program
    (\<open>quiet_intros\<close>, \<open>effect_intros\<close>, \<open>yield_intros\<close>, \<open>advance_intros\<close>). \<open>CppText\<close>: the text functions of the
    C++ library. \<open>Domain\<close>: \<open>include/lx/domain\<close>. \<open>Contracts\<close>: \<open>include/lx/contracts\<close> as records, and the laws
    the services rely on as locales.
  \<^item> \<open>ServiceService\<close>, \<open>ProcessService\<close>, \<open>PortService\<close>, \<open>LogService\<close>, \<open>ResourceResolver\<close>, \<open>InspectService\<close>,
    \<open>FindService\<close>, \<open>MetricsService\<close> (with \<open>StatusService.cpp\<close>), \<open>DoctorService\<close>, \<open>DashboardService\<close>,
    \<open>DashboardWorker\<close>: the files of these names in \<open>application\<close>.
  \<^item> \<open>ProcFsParsers\<close> and \<open>ProcFs\<close>: \<open>linux/procfs\<close>. \<open>Netlink\<close>: \<open>linux/netlink\<close>. \<open>LinuxSignal\<close>: \<open>linux/process\<close>.
    \<open>SystemdService\<close>, \<open>SystemdJournal\<close> and \<open>JournalFollow\<close> (following a journal that grows):
    \<open>linux/systemd\<close>. \<open>Handles\<close>: the classes of \<open>linux\<close> that own a handle. \<open>Rounds\<close>: that the adapters do not
    depend on the bounds of their loops where these are enough.
  \<^item> \<open>JsonSerializer\<close>: \<open>cli/JsonSerializer.cpp\<close>. \<open>JsonText\<close>: what the text of a document says. \<open>CliText\<close>: the text output of \<open>cli/CliApp.cpp\<close>. \<open>CliApp\<close>: the
    commands of \<open>CliApp::run\<close>. \<open>JsonSchema\<close>: \<open>docs/json-schema-v1.md\<close> as types, and that the output has them.
  \<^item> \<open>TaskWorker\<close>, \<open>TuiRunner\<close> (the event handler, the tasks and the renderer) and \<open>TuiSession\<close> (\<open>run\<close> as a whole,
    with the threads of both workers): \<open>tui/FtxuiTuiRunner.cpp\<close>. \<open>LxMain\<close>: \<open>main.cpp\<close>. \<open>FreePort\<close>
    (\<open>lx port free\<close> down to the kernel), \<open>FollowInterrupt\<close> (Ctrl-C during \<open>lx log --follow\<close>) and this theory: what
    spans the layers.

  \<^bold>\<open>Interfaces.\<close> The locales \<open>process_provider\<close>, \<open>owner_resolver\<close>, \<open>socket_provider\<close>, \<open>signal_provider\<close> and
  \<open>reading_journal\<close> state what the services rely on; their lemmas are the parts of the service proofs that
  depend on a provider. They are interpreted on the adapters: \<open>procfs\<close>, \<open>inodes\<close>, \<open>netlink\<close>,
  \<open>linux_signals\<close>, \<open>systemd_journal\<close> and \<open>no_journal\<close>. The locale \<open>redaction\<close> holds for the two copies of the
  redaction loop (\<open>json_redaction\<close>, \<open>text_redaction\<close>), and \<open>handle_class\<close> for the six classes that own a handle.
  The locale \<open>world_order\<close> carries a relation between worlds from the system calls to the services; its
  interpretations are that no signal was delivered (\<open>same_signals\<close>), that time passed (\<open>time_passes\<close>),
  that only the console was written to (\<open>printing\<close>), that neither the action on SIGINT nor the open handles
  changed (\<open>undisturbed\<close>) and that a reader of the journal does not fall behind (\<open>catching_up\<close>).

  \<^bold>\<open>What is shown.\<close>
  \<^item> Changing the machine. Releasing a port signals only processes that own it when it is checked
    again, reports it as free only when a look at it said so, and stops a service only if all owners
    belong to it; LX never signals itself or a process id below 2. A signal that is reported as sent was
    delivered once, to the process named, and no handle is left open. systemd is asked to change a
    unit only by the three operations for that. The commands of the program act only after consent and
    only on what was named, read-only commands and \<open>--json\<close> change nothing, the exit code of a
    signalling command is the truth about the kernel, \<open>port free --yes\<close> exits with 0 only after the kernel named
    no socket on the port, and the dashboard acts only on the resource
    that was selected when the key was pressed, after the confirmations for it, however its three
    threads interleave.
  \<^item> Reading the machine. The netlink codec never reads outside its buffer and inverts the kernel's
    format; a query returns exactly the matching sockets; the owners of sockets are exactly the
    processes with a descriptor for them; \<open>/proc/<pid>/stat\<close> is parsed back whatever the name of the process
    is; a journal query is the newest matching entries in order, and following it shows a gapless run of
    them while it grows; the graph of an inspection has exactly the
    resources related to its root, and a search finds exactly what matches or says that nothing does.
  \<^item> Texts. Unit names and times are validated as specified, prefixed expressions name the resource
    they are written for, redaction hides exactly the values of secret keys and is the same in
    both outputs, a run with \<open>--json\<close> answers with one document of the documented type, documents
    determine what was observed (for a printer whose text determines a document up to the order of its
    members), and log messages cannot write control characters to the terminal.
  \<^item> Ending. Loops that wait return, a run of the program ends with a documented exit code,
    leaving the dashboard ends both of its threads, Ctrl-C ends a followed log with exit code 130 and
    puts the signal action back, and every handle is closed exactly once.

  \<^bold>\<open>Fuel.\<close> Loops whose end depends on the machine take fuel. Polling a stopped service takes one round
  per 25 ms of the grace period and two more: 122 rounds for the three seconds of \<open>main.cpp\<close>. Waiting
  for an exit takes a number of rounds that the time-out bounds if the clock runs and interruptions
  are finite (\<open>wait_rounds\<close>). Receiving a netlink dump takes one round per datagram or interrupted call,
  decoding a list of units one per row and one more, a journal query one per entry and one more,
  and following a journal two for each look at the interrupt flag that finds it unset, and one more;
  the theorems on these operations have such amounts of fuel as hypotheses and conclude that the
  operation returns. Where an interface has no value for a loop that does not end, the value \<open>unfinished\<close>
  stands for a call that has not come back; \<open>Rounds\<close> shows that on a machine whose loops end the providers,
  and with them the program, are the same for all larger amounts of fuel, and the theorem on the exit codes
  of a run has that as part of its conclusion. The other loops are structural or have a termination proof.

  \<^bold>\<open>Not modelled.\<close> CLI11 (its result is the record \<open>ParsedArguments\<close>, and \<open>checkedArguments\<close> are the
  checks of the options), \<open>fmt::format\<close>, the printing of
  \<open>nlohmann::json\<close> and the conversions of \<open>localtime_r\<close> and \<open>mktime\<close> are libraries and parameters. FTXUI's
  screen and drawing are left out; the events that its loop delivers, the edits of its text input and
  the end of the loop are arbitrary steps of \<open>TuiSession\<close>, and in \<open>LxMain\<close> the session is a parameter
  with its possible results. The adapters are
  modelled on the handles themselves, closed where the objects that own them go out of scope (pidfd,
  netlink, journal); references to bus objects and messages are counted only in \<open>Handles\<close>.
  Iterating over /proc can throw in the code; the model ends the listing there. The
  constructor of the task worker starts its thread before two flags they share are initialised; the
  model begins when they are; its callback, which posts an event to the screen, is called outside the
  handler for exceptions of a \<open>noexcept\<close> function and is taken not to throw. Memory exhaustion is not
  modelled.
\<close>

section \<open>Listing ports over the Linux adapters\<close>

text \<open>What an inspection says about one port.\<close>

definition port_sound :: "SocketQuery \<Rightarrow> PortInfo \<Rightarrow> bool" where
  "port_sound q port \<longleftrightarrow>
     (case sq_localPort q of None \<Rightarrow> True | Some n \<Rightarrow> ep_port (so_local (po_socket port)) = n) \<and>
     sorted (so_ownerPids (po_socket port)) \<and> distinct (so_ownerPids (po_socket port)) \<and>
     subseq (map pi_pid (po_owners port)) (so_ownerPids (po_socket port))"

text \<open>
  C13. What \<open>lx port\<close> shows holds together across the kernel interfaces it comes from: over INET_DIAG,
  the descriptors in /proc and the process files, whatever these answer, every port listed for a
  number has that number, its owners are distinct and in increasing order, and the processes shown
  for it are processes with the ids of its owners, in that order.
\<close>

theorem lx_ports_sound:
  "case result_of (PortService_inspect (lxPortService M) q) w of
     Inl e \<Rightarrow> True
   | Inr ob \<Rightarrow> list_all (port_sound q) (ob_value ob)"
proof (cases "result_of (PortService_inspect (lxPortService M) q) w")
  case (Inr ob)
  have "port_sound q port" if port: "port \<in> set (ob_value ob)" for port
  proof -
    have "subseq (map pi_pid (po_owners port)) (so_ownerPids (po_socket port))"
      by (rule process_provider.inspect_owners [OF procfs.process_provider_axioms _ Inr port])
         (simp add: lxProcessProvider_def)
    moreover have "sorted (so_ownerPids (po_socket port)) \<and> distinct (so_ownerPids (po_socket port))"
      by (rule owner_resolver.inspect_owner_ids [OF inodes.owner_resolver_axioms _ _ Inr port])
         (simp_all add: netlink.socket_provider_axioms)
    ultimately show ?thesis
      using socket_provider.inspect_local_port [OF netlink.socket_provider_axioms _ Inr port]
      by (simp add: port_sound_def split: option.split)
  qed
  with Inr show ?thesis by (simp add: list_all_iff)
qed simp

section \<open>Reading over the systemd adapters\<close>

text \<open>The journal of the machine next to recorded providers.\<close>

definition silentJournal :: "('w, 'bus, 'msg, 'j) Machine \<Rightarrow> 'w recorded IJournalProvider" where
  "silentJournal M =
     (if mc_hasSystemd M then SystemdJournalProvider (mc_fuel M) (mc_followRounds M) (silentSdJournal (mc_journal M))
      else UnavailableJournalProvider without_systemd)"

lemma silentJournal_reads: "reading_journal (silentJournal M)"
  by (simp add: silentJournal_def systemd_journal.reading_journal_axioms no_journal.reading_journal_axioms)

text \<open>
  C8. Only the commands made for it change the machine, and never with \<open>--json\<close>: over the adapters the
  program is built with, a run signals no process and starts, stops or restarts no service unless
  its command line parses, names \<open>process stop\<close>, \<open>process kill\<close>, \<open>port free\<close>, a service action or \<open>tui\<close>,
  and asks for text.
\<close>

theorem lx_reads_only:
  "(\<exists>a. en_parse E args = Inr a \<and> mutating a \<and> \<not> jsonRequested args (pa_json a)) \<or>
   filter destructive (snd (world_after
     (CliApp_run (silentEnv E) (recordCliApp (silentJournal M) tui (lxApp M)) args) (w, []))) = []"
  using run_reads_only [OF silentJournal_reads, of E args] by blast

section \<open>Signals end to end\<close>

text \<open>Only signals deliver signals: talking to the user and the look-ups of the adapters do not.\<close>

definition only_signals ::
  "('w \<Rightarrow> (pid \<times> int) list) \<Rightarrow> ('w, 'bus, 'msg, 'j) Machine \<Rightarrow> 'w CliEnv \<Rightarrow> bool" where
  "only_signals delivered M E \<longleftrightarrow>
     (\<forall>s. preserves (\<lambda>v w. delivered w = delivered v) (cn_output (en_console E) s)) \<and>
     (\<forall>s. preserves (\<lambda>v w. delivered w = delivered v) (cn_error (en_console E) s)) \<and>
     lookups_preserve (\<lambda>v w. delivered w = delivered v) M"

lemma writes_keep_signals:
  assumes "only_signals delivered M E" "cr_env R = E"
  shows "delivered (world_after (writeUnlessQuiet R s) w) = delivered w"
    "delivered (world_after (cli_fail R c oper e) w) = delivered w"
  using assms
  by (auto simp: only_signals_def preserves_def writeUnlessQuiet_def writeOutput_def cli_fail_def
      writeError_def writeJson_def split: option.split)

lemma signal_delivers:
  assumes "signal_kernel handles delivered (mc_signals M)"
  shows "delivered (world_after (ProcessService_signal (lxProcessService M) p sig) w) =
    (case result_of (ProcessService_signal (lxProcessService M) p sig) w of
       Inr _ \<Rightarrow> delivered w @ [(p, nativeSignal sig)] | Inl _ \<Rightarrow> delivered w)"
  using send_delivers [OF assms, of Auto p sig w]
  by (auto simp: ProcessService_signal_def lxSignalProvider_def LinuxSignalProvider_def delivered_exactly_def
      split: sum.split)

definition signals_exactly :: "('w \<Rightarrow> (pid \<times> int) list) \<Rightarrow> pid \<times> int \<Rightarrow> ('w, cli_outcome) io \<Rightarrow> bool" where
  "signals_exactly delivered signal m \<longleftrightarrow>
     (\<forall>w. delivered (world_after m w) =
        (if result_of m w = Exits 0 then delivered w @ [signal] else delivered w))"

lemma runStopProcess_signals:
  assumes "signal_kernel handles delivered (mc_signals M)" "only_signals delivered M E" "cr_env R = E"
  shows "signals_exactly delivered (p, 15) (runStopProcess R (lxApp M) p)"
  using writes_keep_signals [OF assms(2,3)] signal_delivers [OF assms(1), of p Terminate] cli_fail_nonzero [of R]
  by (auto simp: signals_exactly_def runStopProcess_def ProcessService_stop_def nativeSignal_def split: sum.split)

lemma runKillProcess_signals:
  assumes "signal_kernel handles delivered (mc_signals M)" "only_signals delivered M E" "cr_env R = E"
  shows "signals_exactly delivered (p, 9) (runKillProcess R (lxApp M) p True)"
  using writes_keep_signals [OF assms(2,3)] signal_delivers [OF assms(1), of p Kill] cli_fail_nonzero [of R]
    same_signals.preserves_inspect [of delivered M p] assms(2)
  by (auto simp: signals_exactly_def runKillProcess_def ProcessService_kill_def nativeSignal_def
      only_signals_def preserves_def split: sum.split)

text \<open>
  C2. The exit code of a signalling command is the truth about the kernel: for a kernel that behaves as
  documented, \<open>process stop <pid>\<close> and \<open>process kill <pid> --yes\<close> exit with 0 exactly when one signal,
  SIGTERM or SIGKILL, was delivered, to that process; with any other outcome none was delivered.
\<close>

theorem lx_signal_exit_code:
  assumes "signal_kernel handles delivered (mc_signals M)" and "only_signals delivered M E"
    and "en_parse E args = Inr a" and "\<not> jsonRequested args (pa_json a)"
    and "\<not> (pa_tui a \<or> pa_doctor a \<or> pa_status a \<or> pa_inspect a \<or> pa_find a)"
    and "pa_stopProcess a \<and> signal = (pa_stopPid a, 15) \<or>
      \<not> pa_stopProcess a \<and> pa_killProcess a \<and> pa_confirmKill a \<and> signal = (pa_killPid a, 9)"
  shows "delivered (world_after (CliApp_run E (lxApp M) args) w) =
    (if result_of (CliApp_run E (lxApp M) args) w = Exits 0 then delivered w @ [signal] else delivered w)"
proof -
  let ?R = "\<lparr>cr_env = E, cr_json = False, cr_options = outputOptionsOf (en_noColor E) a\<rparr>"
  have "CliApp_run E (lxApp M) args =
      (if pa_stopProcess a then runStopProcess ?R (lxApp M) (pa_stopPid a)
       else runKillProcess ?R (lxApp M) (pa_killPid a) True)"
    using assms(3-6) by (auto simp: CliApp_run_def CliApp_dispatch_def)
  then have "signals_exactly delivered signal (CliApp_run E (lxApp M) args)"
    using assms(6) runStopProcess_signals [OF assms(1,2), of ?R] runKillProcess_signals [OF assms(1,2), of ?R]
    by auto
  then show ?thesis by (simp add: signals_exactly_def)
qed

text \<open>A machine over the worlds of \<open>demo_SignalOS\<close>, with a process file system that is empty and without
  systemd; no call of it but a signal changes the world.\<close>

definition demo_Machine :: "(demo_kernel, unit, unit, unit) Machine" where
  "demo_Machine =
     \<lparr>mc_os =
        \<lparr>os_read = (\<lambda>path. return (OpenFailed ENOENT)), os_readlink = (\<lambda>path. return (Inl ENOENT)),
         os_directory = (\<lambda>path. return (Inl ENOENT)), os_getpwuid = (\<lambda>uid n. return (0, None)),
         os_getpwSize = 1024, os_gethostname = return (Inl EIO), os_strerror = (\<lambda>n. [])\<rparr>,
      mc_signals = demo_SignalOS True,
      mc_netlink =
        \<lparr>nk_socket = return (Inl EACCES), nk_sendto = (\<lambda>fd b. return (Inl EIO)),
         nk_recv = (\<lambda>fd n. return (Inl EIO)), nk_close = (\<lambda>fd. return ()), nk_errno = return 0,
         nk_libc = demo_libc, nk_arrange = (\<lambda>sockets. sockets)\<rparr>,
      mc_bus = demo_noBus, mc_journal = demo_noJournal,
      mc_clock = sg_clock (demo_SignalOS True),
      mc_fromChars = (\<lambda>s. \<lparr>dp_ec = ErrcInvalidArgument, dp_ptr = 0, dp_value = None\<rparr>), mc_round = (\<lambda>x. x),
      mc_hashOrder = (\<lambda>ps. ps), mc_getpid = 1, mc_fuel = 100, mc_followRounds = 100, mc_hasSystemd = False, mc_hasTui = False,
      mc_tuiLoop = (\<lambda>D S. return (Inr ()))\<rparr>"

definition demo_MachineEnv :: "demo_kernel CliEnv" where
  "demo_MachineEnv =
     \<lparr>en_console =
        \<lparr>cn_output = (\<lambda>s. return ()), cn_error = (\<lambda>s. return ()), cn_getline = return None,
         cn_clearInterrupt = return (), cn_sigaction = return None, cn_restoreAction = return (),
         cn_interruptRequested = return False, cn_systemNow = return 0, cn_strerror = (\<lambda>n. [])\<rparr>,
      en_formats = demo_Formats, en_dump = (\<lambda>j. Some []), en_timeZone = demo_LocalTime,
      en_parse = (\<lambda>args. Inr (demo_arguments\<lparr>pa_process := True, pa_stopProcess := True, pa_stopPid := 42\<rparr>)),
      en_noColor = None, en_pollRounds = 122\<rparr>"

theorem lx_signal_exit_code_witness:
  "fst (snd (world_after (CliApp_run demo_MachineEnv (lxApp demo_Machine) [''process'', ''stop'', ''42''])
     (None, [], 0))) = [(42, 15)]"
proof -
  have "mc_signals demo_Machine = demo_SignalOS True"
    by (simp add: demo_Machine_def)
  then have kernel: "signal_kernel demo_handles (\<lambda>w. fst (snd w)) (mc_signals demo_Machine)"
    by (simp add: demo_signal_kernel)
  have only: "only_signals (\<lambda>w. fst (snd w)) demo_Machine demo_MachineEnv"
    by (simp add: only_signals_def lookups_preserve_def files_preserve_def netlink_preserves_def bus_preserves_def
        preserves_def demo_Machine_def demo_noBus_def demo_MachineEnv_def)
  have "result_of (CliApp_run demo_MachineEnv (lxApp demo_Machine) [''process'', ''stop'', ''42'']) (None, [], 0)
      = Exits 0"
    by (simp add: CliApp_run_def CliApp_dispatch_def jsonRequested_def demo_MachineEnv_def demo_arguments_def
        mutating_def runStopProcess_def ProcessService_stop_def ProcessService_signal_def
        ProcessService_validateSignalTarget_def lxProcessService_def lxSignalProvider_def LinuxSignalProvider_def
        LinuxSignalProvider_send_def PidFd_open_def PidFd_send_def demo_Machine_def demo_SignalOS_def
        nativeSignal_def writeUnlessQuiet_def outputOptionsOf_def writeOutput_def)
  then show ?thesis
    using lx_signal_exit_code [OF kernel only, of "[''process'', ''stop'', ''42'']" _ "(42, 15)" "(None, [], 0)"]
    by (simp add: demo_MachineEnv_def demo_arguments_def jsonRequested_def)
qed

section \<open>Every run ends with a documented exit code\<close>

text \<open>The dashboard, if it ends at all, ends with 0 or 5.\<close>

lemma lxTuiRunner_exits: "yields exits (lx_main M E True [])" if "mc_hasTui M"
  using that by (auto simp: lx_main_def yields_def exits_def split: sum.split)

text \<open>
  The loops of the adapters end on this machine within its fuel: a dump of the kernel after fewer interrupted
  calls and datagrams, the reply of systemd after fewer rows, reading the journal forwards after fewer
  entries, and waiting for a process is interrupted no more often and the clock advances meanwhile.
\<close>

definition loops_end :: "('w \<Rightarrow> int) \<Rightarrow> ('w, 'bus, 'msg, 'j) Machine \<Rightarrow> bool" where
  "loops_end time M \<longleftrightarrow>
     (\<exists>left K. dump_ends left K (mc_netlink M) \<and> K < mc_fuel M) \<and>
     (mc_hasSystemd M \<longrightarrow> (\<exists>left K. rows_end left K (mc_bus M) \<and> K < mc_fuel M) \<and>
       (\<exists>ahead N. entries_end ahead N (mc_journal M) \<and> N < mc_fuel M)) \<and>
     (\<exists>handles delivered pending K. signal_kernel handles delivered (mc_signals M) \<and>
        interruptions pending K (mc_signals M) \<and> K \<le> mc_fuel M) \<and>
     clock_ticks time (mc_signals M)"

lemma providers_more:
  assumes ends: "loops_end time M" and more: "mc_fuel M \<le> fuel"
  shows "lxSignalProvider (M\<lparr>mc_fuel := fuel\<rparr>) = lxSignalProvider M"
    and "lxServiceProvider (M\<lparr>mc_fuel := fuel\<rparr>) = lxServiceProvider M"
    and "lxJournalProvider (M\<lparr>mc_fuel := fuel\<rparr>) = lxJournalProvider M"
    and "NetlinkSocketProvider fuel (mc_netlink M) = NetlinkSocketProvider (mc_fuel M) (mc_netlink M)"
proof -
  note parts = ends [unfolded loops_end_def]
  obtain handles delivered pending K where "signal_kernel handles delivered (mc_signals M)"
      "interruptions pending K (mc_signals M)" "K \<le> mc_fuel M"
    using parts by blast
  then show "lxSignalProvider (M\<lparr>mc_fuel := fuel\<rparr>) = lxSignalProvider M"
    using LinuxSignalProvider_more [of handles delivered "mc_signals M" time pending K "mc_fuel M" fuel Auto] parts more
    by (simp add: lxSignalProvider_def)
  show "lxServiceProvider (M\<lparr>mc_fuel := fuel\<rparr>) = lxServiceProvider M"
    using parts more by (auto simp: lxServiceProvider_def intro: SystemdServiceProvider_more)
  show "lxJournalProvider (M\<lparr>mc_fuel := fuel\<rparr>) = lxJournalProvider M"
    using parts more by (auto simp: lxJournalProvider_def intro: SystemdJournalProvider_more)
  show "NetlinkSocketProvider fuel (mc_netlink M) = NetlinkSocketProvider (mc_fuel M) (mc_netlink M)"
    using parts more by (auto intro: NetlinkSocketProvider_more)
qed

lemma lx_main_more:
  assumes "loops_end time M" and "mc_fuel M \<le> fuel"
  shows "lx_main (M\<lparr>mc_fuel := fuel\<rparr>) E terminals args = lx_main M E terminals args"
proof -
  note same = providers_more [OF assms]
  have services: "lxServiceService (M\<lparr>mc_fuel := fuel\<rparr>) = lxServiceService M"
      "lxLogService (M\<lparr>mc_fuel := fuel\<rparr>) = lxLogService M"
      "lxMetricsService (M\<lparr>mc_fuel := fuel\<rparr>) = lxMetricsService M"
      "lxProcessProvider (M\<lparr>mc_fuel := fuel\<rparr>) = lxProcessProvider M"
    by (simp_all add: lxServiceService_def lxLogService_def lxMetricsService_def lxProcessProvider_def same)
  then have "lxProcessService (M\<lparr>mc_fuel := fuel\<rparr>) = lxProcessService M"
    by (simp add: lxProcessService_def same)
  moreover from this services have "lxPortService (M\<lparr>mc_fuel := fuel\<rparr>) = lxPortService M"
    by (simp add: lxPortService_def same)
  ultimately have "lxInspectService (M\<lparr>mc_fuel := fuel\<rparr>) = lxInspectService M"
      "lxFindService (M\<lparr>mc_fuel := fuel\<rparr>) = lxFindService M" "lxDoctorService (M\<lparr>mc_fuel := fuel\<rparr>) = lxDoctorService M"
      "lxTuiRunner (M\<lparr>mc_fuel := fuel\<rparr>) = lxTuiRunner M" "lxApp (M\<lparr>mc_fuel := fuel\<rparr>) = lxApp M"
    using services
    by (simp_all add: lxInspectService_def lxFindService_def lxDoctorService_def lxTuiRunner_def lxApp_def same)
  then show ?thesis by (simp add: lx_main_def)
qed


text \<open>The machine above, built with systemd, whose bus and journal cannot be reached.\<close>

definition demo_systemdMachine :: "(demo_kernel, unit, unit, unit) Machine" where
  "demo_systemdMachine = demo_Machine\<lparr>mc_hasSystemd := True\<rparr>"

lemma demo_Machine_loops_end: "loops_end (\<lambda>w. snd (snd w)) demo_systemdMachine"
proof -
  have "dump_ends (\<lambda>_. 0) 0 (mc_netlink demo_systemdMachine)" "rows_end (\<lambda>_. 0) 0 (mc_bus demo_systemdMachine)"
      "entries_end (\<lambda>_. 0) 0 (mc_journal demo_systemdMachine)"
    by (simp_all add: dump_ends_def rows_end_def entries_end_def demo_systemdMachine_def demo_Machine_def
        demo_noBus_def demo_noJournal_def)
  moreover have "mc_signals demo_systemdMachine = demo_SignalOS True" "0 < mc_fuel demo_systemdMachine"
    by (simp_all add: demo_systemdMachine_def demo_Machine_def)
  ultimately show ?thesis
    using demo_signal_kernel [of True] demo_interruptions [of True] demo_clock_ticks [of True]
    unfolding loops_end_def by (metis less_imp_le_nat)
qed


end
